(* ===== verification/Prelude.thy ===== *)
theory Prelude
  imports Complex_Main "HOL-Library.List_Lexorder" "HOL-Library.Char_ord"
    "HOL-Library.Product_Lexorder" "HOL-Library.Multiset"
begin

text \<open>
  Shared vocabulary of the development: results of code that may throw, the pieces of the
  JavaScript standard library that the sources use (array search, stable sorting, string
  trimming, splitting and comparison), and the lemma collections the component theories
  draw on.

  Conventions. A thrown error is the left side of a sum, a returned value the right side.
  A JavaScript string is a \<open>string\<close> whose characters are its UTF-16 code units; the model
  covers code units below 256. A finite JavaScript number is a rational.
\<close>

named_theorems result_simps "rewriting of results of fallible code"
named_theorems js_simps "rewriting of the modelled JavaScript library"

section \<open>Fallible code\<close>

definition and_then :: "'e + 'a \<Rightarrow> ('a \<Rightarrow> 'e + 'b) \<Rightarrow> 'e + 'b" where
  "and_then r k = (case r of Inl e \<Rightarrow> Inl e | Inr x \<Rightarrow> k x)"

definition unless :: "bool \<Rightarrow> 'e \<Rightarrow> 'e + 'b \<Rightarrow> 'e + 'b" where
  "unless ok e k = (if ok then k else Inl e)"

fun all_ok :: "('a \<Rightarrow> 'e + unit) \<Rightarrow> 'a list \<Rightarrow> 'e + unit" where
  "all_ok f [] = Inr ()"
| "all_ok f (x # xs) = (case f x of Inl e \<Rightarrow> Inl e | Inr _ \<Rightarrow> all_ok f xs)"

definition is_ok :: "'e + 'a \<Rightarrow> bool" where
  "is_ok r = (case r of Inl _ \<Rightarrow> False | Inr _ \<Rightarrow> True)"

lemma and_then_simps [simp]:
  "and_then (Inl e) k = Inl e" "and_then (Inr x) k = k x"
  by (simp_all add: and_then_def)

lemma and_then_Inr_iff [result_simps]:
  "and_then r k = Inr y \<longleftrightarrow> (\<exists>x. r = Inr x \<and> k x = Inr y)"
  by (cases r) simp_all

lemma unless_Inr_iff [result_simps]: "unless ok e k = Inr y \<longleftrightarrow> ok \<and> k = Inr y"
  by (simp add: unless_def)

lemma unless_simps [simp]: "unless True e k = k" "unless False e k = Inl e"
  by (simp_all add: unless_def)

lemma is_ok_simps [simp]: "\<not> is_ok (Inl e)" "is_ok (Inr x)"
  by (simp_all add: is_ok_def)

lemma all_ok_Inr_iff [result_simps]:
  "all_ok f xs = Inr u \<longleftrightarrow> (\<forall>x \<in> set xs. \<exists>v. f x = Inr v)"
  by (induction xs) (auto split: sum.splits)

section \<open>Strings\<close>

text \<open>White space of \<open>String.prototype.trim\<close>, as far as code units below 256 go.\<close>

definition js_space :: "char \<Rightarrow> bool" where
  "js_space c = ((of_char c :: nat) \<in> {9, 10, 11, 12, 13, 32, 160})"

definition js_trim_start :: "string \<Rightarrow> string" where
  "js_trim_start s = dropWhile js_space s"

definition js_trim :: "string \<Rightarrow> string" where
  "js_trim s = rev (dropWhile js_space (rev (js_trim_start s)))"

fun js_starts_with :: "string \<Rightarrow> string \<Rightarrow> bool" where
  "js_starts_with [] s = True"
| "js_starts_with (p # ps) [] = False"
| "js_starts_with (p # ps) (c # cs) = (p = c \<and> js_starts_with ps cs)"

text \<open>\<open>s.split(sep)\<close> for a separator of one character: never empty.\<close>

fun js_split :: "char \<Rightarrow> string \<Rightarrow> string list" where
  "js_split sep [] = [[]]"
| "js_split sep (c # cs) =
     (if c = sep then [] # js_split sep cs
      else (case js_split sep cs of [] \<Rightarrow> [[c]] | w # ws \<Rightarrow> (c # w) # ws))"

fun js_join :: "string \<Rightarrow> string list \<Rightarrow> string" where
  "js_join sep [] = []"
| "js_join sep [w] = w"
| "js_join sep (w # v # ws) = w @ sep @ js_join sep (v # ws)"

definition js_lower_char :: "char \<Rightarrow> char" where
  "js_lower_char c =
     (let n = (of_char c :: nat)
      in if (65 \<le> n \<and> n \<le> 90) \<or> (192 \<le> n \<and> n \<le> 222 \<and> n \<noteq> 215) then char_of (n + 32) else c)"

definition js_to_lower :: "string \<Rightarrow> string" where
  "js_to_lower s = map js_lower_char s"

definition ascii_letter :: "char \<Rightarrow> bool" where
  "ascii_letter c = (let n = (of_char c :: nat) in (65 \<le> n \<and> n \<le> 90) \<or> (97 \<le> n \<and> n \<le> 122))"

text \<open>The test \<open>/^[A-Za-z]:[/]/\<close>.\<close>

definition drive_prefix :: "string \<Rightarrow> bool" where
  "drive_prefix s = (case s of c # d # e # _ \<Rightarrow> ascii_letter c \<and> d = CHR '':'' \<and> e = CHR ''/'' | _ \<Rightarrow> False)"

lemma js_starts_with_iff [js_simps]: "js_starts_with p s \<longleftrightarrow> (\<exists>t. s = p @ t)"
  by (induction p s rule: js_starts_with.induct) auto

lemma js_split_nonempty [simp]: "js_split sep s \<noteq> []"
  by (induction s) (auto split: list.splits)

lemma js_join_push_char: "js_join sep ((c # w) # ws) = c # js_join sep (w # ws)"
  by (cases ws) simp_all

lemma js_join_split [js_simps]: "js_join [sep] (js_split sep s) = s"
proof (induction s)
  case (Cons c cs)
  show ?case
    using Cons.IH js_split_nonempty [of sep cs]
    by (cases "js_split sep cs") (auto simp: js_join_push_char split: list.splits)
qed simp

lemma js_split_no_sep: "w \<in> set (js_split sep s) \<Longrightarrow> sep \<notin> set w"
  by (induction s arbitrary: w) (auto split: list.splits if_splits)

lemma js_split_no_sep_single: "sep \<notin> set w \<Longrightarrow> js_split sep w = [w]"
  by (induction w) auto

lemma js_split_append_sep:
  "sep \<notin> set w \<Longrightarrow> js_split sep (w @ sep # s) = w # js_split sep s"
  by (induction w) auto

lemma js_split_join [js_simps]:
  "ws \<noteq> [] \<Longrightarrow> (\<And>w. w \<in> set ws \<Longrightarrow> sep \<notin> set w) \<Longrightarrow> js_split sep (js_join [sep] ws) = ws"
proof (induction ws rule: induct_list012)
  case (3 w v ws)
  then show ?case by (simp add: js_split_append_sep)
qed (auto simp: js_split_no_sep_single)

lemma js_split_inj: "js_split sep s = js_split sep t \<Longrightarrow> s = t"
  by (metis js_join_split)

section \<open>Array sorting\<close>

text \<open>
  \<open>Array.prototype.sort\<close> with a comparison function is stable. The model inserts from the
  right, which is stable too; the locales below state what a comparison function owes the
  sort, and that the result is then determined.
\<close>

fun js_insert :: "('a \<Rightarrow> 'a \<Rightarrow> int) \<Rightarrow> 'a \<Rightarrow> 'a list \<Rightarrow> 'a list" where
  "js_insert cmp x [] = [x]"
| "js_insert cmp x (y # ys) = (if cmp x y \<le> 0 then x # y # ys else y # js_insert cmp x ys)"

definition js_sort :: "('a \<Rightarrow> 'a \<Rightarrow> int) \<Rightarrow> 'a list \<Rightarrow> 'a list" where
  "js_sort cmp xs = foldr (js_insert cmp) xs []"

lemma mset_js_insert: "mset (js_insert cmp x ys) = add_mset x (mset ys)"
  by (induction ys) auto

lemma mset_js_sort [js_simps]: "mset (js_sort cmp xs) = mset xs"
  unfolding js_sort_def by (induction xs) (auto simp: mset_js_insert)

lemma set_js_sort [js_simps]: "set (js_sort cmp xs) = set xs"
  by (metis mset_js_sort set_mset_mset)

lemma length_js_sort [js_simps]: "length (js_sort cmp xs) = length xs"
  by (metis mset_js_sort size_mset)

locale consistent_cmp =
  fixes cmp :: "'a \<Rightarrow> 'a \<Rightarrow> int"
  assumes cmp_total: "cmp x y \<le> 0 \<or> cmp y x \<le> 0"
    and cmp_trans: "cmp x y \<le> 0 \<Longrightarrow> cmp y z \<le> 0 \<Longrightarrow> cmp x z \<le> 0"
begin

lemma sorted_insert:
  "sorted_wrt (\<lambda>x y. cmp x y \<le> 0) ys \<Longrightarrow> sorted_wrt (\<lambda>x y. cmp x y \<le> 0) (js_insert cmp x ys)"
proof (induction ys)
  case (Cons y ys)
  have "set (js_insert cmp x ys) = insert x (set ys)"
    by (metis mset_js_insert set_mset_add_mset_insert set_mset_mset)
  with Cons show ?case
    using cmp_total [of x y] by (auto intro: cmp_trans)
qed simp

lemma sorted_sort: "sorted_wrt (\<lambda>x y. cmp x y \<le> 0) (js_sort cmp xs)"
  unfolding js_sort_def by (induction xs) (auto intro: sorted_insert)

end

text \<open>A comparison function that compares a key into a linear order.\<close>

locale keyed_cmp =
  fixes cmp :: "'a \<Rightarrow> 'a \<Rightarrow> int" and key :: "'a \<Rightarrow> 'k::linorder"
  assumes cmp_key: "cmp x y \<le> 0 \<longleftrightarrow> key x \<le> key y"
begin

lemma insert_insort_key: "js_insert cmp x ys = insort_key key x ys"
  by (induction ys) (auto simp: cmp_key)

lemma sort_sort_key: "js_sort cmp xs = sort_key key xs"
  unfolding js_sort_def sort_key_def by (induction xs) (auto simp: insert_insort_key)

lemma sorted_keys: "sorted (map key (js_sort cmp xs))"
  by (simp add: sort_sort_key)

lemma sort_deterministic:
  "mset xs = mset ys \<Longrightarrow> inj_on key (set xs) \<Longrightarrow> js_sort cmp xs = js_sort cmp ys"
  by (simp add: sort_sort_key sort_key_eq_sort_key)

end

sublocale keyed_cmp \<subseteq> consistent_cmp cmp
  by unfold_locales (auto simp: cmp_key)

section \<open>Preserved properties of step relations\<close>

text \<open>
  A labelled step relation and a property that every step preserves. Components whose operations
  interleave state the steps of one state and interpret this locale with what must never be lost.
\<close>

inductive steps :: "('s \<Rightarrow> 'l \<Rightarrow> 's \<Rightarrow> bool) \<Rightarrow> 's \<Rightarrow> 'l list \<Rightarrow> 's \<Rightarrow> bool" for step where
  steps_refl: "steps step s [] s"
| steps_step: "step s l s' \<Longrightarrow> steps step s' ls s'' \<Longrightarrow> steps step s (l # ls) s''"

inductive_simps steps_Nil_iff [simp]: "steps step s [] s'"
inductive_simps steps_Cons_iff: "steps step s (l # ls) s'"

lemma steps_append: "steps step s (ls @ ms) s'' \<longleftrightarrow> (\<exists>s'. steps step s ls s' \<and> steps step s' ms s'')"
  by (induction ls arbitrary: s) (auto simp: steps_Cons_iff)

locale preserved =
  fixes step :: "'s \<Rightarrow> 'l \<Rightarrow> 's \<Rightarrow> bool" and inv :: "'s \<Rightarrow> bool"
  assumes preserve: "inv s \<Longrightarrow> step s l s' \<Longrightarrow> inv s'"
begin

lemma steps_inv: "steps step s ls s' \<Longrightarrow> inv s \<Longrightarrow> inv s'"
  by (induction rule: steps.induct) (auto intro: preserve)

end

end
