(* ===== verification/Backlog.thy ===== *)
theory Backlog
  imports Prelude
begin

text \<open>
  The domain types of \<open>src/src/domain/types.ts\<close> and the ordered repository mapping of
  \<open>src/src/queue/repository-mapping.ts\<close>: which repository an issue is worked in, and the
  static check of a rule set for rules that can never fire.
\<close>

section \<open>Domain types\<close>

text \<open>Linear's encoding: 0 is no priority, 1 is urgent, 4 is low.\<close>

datatype backlog_priority = NoPriority | Urgent | High | Medium | Low

fun priority_number :: "backlog_priority \<Rightarrow> rat" where
  "priority_number NoPriority = 0"
| "priority_number Urgent = 1"
| "priority_number High = 2"
| "priority_number Medium = 3"
| "priority_number Low = 4"

fun priority_label :: "backlog_priority \<Rightarrow> string" where
  "priority_label NoPriority = ''none''"
| "priority_label Urgent = ''urgent''"
| "priority_label High = ''high''"
| "priority_label Medium = ''medium''"
| "priority_label Low = ''low''"

record backlog_issue =
  issue_identifier :: string
  title :: string
  description :: string
  priority :: backlog_priority
  labels :: "string list"
  issue_state :: string
  teamKey :: string
  projectName :: "string option"
  estimate :: "rat option"
  assigneeId :: "string option"
  assigneeIsHuman :: "bool option"
  dueDate :: "string option"
  manualRank :: "rat option"
  createdAt :: string
  canceled :: bool
  completed :: bool
  blockedBy :: "string list"

record repository_target =
  repo :: string
  baseBranch :: string

section \<open>Repository mapping\<close>

record repository_match =
  match_team :: "string option"
  match_project :: "string option"
  match_label :: "string option"

record repository_rule =
  rule_match :: repository_match
  rule_repo :: string
  rule_baseBranch :: string

datatype mapping_reason =
  NoRuleMatched string string "string option" "string list"

record repository_resolution =
  resolved :: bool
  res_target :: "repository_target option"
  matchedRuleIndex :: "nat option"
  res_reason :: "mapping_reason option"
  res_code :: "string option"

definition ruleMatches :: "backlog_issue \<Rightarrow> repository_rule \<Rightarrow> bool" where
  "ruleMatches issue rule =
     (let team = match_team (rule_match rule);
          project = match_project (rule_match rule);
          label = match_label (rule_match rule)
      in if team \<noteq> None \<and> Some (teamKey issue) \<noteq> team then False
         else if project \<noteq> None \<and> projectName issue \<noteq> project then False
         else if label \<noteq> None \<and> the label \<notin> set (labels issue) then False
         else if team = None \<and> project = None \<and> label = None then False
         else True)"

text \<open>The loop over the rules, \<open>index\<close> being the position of the head.\<close>

fun resolveFrom :: "backlog_issue \<Rightarrow> nat \<Rightarrow> repository_rule list \<Rightarrow> repository_resolution" where
  "resolveFrom issue index [] =
     \<lparr>resolved = False, res_target = None, matchedRuleIndex = None,
      res_reason = Some (NoRuleMatched (issue_identifier issue) (teamKey issue)
                          (projectName issue) (labels issue)),
      res_code = Some ''RM-SELECT-002''\<rparr>"
| "resolveFrom issue index (rule # rules) =
     (if ruleMatches issue rule
      then \<lparr>resolved = True,
            res_target = Some \<lparr>repo = rule_repo rule, baseBranch = rule_baseBranch rule\<rparr>,
            matchedRuleIndex = Some index, res_reason = None, res_code = None\<rparr>
      else resolveFrom issue (Suc index) rules)"

definition resolveRepository :: "backlog_issue \<Rightarrow> repository_rule list \<Rightarrow> repository_resolution" where
  "resolveRepository issue rules = resolveFrom issue 0 rules"

datatype rule_conflict_kind = Duplicate | Shadowed

record rule_conflict =
  conflict_kind :: rule_conflict_kind
  indices :: "nat \<times> nat"

definition key_value :: "string \<Rightarrow> string option \<Rightarrow> string list" where
  "key_value k v = (case v of None \<Rightarrow> [] | Some x \<Rightarrow> [k @ ''='' @ x])"

definition matchKeys :: "repository_rule \<Rightarrow> string list" where
  "matchKeys rule =
     sort (key_value ''team'' (match_team (rule_match rule)) @
           key_value ''project'' (match_project (rule_match rule)) @
           key_value ''label'' (match_label (rule_match rule)))"

definition isShadowedBy :: "repository_rule \<Rightarrow> repository_rule \<Rightarrow> bool" where
  "isShadowedBy narrow broad =
     (let broadKeys = matchKeys broad; narrowKeys = set (matchKeys narrow)
      in if length broadKeys = 0 \<or> length broadKeys \<ge> card narrowKeys then False
         else (\<forall>k \<in> set broadKeys. k \<in> narrowKeys))"

text \<open>The body of the inner loop: what the pair of rules \<open>i < j\<close> contributes.\<close>

definition conflictOfPair ::
  "nat \<Rightarrow> nat \<Rightarrow> repository_rule \<Rightarrow> repository_rule \<Rightarrow> rule_conflict list" where
  "conflictOfPair i j a b =
     (let sameMatch = (js_join ''&'' (matchKeys a) = js_join ''&'' (matchKeys b))
      in if sameMatch \<and> rule_repo a \<noteq> rule_repo b
         then [\<lparr>conflict_kind = Duplicate, indices = (i, j)\<rparr>]
         else if \<not> sameMatch \<and> isShadowedBy b a
         then [\<lparr>conflict_kind = Shadowed, indices = (i, j)\<rparr>]
         else [])"

definition findConflictingRules :: "repository_rule list \<Rightarrow> rule_conflict list" where
  "findConflictingRules rules =
     concat (map (\<lambda>i. concat (map (\<lambda>j. conflictOfPair i j (rules ! i) (rules ! j))
                              [Suc i..<length rules]))
                 [0..<length rules])"

section \<open>Lemmas\<close>

lemma ruleMatches_iff:
  "ruleMatches issue rule \<longleftrightarrow>
     (\<forall>t. match_team (rule_match rule) = Some t \<longrightarrow> teamKey issue = t) \<and>
     (\<forall>p. match_project (rule_match rule) = Some p \<longrightarrow> projectName issue = Some p) \<and>
     (\<forall>l. match_label (rule_match rule) = Some l \<longrightarrow> l \<in> set (labels issue)) \<and>
     \<not> (match_team (rule_match rule) = None \<and> match_project (rule_match rule) = None \<and>
        match_label (rule_match rule) = None)"
  by (cases "match_team (rule_match rule)"; cases "match_project (rule_match rule)";
      cases "match_label (rule_match rule)") (auto simp: ruleMatches_def Let_def)

definition first_match :: "backlog_issue \<Rightarrow> repository_rule list \<Rightarrow> nat \<Rightarrow> bool" where
  "first_match issue rules n \<longleftrightarrow>
     n < length rules \<and> ruleMatches issue (rules ! n) \<and> (\<forall>j < n. \<not> ruleMatches issue (rules ! j))"

lemma first_match_Cons:
  "first_match issue (r # rs) n \<longleftrightarrow>
     (if ruleMatches issue r then n = 0 else (\<exists>m. n = Suc m \<and> first_match issue rs m))"
  unfolding first_match_def by (cases n) (auto simp: All_less_Suc2)

lemma resolveFrom_matched:
  "matchedRuleIndex (resolveFrom issue k rules) = Some i \<longleftrightarrow>
     (\<exists>n. i = k + n \<and> first_match issue rules n)"
proof (induction rules arbitrary: k)
  case Nil
  then show ?case by (simp add: first_match_def)
next
  case (Cons r rs)
  show ?case
    by (cases "ruleMatches issue r") (simp_all add: Cons.IH first_match_Cons, auto)
qed

lemma resolve_matched_iff:
  "matchedRuleIndex (resolveRepository issue rules) = Some i \<longleftrightarrow> first_match issue rules i"
  by (simp add: resolveRepository_def resolveFrom_matched)

lemma resolveFrom_resolved:
  "resolved (resolveFrom issue k rules) \<longleftrightarrow> (\<exists>r \<in> set rules. ruleMatches issue r)"
  by (induction rules arbitrary: k) auto

lemma resolveFrom_target:
  "res_target (resolveFrom issue k rules) = Some t \<Longrightarrow>
     \<exists>r \<in> set rules. ruleMatches issue r \<and> t = \<lparr>repo = rule_repo r, baseBranch = rule_baseBranch r\<rparr>"
  by (induction rules arbitrary: k) (auto split: if_splits)

lemma resolveFrom_target_None:
  "res_target (resolveFrom issue k rules) = None \<longleftrightarrow> \<not> resolved (resolveFrom issue k rules)"
  by (induction rules arbitrary: k) auto

lemma matchKeys_mem:
  "''team='' @ x \<in> set (matchKeys r) \<longleftrightarrow> match_team (rule_match r) = Some x"
  "''project='' @ x \<in> set (matchKeys r) \<longleftrightarrow> match_project (rule_match r) = Some x"
  "''label='' @ x \<in> set (matchKeys r) \<longleftrightarrow> match_label (rule_match r) = Some x"
  by (auto simp: matchKeys_def key_value_def split: option.splits)

lemma matchKeys_Nil:
  "matchKeys r = [] \<longleftrightarrow>
     match_team (rule_match r) = None \<and> match_project (rule_match r) = None \<and>
     match_label (rule_match r) = None"
proof -
  have "matchKeys r = [] \<longleftrightarrow> set (matchKeys r) = {}" by simp
  then show ?thesis
    by (simp add: matchKeys_def key_value_def split: option.splits)
qed

text \<open>A rule whose key set contains another's is matched by fewer issues.\<close>

lemma ruleMatches_mono:
  assumes "ruleMatches issue narrow" and "set (matchKeys broad) \<subseteq> set (matchKeys narrow)"
    and "matchKeys broad \<noteq> []"
  shows "ruleMatches issue broad"
proof -
  have "match_team (rule_match broad) = Some x \<Longrightarrow> match_team (rule_match narrow) = Some x"
    "match_project (rule_match broad) = Some x \<Longrightarrow> match_project (rule_match narrow) = Some x"
    "match_label (rule_match broad) = Some x \<Longrightarrow> match_label (rule_match narrow) = Some x" for x
    using assms(2) matchKeys_mem [of x] by blast+
  then show ?thesis
    using assms(1,3) unfolding ruleMatches_iff matchKeys_Nil by blast
qed

lemma isShadowedBy_subset:
  "isShadowedBy narrow broad \<Longrightarrow>
     set (matchKeys broad) \<subseteq> set (matchKeys narrow) \<and> matchKeys broad \<noteq> []"
  by (auto simp: isShadowedBy_def Let_def split: if_splits)

lemma findConflictingRules_member:
  "c \<in> set (findConflictingRules rules) \<longleftrightarrow>
     (\<exists>i j. i < j \<and> j < length rules \<and> c \<in> set (conflictOfPair i j (rules ! i) (rules ! j)))"
  unfolding findConflictingRules_def by (auto simp: Suc_le_eq Bex_def) (use less_trans in blast)

lemma pair_conflict:
  assumes "\<lparr>conflict_kind = k, indices = (i, j)\<rparr> \<in> set (findConflictingRules rules)"
  shows "i < j \<and> j < length rules \<and>
     (k = Duplicate \<longrightarrow> js_join ''&'' (matchKeys (rules ! i)) = js_join ''&'' (matchKeys (rules ! j)) \<and>
        rule_repo (rules ! i) \<noteq> rule_repo (rules ! j)) \<and>
     (k = Shadowed \<longrightarrow> isShadowedBy (rules ! j) (rules ! i))"
  using assms
  by (auto simp: findConflictingRules_member conflictOfPair_def Let_def split: if_splits)

lemma not_selected_after:
  assumes "i < j" and "set (matchKeys (rules ! i)) \<subseteq> set (matchKeys (rules ! j))"
    and "matchKeys (rules ! i) = [] \<Longrightarrow> matchKeys (rules ! j) = []"
  shows "matchedRuleIndex (resolveRepository issue rules) \<noteq> Some j"
proof
  assume "matchedRuleIndex (resolveRepository issue rules) = Some j"
  then have j: "ruleMatches issue (rules ! j)" "\<not> ruleMatches issue (rules ! i)"
    using assms(1) by (simp_all add: resolve_matched_iff first_match_def)
  show False
  proof (cases "matchKeys (rules ! i) = []")
    case True
    then show ?thesis using assms(3) j(1) by (auto simp: matchKeys_Nil ruleMatches_iff)
  next
    case False
    then show ?thesis using ruleMatches_mono [OF j(1) assms(2)] j(2) by blast
  qed
qed

lemma matchKeys_nonempty: "k \<in> set (matchKeys r) \<Longrightarrow> k \<noteq> []"
  by (auto simp: matchKeys_def key_value_def split: option.splits)

lemma joined_keys_eq:
  assumes "js_join ''&'' (matchKeys a) = js_join ''&'' (matchKeys b)"
    and "\<forall>k \<in> set (matchKeys a) \<union> set (matchKeys b). CHR ''&'' \<notin> set k"
  shows "matchKeys a = matchKeys b"
proof -
  have empty: "js_join ''&'' (matchKeys r) = [] \<longleftrightarrow> matchKeys r = []" for r
    using matchKeys_nonempty [of _ r] by (cases "matchKeys r" rule: remdups_adj.cases) auto
  have "js_split (CHR ''&'') (js_join ''&'' (matchKeys r)) = matchKeys r"
    if "matchKeys r \<noteq> []" "r = a \<or> r = b" for r
    using that assms(2) by (intro js_split_join) auto
  then show ?thesis using assms(1) empty [of a] empty [of b] by metis
qed

section \<open>Properties\<close>

text \<open>an issue is resolved to the repository of the first rule that matches it, and is
  unresolved, with a reason and a code, exactly when no rule matches.\<close>

theorem resolution_is_first_match:
  "resolveRepository issue rules =
     (case find (ruleMatches issue) rules of
        None \<Rightarrow> \<lparr>resolved = False, res_target = None, matchedRuleIndex = None,
           res_reason = Some (NoRuleMatched (issue_identifier issue) (teamKey issue)
             (projectName issue) (labels issue)), res_code = Some ''RM-SELECT-002''\<rparr>
      | Some r \<Rightarrow> \<lparr>resolved = True, res_target = Some \<lparr>repo = rule_repo r, baseBranch = rule_baseBranch r\<rparr>,
           matchedRuleIndex = Some (length (takeWhile (Not \<circ> ruleMatches issue) rules)),
           res_reason = None, res_code = None\<rparr>)"
proof -
  have "resolveFrom issue k rules =
     (case find (ruleMatches issue) rules of
        None \<Rightarrow> \<lparr>resolved = False, res_target = None, matchedRuleIndex = None,
           res_reason = Some (NoRuleMatched (issue_identifier issue) (teamKey issue)
             (projectName issue) (labels issue)), res_code = Some ''RM-SELECT-002''\<rparr>
      | Some r \<Rightarrow> \<lparr>resolved = True, res_target = Some \<lparr>repo = rule_repo r, baseBranch = rule_baseBranch r\<rparr>,
           matchedRuleIndex = Some (k + length (takeWhile (Not \<circ> ruleMatches issue) rules)),
           res_reason = None, res_code = None\<rparr>)" for k
    by (induction rules arbitrary: k) (simp_all split: option.splits)
  then show ?thesis by (simp only: resolveRepository_def add_0)
qed

text \<open>a rule that the static check reports as shadowed is never the one an issue is resolved
  by, whatever the issue.\<close>

theorem shadowed_rule_never_selected:
  assumes "\<lparr>conflict_kind = Shadowed, indices = (i, j)\<rparr> \<in> set (findConflictingRules rules)"
  shows "matchedRuleIndex (resolveRepository issue rules) \<noteq> Some j"
proof -
  have "i < j" "isShadowedBy (rules ! j) (rules ! i)" using pair_conflict [OF assms] by simp_all
  then show ?thesis using isShadowedBy_subset by (intro not_selected_after) blast+
qed

text \<open>A rule of a sample configuration.\<close>

definition sample_rule :: "string option \<Rightarrow> string option \<Rightarrow> string option \<Rightarrow> string \<Rightarrow> repository_rule" where
  "sample_rule t p l r = \<lparr>rule_match = \<lparr>match_team = t, match_project = p, match_label = l\<rparr>,
     rule_repo = r, rule_baseBranch = ''main''\<rparr>"

definition sample_issue :: "string \<Rightarrow> backlog_priority \<Rightarrow> string list \<Rightarrow> backlog_issue" where
  "sample_issue i p bs = \<lparr>issue_identifier = i, title = ''t'', description = ''d'', priority = p,
     labels = [''X'', ''agent-ready''], issue_state = ''Todo'', teamKey = ''ENG'', projectName = Some ''Z'',
     estimate = None, assigneeId = None, assigneeIsHuman = None, dueDate = None, manualRank = None,
     createdAt = ''2024'', canceled = False, completed = False, blockedBy = bs\<rparr>"

theorem shadowed_rule_never_selected_witness:
  "matchedRuleIndex (resolveRepository (sample_issue ''ENG-1'' High [])
     [sample_rule (Some ''ENG'') None None ''a'', sample_rule (Some ''ENG'') None (Some ''X'') ''b'']) \<noteq> Some 1"
  by (rule shadowed_rule_never_selected [of 0]) code_simp

text \<open>when no key holds an ampersand, a rule reported as a duplicate is never the one an issue
  is resolved by.\<close>

theorem duplicate_rule_never_selected:
  assumes "\<lparr>conflict_kind = Duplicate, indices = (i, j)\<rparr> \<in> set (findConflictingRules rules)"
    and "\<forall>r \<in> set rules. \<forall>k \<in> set (matchKeys r). CHR ''&'' \<notin> set k"
  shows "matchedRuleIndex (resolveRepository issue rules) \<noteq> Some j"
proof -
  have "matchKeys (rules ! i) = matchKeys (rules ! j)"
    using pair_conflict [OF assms(1)] assms(2) by (intro joined_keys_eq) auto
  then show ?thesis using pair_conflict [OF assms(1)] by (intro not_selected_after [of i]) auto
qed

theorem duplicate_rule_never_selected_witness:
  "matchedRuleIndex (resolveRepository (sample_issue ''ENG-1'' High [])
     [sample_rule (Some ''ENG'') None None ''a'', sample_rule (Some ''ENG'') None None ''b'']) \<noteq> Some 1"
  by (rule duplicate_rule_never_selected [of 0]; code_simp)

text \<open>with an ampersand in a label the joined keys of two different rules can coincide: the
  check then reports a duplicate that can never fire, although an issue is resolved by it.\<close>

theorem duplicate_report_can_be_wrong:
  "let rules = [sample_rule None (Some ''Y'') (Some ''X'') ''a'', sample_rule None None (Some ''X&project=Y'') ''b''];
       issue = (sample_issue ''ENG-1'' High [])\<lparr>labels := [''X&project=Y'']\<rparr>
   in findConflictingRules rules = [\<lparr>conflict_kind = Duplicate, indices = (0, 1)\<rparr>] \<and>
      matchedRuleIndex (resolveRepository issue rules) = Some 1"
  by code_simp

end
