(* ===== verification/Eligibility.thy ===== *)
theory Eligibility
  imports Backlog
begin

text \<open>
  The ten eligibility rules of \<open>src/src/queue/eligibility.ts\<close>. Every rule is evaluated for
  every issue and leaves one record; the decision is their conjunction. The texts of the
  reasons are the constructors of \<open>rule_reason\<close>, with the values the text interpolates.
\<close>

section \<open>Data\<close>

datatype rule_id =
  MappedRepository | WorkflowState | NotTerminal | Assignment | NotLeased | Labels | Estimate
| Dependencies | Readiness | Capacity

definition RULE_IDS :: "rule_id list" where
  "RULE_IDS = [MappedRepository, WorkflowState, NotTerminal, Assignment, NotLeased, Labels,
     Estimate, Dependencies, Readiness, Capacity]"

datatype rule_reason =
  ResolvedTo "string option" "nat option" | Unresolved "mapping_reason option"
| StateEligible string | StateNotIn string "string list"
| IsCanceled | IsCompleted | IsOpen
| UnassignedForbidden | UnassignedAllowed | AlreadyAssigned string | AssignedToHuman | AssignedOutside
| ActivelyLeased | NoActiveLease
| MissingLabels "string list" | ExcludedLabels "string list" | LabelsSatisfied
| NoCeiling | NoEstimate | EstimateExceeds rat rat | EstimateWithin rat rat
| BlockedBy "string list" | NoBlockers
| OverridePresent string | DescriptionShort nat rat | DescriptionEnough
| CapacityFree | CapacityReached

record rule_result =
  rule :: rule_id
  passed :: bool
  reason :: rule_reason
  code :: "string option"

record eligibility_decision =
  eligible :: bool
  rules :: "rule_result list"
  target :: "repository_target option"

record eligibility_policy =
  eligibleStates :: "string list"
  includeLabels :: "string list"
  excludeLabels :: "string list"
  repositoryRules :: "repository_rule list"
  capacityAvailable :: bool
  leasedIssueIds :: "string set"
  allowUnassigned :: "bool option"
  claimAssignee :: "string option"
  maxEstimate :: "rat option"
  readinessOverrideLabel :: "string option"
  minDescriptionChars :: "rat option"

definition DEFAULT_MIN_DESCRIPTION_CHARS :: rat where
  "DEFAULT_MIN_DESCRIPTION_CHARS = 80"

section \<open>Evaluation\<close>

definition pass :: "rule_id \<Rightarrow> rule_reason \<Rightarrow> rule_result" where
  "pass r why = \<lparr>rule = r, passed = True, reason = why, code = None\<rparr>"

definition fail :: "rule_id \<Rightarrow> rule_reason \<Rightarrow> string option \<Rightarrow> rule_result" where
  "fail r why c = \<lparr>rule = r, passed = False, reason = why, code = c\<rparr>"

definition rule_mapped :: "repository_resolution \<Rightarrow> rule_result" where
  "rule_mapped resolution =
     (if resolved resolution
      then pass MappedRepository
             (ResolvedTo (map_option repo (res_target resolution)) (matchedRuleIndex resolution))
      else fail MappedRepository (Unresolved (res_reason resolution)) (res_code resolution))"

definition rule_state :: "backlog_issue \<Rightarrow> eligibility_policy \<Rightarrow> rule_result" where
  "rule_state issue policy =
     (if issue_state issue \<in> set (eligibleStates policy)
      then pass WorkflowState (StateEligible (issue_state issue))
      else fail WorkflowState (StateNotIn (issue_state issue) (eligibleStates policy)) None)"

definition rule_terminal :: "backlog_issue \<Rightarrow> rule_result" where
  "rule_terminal issue =
     (if canceled issue \<or> completed issue
      then fail NotTerminal (if canceled issue then IsCanceled else IsCompleted) None
      else pass NotTerminal IsOpen)"

definition rule_assignment :: "backlog_issue \<Rightarrow> eligibility_policy \<Rightarrow> rule_result" where
  "rule_assignment issue policy =
     (if assigneeId issue = None
      then (if allowUnassigned policy = Some False
            then fail Assignment UnassignedForbidden None
            else pass Assignment UnassignedAllowed)
      else if claimAssignee policy \<noteq> None \<and> assigneeId issue = claimAssignee policy
      then pass Assignment (AlreadyAssigned (the (claimAssignee policy)))
      else fail Assignment
             (if assigneeIsHuman issue = Some True then AssignedToHuman else AssignedOutside) None)"

definition rule_leased :: "backlog_issue \<Rightarrow> eligibility_policy \<Rightarrow> rule_result" where
  "rule_leased issue policy =
     (if issue_identifier issue \<in> leasedIssueIds policy
      then fail NotLeased ActivelyLeased None else pass NotLeased NoActiveLease)"

definition rule_labels :: "backlog_issue \<Rightarrow> eligibility_policy \<Rightarrow> rule_result" where
  "rule_labels issue policy =
     (let missingIncludes = filter (\<lambda>l. l \<notin> set (labels issue)) (includeLabels policy);
          presentExcludes = filter (\<lambda>l. l \<in> set (labels issue)) (excludeLabels policy)
      in if length missingIncludes > 0 then fail Labels (MissingLabels missingIncludes) None
         else if length presentExcludes > 0 then fail Labels (ExcludedLabels presentExcludes) None
         else pass Labels LabelsSatisfied)"

definition rule_estimate :: "backlog_issue \<Rightarrow> eligibility_policy \<Rightarrow> rule_result" where
  "rule_estimate issue policy =
     (case maxEstimate policy of
        None \<Rightarrow> pass Estimate NoCeiling
      | Some limit \<Rightarrow>
          (case estimate issue of
             None \<Rightarrow> pass Estimate NoEstimate
           | Some e \<Rightarrow>
               (if e > limit then fail Estimate (EstimateExceeds e limit) None
                else pass Estimate (EstimateWithin e limit))))"

definition rule_dependencies :: "backlog_issue \<Rightarrow> rule_result" where
  "rule_dependencies issue =
     (if length (blockedBy issue) > 0 then fail Dependencies (BlockedBy (blockedBy issue)) None
      else pass Dependencies NoBlockers)"

definition rule_readiness :: "backlog_issue \<Rightarrow> eligibility_policy \<Rightarrow> rule_result" where
  "rule_readiness issue policy =
     (let minChars = (case minDescriptionChars policy of
                        None \<Rightarrow> DEFAULT_MIN_DESCRIPTION_CHARS | Some n \<Rightarrow> n);
          overrideLabel = readinessOverrideLabel policy;
          hasOverride = (overrideLabel \<noteq> None \<and> the overrideLabel \<in> set (labels issue))
      in if hasOverride then pass Readiness (OverridePresent (the overrideLabel))
         else if rat_of_nat (length (js_trim (description issue))) < minChars
         then fail Readiness (DescriptionShort (length (js_trim (description issue))) minChars)
                (Some ''RM-SELECT-003'')
         else pass Readiness DescriptionEnough)"

definition rule_capacity :: "eligibility_policy \<Rightarrow> rule_result" where
  "rule_capacity policy =
     (if capacityAvailable policy then pass Capacity CapacityFree else fail Capacity CapacityReached None)"

definition evaluateEligibility ::
  "backlog_issue \<Rightarrow> eligibility_policy \<Rightarrow> eligibility_decision" where
  "evaluateEligibility issue policy =
     (let resolution = resolveRepository issue (repositoryRules policy);
          rs = [rule_mapped resolution, rule_state issue policy, rule_terminal issue,
                rule_assignment issue policy, rule_leased issue policy, rule_labels issue policy,
                rule_estimate issue policy, rule_dependencies issue, rule_readiness issue policy,
                rule_capacity policy];
          ok = list_all passed rs
      in if ok then \<lparr>eligible = ok, rules = rs, target = res_target resolution\<rparr>
         else \<lparr>eligible = ok, rules = rs, target = None\<rparr>)"

section \<open>What the rules promise\<close>

text \<open>The specification: one condition per rule, written over the issue and the policy.\<close>

definition may_be_claimed :: "backlog_issue \<Rightarrow> eligibility_policy \<Rightarrow> bool" where
  "may_be_claimed issue policy \<longleftrightarrow>
     (\<exists>r \<in> set (repositoryRules policy). ruleMatches issue r) \<and>
     issue_state issue \<in> set (eligibleStates policy) \<and>
     \<not> canceled issue \<and> \<not> completed issue \<and>
     (case assigneeId issue of
        None \<Rightarrow> allowUnassigned policy \<noteq> Some False
      | Some a \<Rightarrow> claimAssignee policy = Some a) \<and>
     issue_identifier issue \<notin> leasedIssueIds policy \<and>
     set (includeLabels policy) \<subseteq> set (labels issue) \<and>
     set (excludeLabels policy) \<inter> set (labels issue) = {} \<and>
     (\<forall>c e. maxEstimate policy = Some c \<longrightarrow> estimate issue = Some e \<longrightarrow> e \<le> c) \<and>
     blockedBy issue = [] \<and>
     ((\<exists>l. readinessOverrideLabel policy = Some l \<and> l \<in> set (labels issue)) \<or>
      rat_of_nat (length (js_trim (description issue))) \<ge>
        (case minDescriptionChars policy of None \<Rightarrow> 80 | Some n \<Rightarrow> n)) \<and>
     capacityAvailable policy"

lemma passed_simps [simp]: "passed (pass r w)" "\<not> passed (fail r w c)"
  by (simp_all add: pass_def fail_def)

lemma rule_simps [simp]: "rule (pass r w) = r" "rule (fail r w c) = r"
  by (simp_all add: pass_def fail_def)

named_theorems rule_passed "when each rule passes"

lemma mapped_passed [rule_passed]:
  "passed (rule_mapped (resolveRepository issue rs)) \<longleftrightarrow> (\<exists>r \<in> set rs. ruleMatches issue r)"
  by (simp add: rule_mapped_def resolveRepository_def resolveFrom_resolved)

lemma state_passed [rule_passed]:
  "passed (rule_state issue p) \<longleftrightarrow> issue_state issue \<in> set (eligibleStates p)"
  by (simp add: rule_state_def)

lemma terminal_passed [rule_passed]:
  "passed (rule_terminal issue) \<longleftrightarrow> \<not> canceled issue \<and> \<not> completed issue"
  by (simp add: rule_terminal_def)

lemma assignment_passed [rule_passed]:
  "passed (rule_assignment issue p) \<longleftrightarrow>
     (case assigneeId issue of None \<Rightarrow> allowUnassigned p \<noteq> Some False
      | Some a \<Rightarrow> claimAssignee p = Some a)"
  by (auto simp: rule_assignment_def split: option.splits)

lemma leased_passed [rule_passed]:
  "passed (rule_leased issue p) \<longleftrightarrow> issue_identifier issue \<notin> leasedIssueIds p"
  by (simp add: rule_leased_def)

lemma labels_passed [rule_passed]:
  "passed (rule_labels issue p) \<longleftrightarrow>
     set (includeLabels p) \<subseteq> set (labels issue) \<and> set (excludeLabels p) \<inter> set (labels issue) = {}"
  by (auto simp: rule_labels_def Let_def filter_empty_conv)

lemma estimate_passed [rule_passed]:
  "passed (rule_estimate issue p) \<longleftrightarrow>
     (\<forall>c e. maxEstimate p = Some c \<longrightarrow> estimate issue = Some e \<longrightarrow> e \<le> c)"
  by (auto simp: rule_estimate_def split: option.splits)

lemma dependencies_passed [rule_passed]:
  "passed (rule_dependencies issue) \<longleftrightarrow> blockedBy issue = []"
  by (simp add: rule_dependencies_def)

lemma readiness_passed [rule_passed]:
  "passed (rule_readiness issue p) \<longleftrightarrow>
     (\<exists>l. readinessOverrideLabel p = Some l \<and> l \<in> set (labels issue)) \<or>
     rat_of_nat (length (js_trim (description issue))) \<ge>
        (case minDescriptionChars p of None \<Rightarrow> 80 | Some n \<Rightarrow> n)"
  by (auto simp: rule_readiness_def Let_def DEFAULT_MIN_DESCRIPTION_CHARS_def split: option.splits)

lemma capacity_passed [rule_passed]: "passed (rule_capacity p) \<longleftrightarrow> capacityAvailable p"
  by (simp add: rule_capacity_def)

lemma eligible_iff: "eligible (evaluateEligibility issue p) \<longleftrightarrow> may_be_claimed issue p"
  by (simp add: evaluateEligibility_def Let_def rule_passed may_be_claimed_def conj_ac)

lemma rule_ids [simp]:
  "rule (rule_mapped r) = MappedRepository" "rule (rule_state i p) = WorkflowState"
  "rule (rule_terminal i) = NotTerminal" "rule (rule_assignment i p) = Assignment"
  "rule (rule_leased i p) = NotLeased" "rule (rule_labels i p) = Labels"
  "rule (rule_estimate i p) = Estimate" "rule (rule_dependencies i) = Dependencies"
  "rule (rule_readiness i p) = Readiness" "rule (rule_capacity p) = Capacity"
  by (simp_all add: rule_mapped_def rule_state_def rule_terminal_def rule_assignment_def
      rule_leased_def rule_labels_def rule_estimate_def rule_dependencies_def rule_readiness_def
      rule_capacity_def Let_def split: option.splits)

lemma target_Some_iff:
  "(\<exists>t. target (evaluateEligibility issue p) = Some t) \<longleftrightarrow> eligible (evaluateEligibility issue p)"
  by (auto simp: evaluateEligibility_def Let_def rule_mapped_def resolveRepository_def
      resolveFrom_target_None not_None_eq [symmetric] simp del: not_None_eq)

lemma target_from_rule:
  "target (evaluateEligibility issue p) = Some t \<Longrightarrow>
     \<exists>r \<in> set (repositoryRules p).
       ruleMatches issue r \<and> t = \<lparr>repo = rule_repo r, baseBranch = rule_baseBranch r\<rparr>"
  by (auto simp: evaluateEligibility_def Let_def resolveRepository_def split: if_splits
      dest: resolveFrom_target)

section \<open>Properties\<close>

text \<open>an issue is eligible exactly when it satisfies all ten conditions of the claim
  policy, and the decision always carries one record per rule, in the order of \<open>RULE_IDS\<close>,
  also for a rejected issue.\<close>

theorem eligible_exactly:
  "(eligible (evaluateEligibility issue p) \<longleftrightarrow> may_be_claimed issue p) \<and>
   map rule (rules (evaluateEligibility issue p)) = RULE_IDS"
  by (simp add: eligible_iff) (simp add: evaluateEligibility_def Let_def RULE_IDS_def)

text \<open>a decision carries a target exactly when the issue is eligible, and the target is that
  of the first repository rule matching the issue.\<close>

theorem eligible_target_is_first_match:
  "target (evaluateEligibility issue p) =
     (if may_be_claimed issue p
      then map_option (\<lambda>r. \<lparr>repo = rule_repo r, baseBranch = rule_baseBranch r\<rparr>)
             (find (ruleMatches issue) (repositoryRules p))
      else None)"
proof -
  have "res_target (resolveFrom issue k rs) =
      map_option (\<lambda>r. \<lparr>repo = rule_repo r, baseBranch = rule_baseBranch r\<rparr>) (find (ruleMatches issue) rs)"
    for k rs by (induction rs arbitrary: k) auto
  then show ?thesis
    using eligible_iff [of issue p] by (auto simp: evaluateEligibility_def Let_def resolveRepository_def)
qed

end
