(* ===== verification/Selection.thy ===== *)
theory Selection
  imports Eligibility
begin

text \<open>
  The total order over issues (\<open>src/src/queue/ordering.ts\<close>) and the selection of the next
  issue to work on (\<open>src/src/queue/selector.ts\<close>). \<open>Date.parse\<close> is the parameter
  \<open>parse_date\<close>, with \<open>None\<close> for \<open>NaN\<close>; the backlog provider is the parameter
  \<open>list_candidates\<close>.
\<close>

section \<open>Sort keys\<close>

datatype sort_key = Key rat | PositiveInfinity

instantiation sort_key :: linorder
begin

fun less_eq_sort_key :: "sort_key \<Rightarrow> sort_key \<Rightarrow> bool" where
  "less_eq_sort_key (Key x) (Key y) = (x \<le> y)"
| "less_eq_sort_key (Key x) PositiveInfinity = True"
| "less_eq_sort_key PositiveInfinity (Key y) = False"
| "less_eq_sort_key PositiveInfinity PositiveInfinity = True"

definition less_sort_key :: "sort_key \<Rightarrow> sort_key \<Rightarrow> bool" where
  "less_sort_key x y \<longleftrightarrow> x \<le> y \<and> \<not> y \<le> x"

instance
proof
  fix x y z :: sort_key
  show "x < y \<longleftrightarrow> x \<le> y \<and> \<not> y \<le> x" by (simp add: less_sort_key_def)
  show "x \<le> x" by (cases x) simp_all
  show "x \<le> y \<Longrightarrow> y \<le> z \<Longrightarrow> x \<le> z" by (cases x; cases y; cases z) simp_all
  show "x \<le> y \<Longrightarrow> y \<le> x \<Longrightarrow> x = y" by (cases x; cases y) simp_all
  show "x \<le> y \<or> y \<le> x" by (cases x; cases y) auto
qed

end

lemma less_sort_key_simps [simp]:
  "Key x < Key y \<longleftrightarrow> x < y" "Key x < PositiveInfinity" "\<not> PositiveInfinity < k"
  by (cases k; auto simp: less_sort_key_def)+

section \<open>Ordering\<close>

definition prioritySortKey :: "backlog_priority \<Rightarrow> sort_key" where
  "prioritySortKey p = (if p = NoPriority then PositiveInfinity else Key (priority_number p))"

definition dueDateSortKey :: "(string \<Rightarrow> rat option) \<Rightarrow> backlog_issue \<Rightarrow> sort_key" where
  "dueDateSortKey parse_date issue =
     (case dueDate issue of None \<Rightarrow> PositiveInfinity
      | Some d \<Rightarrow> (case parse_date d of None \<Rightarrow> PositiveInfinity | Some t \<Rightarrow> Key t))"

definition manualRankSortKey :: "backlog_issue \<Rightarrow> sort_key" where
  "manualRankSortKey issue = (case manualRank issue of None \<Rightarrow> PositiveInfinity | Some r \<Rightarrow> Key r)"

definition createdAtSortKey :: "(string \<Rightarrow> rat option) \<Rightarrow> backlog_issue \<Rightarrow> sort_key" where
  "createdAtSortKey parse_date issue =
     (case parse_date (createdAt issue) of None \<Rightarrow> PositiveInfinity | Some t \<Rightarrow> Key t)"

definition cmp :: "'a::linorder \<Rightarrow> 'a \<Rightarrow> int" where
  "cmp x y = (if x = y then 0 else if x < y then -1 else 1)"

text \<open>JavaScript's \<open>a || b\<close> on numbers.\<close>

definition or_else :: "int \<Rightarrow> int \<Rightarrow> int" where
  "or_else a b = (if a \<noteq> 0 then a else b)"

record issue_ordering_options =
  priorityFirst :: bool
  unprioritizedLast :: bool
  dueDateTiebreaker :: bool
  oldestFirst :: bool

definition DEFAULT_ORDERING :: issue_ordering_options where
  "DEFAULT_ORDERING = \<lparr>priorityFirst = True, unprioritizedLast = True, dueDateTiebreaker = True,
     oldestFirst = True\<rparr>"

definition compareIssues ::
  "(string \<Rightarrow> rat option) \<Rightarrow> issue_ordering_options \<Rightarrow> backlog_issue \<Rightarrow> backlog_issue \<Rightarrow> int" where
  "compareIssues parse_date options a b =
     (let aPriority = (if unprioritizedLast options then prioritySortKey (priority a)
                       else Key (priority_number (priority a)));
          bPriority = (if unprioritizedLast options then prioritySortKey (priority b)
                       else Key (priority_number (priority b)))
      in or_else (if priorityFirst options then cmp aPriority bPriority else 0)
        (or_else (if dueDateTiebreaker options
                  then cmp (dueDateSortKey parse_date a) (dueDateSortKey parse_date b) else 0)
        (or_else (cmp (manualRankSortKey a) (manualRankSortKey b))
        (or_else (if oldestFirst options
                  then cmp (createdAtSortKey parse_date a) (createdAtSortKey parse_date b) else 0)
                 (cmp (issue_identifier a) (issue_identifier b))))))"

definition orderIssues ::
  "(string \<Rightarrow> rat option) \<Rightarrow> issue_ordering_options \<Rightarrow> backlog_issue list \<Rightarrow> backlog_issue list" where
  "orderIssues parse_date options issues = js_sort (compareIssues parse_date options) issues"

text \<open>The key that the comparison chain compares lexicographically.\<close>

definition issue_key ::
  "(string \<Rightarrow> rat option) \<Rightarrow> issue_ordering_options \<Rightarrow> backlog_issue \<Rightarrow>
     sort_key \<times> sort_key \<times> sort_key \<times> sort_key \<times> string" where
  "issue_key pd opts i =
     (if priorityFirst opts
      then (if unprioritizedLast opts then prioritySortKey (priority i)
            else Key (priority_number (priority i)))
      else Key 0,
      if dueDateTiebreaker opts then dueDateSortKey pd i else Key 0,
      manualRankSortKey i,
      if oldestFirst opts then createdAtSortKey pd i else Key 0,
      issue_identifier i)"

lemma cmp_le_iff [simp]: "cmp x y \<le> 0 \<longleftrightarrow> x \<le> y"
  by (auto simp: cmp_def)

lemma cmp_eq_iff [simp]: "cmp x y = 0 \<longleftrightarrow> x = y"
  by (simp add: cmp_def)

lemma or_else_cmp_le: "or_else (cmp x y) r \<le> 0 \<longleftrightarrow> x < y \<or> (x = y \<and> r \<le> 0)"
  by (auto simp: or_else_def cmp_def)

lemma or_else_zero [simp]: "or_else 0 r = r"
  by (simp add: or_else_def)

interpretation issue_cmp: keyed_cmp "compareIssues pd opts" "issue_key pd opts"
  for pd opts
  by unfold_locales
    (auto simp: compareIssues_def issue_key_def Let_def or_else_cmp_le less_eq_prod_def)

lemma issue_key_identifier: "issue_key pd opts a = issue_key pd opts b \<Longrightarrow> issue_identifier a = issue_identifier b"
  by (simp add: issue_key_def)

lemma inj_on_issue_key:
  "inj_on issue_identifier (set xs) \<Longrightarrow> inj_on (issue_key pd opts) (set xs)"
  by (auto simp: inj_on_def dest: issue_key_identifier)

lemma orderIssues_set [simp]: "set (orderIssues pd opts xs) = set xs"
  by (simp add: orderIssues_def js_simps)

lemma orderIssues_mset [simp]: "mset (orderIssues pd opts xs) = mset xs"
  by (simp add: orderIssues_def js_simps)

lemma orderIssues_sorted: "sorted (map (issue_key pd opts) (orderIssues pd opts xs))"
  by (simp add: orderIssues_def issue_cmp.sorted_keys)

section \<open>Selection\<close>

record selected_candidate =
  cand_issue :: backlog_issue
  cand_target :: repository_target
  cand_decision :: eligibility_decision

record rejected_candidate =
  rej_issue :: backlog_issue
  rej_decision :: eligibility_decision

record selection_result =
  selected :: "selected_candidate option"
  rejected :: "rejected_candidate list"
  runnersUp :: "selected_candidate list"

text \<open>The part of the configuration the selector reads.\<close>

record backlog_config =
  cfg_team :: string
  cfg_eligibleStates :: "string list"
  cfg_includeLabels :: "string list"
  cfg_excludeLabels :: "string list"
  cfg_allowUnassigned :: bool
  cfg_claimAssignee :: "string option"
  cfg_maxEstimate :: "rat option"
  cfg_selection :: issue_ordering_options
  cfg_repositories :: "repository_rule list"

definition selection_policy :: "backlog_config \<Rightarrow> string set \<Rightarrow> bool option \<Rightarrow> eligibility_policy" where
  "selection_policy config leased capacity =
     \<lparr>eligibleStates = cfg_eligibleStates config,
      includeLabels = cfg_includeLabels config,
      excludeLabels = cfg_excludeLabels config,
      repositoryRules = cfg_repositories config,
      capacityAvailable = (case capacity of None \<Rightarrow> True | Some b \<Rightarrow> b),
      leasedIssueIds = leased,
      allowUnassigned = Some (cfg_allowUnassigned config),
      claimAssignee = cfg_claimAssignee config,
      maxEstimate = cfg_maxEstimate config,
      readinessOverrideLabel =
        (if ''agent-ready'' \<in> set (cfg_includeLabels config) then Some ''agent-ready'' else None),
      minDescriptionChars = None\<rparr>"

text \<open>The loop over the ordered candidates, with the two arrays it pushes to.\<close>

fun classify ::
  "eligibility_policy \<Rightarrow> backlog_issue list \<Rightarrow> selected_candidate list \<Rightarrow> rejected_candidate list \<Rightarrow>
     selected_candidate list \<times> rejected_candidate list" where
  "classify policy [] el rej = (el, rej)"
| "classify policy (issue # rest) el rej =
     (let decision = evaluateEligibility issue policy
      in case target decision of
           Some t \<Rightarrow>
             (if eligible decision
              then classify policy rest
                     (el @ [\<lparr>cand_issue = issue, cand_target = t, cand_decision = decision\<rparr>]) rej
              else classify policy rest el (rej @ [\<lparr>rej_issue = issue, rej_decision = decision\<rparr>]))
         | None \<Rightarrow> classify policy rest el (rej @ [\<lparr>rej_issue = issue, rej_decision = decision\<rparr>]))"

definition selectNext ::
  "(string \<Rightarrow> rat option) \<Rightarrow> (string \<Rightarrow> string list \<Rightarrow> backlog_issue list) \<Rightarrow> backlog_config \<Rightarrow>
     string set \<Rightarrow> bool option \<Rightarrow> selection_result" where
  "selectNext parse_date list_candidates config leased capacity =
     (let candidates = list_candidates (cfg_team config) (cfg_eligibleStates config);
          policy = selection_policy config leased capacity;
          (el, rej) = classify policy (orderIssues parse_date (cfg_selection config) candidates) [] []
      in case el of
           [] \<Rightarrow> \<lparr>selected = None, rejected = rej, runnersUp = []\<rparr>
         | s # rs \<Rightarrow> \<lparr>selected = Some s, rejected = rej, runnersUp = rs\<rparr>)"

text \<open>What the loop computes: two filters over the ordered candidates.\<close>

definition as_selected :: "eligibility_policy \<Rightarrow> backlog_issue \<Rightarrow> selected_candidate" where
  "as_selected p i = \<lparr>cand_issue = i, cand_target = the (target (evaluateEligibility i p)),
     cand_decision = evaluateEligibility i p\<rparr>"

definition as_rejected :: "eligibility_policy \<Rightarrow> backlog_issue \<Rightarrow> rejected_candidate" where
  "as_rejected p i = \<lparr>rej_issue = i, rej_decision = evaluateEligibility i p\<rparr>"

lemma classify_filters:
  "classify p xs el rej =
     (el @ map (as_selected p) (filter (\<lambda>i. may_be_claimed i p) xs),
      rej @ map (as_rejected p) (filter (\<lambda>i. \<not> may_be_claimed i p) xs))"
proof (induction xs arbitrary: el rej)
  case (Cons i xs)
  show ?case
  proof (cases "target (evaluateEligibility i p)")
    case None
    then show ?thesis
      using target_Some_iff [of i p] by (simp add: Let_def Cons.IH as_rejected_def eligible_iff)
  next
    case (Some t)
    then show ?thesis
      using target_Some_iff [of i p] by (simp add: Let_def Cons.IH as_selected_def eligible_iff)
  qed
qed simp

lemma as_selected_issue [simp]: "cand_issue (as_selected p i) = i"
  by (simp add: as_selected_def)

lemma as_rejected_issue [simp]: "rej_issue (as_rejected p i) = i"
  by (simp add: as_rejected_def)

lemma map_as_selected [simp]: "map (cand_issue \<circ> as_selected p) xs = xs"
  by (simp add: comp_def)

lemma map_as_rejected [simp]: "map (rej_issue \<circ> as_rejected p) xs = xs"
  by (simp add: comp_def)

lemma filter_mset_partition:
  "mset (filter P xs) + mset (filter (\<lambda>x. \<not> P x) xs) = mset xs"
  by (induction xs) auto

definition chosen :: "selection_result \<Rightarrow> selected_candidate list" where
  "chosen r = (case selected r of None \<Rightarrow> [] | Some s \<Rightarrow> [s]) @ runnersUp r"

text \<open>The candidates in the order in which they are considered.\<close>

definition considered ::
  "(string \<Rightarrow> rat option) \<Rightarrow> (string \<Rightarrow> string list \<Rightarrow> backlog_issue list) \<Rightarrow> backlog_config \<Rightarrow>
     backlog_issue list" where
  "considered pd lc config =
     orderIssues pd (cfg_selection config) (lc (cfg_team config) (cfg_eligibleStates config))"

lemma chosen_selectNext:
  "chosen (selectNext pd lc config leased cap) =
     map (as_selected (selection_policy config leased cap))
       (filter (\<lambda>i. may_be_claimed i (selection_policy config leased cap)) (considered pd lc config))"
  by (auto simp: selectNext_def chosen_def Let_def classify_filters considered_def split: list.splits)

lemma rejected_selectNext:
  "rejected (selectNext pd lc config leased cap) =
     map (as_rejected (selection_policy config leased cap))
       (filter (\<lambda>i. \<not> may_be_claimed i (selection_policy config leased cap)) (considered pd lc config))"
  by (auto simp: selectNext_def Let_def classify_filters considered_def split: list.splits)

lemmas selectNext_parts = chosen_selectNext rejected_selectNext

lemma selected_hd_chosen: "selected (selectNext pd lc config leased cap) = Some s \<Longrightarrow>
   chosen (selectNext pd lc config leased cap) = s # runnersUp (selectNext pd lc config leased cap)"
  by (simp add: chosen_def)

lemma selected_None_chosen:
  "selected (selectNext pd lc config leased cap) = None \<Longrightarrow> chosen (selectNext pd lc config leased cap) = []"
  by (auto simp: chosen_def selectNext_def Let_def split: list.splits prod.splits)

section \<open>Properties\<close>

text \<open>the order of the backlog is a function of the set of issues: when identifiers are
  distinct, two listings of the same issues in any order are sorted into the same list.\<close>

theorem ordering_is_deterministic:
  assumes "mset xs = mset ys" and "inj_on issue_identifier (set xs)"
  shows "orderIssues pd opts xs = orderIssues pd opts ys"
  unfolding orderIssues_def using assms by (intro issue_cmp.sort_deterministic inj_on_issue_key)

theorem ordering_is_deterministic_witness:
  "orderIssues (\<lambda>_. None) DEFAULT_ORDERING [sample_issue ''A'' Low [], sample_issue ''B'' Urgent []] =
   orderIssues (\<lambda>_. None) DEFAULT_ORDERING [sample_issue ''B'' Urgent [], sample_issue ''A'' Low []]"
  by (rule ordering_is_deterministic) (simp_all add: sample_issue_def)

text \<open>under the default ordering no issue without a priority is placed before one that has a
  priority, and among prioritised issues the more urgent come first.\<close>

definition at_least_as_urgent :: "backlog_issue \<Rightarrow> backlog_issue \<Rightarrow> bool" where
  "at_least_as_urgent a b \<longleftrightarrow>
     priority b = NoPriority \<or>
     (priority a \<noteq> NoPriority \<and> priority_number (priority a) \<le> priority_number (priority b))"

theorem unprioritised_issues_last:
  "sorted_wrt at_least_as_urgent (orderIssues pd DEFAULT_ORDERING xs)"
proof (rule sorted_wrt_mono_rel)
  show "sorted_wrt (\<lambda>a b. issue_key pd DEFAULT_ORDERING a \<le> issue_key pd DEFAULT_ORDERING b)
     (orderIssues pd DEFAULT_ORDERING xs)"
    using orderIssues_sorted [of pd DEFAULT_ORDERING xs] by (simp add: sorted_wrt_map)
next
  fix a b
  assume "issue_key pd DEFAULT_ORDERING a \<le> issue_key pd DEFAULT_ORDERING b"
  then have "prioritySortKey (priority a) \<le> prioritySortKey (priority b)"
    by (simp add: issue_key_def DEFAULT_ORDERING_def) (metis fst_conv less_eq_prod_def less_imp_le)
  then show "at_least_as_urgent a b"
    by (auto simp: prioritySortKey_def at_least_as_urgent_def split: if_splits)
qed

text \<open>C27: the selected issue is a candidate that may be claimed and that no claimable candidate
  precedes in the order of the configuration.\<close>

theorem selected_is_first_claimable:
  assumes "selected (selectNext pd lc config leased cap) = Some s"
  shows "cand_issue s \<in> set (lc (cfg_team config) (cfg_eligibleStates config)) \<and>
     may_be_claimed (cand_issue s) (selection_policy config leased cap) \<and>
     cand_issue s \<in> {i. issue_identifier i \<notin> leased} \<and>
     (\<forall>i \<in> set (lc (cfg_team config) (cfg_eligibleStates config)).
        may_be_claimed i (selection_policy config leased cap) \<longrightarrow>
        compareIssues pd (cfg_selection config) (cand_issue s) i \<le> 0)"
proof -
  let ?p = "selection_policy config leased cap"
  let ?xs = "filter (\<lambda>i. may_be_claimed i ?p) (considered pd lc config)"
  have "map cand_issue (chosen (selectNext pd lc config leased cap)) = ?xs"
    by (simp add: chosen_selectNext)
  with selected_hd_chosen [OF assms] obtain rest where xs: "?xs = cand_issue s # rest"
    by (metis list.simps(9))
  have "sorted_wrt (\<lambda>x y. compareIssues pd (cfg_selection config) x y \<le> 0) ?xs"
    by (intro sorted_wrt_filter) (simp add: considered_def orderIssues_def issue_cmp.sorted_sort)
  then have "\<forall>i \<in> set ?xs. compareIssues pd (cfg_selection config) (cand_issue s) i \<le> 0"
    unfolding xs using issue_cmp.cmp_total [of pd "cfg_selection config" "cand_issue s" "cand_issue s"] by auto
  then have least: "\<forall>i \<in> set ?xs. compareIssues pd (cfg_selection config) (cand_issue s) i \<le> 0" .
  have "cand_issue s \<in> set ?xs" unfolding xs by simp
  then have mem: "may_be_claimed (cand_issue s) ?p"
    "cand_issue s \<in> set (lc (cfg_team config) (cfg_eligibleStates config))"
    by (simp_all add: considered_def)
  have "issue_identifier (cand_issue s) \<notin> leased"
    using mem(1) by (simp add: may_be_claimed_def selection_policy_def)
  then show ?thesis using mem least by (simp add: considered_def)
qed

definition sample_config :: backlog_config where
  "sample_config = \<lparr>cfg_team = ''ENG'', cfg_eligibleStates = [''Todo''],
     cfg_includeLabels = [''agent-ready''], cfg_excludeLabels = [''blocked''],
     cfg_allowUnassigned = True, cfg_claimAssignee = None, cfg_maxEstimate = None,
     cfg_selection = DEFAULT_ORDERING,
     cfg_repositories = [sample_rule (Some ''ENG'') None None ''a'']\<rparr>"

theorem selected_is_first_claimable_witness:
  "may_be_claimed (sample_issue ''B'' Urgent []) (selection_policy sample_config {''C''} None)"
proof -
  let ?lc = "\<lambda>_ _. [sample_issue ''A'' Low [], sample_issue ''B'' Urgent [], sample_issue ''C'' Urgent []]"
  let ?r = "selectNext (\<lambda>_. None) ?lc sample_config {''C''} None"
  have "map_option cand_issue (selected ?r) = Some (sample_issue ''B'' Urgent [])"
    by code_simp
  then obtain s where s: "selected ?r = Some s" "cand_issue s = sample_issue ''B'' Urgent []"
    by auto
  show ?thesis using selected_is_first_claimable [OF s(1)] unfolding s(2) by (elim conjE)
qed

text \<open>every candidate is reported exactly once, as selected, as a runner-up or as rejected,
  and a result without a selection has neither runners-up nor a claimable candidate.\<close>

theorem every_candidate_reported_once:
  "mset (map cand_issue (chosen (selectNext pd lc config leased cap))) +
   mset (map rej_issue (rejected (selectNext pd lc config leased cap))) =
     mset (lc (cfg_team config) (cfg_eligibleStates config)) \<and>
   (selected (selectNext pd lc config leased cap) = None \<longleftrightarrow>
     filter (\<lambda>i. may_be_claimed i (selection_policy config leased cap))
       (lc (cfg_team config) (cfg_eligibleStates config)) = [])"
proof -
  have "selected (selectNext pd lc config leased cap) = None \<longleftrightarrow>
      chosen (selectNext pd lc config leased cap) = []"
    using selected_None_chosen [of pd lc config leased cap] by (auto simp: chosen_def split: option.splits)
  also have "\<dots> \<longleftrightarrow> filter (\<lambda>i. may_be_claimed i (selection_policy config leased cap))
       (lc (cfg_team config) (cfg_eligibleStates config)) = []"
    by (simp add: chosen_selectNext considered_def filter_empty_conv)
  finally show ?thesis
    by (simp add: selectNext_parts filter_mset_partition considered_def del: mset_map)
qed

end
