(* ===== verification/Stack.thy ===== *)
theory Stack
  imports Backlog
begin

text \<open>
  Dependency chains (\<open>src/src/queue/stack.ts\<close>): \<open>planStack\<close> groups candidates into chains in
  which every blocker comes before what it blocks. The closure \<open>resolve\<close> recurses through its
  own loop over the blockers; here \<open>resolveLoop\<close> is that loop, with the recursive call's body
  written out, and \<open>resolve\<close> its entry. It terminates because every recursive call adds a new
  candidate identifier to \<open>seen\<close>.
\<close>

section \<open>Model\<close>

datatype stack_error = Cycle string | NotCandidate string

datatype reject_reason = Failed stack_error | TooDeep nat rat | NoChain

record stack_plan =
  stack_chains :: "backlog_issue list list"
  stack_rejected :: "(backlog_issue \<times> reject_reason) list"

definition DEFAULT_MAX_DEPTH :: rat where "DEFAULT_MAX_DEPTH = 4"

text \<open>\<open>new Map(candidates.map(i => [i.identifier, i]))\<close>: the last entry of a key wins.\<close>

definition byId :: "backlog_issue list \<Rightarrow> string \<Rightarrow> backlog_issue option" where
  "byId cands = map_of (rev (map (\<lambda>i. (issue_identifier i, i)) cands))"

definition ids :: "backlog_issue list \<Rightarrow> string set" where
  "ids xs = issue_identifier ` set xs"

definition push :: "backlog_issue list \<Rightarrow> backlog_issue \<Rightarrow> backlog_issue list" where
  "push chain u = (if issue_identifier u \<in> ids chain then chain else chain @ [u])"

definition push_all :: "backlog_issue list \<Rightarrow> backlog_issue list \<Rightarrow> backlog_issue list" where
  "push_all chain us = foldl push chain us"

lemma byId_Some: "byId cands b = Some i \<Longrightarrow> i \<in> set cands \<and> issue_identifier i = b"
  unfolding byId_def by (drule map_of_SomeD) auto

lemma dom_byId: "dom (byId cands) = ids cands"
  by (simp add: byId_def ids_def dom_map_of_conv_image_fst image_image)

lemma finite_ids [simp]: "finite (ids xs)"
  by (simp add: ids_def)

function resolveLoop ::
  "backlog_issue list \<Rightarrow> string set \<Rightarrow> string list \<Rightarrow> backlog_issue list \<Rightarrow>
     stack_error + backlog_issue list" where
  "resolveLoop cands seen [] chain = Inr chain"
| "resolveLoop cands seen (blockerId # rest) chain =
     (case byId cands blockerId of
        None \<Rightarrow> Inl (NotCandidate blockerId)
      | Some blocker \<Rightarrow>
          (case (if issue_identifier blocker \<in> seen then Inl (Cycle (issue_identifier blocker))
                 else resolveLoop cands (insert (issue_identifier blocker) seen) (blockedBy blocker) []) of
             Inl e \<Rightarrow> Inl e
           | Inr upstream \<Rightarrow> resolveLoop cands seen rest (push (push_all chain upstream) blocker)))"
  by pat_completeness auto
termination
proof (relation "measures [\<lambda>(cands, seen, bs, chain). card (ids cands - seen), \<lambda>(cands, seen, bs, chain). length bs]")
  fix cands seen blockerId rest chain blocker
  assume b: "byId cands blockerId = Some blocker" and new: "issue_identifier blocker \<notin> seen"
  have "issue_identifier blocker \<in> ids cands"
    using byId_Some [OF b] by (auto simp: ids_def)
  with new have "card (ids cands - insert (issue_identifier blocker) seen) < card (ids cands - seen)"
    by (intro psubset_card_mono) auto
  then show "((cands, insert (issue_identifier blocker) seen, blockedBy blocker, []),
      (cands, seen, blockerId # rest, chain))
     \<in> measures [\<lambda>(cands, seen, bs, chain). card (ids cands - seen), \<lambda>(cands, seen, bs, chain). length bs]"
    by simp
qed auto

definition resolve ::
  "backlog_issue list \<Rightarrow> backlog_issue \<Rightarrow> string set \<Rightarrow> stack_error + backlog_issue list" where
  "resolve cands issue seen =
     (if issue_identifier issue \<in> seen then Inl (Cycle (issue_identifier issue))
      else resolveLoop cands (insert (issue_identifier issue) seen) (blockedBy issue) [])"

text \<open>The recursive call of the loop is \<open>resolve\<close> on the blocker with its own copy of \<open>seen\<close>.\<close>

lemma resolveLoop_Cons:
  "resolveLoop cands seen (blockerId # rest) chain =
     (case byId cands blockerId of
        None \<Rightarrow> Inl (NotCandidate blockerId)
      | Some blocker \<Rightarrow>
          and_then (resolve cands blocker seen)
            (\<lambda>upstream. resolveLoop cands seen rest (push (push_all chain upstream) blocker)))"
  by (simp add: resolve_def and_then_def split: option.split sum.split)

definition isBlockerOf :: "backlog_issue list \<Rightarrow> string set" where
  "isBlockerOf cands =
     set (concat (map (\<lambda>i. filter (\<lambda>b. byId cands b \<noteq> None) (blockedBy i)) cands))"

definition planOne ::
  "backlog_issue list \<Rightarrow> rat \<Rightarrow> stack_plan \<Rightarrow> backlog_issue \<Rightarrow> stack_plan" where
  "planOne cands maxDepth plan issue =
     (if issue_identifier issue \<in> isBlockerOf cands then plan
      else case resolve cands issue {} of
             Inl e \<Rightarrow> plan\<lparr>stack_rejected := stack_rejected plan @ [(issue, Failed e)]\<rparr>
           | Inr upstream \<Rightarrow>
               (let issues = upstream @ [issue]
                in if rat_of_nat (length issues) > maxDepth
                   then plan\<lparr>stack_rejected :=
                          stack_rejected plan @ [(issue, TooDeep (length issues) maxDepth)]\<rparr>
                   else plan\<lparr>stack_chains := stack_chains plan @ [issues]\<rparr>))"

definition reconcileOne ::
  "backlog_issue list \<Rightarrow> string set \<Rightarrow> string set \<Rightarrow> stack_plan \<Rightarrow> backlog_issue \<Rightarrow> stack_plan" where
  "reconcileOne cands planned explained plan issue =
     (if issue_identifier issue \<in> planned \<or> issue_identifier issue \<in> explained then plan
      else plan\<lparr>stack_rejected := stack_rejected plan @
             [(issue, case resolve cands issue {} of Inl e \<Rightarrow> Failed e | Inr _ \<Rightarrow> NoChain)]\<rparr>)"

definition planStack :: "backlog_issue list \<Rightarrow> rat option \<Rightarrow> stack_plan" where
  "planStack cands depth =
     (let maxDepth = max 1 (case depth of None \<Rightarrow> DEFAULT_MAX_DEPTH | Some d \<Rightarrow> d);
          plan = foldl (planOne cands maxDepth) \<lparr>stack_chains = [], stack_rejected = []\<rparr> cands;
          planned = set (concat (map (map issue_identifier) (stack_chains plan)));
          explained = set (map (issue_identifier \<circ> fst) (stack_rejected plan))
      in foldl (reconcileOne cands planned explained) plan cands)"

datatype evidence_reason = NoTreeHash | SameTree | DifferentTree

definition evidenceSurvivesRebase :: "string \<Rightarrow> string \<Rightarrow> bool \<times> evidence_reason" where
  "evidenceSurvivesRebase verifiedTreeHash currentTreeHash =
     (if verifiedTreeHash = '''' \<or> currentTreeHash = '''' then (False, NoTreeHash)
      else if verifiedTreeHash = currentTreeHash then (True, SameTree)
      else (False, DifferentTree))"

section \<open>Chains are topologically ordered\<close>

fun blockers_first :: "string set \<Rightarrow> backlog_issue list \<Rightarrow> bool" where
  "blockers_first before [] = True"
| "blockers_first before (x # xs) =
     (set (blockedBy x) \<subseteq> before \<and> issue_identifier x \<notin> before \<and>
      blockers_first (insert (issue_identifier x) before) xs)"

lemma ids_simps [simp]:
  "ids [] = {}" "ids (x # xs) = insert (issue_identifier x) (ids xs)" "ids (xs @ ys) = ids xs \<union> ids ys"
  by (auto simp: ids_def)

lemma blockers_first_snoc:
  "blockers_first B (xs @ [x]) \<longleftrightarrow>
     blockers_first B xs \<and> set (blockedBy x) \<subseteq> B \<union> ids xs \<and> issue_identifier x \<notin> B \<union> ids xs"
  by (induction xs arbitrary: B) auto

lemma ids_push [simp]: "ids (push chain u) = insert (issue_identifier u) (ids chain)"
  by (auto simp: push_def)

lemma ids_push_all [simp]: "ids (push_all chain us) = ids chain \<union> ids us"
  unfolding push_all_def by (induction us arbitrary: chain) auto

lemma set_push: "set (push chain u) \<subseteq> insert u (set chain)"
  by (auto simp: push_def)

lemma set_push_all: "set (push_all chain us) \<subseteq> set chain \<union> set us"
  unfolding push_all_def
proof (induction us arbitrary: chain)
  case (Cons u us)
  show ?case using Cons [of "push chain u"] set_push [of chain u] by auto
qed simp

lemma blockers_first_push:
  "blockers_first {} chain \<Longrightarrow> set (blockedBy u) \<subseteq> ids chain \<Longrightarrow> blockers_first {} (push chain u)"
  by (auto simp: push_def blockers_first_snoc)

lemma blockers_first_push_all:
  "blockers_first {} chain \<Longrightarrow> blockers_first B us \<Longrightarrow> B \<subseteq> ids chain \<Longrightarrow>
     blockers_first {} (push_all chain us)"
  unfolding push_all_def
proof (induction us arbitrary: chain B)
  case (Cons u us)
  then have "blockers_first {} (push chain u)"
    by (auto intro!: blockers_first_push)
  with Cons.prems Cons.IH [of "push chain u" "insert (issue_identifier u) B"] show ?case by auto
qed simp

lemma resolveLoop_sound:
  "resolveLoop cands seen bs chain = Inr chain' \<Longrightarrow> blockers_first {} chain \<Longrightarrow>
     blockers_first {} chain' \<and> ids chain \<union> set bs \<subseteq> ids chain'"
proof (induction cands seen bs chain arbitrary: chain' rule: resolveLoop.induct)
  case (2 cands seen b rest chain)
  obtain blocker where b: "byId cands b = Some blocker"
    using "2.prems"(1) by (auto split: option.splits)
  obtain up where new: "issue_identifier blocker \<notin> seen"
    and up: "resolveLoop cands (insert (issue_identifier blocker) seen) (blockedBy blocker) [] = Inr up"
    and rest: "resolveLoop cands seen rest (push (push_all chain up) blocker) = Inr chain'"
    using "2.prems"(1) b by (auto split: if_splits sum.splits)
  have up': "blockers_first {} up \<and> set (blockedBy blocker) \<subseteq> ids up"
    using "2.IH"(1) [OF b new up] by simp
  then have "blockers_first {} (push (push_all chain up) blocker)"
    using blockers_first_push_all [OF "2.prems"(2), of "{}" up] by (auto intro!: blockers_first_push)
  moreover have "issue_identifier blocker = b"
    using byId_Some [OF b] by simp
  moreover have "(if issue_identifier blocker \<in> seen then Inl (Cycle (issue_identifier blocker))
      else resolveLoop cands (insert (issue_identifier blocker) seen) (blockedBy blocker) []) = Inr up"
    using new up by simp
  ultimately show ?case
    using "2.IH"(2) [OF b _ rest] by auto
qed simp

lemma resolve_sound:
  "resolve cands issue {} = Inr up \<Longrightarrow> blockers_first {} up \<and> set (blockedBy issue) \<subseteq> ids up"
  using resolveLoop_sound [of cands "{issue_identifier issue}" "blockedBy issue" "[]" up]
  by (simp add: resolve_def)

lemma resolveLoop_members:
  "resolveLoop cands seen bs chain = Inr chain' \<Longrightarrow>
     set bs \<subseteq> \<Union> (set ` blockedBy ` set cands) \<Longrightarrow>
     set chain \<subseteq> {i \<in> set cands. issue_identifier i \<in> isBlockerOf cands} \<Longrightarrow>
     set chain' \<subseteq> {i \<in> set cands. issue_identifier i \<in> isBlockerOf cands}"
proof (induction cands seen bs chain arbitrary: chain' rule: resolveLoop.induct)
  case (2 cands seen b rest chain)
  let ?M = "{i \<in> set cands. issue_identifier i \<in> isBlockerOf cands}"
  obtain blocker where b: "byId cands b = Some blocker"
    using "2.prems"(1) by (auto split: option.splits)
  obtain up where new: "issue_identifier blocker \<notin> seen"
    and up: "resolveLoop cands (insert (issue_identifier blocker) seen) (blockedBy blocker) [] = Inr up"
    and rest: "resolveLoop cands seen rest (push (push_all chain up) blocker) = Inr chain'"
    using "2.prems"(1) b by (auto split: if_splits sum.splits)
  note bm = byId_Some [OF b]
  have "issue_identifier blocker \<in> isBlockerOf cands"
    using "2.prems"(2) b bm by (auto simp: isBlockerOf_def)
  with bm have blocker: "blocker \<in> ?M" by simp
  have up_in: "set up \<subseteq> ?M"
    using "2.IH"(1) [OF b new up] bm by auto
  have acc: "set (push (push_all chain up) blocker) \<subseteq> ?M"
    using set_push [of "push_all chain up" blocker] set_push_all [of chain up] "2.prems"(3) up_in blocker
    by blast
  have "(if issue_identifier blocker \<in> seen then Inl (Cycle (issue_identifier blocker))
      else resolveLoop cands (insert (issue_identifier blocker) seen) (blockedBy blocker) []) = Inr up"
    using new up by simp
  from "2.IH"(2) [OF b this rest _ acc] show ?case
    using "2.prems"(2) by auto
qed simp

lemma resolve_members:
  "resolve cands issue {} = Inr up \<Longrightarrow> issue \<in> set cands \<Longrightarrow>
     set up \<subseteq> {i \<in> set cands. issue_identifier i \<in> isBlockerOf cands}"
  using resolveLoop_members [of cands "{issue_identifier issue}" "blockedBy issue" "[]" up]
  by (auto simp: resolve_def)

section \<open>Rejections are truthful\<close>

definition blocked_on :: "backlog_issue list \<Rightarrow> (string \<times> string) set" where
  "blocked_on cands = {(a, b). \<exists>i \<in> set cands. issue_identifier i = a \<and> b \<in> set (blockedBy i)}"

definition truthful :: "backlog_issue list \<Rightarrow> stack_error \<Rightarrow> bool" where
  "truthful cands e =
     (case e of Cycle x \<Rightarrow> (x, x) \<in> (blocked_on cands)\<^sup>+
      | NotCandidate b \<Rightarrow> b \<notin> ids cands \<and> (\<exists>i \<in> set cands. b \<in> set (blockedBy i)))"

lemma resolveLoop_truthful:
  "resolveLoop cands seen bs chain = Inl e \<Longrightarrow>
     (\<And>s b. s \<in> seen \<Longrightarrow> b \<in> set bs \<Longrightarrow> (s, b) \<in> (blocked_on cands)\<^sup>+) \<Longrightarrow>
     set bs \<subseteq> \<Union> (set ` blockedBy ` set cands) \<Longrightarrow> truthful cands e"
proof (induction cands seen bs chain rule: resolveLoop.induct)
  case (2 cands seen b rest chain)
  show ?case
  proof (cases "byId cands b")
    case None
    then have "b \<notin> ids cands" using dom_byId [of cands] by blast
    moreover have "e = NotCandidate b" using "2.prems"(1) None by simp
    ultimately show ?thesis using "2.prems"(3) by (auto simp: truthful_def)
  next
    case (Some blocker)
    note bm = byId_Some [OF Some]
    show ?thesis
    proof (cases "issue_identifier blocker \<in> seen")
      case True
      then have "e = Cycle b" using "2.prems"(1) Some bm by simp
      moreover have "(b, b) \<in> (blocked_on cands)\<^sup>+" using "2.prems"(2) True bm by auto
      ultimately show ?thesis by (simp add: truthful_def)
    next
      case new: False
      have step: "(s, b') \<in> (blocked_on cands)\<^sup>+"
        if "s \<in> insert (issue_identifier blocker) seen" "b' \<in> set (blockedBy blocker)" for s b'
      proof -
        have e: "(b, b') \<in> blocked_on cands" using bm that(2) by (auto simp: blocked_on_def)
        show ?thesis
        proof (cases "s = b")
          case True then show ?thesis using e by auto
        next
          case False
          then have "(s, b) \<in> (blocked_on cands)\<^sup>+" using that(1) bm "2.prems"(2) by auto
          then show ?thesis using e by (rule trancl_into_trancl)
        qed
      qed
      show ?thesis
      proof (cases "resolveLoop cands (insert (issue_identifier blocker) seen) (blockedBy blocker) []")
        case (Inl e')
        then have "e = e'" using "2.prems"(1) Some new by simp
        then show ?thesis using "2.IH"(1) [OF Some new] Inl step bm by auto
      next
        case (Inr up)
        then have r: "resolveLoop cands seen rest (push (push_all chain up) blocker) = Inl e"
          using "2.prems"(1) Some new by simp
        have "(if issue_identifier blocker \<in> seen then Inl (Cycle (issue_identifier blocker))
          else resolveLoop cands (insert (issue_identifier blocker) seen) (blockedBy blocker) []) = Inr up"
          using new Inr by simp
        from "2.IH"(2) [OF Some this r] show ?thesis using "2.prems"(2,3) by auto
      qed
    qed
  qed
qed simp

lemma resolve_truthful:
  "resolve cands issue {} = Inl e \<Longrightarrow> issue \<in> set cands \<Longrightarrow> truthful cands e"
  using resolveLoop_truthful [of cands "{issue_identifier issue}" "blockedBy issue" "[]" e]
  by (auto simp: resolve_def blocked_on_def)

section \<open>The plan\<close>

definition good_chain :: "backlog_issue list \<Rightarrow> rat \<Rightarrow> backlog_issue list \<Rightarrow> bool" where
  "good_chain cands depth xs \<longleftrightarrow>
     xs \<noteq> [] \<and> set xs \<subseteq> set cands \<and> blockers_first {} xs \<and> rat_of_nat (length xs) \<le> depth"

definition good_reject :: "backlog_issue list \<Rightarrow> backlog_issue \<times> reject_reason \<Rightarrow> bool" where
  "good_reject cands r \<longleftrightarrow>
     fst r \<in> set cands \<and> (case snd r of Failed e \<Rightarrow> truthful cands e | _ \<Rightarrow> True)"

definition good_plan :: "backlog_issue list \<Rightarrow> rat \<Rightarrow> stack_plan \<Rightarrow> bool" where
  "good_plan cands depth plan \<longleftrightarrow>
     (\<forall>xs \<in> set (stack_chains plan). good_chain cands depth xs) \<and>
     (\<forall>r \<in> set (stack_rejected plan). good_reject cands r)"

lemma planOne_good:
  assumes "good_plan cands d plan" and "issue \<in> set cands"
  shows "good_plan cands d (planOne cands d plan issue)"
proof (cases "resolve cands issue {}")
  case (Inl e)
  then show ?thesis
    using assms resolve_truthful [OF Inl assms(2)] by (auto simp: planOne_def good_plan_def good_reject_def)
next
  case (Inr up)
  have "good_chain cands d (up @ [issue])"
    if "issue_identifier issue \<notin> isBlockerOf cands" "rat_of_nat (length (up @ [issue])) \<le> d"
    using that resolve_sound [OF Inr] resolve_members [OF Inr assms(2)] assms(2)
    by (auto simp: good_chain_def blockers_first_snoc ids_def)
  then show ?thesis
    using assms Inr by (auto simp: planOne_def good_plan_def good_reject_def Let_def)
qed

lemma reconcileOne_good:
  assumes "good_plan cands d plan" and "issue \<in> set cands"
  shows "good_plan cands d (reconcileOne cands P E plan issue)"
  using assms resolve_truthful [of cands issue]
  by (auto simp: reconcileOne_def good_plan_def good_reject_def split: sum.splits)

lemma foldl_good:
  assumes "good_plan cands d plan" and "set xs \<subseteq> set cands"
    and "\<And>plan i. good_plan cands d plan \<Longrightarrow> i \<in> set cands \<Longrightarrow> good_plan cands d (f plan i)"
  shows "good_plan cands d (foldl f plan xs)"
  using assms(1,2) by (induction xs arbitrary: plan) (auto intro: assms(3))

lemma planStack_good:
  "good_plan cands (max 1 (case depth of None \<Rightarrow> 4 | Some d \<Rightarrow> d)) (planStack cands depth)"
proof -
  have "good_plan cands d \<lparr>stack_chains = [], stack_rejected = []\<rparr>" for d
    by (simp add: good_plan_def)
  then show ?thesis
    unfolding planStack_def Let_def DEFAULT_MAX_DEPTH_def
    by (intro foldl_good) (auto intro: planOne_good reconcileOne_good)
qed

lemma reconcileOne_chains [simp]: "stack_chains (reconcileOne cands P E plan i) = stack_chains plan"
  by (simp add: reconcileOne_def)

lemma foldl_reconcile_chains [simp]: "stack_chains (foldl (reconcileOne cands P E) plan xs) = stack_chains plan"
  by (induction xs arbitrary: plan) simp_all

lemma foldl_reconcile_rejected:
  "set (stack_rejected plan) \<subseteq> set (stack_rejected (foldl (reconcileOne cands P E) plan xs))"
proof (induction xs arbitrary: plan)
  case (Cons x xs)
  show ?case using Cons [of "reconcileOne cands P E plan x"] by (auto simp: reconcileOne_def)
qed simp

lemma foldl_reconcile_explained:
  "i \<in> set xs \<Longrightarrow> issue_identifier i \<notin> P \<Longrightarrow> issue_identifier i \<notin> E \<Longrightarrow>
     i \<in> fst ` set (stack_rejected (foldl (reconcileOne cands P E) plan xs))"
proof (induction xs arbitrary: plan)
  case (Cons x xs)
  show ?case
  proof (cases "i = x")
    case True
    have "x \<in> fst ` set (stack_rejected (reconcileOne cands P E plan x))"
      using Cons.prems True by (simp add: reconcileOne_def)
    then show ?thesis
      using True image_mono [OF foldl_reconcile_rejected, of fst "reconcileOne cands P E plan x" cands P E xs]
      by auto
  next
    case False
    then show ?thesis using Cons by simp
  qed
qed simp

definition accounted :: "stack_plan \<Rightarrow> string set" where
  "accounted plan = \<Union> (ids ` set (stack_chains plan)) \<union> issue_identifier ` fst ` set (stack_rejected plan)"

lemma planStack_accounts: "ids cands \<subseteq> accounted (planStack cands depth)"
proof
  fix x assume "x \<in> ids cands"
  then obtain i where i: "i \<in> set cands" "x = issue_identifier i" by (auto simp: ids_def)
  define plan where "plan = foldl (planOne cands (max 1 (case depth of None \<Rightarrow> DEFAULT_MAX_DEPTH | Some d \<Rightarrow> d)))
    \<lparr>stack_chains = [], stack_rejected = []\<rparr> cands"
  let ?P = "set (concat (map (map issue_identifier) (stack_chains plan)))"
  let ?E = "set (map (issue_identifier \<circ> fst) (stack_rejected plan))"
  have eq: "planStack cands depth = foldl (reconcileOne cands ?P ?E) plan cands"
    unfolding planStack_def Let_def plan_def [symmetric] by (rule refl)
  have P: "?P = \<Union> (ids ` set (stack_chains plan))" by (auto simp: ids_def)
  show "x \<in> accounted (planStack cands depth)"
  proof (cases "x \<in> ?P \<union> ?E")
    case True
    then show ?thesis
      using foldl_reconcile_rejected [of plan cands ?P ?E cands]
      unfolding eq accounted_def P foldl_reconcile_chains by (auto simp: image_image)
  next
    case False
    then show ?thesis
      using foldl_reconcile_explained [OF i(1), of ?P ?E cands plan] i
      unfolding eq accounted_def by (auto simp del: set_concat)
  qed
qed

section \<open>Properties\<close>

text \<open>C30: in every chain of a plan each issue comes after all issues that block it, no issue
  occurs twice, every member is a candidate, and the length is within the depth limit (four when
  none is given, never less than one).\<close>

theorem chains_respect_dependencies:
  assumes "chain \<in> set (stack_chains (planStack cands depth))" and "k < length chain"
  shows "set (blockedBy (chain ! k)) \<subseteq> issue_identifier ` set (take k chain) \<and>
     distinct (map issue_identifier chain) \<and> set chain \<subseteq> set cands \<and>
     rat_of_nat (length chain) \<le> max 1 (case depth of None \<Rightarrow> 4 | Some d \<Rightarrow> d)"
proof -
  have order: "set (blockedBy (xs ! n)) \<subseteq> B \<union> issue_identifier ` set (take n xs)"
    if "blockers_first B xs" "n < length xs" for B xs n
    using that
  proof (induction xs arbitrary: B n)
    case (Cons x xs)
    then show ?case using Cons.IH [of "insert (issue_identifier x) B"] by (cases n) auto
  qed simp
  have dist: "distinct (map issue_identifier xs) \<and> issue_identifier ` set xs \<inter> B = {}"
    if "blockers_first B xs" for B xs
    using that
  proof (induction xs arbitrary: B)
    case (Cons x xs)
    then show ?case using Cons.IH [of "insert (issue_identifier x) B"] by auto
  qed simp
  have "good_chain cands (max 1 (case depth of None \<Rightarrow> 4 | Some d \<Rightarrow> d)) chain"
    using planStack_good [of cands depth] assms(1) by (simp add: good_plan_def)
  then show ?thesis
    using order [of "{}" chain k] dist [of "{}" chain] assms(2) by (simp add: good_chain_def)
qed

theorem chains_respect_dependencies_witness:
  "set (blockedBy (sample_issue ''B'' High [''A''])) \<subseteq> issue_identifier ` {sample_issue ''A'' Low []}"
proof -
  let ?c = "[sample_issue ''B'' High [''A''], sample_issue ''A'' Low []]"
  have "rev ?c \<in> set (stack_chains (planStack ?c None))" by code_simp
  from chains_respect_dependencies [OF this, of 1] show ?thesis by simp
qed

text \<open>no candidate is dropped silently: each one is in a chain or is rejected with a reason.
  A rejection for a cycle names an issue that transitively blocks itself, and a rejection for an
  unknown blocker names an identifier that blocks a candidate and is not one.\<close>

theorem no_candidate_vanishes:
  "issue_identifier ` set cands \<subseteq> accounted (planStack cands depth) \<and>
   (\<forall>r \<in> set (stack_rejected (planStack cands depth)).
      fst r \<in> set cands \<and>
      (case snd r of
         Failed (Cycle x) \<Rightarrow> (x, x) \<in> (blocked_on cands)\<^sup>+
       | Failed (NotCandidate b) \<Rightarrow> b \<notin> issue_identifier ` set cands \<and> (\<exists>i \<in> set cands. b \<in> set (blockedBy i))
       | _ \<Rightarrow> True))"
proof -
  have "\<forall>r \<in> set (stack_rejected (planStack cands depth)). good_reject cands r"
    using planStack_good [of cands depth] by (simp add: good_plan_def)
  then show ?thesis
    using planStack_accounts [of cands depth]
    by (fastforce simp: good_reject_def truthful_def ids_def split: reject_reason.splits stack_error.splits)
qed

theorem no_candidate_vanishes_witness:
  "(''A'', ''A'') \<in> (blocked_on [sample_issue ''B'' High [''A''], sample_issue ''A'' Low [''B'']])\<^sup>+"
proof -
  let ?c = "[sample_issue ''B'' High [''A''], sample_issue ''A'' Low [''B'']]"
  have "(sample_issue ''A'' Low [''B''], Failed (Cycle ''A'')) \<in> set (stack_rejected (planStack ?c None))"
    by code_simp
  with no_candidate_vanishes [of ?c None] show ?thesis by fastforce
qed

end
