(* ===== verification/Path_Scope.thy ===== *)
theory Path_Scope
  imports Prelude
begin

text \<open>
  The change scope of a task (\<open>src/src/workspace/path-scope.ts\<close>): normalising repository paths,
  compiling gitignore-style patterns, the memoised segment matcher, and the decision whether a
  candidate diff stays inside its scope. Regular expressions are the language's: a compiled
  segment is the list of its atoms and \<open>seg_match\<close> their semantics between \<open>^\<close> and \<open>$\<close>.
\<close>

section \<open>Data\<close>

record change_scope =
  allowedPaths :: "string list"
  forbiddenPaths :: "string list"

datatype scope_error =
  NotRepositoryRelative string | AmbiguousPath string
| UnsupportedPattern string | BackslashInPattern string | EmptyPattern string
| AmbiguousPattern string | UnterminatedClass | EmptyClass | BackslashInClass | InvalidRegExp

datatype violation_reason = OutsideAllowedPaths | ForbiddenPath | InvalidPath | InvalidPattern

record change_scope_violation =
  vio_path :: string
  vio_reason :: violation_reason
  vio_pattern :: "string option"
  vio_error :: "scope_error option"

definition ALL_CHANGE_SCOPE :: change_scope where
  "ALL_CHANGE_SCOPE = \<lparr>allowedPaths = [''**''], forbiddenPaths = []\<rparr>"

record compiled_pattern =
  source :: string
  segments :: "string list"
  directory :: bool
  recursiveDirectory :: bool
  basenameOnly :: bool

section \<open>Paths and patterns\<close>

definition ambiguous_segment :: "string \<Rightarrow> bool" where
  "ambiguous_segment s \<longleftrightarrow> s = '''' \<or> s = ''.'' \<or> s = ''..''"

definition normalizeRepositoryPath :: "string \<Rightarrow> scope_error + string" where
  "normalizeRepositoryPath path =
     (if path = '''' \<or> CHR 0x00 \<in> set path \<or> CHR 0x5C \<in> set path \<or>
         js_starts_with ''/'' path \<or> drive_prefix path
      then Inl (NotRepositoryRelative path)
      else let segs = js_split (CHR ''/'') path
           in if list_ex ambiguous_segment segs then Inl (AmbiguousPath path)
              else Inr (js_join ''/'' segs))"

definition compilePattern :: "string \<Rightarrow> scope_error + compiled_pattern" where
  "compilePattern src =
     (if src = '''' \<or> CHR 0x00 \<in> set src \<or> js_starts_with ''!'' src
      then Inl (UnsupportedPattern src)
      else if CHR 0x5C \<in> set src then Inl (BackslashInPattern src)
      else let p1 = (if js_starts_with ''/'' src then tl src else src);
               dir = (p1 \<noteq> [] \<and> last p1 = CHR ''/'');
               p2 = (if dir then butlast p1 else p1)
           in if p2 = '''' then Inl (EmptyPattern src)
              else let segs = js_split (CHR ''/'') p2
                   in if list_ex ambiguous_segment segs then Inl (AmbiguousPattern src)
                      else Inr \<lparr>source = src, segments = segs, directory = dir,
                                recursiveDirectory = (length segs > 1 \<and> last segs = ''**''),
                                basenameOnly = (length segs = 1 \<and> \<not> dir)\<rparr>)"

section \<open>One segment\<close>

datatype seg_atom =
  AnyRun                                      \<comment> \<open>\<open>[^/]*\<close>\<close>
| AnyOne                                      \<comment> \<open>\<open>[^/]\<close>\<close>
| CharClass bool "(char \<times> char) list"          \<comment> \<open>negated?, inclusive ranges\<close>
| Literal char

text \<open>The ranges of a class body without backslashes, as \<open>new RegExp(..., "u")\<close> reads them.\<close>

fun class_ranges :: "string \<Rightarrow> scope_error + (char \<times> char) list" where
  "class_ranges [] = Inr []"
| "class_ranges (a # d # b # rest) =
     (if d = CHR ''-''
      then (if a \<le> b then and_then (class_ranges rest) (\<lambda>rs. Inr ((a, b) # rs)) else Inl InvalidRegExp)
      else and_then (class_ranges (d # b # rest)) (\<lambda>rs. Inr ((a, a) # rs)))"
| "class_ranges (a # rest) = and_then (class_ranges rest) (\<lambda>rs. Inr ((a, a) # rs))"

definition class_atom :: "string \<Rightarrow> scope_error + seg_atom" where
  "class_atom body =
     (if js_starts_with ''^'' body
      then and_then (class_ranges (tl body)) (\<lambda>rs. Inr (CharClass True rs))
      else and_then (class_ranges body) (\<lambda>rs. Inr (CharClass False rs)))"

text \<open>
  The expression is assembled left to right and handed to \<open>new RegExp\<close> at the end, so an
  error of a class body's own checks comes before any error of the regular expression; the
  model keeps the two passes: \<open>seg_scan\<close> cuts the pattern, \<open>seg_build\<close> is the constructor.
\<close>

datatype seg_piece = PStar | PQuestion | PClass string | PChar char

function seg_scan :: "string \<Rightarrow> scope_error + seg_piece list" where
  "seg_scan [] = Inr []"
| "seg_scan (c # cs) =
     (if c = CHR ''*'' then and_then (seg_scan cs) (\<lambda>ps. Inr (PStar # ps))
      else if c = CHR ''?'' then and_then (seg_scan cs) (\<lambda>ps. Inr (PQuestion # ps))
      else if c = CHR ''['' then
        (let body = takeWhile (\<lambda>x. x \<noteq> CHR '']'') cs; rest = dropWhile (\<lambda>x. x \<noteq> CHR '']'') cs
         in if rest = [] then Inl UnterminatedClass
            else if body = '''' then Inl EmptyClass
            else let body' = (if js_starts_with ''!'' body then CHR ''^'' # tl body else body)
                 in if CHR 0x5C \<in> set body' then Inl BackslashInClass
                    else and_then (seg_scan (tl rest)) (\<lambda>ps. Inr (PClass body' # ps)))
      else and_then (seg_scan cs) (\<lambda>ps. Inr (PChar c # ps)))"
  by pat_completeness auto
termination
proof (relation "measure length")
  fix c :: char and cs rest :: string
  assume "rest = dropWhile (\<lambda>x. x \<noteq> CHR '']'') cs"
  then have "length (tl rest) \<le> length cs"
    by (simp add: length_dropWhile_le le_trans [OF diff_le_self])
  then show "(tl rest, c # cs) \<in> measure length" by simp
qed auto

fun seg_build :: "seg_piece list \<Rightarrow> scope_error + seg_atom list" where
  "seg_build [] = Inr []"
| "seg_build (PStar # ps) = and_then (seg_build ps) (\<lambda>as. Inr (AnyRun # as))"
| "seg_build (PQuestion # ps) = and_then (seg_build ps) (\<lambda>as. Inr (AnyOne # as))"
| "seg_build (PClass b # ps) =
     and_then (class_atom b) (\<lambda>a. and_then (seg_build ps) (\<lambda>as. Inr (a # as)))"
| "seg_build (PChar c # ps) = and_then (seg_build ps) (\<lambda>as. Inr (Literal c # as))"

definition segmentExpression :: "string \<Rightarrow> scope_error + seg_atom list" where
  "segmentExpression pattern = and_then (seg_scan pattern) seg_build"

definition in_ranges :: "char \<Rightarrow> (char \<times> char) list \<Rightarrow> bool" where
  "in_ranges c rs = list_ex (\<lambda>(a, b). a \<le> c \<and> c \<le> b) rs"

fun atom_accepts :: "seg_atom \<Rightarrow> char \<Rightarrow> bool" where
  "atom_accepts AnyRun c = (c \<noteq> CHR ''/'')"
| "atom_accepts AnyOne c = (c \<noteq> CHR ''/'')"
| "atom_accepts (CharClass neg rs) c = (in_ranges c rs \<noteq> neg)"
| "atom_accepts (Literal l) c = (c = l)"

fun seg_match :: "seg_atom list \<Rightarrow> string \<Rightarrow> bool" where
  "seg_match [] s = (s = [])"
| "seg_match (a # as) [] = (a = AnyRun \<and> seg_match as [])"
| "seg_match (a # as) (c # cs) =
     (if a = AnyRun then seg_match as (c # cs) \<or> (atom_accepts a c \<and> seg_match (a # as) cs)
      else atom_accepts a c \<and> seg_match as cs)"

section \<open>The segment matcher\<close>

type_synonym memo = "nat \<times> nat \<Rightarrow> bool option"

text \<open>
  \<open>visit(patternIndex, pathIndex)\<close> with its memo table threaded. The indices never pass the
  lengths, so \<open>\<ge>\<close> in the first test is the source's \<open>===\<close> on every reachable call.
\<close>

function visit ::
  "string list \<Rightarrow> string list \<Rightarrow> nat \<Rightarrow> nat \<Rightarrow> memo \<Rightarrow> scope_error + (bool \<times> memo)" where
  "visit pat path i j memo =
     (case memo (i, j) of
        Some known \<Rightarrow> Inr (known, memo)
      | None \<Rightarrow>
          (if i \<ge> length pat
           then let m = (j = length path) in Inr (m, memo((i, j) \<mapsto> m))
           else if pat ! i = ''**'' then
             (case visit pat path (Suc i) j memo of
                Inl e \<Rightarrow> Inl e
              | Inr (True, memo1) \<Rightarrow> Inr (True, memo1((i, j) \<mapsto> True))
              | Inr (False, memo1) \<Rightarrow>
                  (if j < length path
                   then case visit pat path i (Suc j) memo1 of
                          Inl e \<Rightarrow> Inl e
                        | Inr (m, memo2) \<Rightarrow> Inr (m, memo2((i, j) \<mapsto> m))
                   else Inr (False, memo1((i, j) \<mapsto> False))))
           else if j < length path then
             (case segmentExpression (pat ! i) of
                Inl e \<Rightarrow> Inl e
              | Inr re \<Rightarrow>
                  (if seg_match re (path ! j)
                   then case visit pat path (Suc i) (Suc j) memo of
                          Inl e \<Rightarrow> Inl e
                        | Inr (m, memo1) \<Rightarrow> Inr (m, memo1((i, j) \<mapsto> m))
                   else Inr (False, memo((i, j) \<mapsto> False))))
           else Inr (False, memo((i, j) \<mapsto> False))))"
  by pat_completeness auto
termination
  by (relation "measure (\<lambda>(pat, path, i, j, memo). (length pat - i) + (length path - j))") auto

declare visit.simps [simp del]

definition segmentsMatch :: "string list \<Rightarrow> string list \<Rightarrow> scope_error + bool" where
  "segmentsMatch pat path = and_then (visit pat path 0 0 (\<lambda>_. None)) (\<lambda>(m, _). Inr m)"

definition test_segment :: "string \<Rightarrow> string \<Rightarrow> scope_error + bool" where
  "test_segment pat s = and_then (segmentExpression pat) (\<lambda>re. Inr (seg_match re s))"

definition pathMatchesPattern :: "string \<Rightarrow> string \<Rightarrow> scope_error + bool" where
  "pathMatchesPattern path src =
     and_then (normalizeRepositoryPath path) (\<lambda>normalized.
       let pathSegments = js_split (CHR ''/'') normalized
       in and_then (compilePattern src) (\<lambda>p.
            if basenameOnly p then
              (if hd (segments p) = ''**'' then Inr True
               else test_segment (hd (segments p)) (last pathSegments))
            else if directory p then
              (if length pathSegments \<le> length (segments p) then Inr False
               else segmentsMatch (segments p) (take (length (segments p)) pathSegments))
            else if recursiveDirectory p \<and> length pathSegments < length (segments p) then Inr False
            else segmentsMatch (segments p) pathSegments))"

section \<open>The decision\<close>

fun compile_all :: "string list \<Rightarrow> scope_error + compiled_pattern list" where
  "compile_all [] = Inr []"
| "compile_all (s # ss) =
     and_then (compilePattern s) (\<lambda>p. and_then (compile_all ss) (\<lambda>ps. Inr (p # ps)))"

definition check_segment :: "string \<Rightarrow> scope_error + unit" where
  "check_segment seg = (if seg = ''**'' then Inr () else and_then (segmentExpression seg) (\<lambda>_. Inr ()))"

definition compile_scope :: "change_scope \<Rightarrow> scope_error + (compiled_pattern list \<times> compiled_pattern list)" where
  "compile_scope scope =
     and_then (compile_all (allowedPaths scope)) (\<lambda>allowed.
     and_then (compile_all (forbiddenPaths scope)) (\<lambda>forbidden.
     and_then (all_ok (\<lambda>p. all_ok check_segment (segments p)) (allowed @ forbidden)) (\<lambda>_.
     Inr (allowed, forbidden))))"

text \<open>\<open>patterns.find\<close>, stopping at the first match or the first exception.\<close>

fun find_match :: "string \<Rightarrow> compiled_pattern list \<Rightarrow> scope_error + compiled_pattern option" where
  "find_match path [] = Inr None"
| "find_match path (p # ps) =
     and_then (pathMatchesPattern path (source p)) (\<lambda>m. if m then Inr (Some p) else find_match path ps)"

fun check_paths ::
  "compiled_pattern list \<Rightarrow> compiled_pattern list \<Rightarrow> string list \<Rightarrow> scope_error + change_scope_violation list" where
  "check_paths allowed forbidden [] = Inr []"
| "check_paths allowed forbidden (candidate # rest) =
     (case normalizeRepositoryPath candidate of
        Inl e \<Rightarrow> and_then (check_paths allowed forbidden rest) (\<lambda>vs.
          Inr (\<lparr>vio_path = candidate, vio_reason = InvalidPath, vio_pattern = None,
                vio_error = Some e\<rparr> # vs))
      | Inr path \<Rightarrow>
          and_then (find_match path forbidden) (\<lambda>denied.
            case denied of
              Some p \<Rightarrow> and_then (check_paths allowed forbidden rest) (\<lambda>vs.
                Inr (\<lparr>vio_path = path, vio_reason = ForbiddenPath, vio_pattern = Some (source p),
                      vio_error = None\<rparr> # vs))
            | None \<Rightarrow>
                and_then (find_match path allowed) (\<lambda>permitted.
                  if permitted = None
                  then and_then (check_paths allowed forbidden rest) (\<lambda>vs.
                    Inr (\<lparr>vio_path = path, vio_reason = OutsideAllowedPaths, vio_pattern = None,
                          vio_error = None\<rparr> # vs))
                  else check_paths allowed forbidden rest)))"

definition evaluateChangedPathScope ::
  "string list \<Rightarrow> change_scope \<Rightarrow> scope_error + (bool \<times> change_scope_violation list)" where
  "evaluateChangedPathScope changedPaths scope =
     (case compile_scope scope of
        Inl e \<Rightarrow> Inr (False, [\<lparr>vio_path = ''<policy>'', vio_reason = InvalidPattern,
                              vio_pattern = None, vio_error = Some e\<rparr>])
      | Inr (allowed, forbidden) \<Rightarrow>
          and_then (check_paths allowed forbidden changedPaths) (\<lambda>vs. Inr (length vs = 0, vs)))"

datatype scope_failure = Thrown scope_error | ChangeScopeError "change_scope_violation list"

definition assertChangedPathScope :: "string list \<Rightarrow> change_scope \<Rightarrow> scope_failure + unit" where
  "assertChangedPathScope changedPaths scope =
     (case evaluateChangedPathScope changedPaths scope of
        Inl e \<Rightarrow> Inl (Thrown e)
      | Inr (accepted, vs) \<Rightarrow> (if \<not> accepted then Inl (ChangeScopeError vs) else Inr ()))"

section \<open>The memoised matcher against a reference matcher\<close>

fun segs_ref :: "string list \<Rightarrow> string list \<Rightarrow> scope_error + bool" where
  "segs_ref [] path = Inr (path = [])"
| "segs_ref (p # ps) [] =
     (if p = ''**'' then segs_ref ps [] else Inr False)"
| "segs_ref (p # ps) (q # qs) =
     (if p = ''**''
      then and_then (segs_ref ps (q # qs)) (\<lambda>m. if m then Inr True else segs_ref (p # ps) qs)
      else and_then (segmentExpression p) (\<lambda>re. if seg_match re q then segs_ref ps qs else Inr False))"

definition memo_ok :: "string list \<Rightarrow> string list \<Rightarrow> memo \<Rightarrow> bool" where
  "memo_ok pat path memo \<longleftrightarrow>
     (\<forall>i j b. memo (i, j) = Some b \<longrightarrow> segs_ref (drop i pat) (drop j path) = Inr b)"

definition agrees ::
  "string list \<Rightarrow> string list \<Rightarrow> scope_error + bool \<Rightarrow> scope_error + (bool \<times> memo) \<Rightarrow> bool" where
  "agrees pat path r v \<longleftrightarrow>
     (case v of Inl e \<Rightarrow> r = Inl e | Inr (b, memo) \<Rightarrow> r = Inr b \<and> memo_ok pat path memo)"

lemma agrees_Inl [simp]: "agrees pat path r (Inl e) \<longleftrightarrow> r = Inl e"
  by (simp add: agrees_def)

lemma agrees_Inr [simp]: "agrees pat path r (Inr (b, memo)) \<longleftrightarrow> r = Inr b \<and> memo_ok pat path memo"
  by (simp add: agrees_def)

lemma memo_ok_upd:
  "memo_ok pat path memo \<Longrightarrow> segs_ref (drop i pat) (drop j path) = Inr b \<Longrightarrow>
     memo_ok pat path (memo((i, j) \<mapsto> b))"
  by (auto simp: memo_ok_def)

lemma segs_ref_star_drop:
  "i < length pat \<Longrightarrow> pat ! i = ''**'' \<Longrightarrow>
     segs_ref (drop i pat) (drop j path) =
       and_then (segs_ref (drop (Suc i) pat) (drop j path))
         (\<lambda>m. if m then Inr True
              else if j < length path then segs_ref (drop i pat) (drop (Suc j) path) else Inr False)"
proof -
  assume "i < length pat" and "pat ! i = ''**''"
  then have pat: "drop i pat = ''**'' # drop (Suc i) pat"
    by (simp add: Cons_nth_drop_Suc [symmetric])
  show ?thesis
  proof (cases "j < length path")
    case True
    then have "drop j path = path ! j # drop (Suc j) path"
      by (simp add: Cons_nth_drop_Suc)
    with True pat show ?thesis by (simp cong: if_cong)
  next
    case False
    with pat show ?thesis by (cases "segs_ref (drop (Suc i) pat) []") simp_all
  qed
qed

lemma segs_ref_plain_drop:
  "i < length pat \<Longrightarrow> pat ! i \<noteq> ''**'' \<Longrightarrow> j < length path \<Longrightarrow>
     segs_ref (drop i pat) (drop j path) =
       and_then (segmentExpression (pat ! i))
         (\<lambda>re. if seg_match re (path ! j) then segs_ref (drop (Suc i) pat) (drop (Suc j) path) else Inr False)"
  by (simp add: Cons_nth_drop_Suc [symmetric])

lemma visit_agrees:
  "memo_ok pat path memo \<Longrightarrow> j \<le> length path \<Longrightarrow>
     agrees pat path (segs_ref (drop i pat) (drop j path)) (visit pat path i j memo)"
proof (induction pat path i j memo rule: visit.induct)
  case (1 pat path i j memo)
  note memo = "1.prems"(1) and j = "1.prems"(2)
  show ?case
  proof (cases "memo (i, j)")
    case (Some known)
    then show ?thesis using memo by (simp add: visit.simps [of pat path i j memo] memo_ok_def)
  next
    case None
    consider (fin) "i \<ge> length pat" | (star) "i < length pat" "pat ! i = ''**''"
      | (over) "i < length pat" "pat ! i \<noteq> ''**''" "j \<ge> length path"
      | (plain) "i < length pat" "pat ! i \<noteq> ''**''" "j < length path"
      by linarith
    then show ?thesis
    proof cases
      case fin
      then show ?thesis
        using None memo j by (auto simp: visit.simps [of pat path i j memo] Let_def intro!: memo_ok_upd)
    next
      case star
      note ref = segs_ref_star_drop [OF star, of j path]
      have nle: "\<not> length pat \<le> i" using star by simp
      have sub: "agrees pat path (segs_ref (drop (Suc i) pat) (drop j path)) (visit pat path (Suc i) j memo)"
        using "1.IH"(1) [OF None nle star(2) memo j] .
      show ?thesis
      proof (cases "visit pat path (Suc i) j memo")
        case (Inl e)
        then show ?thesis using sub None star by (simp add: visit.simps [of pat path i j memo] ref)
      next
        case (Inr r)
        obtain b memo1 where r: "r = (b, memo1)" by fastforce
        have b: "segs_ref (drop (Suc i) pat) (drop j path) = Inr b" and m1: "memo_ok pat path memo1"
          using sub Inr r by simp_all
        show ?thesis
        proof (cases "b \<or> j \<ge> length path")
          case True
          have upd: "memo_ok pat path (memo1((i, j) \<mapsto> b))"
            using True b m1 by (intro memo_ok_upd) (auto simp: ref)
          show ?thesis
            unfolding ref using True Inr r b upd None star
            by (cases b) (simp_all add: visit.simps [of pat path i j memo])
        next
          case False
          then have F: "\<not> b" "j < length path" by auto
          have sub2: "agrees pat path (segs_ref (drop i pat) (drop (Suc j) path)) (visit pat path i (Suc j) memo1)"
            using "1.IH"(2) [OF None nle star(2) Inr r [symmetric]] F m1 by simp
          then show ?thesis
            using Inr r b F None star
            by (auto simp: visit.simps [of pat path i j memo] ref agrees_def memo_ok_upd split: sum.splits)
        qed
      qed
    next
      case over
      then show ?thesis
        using None memo by (auto simp: visit.simps [of pat path i j memo] Cons_nth_drop_Suc [symmetric]
            intro!: memo_ok_upd)
    next
      case plain
      note ref = segs_ref_plain_drop [OF plain]
      show ?thesis
      proof (cases "segmentExpression (pat ! i)")
        case (Inl e)
        then show ?thesis using None plain by (simp add: visit.simps [of pat path i j memo] ref)
      next
        case (Inr re)
        have nle: "\<not> length pat \<le> i" using plain by simp
        have "seg_match re (path ! j) \<Longrightarrow>
            agrees pat path (segs_ref (drop (Suc i) pat) (drop (Suc j) path)) (visit pat path (Suc i) (Suc j) memo)"
          using "1.IH"(3) [OF None nle plain(2,3) Inr _ memo] plain by simp
        then show ?thesis
          using Inr memo None plain
          by (auto simp: visit.simps [of pat path i j memo] ref agrees_def memo_ok_upd split: sum.splits)
      qed
    qed
  qed
qed

lemma segmentsMatch_ref: "segmentsMatch pat path = segs_ref pat path"
  using visit_agrees [of pat path "\<lambda>_. None" 0 0]
  by (auto simp: segmentsMatch_def agrees_def memo_ok_def split: sum.splits)

section \<open>What a match means\<close>

text \<open>
  The declarative reading of a pattern: \<open>**\<close> covers any number of segments, every other
  segment covers one path segment that its expression matches.
\<close>

inductive covers :: "string list \<Rightarrow> string list \<Rightarrow> bool" where
  covers_Nil: "covers [] []"
| covers_skip: "covers ps qs \<Longrightarrow> covers (''**'' # ps) qs"
| covers_star: "covers (''**'' # ps) qs \<Longrightarrow> covers (''**'' # ps) (q # qs)"
| covers_seg: "p \<noteq> ''**'' \<Longrightarrow> segmentExpression p = Inr re \<Longrightarrow> seg_match re q \<Longrightarrow> covers ps qs \<Longrightarrow>
     covers (p # ps) (q # qs)"

inductive_simps covers_Nil_iff: "covers [] qs"
inductive_simps covers_Cons_iff: "covers (p # ps) (q # qs)"
inductive_simps covers_end_iff: "covers (p # ps) []"

lemma segs_ref_covers: "segs_ref pat path = Inr b \<Longrightarrow> b \<longleftrightarrow> covers pat path"
proof (induction pat path arbitrary: b rule: segs_ref.induct)
  case (1 path)
  then show ?case by (auto simp: covers_Nil_iff)
next
  case (2 p ps)
  then show ?case by (auto simp: covers_end_iff split: if_splits)
next
  case (3 p ps q qs)
  show ?case
  proof (cases "p = ''**''")
    case True
    then show ?thesis
      using 3 by (fastforce simp: covers_Cons_iff result_simps split: if_splits)
  next
    case False
    then obtain re where re: "segmentExpression p = Inr re"
      and b: "(if seg_match re q then segs_ref ps qs else Inr False) = Inr b"
      using "3.prems" by (auto simp: result_simps)
    then show ?thesis
      using "3.IH"(3) [OF False] re False b by (auto simp: covers_Cons_iff split: if_splits)
  qed
qed

definition segments_ok :: "string list \<Rightarrow> bool" where
  "segments_ok segs \<longleftrightarrow> (\<forall>s \<in> set segs. check_segment s = Inr ())"

lemma check_segment_ok: "check_segment s = Inr () \<Longrightarrow> s \<noteq> ''**'' \<Longrightarrow> \<exists>re. segmentExpression s = Inr re"
  by (auto simp: check_segment_def result_simps)

lemma segs_ref_ok: "segments_ok pat \<Longrightarrow> \<exists>b. segs_ref pat path = Inr b"
proof (induction pat path rule: segs_ref.induct)
  case (3 p ps q qs)
  show ?case
  proof (cases "p = ''**''")
    case True
    with 3 show ?thesis by (fastforce simp: segments_ok_def)
  next
    case False
    then obtain re where re: "segmentExpression p = Inr re"
      using "3.prems" check_segment_ok [of p] by (auto simp: segments_ok_def)
    then show ?thesis using "3.IH"(3) [OF False] "3.prems" False by (auto simp: segments_ok_def)
  qed
qed (auto simp: segments_ok_def)

lemma segmentsMatch_ok: "segments_ok pat \<Longrightarrow> segmentsMatch pat path = Inr (covers pat path)"
  using segs_ref_ok [of pat path] segs_ref_covers [of pat path] by (auto simp: segmentsMatch_ref)

lemma normalize_Inr: "normalizeRepositoryPath c = Inr n \<Longrightarrow> n = c"
  by (auto simp: normalizeRepositoryPath_def Let_def js_simps split: if_splits)

lemma normalize_segments:
  "normalizeRepositoryPath c = Inr n \<Longrightarrow>
     (\<forall>s \<in> set (js_split (CHR ''/'') c). \<not> ambiguous_segment s)"
  by (auto simp: normalizeRepositoryPath_def Let_def list_ex_iff split: if_splits)

lemma compile_source: "compilePattern src = Inr p \<Longrightarrow> source p = src \<and> segments p \<noteq> []"
  by (auto simp: compilePattern_def Let_def split: if_splits)

lemma pathMatches_ok:
  assumes "normalizeRepositoryPath c = Inr n" and "compilePattern src = Inr p"
    and "segments_ok (segments p)"
  shows "\<exists>b. pathMatchesPattern c src = Inr b"
proof -
  have "hd (segments p) = ''**'' \<or> (\<exists>b. test_segment (hd (segments p)) s = Inr b)" for s
  proof (cases "hd (segments p) = ''**''")
    case False
    moreover have "check_segment (hd (segments p)) = Inr ()"
      using assms(3) compile_source [OF assms(2)] by (auto simp: segments_ok_def)
    ultimately obtain re where "segmentExpression (hd (segments p)) = Inr re"
      using check_segment_ok by blast
    then show ?thesis by (simp add: test_segment_def)
  qed simp
  then show ?thesis
    using assms by (auto simp: pathMatchesPattern_def Let_def segmentsMatch_ok)
qed

definition compiled_ok :: "compiled_pattern \<Rightarrow> bool" where
  "compiled_ok p \<longleftrightarrow> compilePattern (source p) = Inr p \<and> segments_ok (segments p)"

lemma compile_all_iff:
  "compile_all ss = Inr ps \<longleftrightarrow> list_all2 (\<lambda>s p. compilePattern s = Inr p) ss ps"
  by (induction ss arbitrary: ps) (auto simp: result_simps list_all2_Cons1)

lemma compile_all_compiled:
  assumes "compile_all ss = Inr ps" and "p \<in> set ps"
  shows "compilePattern (source p) = Inr p \<and> source p \<in> set ss"
proof -
  obtain k where "k < length ps" "ps ! k = p" using assms(2) by (auto simp: in_set_conv_nth)
  moreover have "length ss = length ps" "compilePattern (ss ! k) = Inr (ps ! k)"
    using assms(1) calculation by (auto simp: compile_all_iff list_all2_conv_all_nth)
  ultimately show ?thesis
    using compile_source [of "ss ! k" p] by auto
qed

lemma compile_scope_ok:
  assumes "compile_scope scope = Inr (A, F)" and "p \<in> set (A @ F)"
  shows "compiled_ok p"
proof -
  have "all_ok (\<lambda>p. all_ok check_segment (segments p)) (A @ F) = Inr ()"
    and "compile_all (allowedPaths scope) = Inr A" "compile_all (forbiddenPaths scope) = Inr F"
    using assms(1) by (auto simp: compile_scope_def result_simps)
  then show ?thesis
    using assms(2) compile_all_compiled [of _ _ p]
    by (auto simp: compiled_ok_def segments_ok_def result_simps)
qed

lemma find_match_ok:
  assumes "normalizeRepositoryPath c = Inr n" and "\<forall>p \<in> set ps. compiled_ok p"
  shows "\<exists>r. find_match c ps = Inr r \<and>
     (r = None \<longleftrightarrow> (\<forall>p \<in> set ps. pathMatchesPattern c (source p) = Inr False))"
  using assms(2)
proof (induction ps)
  case (Cons p ps)
  then obtain b where "pathMatchesPattern c (source p) = Inr b"
    using pathMatches_ok [OF assms(1), of "source p" p] by (auto simp: compiled_ok_def)
  with Cons show ?case by auto
qed simp

definition in_scope :: "compiled_pattern list \<Rightarrow> compiled_pattern list \<Rightarrow> string \<Rightarrow> bool" where
  "in_scope A F c \<longleftrightarrow> normalizeRepositoryPath c = Inr c \<and>
     (\<forall>p \<in> set F. pathMatchesPattern c (source p) = Inr False) \<and>
     (\<exists>p \<in> set A. pathMatchesPattern c (source p) = Inr True)"

lemma check_paths_ok:
  assumes "\<forall>p \<in> set (A @ F). compiled_ok p"
  shows "\<exists>vs. check_paths A F cs = Inr vs \<and> (vs = [] \<longleftrightarrow> (\<forall>c \<in> set cs. in_scope A F c))"
proof (induction cs)
  case (Cons c cs)
  then obtain vs where vs: "check_paths A F cs = Inr vs" "vs = [] \<longleftrightarrow> (\<forall>c \<in> set cs. in_scope A F c)"
    by blast
  show ?case
  proof (cases "normalizeRepositoryPath c")
    case (Inl e)
    with vs show ?thesis by (auto simp: in_scope_def)
  next
    case (Inr n)
    then have n: "n = c" by (rule normalize_Inr)
    obtain d where d: "find_match c F = Inr d"
      "d = None \<longleftrightarrow> (\<forall>p \<in> set F. pathMatchesPattern c (source p) = Inr False)"
      using find_match_ok [OF Inr, of F] assms by auto
    obtain a where a: "find_match c A = Inr a"
      "a = None \<longleftrightarrow> (\<forall>p \<in> set A. pathMatchesPattern c (source p) = Inr False)"
      using find_match_ok [OF Inr, of A] assms by auto
    have "\<exists>b. pathMatchesPattern c (source p) = Inr b" if "p \<in> set A" for p
      using that assms pathMatches_ok [OF Inr, of "source p" p] by (auto simp: compiled_ok_def)
    then have "(\<exists>p \<in> set A. pathMatchesPattern c (source p) = Inr True) \<longleftrightarrow> a \<noteq> None"
      using a(2) by (metis (full_types) sum.inject(2))
    then have "in_scope A F c \<longleftrightarrow> d = None \<and> a \<noteq> None"
      using Inr n d(2) by (simp add: in_scope_def)
    with vs d(1) a(1) Inr n show ?thesis by (cases d; cases a) auto
  qed
qed simp

lemma evaluate_total: "\<exists>r. evaluateChangedPathScope cs scope = Inr r"
proof (cases "compile_scope scope")
  case (Inr af)
  obtain A F where af: "af = (A, F)" by fastforce
  then obtain ws where "check_paths A F cs = Inr ws"
    using Inr check_paths_ok [of A F cs] compile_scope_ok [of scope A F] by blast
  then show ?thesis
    using Inr af by (simp add: evaluateChangedPathScope_def)
qed (auto simp: evaluateChangedPathScope_def)

lemma evaluate_accepted_iff:
  "evaluateChangedPathScope cs scope = Inr (True, vs) \<longleftrightarrow>
     vs = [] \<and> (\<exists>A F. compile_scope scope = Inr (A, F) \<and> (\<forall>c \<in> set cs. in_scope A F c))"
proof (cases "compile_scope scope")
  case (Inr af)
  obtain A F where af: "af = (A, F)" by fastforce
  obtain ws where "check_paths A F cs = Inr ws" "ws = [] \<longleftrightarrow> (\<forall>c \<in> set cs. in_scope A F c)"
    using check_paths_ok [of A F cs] compile_scope_ok [of scope A F] Inr af by blast
  then show ?thesis using Inr af by (auto simp: evaluateChangedPathScope_def)
qed (simp add: evaluateChangedPathScope_def)

section \<open>Confinement to a directory\<close>

text \<open>A segment of ordinary characters is matched literally.\<close>

definition plain_segment :: "string \<Rightarrow> bool" where
  "plain_segment s \<longleftrightarrow> \<not> ambiguous_segment s \<and>
     set s \<inter> {CHR ''*'', CHR ''?'', CHR ''['', CHR 0x5C, CHR 0x00, CHR ''/'', CHR ''!''} = {}"

lemma plain_nonempty: "plain_segment s \<Longrightarrow> s \<noteq> []"
  by (auto simp: plain_segment_def ambiguous_segment_def)

lemma seg_scan_plain:
  "set s \<inter> {CHR ''*'', CHR ''?'', CHR ''[''} = {} \<Longrightarrow> seg_scan s = Inr (map PChar s)"
  by (induction s) auto

lemma seg_build_plain: "seg_build (map PChar s) = Inr (map Literal s)"
  by (induction s) auto

lemma seg_match_literal: "seg_match (map Literal s) t \<longleftrightarrow> t = s"
proof (induction s arbitrary: t)
  case (Cons c s)
  then show ?case by (cases t) auto
qed simp

lemma segmentExpression_plain: "plain_segment s \<Longrightarrow> segmentExpression s = Inr (map Literal s)"
  by (simp add: segmentExpression_def plain_segment_def seg_scan_plain seg_build_plain)

lemma plain_not_star: "plain_segment s \<Longrightarrow> s \<noteq> ''**''"
  by (auto simp: plain_segment_def)

lemma plain_segments_ok: "\<forall>s \<in> set ds. plain_segment s \<Longrightarrow> segments_ok (ds @ [''**''])"
  by (auto simp: segments_ok_def check_segment_def segmentExpression_plain)

lemma covers_plain_prefix:
  "\<forall>s \<in> set ds. plain_segment s \<Longrightarrow> covers (ds @ [''**'']) path \<Longrightarrow> \<exists>rest. path = ds @ rest"
proof (induction ds arbitrary: path)
  case (Cons d ds)
  then have "d \<noteq> ''**''" by (auto dest: plain_not_star)
  with Cons show ?case
    by (cases path)
      (auto simp: covers_Cons_iff covers_end_iff segmentExpression_plain seg_match_literal)
qed simp

definition directory_pattern :: "string list \<Rightarrow> string" where
  "directory_pattern ds = js_join ''/'' (ds @ [''**''])"

lemma join_snoc: "ds \<noteq> [] \<Longrightarrow> js_join sep (ds @ [x]) = js_join sep ds @ sep @ x"
  by (induction ds rule: induct_list012) auto

lemma set_js_join: "set (js_join sep ws) \<subseteq> set sep \<union> \<Union> (set ` set ws)"
  by (induction sep ws rule: js_join.induct) auto

lemma hd_js_join: "ws \<noteq> [] \<Longrightarrow> hd ws \<noteq> [] \<Longrightarrow> js_join sep ws \<noteq> [] \<and> hd (js_join sep ws) = hd (hd ws)"
  by (induction ws rule: induct_list012) auto

lemma compile_directory_pattern:
  assumes "ds \<noteq> []" and "\<forall>s \<in> set ds. plain_segment s"
  shows "compilePattern (directory_pattern ds) =
     Inr \<lparr>source = directory_pattern ds, segments = ds @ [''**''], directory = False,
          recursiveDirectory = True, basenameOnly = False\<rparr>"
proof -
  let ?p = "directory_pattern ds"
  have hd0: "plain_segment (hd ds)" using assms by simp
  have hd: "?p \<noteq> [] \<and> hd ?p = hd (hd ds)"
    using assms(1) plain_nonempty [OF hd0] hd_js_join [of "ds @ [''**'']" "''/''"]
    by (simp add: directory_pattern_def)
  have first: "hd ?p \<noteq> CHR ''/''" "hd ?p \<noteq> CHR ''!''"
    using hd0 hd hd_in_set [OF plain_nonempty [OF hd0]] by (auto simp: plain_segment_def)
  have chars: "CHR 0x00 \<notin> set ?p" "CHR 0x5C \<notin> set ?p"
    using assms(2) set_js_join [of "''/''" "ds @ [''**'']"]
    by (auto simp: directory_pattern_def plain_segment_def)
  have last: "last ?p = CHR ''*''"
    using assms(1) by (simp add: directory_pattern_def join_snoc)
  have split: "js_split (CHR ''/'') ?p = ds @ [''**'']"
    unfolding directory_pattern_def using assms(2)
    by (intro js_split_join) (auto simp: plain_segment_def)
  have starts: "\<not> js_starts_with ''!'' ?p" "\<not> js_starts_with ''/'' ?p"
    using hd first by (cases ?p; simp)+
  have "\<not> list_ex ambiguous_segment (ds @ [''**''])"
    using assms(2) by (auto simp: ambiguous_segment_def plain_segment_def list_ex_iff)
  then show ?thesis
    using hd chars last split starts assms(1) by (simp add: compilePattern_def Let_def)
qed

lemma directory_pattern_match:
  assumes "ds \<noteq> []" and "\<forall>s \<in> set ds. plain_segment s"
    and "pathMatchesPattern path (directory_pattern ds) = Inr True"
  shows "\<exists>rest. rest \<noteq> [] \<and> js_split (CHR ''/'') path = ds @ rest"
proof -
  obtain n where n: "normalizeRepositoryPath path = Inr n"
    using assms(3) by (auto simp: pathMatchesPattern_def result_simps)
  then have "n = path" by (rule normalize_Inr)
  then have m: "length (js_split (CHR ''/'') path) \<ge> length ds + 1"
    "covers (ds @ [''**'']) (js_split (CHR ''/'') path)"
    using assms(3) n segmentsMatch_ok [OF plain_segments_ok [OF assms(2)]]
    by (auto simp: pathMatchesPattern_def compile_directory_pattern [OF assms(1,2)] Let_def
        split: if_splits)
  then show ?thesis
    using covers_plain_prefix [OF assms(2) m(2)] by fastforce
qed

section \<open>Properties\<close>

text \<open>The policy a scope states, without its compilation.\<close>

definition policy_compiles :: "change_scope \<Rightarrow> bool" where
  "policy_compiles scope \<longleftrightarrow>
     (\<forall>s \<in> set (allowedPaths scope @ forbiddenPaths scope).
        case compilePattern s of Inl _ \<Rightarrow> False | Inr p \<Rightarrow> segments_ok (segments p))"

lemma policy_compiles_iff:
  "policy_compiles scope \<longleftrightarrow>
     (\<forall>s \<in> set (allowedPaths scope @ forbiddenPaths scope).
        \<exists>p. compilePattern s = Inr p \<and> segments_ok (segments p))"
  unfolding policy_compiles_def by (intro ball_cong) (auto split: sum.splits)

definition path_permitted :: "change_scope \<Rightarrow> string \<Rightarrow> bool" where
  "path_permitted scope c \<longleftrightarrow> normalizeRepositoryPath c = Inr c \<and>
     (\<forall>s \<in> set (forbiddenPaths scope). pathMatchesPattern c s = Inr False) \<and>
     (\<exists>s \<in> set (allowedPaths scope). pathMatchesPattern c s = Inr True)"

lemma compile_all_sources: "compile_all ss = Inr ps \<Longrightarrow> map source ps = ss"
  by (induction ss arbitrary: ps) (auto simp: result_simps dest: compile_source)

lemma compile_all_total:
  "(\<exists>ps. compile_all ss = Inr ps) \<longleftrightarrow> (\<forall>s \<in> set ss. \<exists>p. compilePattern s = Inr p)"
  by (induction ss) (auto simp: result_simps)

lemma compile_scope_sources:
  assumes "compile_scope scope = Inr (A, F)"
  shows "map source A = allowedPaths scope" "map source F = forbiddenPaths scope"
  using assms by (auto simp: compile_scope_def result_simps dest: compile_all_sources)

lemma compile_scope_iff: "(\<exists>AF. compile_scope scope = Inr AF) \<longleftrightarrow> policy_compiles scope"
proof
  assume "\<exists>AF. compile_scope scope = Inr AF"
  then obtain A F where c: "compile_scope scope = Inr (A, F)" by fastforce
  have "\<exists>p. compilePattern s = Inr p \<and> segments_ok (segments p)"
    if "s \<in> set (allowedPaths scope @ forbiddenPaths scope)" for s
  proof -
    have "s \<in> source ` set (A @ F)"
      using that compile_scope_sources [OF c] by (metis list.set_map map_append)
    then show ?thesis using compile_scope_ok [OF c] by (auto simp: compiled_ok_def)
  qed
  then show "policy_compiles scope" by (simp add: policy_compiles_iff)
next
  assume ok: "policy_compiles scope"
  then obtain A F where AF: "compile_all (allowedPaths scope) = Inr A"
    "compile_all (forbiddenPaths scope) = Inr F"
    using compile_all_total [of "allowedPaths scope"] compile_all_total [of "forbiddenPaths scope"]
    by (fastforce simp: policy_compiles_iff)
  have "all_ok check_segment (segments p) = Inr ()" if "p \<in> set (A @ F)" for p
  proof -
    have "compilePattern (source p) = Inr p"
      "source p \<in> set (allowedPaths scope @ forbiddenPaths scope)"
      using that compile_all_compiled AF by auto
    then have "segments_ok (segments p)"
      using ok unfolding policy_compiles_iff by (metis sum.inject(2))
    then show ?thesis by (simp add: segments_ok_def all_ok_Inr_iff)
  qed
  then have "all_ok (\<lambda>p. all_ok check_segment (segments p)) (A @ F) = Inr ()"
    by (auto simp: result_simps)
  with AF show "\<exists>AF. compile_scope scope = Inr AF" by (simp add: compile_scope_def)
qed

lemma in_scope_permitted:
  "compile_scope scope = Inr (A, F) \<Longrightarrow> in_scope A F c \<longleftrightarrow> path_permitted scope c"
  by (auto simp: in_scope_def path_permitted_def compile_scope_sources [symmetric])

lemma evaluate_permitted:
  "evaluateChangedPathScope cs scope = Inr (True, vs) \<longleftrightarrow>
     vs = [] \<and> policy_compiles scope \<and> (\<forall>c \<in> set cs. path_permitted scope c)"
proof (cases "compile_scope scope")
  case (Inl e)
  then show ?thesis using compile_scope_iff [of scope] by (auto simp: evaluate_accepted_iff)
next
  case (Inr AF)
  then show ?thesis
    using compile_scope_iff [of scope] in_scope_permitted [of scope]
    by (cases AF) (auto simp: evaluate_accepted_iff)
qed



text \<open>The evaluation of a diff never throws, whatever the paths and the patterns: malformed
  paths and malformed patterns are reported as violations and reject the diff.\<close>

theorem scope_evaluation_total:
  "\<exists>accepted vs. evaluateChangedPathScope cs scope = Inr (accepted, vs) \<and> (accepted \<longleftrightarrow> vs = [])"
proof (cases "compile_scope scope")
  case (Inr AF)
  then obtain A F where "compile_scope scope = Inr (A, F)" by (cases AF) auto
  moreover obtain ws where "check_paths A F cs = Inr ws"
    using calculation check_paths_ok [of A F cs] compile_scope_ok [of scope A F] by blast
  ultimately show ?thesis by (simp add: evaluateChangedPathScope_def)
qed (auto simp: evaluateChangedPathScope_def)

text \<open>on compiled segments the memoised matcher computes the declarative reading of a
  pattern, in which two stars cover any run of segments and every other pattern segment covers
  one path segment.\<close>

theorem memoised_match_is_cover:
  assumes "segments_ok pat"
  shows "segmentsMatch pat path = Inr (covers pat path)"
  using assms by (rule segmentsMatch_ok)

theorem memoised_match_is_cover_witness:
  "covers [''src'', ''**'', ''*.ts''] [''src'', ''a'', ''b'', ''c.ts'']"
proof -
  have "segments_ok [''src'', ''**'', ''*.ts'']" by code_simp
  note m = memoised_match_is_cover [OF this, of "[''src'', ''a'', ''b'', ''c.ts'']"]
  have "segmentsMatch [''src'', ''**'', ''*.ts''] [''src'', ''a'', ''b'', ''c.ts''] = Inr True"
    by code_simp
  with m show ?thesis by simp
qed

text \<open>when the only allowed pattern is a plain directory followed by two stars, every path of
  an accepted diff lies strictly below that directory, and none of its segments is empty,
  \<open>.\<close> or \<open>..\<close>: the diff cannot leave the directory.\<close>

theorem accepted_diff_confined:
  assumes "ds \<noteq> []" and "\<forall>s \<in> set ds. plain_segment s"
    and "evaluateChangedPathScope cs
           \<lparr>allowedPaths = [directory_pattern ds], forbiddenPaths = F\<rparr> = Inr (True, vs)"
    and "c \<in> set cs"
  shows "\<exists>rest. rest \<noteq> [] \<and> js_split (CHR ''/'') c = ds @ rest \<and>
     (\<forall>s \<in> set rest. \<not> ambiguous_segment s)"
proof -
  have p: "path_permitted \<lparr>allowedPaths = [directory_pattern ds], forbiddenPaths = F\<rparr> c"
    using assms(3,4) by (simp add: evaluate_permitted)
  then obtain rest where "rest \<noteq> []" "js_split (CHR ''/'') c = ds @ rest"
    using directory_pattern_match [OF assms(1,2)] by (auto simp: path_permitted_def)
  moreover have "\<forall>s \<in> set (js_split (CHR ''/'') c). \<not> ambiguous_segment s"
    using p normalize_segments by (auto simp: path_permitted_def)
  ultimately show ?thesis by auto
qed

theorem accepted_diff_confined_witness:
  "\<exists>rest. rest \<noteq> [] \<and> js_split (CHR ''/'') ''src/pr/a.ts'' = [''src'', ''pr''] @ rest \<and>
     (\<forall>s \<in> set rest. \<not> ambiguous_segment s)"
proof (rule accepted_diff_confined [of "[''src'', ''pr'']" "[''src/pr/a.ts'']" "[''*.lock'']" "[]"])
  show "\<forall>s \<in> set [''src'', ''pr'']. plain_segment s" by code_simp
  show "evaluateChangedPathScope [''src/pr/a.ts'']
     \<lparr>allowedPaths = [directory_pattern [''src'', ''pr'']], forbiddenPaths = [''*.lock'']\<rparr> =
     Inr (True, [])" by code_simp
qed simp_all

text \<open>a forbidden pattern that ends in two stars can fail to apply: the guard that requires a
  descendant counts an inner pair of stars as one segment, although it may cover none, so
  \<open>src/**/secrets/**\<close> does not forbid \<open>src/secrets/key\<close>, which the segment matcher matches.\<close>

theorem forbidden_inner_stars_bypassed:
  "segmentsMatch [''src'', ''**'', ''secrets'', ''**''] [''src'', ''secrets'', ''key''] = Inr True \<and>
   evaluateChangedPathScope [''src/secrets/key'']
     \<lparr>allowedPaths = [''**''], forbiddenPaths = [''src/**/secrets/**'']\<rparr> = Inr (True, [])"
  by code_simp

end
