(* ===== verification/Run_Event.thy ===== *)
theory Run_Event
  imports Prelude
begin

text \<open>
  The versioned event vocabulary and lifecycle of a delivery run
  (\<open>src/src/asf/run-event.ts\<close>, with the attribution schema of
  \<open>src/src/asf/identity-attribution.ts\<close>). The declared schemas are data of type \<open>zschema\<close>; the
  validator that interprets them is third-party code and is the parameter \<open>safe_parse\<close>, of which
  only \<open>documented_parse\<close> is assumed where a lemma needs it. \<open>z.url()\<close> and
  \<open>z.iso.datetime()\<close> are the two predicates of \<open>formats\<close>.
\<close>

section \<open>JSON values and schemas\<close>

datatype json =
  JNull | JBool bool | JNumber rat | JString string
| JArray "json list" | JObject "(string \<times> json) list"

datatype zschema =
  ZString "string \<Rightarrow> bool"
| ZEnum "string list"
| ZLiteral string
| ZTrue
| ZBoolean
| ZNull
| ZInt "int \<Rightarrow> bool"
| ZArray "nat \<Rightarrow> bool" zschema
| ZRecord
| ZObject "(string \<times> bool \<times> zschema) list"   \<comment> \<open>strict; key, optional?, schema\<close>
| ZUnion "zschema list"
| ZRefine zschema "json \<Rightarrow> bool"

text \<open>\<open>z.number().int()\<close> accepts safe integers.\<close>

definition safe_int :: "int \<Rightarrow> bool" where
  "safe_int n \<longleftrightarrow> -9007199254740991 \<le> n \<and> n \<le> 9007199254740991"

text \<open>What a schema accepts, as the validator's documentation states it.\<close>

function conforms :: "zschema \<Rightarrow> json \<Rightarrow> bool" where
  "conforms (ZString p) j = (case j of JString s \<Rightarrow> p s | _ \<Rightarrow> False)"
| "conforms (ZEnum vs) j = (case j of JString s \<Rightarrow> s \<in> set vs | _ \<Rightarrow> False)"
| "conforms (ZLiteral v) j = (case j of JString s \<Rightarrow> s = v | _ \<Rightarrow> False)"
| "conforms ZTrue j = (case j of JBool b \<Rightarrow> b | _ \<Rightarrow> False)"
| "conforms ZBoolean j = (case j of JBool b \<Rightarrow> True | _ \<Rightarrow> False)"
| "conforms ZNull j = (j = JNull)"
| "conforms (ZInt p) j =
     (case j of JNumber q \<Rightarrow> q = of_int \<lfloor>q\<rfloor> \<and> safe_int \<lfloor>q\<rfloor> \<and> p \<lfloor>q\<rfloor> | _ \<Rightarrow> False)"
| "conforms (ZArray len s) j =
     (case j of JArray xs \<Rightarrow> len (length xs) \<and> list_all (conforms s) xs | _ \<Rightarrow> False)"
| "conforms ZRecord j = (case j of JObject ms \<Rightarrow> True | _ \<Rightarrow> False)"
| "conforms (ZObject fs) j =
     (case j of
        JObject ms \<Rightarrow>
          list_all (\<lambda>m. fst m \<in> set (map fst fs)) ms \<and>
          list_all (\<lambda>f. case map_of ms (fst f) of
                          None \<Rightarrow> fst (snd f) | Some v \<Rightarrow> conforms (snd (snd f)) v) fs
      | _ \<Rightarrow> False)"
| "conforms (ZUnion ss) j = list_ex (\<lambda>s. conforms s j) ss"
| "conforms (ZRefine s p) j = (conforms s j \<and> p j)"
  by pat_completeness auto
termination
proof (relation "measure (\<lambda>(s, j). size s)")
  fix fs :: "(string \<times> bool \<times> zschema) list" and f
  assume "f \<in> set fs"
  then have "size (snd (snd f)) \<le> size_list (\<lambda>x. Suc (Suc (size (snd (snd x))))) fs"
    by (induction fs) auto
  then show "((snd (snd f), v), ZObject fs, j) \<in> measure (\<lambda>(s, j). size s)" for v j
    by (simp add: size_prod_simp)
next
  fix ss :: "zschema list" and s
  assume "s \<in> set ss"
  then have "size s \<le> size_list size ss" by (induction ss) auto
  then show "((s, j), ZUnion ss, j) \<in> measure (\<lambda>(s, j). size s)" for j by simp
qed auto

definition documented_parse :: "(zschema \<Rightarrow> json \<Rightarrow> json option) \<Rightarrow> bool" where
  "documented_parse safe_parse \<longleftrightarrow>
     (\<forall>s v r. safe_parse s v = Some r \<longrightarrow> r = v \<and> conforms s v)"

definition required :: "string \<Rightarrow> zschema \<Rightarrow> string \<times> bool \<times> zschema" where
  "required k s = (k, False, s)"

definition optional :: "string \<Rightarrow> zschema \<Rightarrow> string \<times> bool \<times> zschema" where
  "optional k s = (k, True, s)"

section \<open>Phases\<close>

datatype phase =
  RECEIVED | ADMITTED | REPOSITORY_LEASED | IDENTITY_READY | WORKSPACE_READY | TASK_PACKET_READY
| IMPLEMENTING | CANDIDATE_READY | LOCAL_VERIFY | LOCAL_REVIEW | FIXING | DELIVERY_READY | PUSHED
| PR_OPEN | CI_WAIT | PR_REVIEW | PR_DELIVERED | MERGE_QUEUE_WAIT | MERGE_READY | MERGED
| EVIDENCE_FINALIZED | COMPLETED | CANCEL_REQUESTED | CANCELLING | WAITING_APPROVAL | NEEDS_SPEC
| BLOCKED_EXTERNAL | BUDGET_EXHAUSTED | REFUSED | QUARANTINED | CANCELLED | FAILED

definition RUN_EVENT_PHASES :: "(phase \<times> string) list" where
  "RUN_EVENT_PHASES = [
     (RECEIVED, ''RECEIVED''), (ADMITTED, ''ADMITTED''), (REPOSITORY_LEASED, ''REPOSITORY_LEASED''),
     (IDENTITY_READY, ''IDENTITY_READY''), (WORKSPACE_READY, ''WORKSPACE_READY''),
     (TASK_PACKET_READY, ''TASK_PACKET_READY''), (IMPLEMENTING, ''IMPLEMENTING''),
     (CANDIDATE_READY, ''CANDIDATE_READY''), (LOCAL_VERIFY, ''LOCAL_VERIFY''),
     (LOCAL_REVIEW, ''LOCAL_REVIEW''), (FIXING, ''FIXING''), (DELIVERY_READY, ''DELIVERY_READY''),
     (PUSHED, ''PUSHED''), (PR_OPEN, ''PR_OPEN''), (CI_WAIT, ''CI_WAIT''), (PR_REVIEW, ''PR_REVIEW''),
     (PR_DELIVERED, ''PR_DELIVERED''), (MERGE_QUEUE_WAIT, ''MERGE_QUEUE_WAIT''),
     (MERGE_READY, ''MERGE_READY''), (MERGED, ''MERGED''), (EVIDENCE_FINALIZED, ''EVIDENCE_FINALIZED''),
     (COMPLETED, ''COMPLETED''), (CANCEL_REQUESTED, ''CANCEL_REQUESTED''), (CANCELLING, ''CANCELLING''),
     (WAITING_APPROVAL, ''WAITING_APPROVAL''), (NEEDS_SPEC, ''NEEDS_SPEC''),
     (BLOCKED_EXTERNAL, ''BLOCKED_EXTERNAL''), (BUDGET_EXHAUSTED, ''BUDGET_EXHAUSTED''),
     (REFUSED, ''REFUSED''), (QUARANTINED, ''QUARANTINED''), (CANCELLED, ''CANCELLED''),
     (FAILED, ''FAILED'')]"

definition phase_of_name :: "string \<Rightarrow> phase option" where
  "phase_of_name s = map_of (map (\<lambda>(p, n). (n, p)) RUN_EVENT_PHASES) s"

definition runEventPhaseSchema :: zschema where
  "runEventPhaseSchema = ZEnum (map snd RUN_EVENT_PHASES)"

definition TERMINAL_RUN_EVENT_PHASES :: "phase list" where
  "TERMINAL_RUN_EVENT_PHASES = [COMPLETED, CANCELLED, FAILED, REFUSED, QUARANTINED, BUDGET_EXHAUSTED]"

definition isTerminalRunEventPhase :: "phase \<Rightarrow> bool" where
  "isTerminalRunEventPhase p \<longleftrightarrow> p \<in> set TERMINAL_RUN_EVENT_PHASES"

section \<open>Scalars\<close>

definition char_in :: "nat \<Rightarrow> nat \<Rightarrow> char \<Rightarrow> bool" where
  "char_in lo hi c \<longleftrightarrow> lo \<le> of_char c \<and> (of_char c :: nat) \<le> hi"

definition lower_alpha :: "char \<Rightarrow> bool" where "lower_alpha = char_in 97 122"
definition upper_alpha :: "char \<Rightarrow> bool" where "upper_alpha = char_in 65 90"
definition digit_char :: "char \<Rightarrow> bool" where "digit_char = char_in 48 57"
definition hex_char :: "char \<Rightarrow> bool" where "hex_char c \<longleftrightarrow> digit_char c \<or> char_in 97 102 c"

definition identifierSchema :: zschema where "identifierSchema = ZString (\<lambda>s. s \<noteq> [])"

text \<open>\<open>/^[a-z][a-z0-9_-]*(?:\.[a-z][a-z0-9_-]*)+$/u\<close>\<close>

definition event_word :: "string \<Rightarrow> bool" where
  "event_word w \<longleftrightarrow> (case w of [] \<Rightarrow> False
     | c # cs \<Rightarrow> lower_alpha c \<and>
         list_all (\<lambda>d. lower_alpha d \<or> digit_char d \<or> d = CHR ''_'' \<or> d = CHR ''-'') cs)"

definition eventTypeSchema :: zschema where
  "eventTypeSchema = ZString (\<lambda>s. let ws = js_split (CHR ''.'') s in length ws \<ge> 2 \<and> list_all event_word ws)"

definition is_digest :: "string \<Rightarrow> bool" where
  "is_digest s \<longleftrightarrow> take 7 s = ''sha256:'' \<and> length s = 71 \<and> list_all hex_char (drop 7 s)"

definition digestSchema :: zschema where "digestSchema = ZString is_digest"

definition is_git_sha :: "string \<Rightarrow> bool" where
  "is_git_sha s \<longleftrightarrow> length s = 40 \<and> list_all hex_char s"

definition gitShaSchema :: zschema where "gitShaSchema = ZString is_git_sha"

definition repositoryNameSchema :: zschema where
  "repositoryNameSchema = ZString (\<lambda>s. let ws = js_split (CHR ''/'') s
     in length ws = 2 \<and> list_all (\<lambda>w. w \<noteq> [] \<and> list_all (Not \<circ> js_space) w) ws)"

definition bounded_text :: "nat \<Rightarrow> zschema" where
  "bounded_text n = ZString (\<lambda>s. s \<noteq> [] \<and> length s \<le> n)"

definition evidenceRefsSchema :: zschema where
  "evidenceRefsSchema = ZArray (\<lambda>_. True) (bounded_text 1024)"

definition positive_int :: zschema where "positive_int = ZInt (\<lambda>n. 0 < n)"

definition at_most :: "nat \<Rightarrow> nat \<Rightarrow> bool" where "at_most m n \<longleftrightarrow> n \<le> m"

record formats =
  is_url :: "string \<Rightarrow> bool"
  is_datetime :: "string \<Rightarrow> bool"

section \<open>Payload schemas\<close>

definition ASF_REQUIRED_IDENTITY_ROLES :: "string list" where
  "ASF_REQUIRED_IDENTITY_ROLES = [''implementer'', ''local-reviewer'', ''pr-reviewer'']"

definition attribution_identifier :: zschema where
  "attribution_identifier = ZString (\<lambda>s. s \<noteq> [] \<and> length s \<le> 512 \<and>
     list_all (\<lambda>c. \<not> (char_in 0 31 c \<or> char_in 127 127 c)) s)"

definition asfIdentityLeaseAttributionSchema :: "formats \<Rightarrow> zschema" where
  "asfIdentityLeaseAttributionSchema f = ZObject [
     required ''schema'' (ZLiteral ''asf.identity-lease-attribution/v1''),
     required ''role'' (ZEnum ASF_REQUIRED_IDENTITY_ROLES),
     required ''provider'' attribution_identifier,
     required ''principal_id'' attribution_identifier,
     required ''profile'' attribution_identifier,
     required ''fencing_generation'' positive_int,
     required ''issued_at'' (ZString (is_datetime f)),
     required ''expires_at'' (ZString (is_datetime f)),
     required ''lease_attribution_digest'' digestSchema]"

definition stop_fields :: "(string \<times> bool \<times> zschema) list" where
  "stop_fields = [
     required ''code'' (ZString (\<lambda>s. case s of [] \<Rightarrow> False
       | c # cs \<Rightarrow> upper_alpha c \<and> list_all (\<lambda>d. upper_alpha d \<or> digit_char d \<or> d = CHR ''_'') cs)),
     required ''summary'' (bounded_text 2048),
     required ''checkpoint'' runEventPhaseSchema,
     required ''retry_disposition''
       (ZEnum [''safe'', ''reconcile-first'', ''new-attempt-required'', ''prohibited'']),
     required ''required_actor''
       (ZEnum [''asf'', ''repository-owner'', ''platform-operator'', ''security'', ''provider-administrator'']),
     required ''required_action'' (bounded_text 2048),
     required ''evidence_refs'' evidenceRefsSchema,
     optional ''candidate_sha'' gitShaSchema]"

definition stopPayloadSchema :: zschema where "stopPayloadSchema = ZObject stop_fields"

definition reconciliationBlockContinuationSchema :: zschema where
  "reconciliationBlockContinuationSchema = ZObject [
     required ''schema'' (ZLiteral ''asf.reconciliation-continuation/v1''),
     required ''disposition'' (ZEnum [''retry-interrupted-phase'', ''finish-cancellation'']),
     required ''interrupted_event_seq'' positive_int,
     required ''resume_phase'' runEventPhaseSchema,
     required ''checkpoint_digest'' digestSchema,
     required ''pending_set_digest'' digestSchema,
     optional ''cancellation_event_id'' identifierSchema,
     optional ''cancellation_event_digest'' digestSchema,
     optional ''cancellation_request_id'' identifierSchema]"

definition blockedExternalPayloadSchema :: zschema where
  "blockedExternalPayloadSchema =
     ZObject (stop_fields @ [optional ''continuation'' reconciliationBlockContinuationSchema])"

definition approvalStopPayloadSchema :: zschema where
  "approvalStopPayloadSchema =
     ZObject (stop_fields @ [optional ''decision_type'' identifierSchema,
       optional ''requested_effect'' identifierSchema])"

definition cancellation_fields :: "(string \<times> bool \<times> zschema) list" where
  "cancellation_fields = stop_fields @ [
     required ''request_id'' identifierSchema,
     required ''requester'' identifierSchema,
     required ''reason'' (bounded_text 2048),
     required ''mode'' (ZEnum [''graceful'', ''forced'']),
     required ''grace_seconds'' (ZInt (\<lambda>n. 0 \<le> n)),
     optional ''reconciliation_origin''
       (ZEnum [''none'', ''preexisting'', ''durable-effects'', ''forced-cancellation-cleanup''])]"

definition cancellationPayloadSchema :: zschema where
  "cancellationPayloadSchema = ZObject cancellation_fields"

definition terminalStopPayloadSchema :: zschema where
  "terminalStopPayloadSchema =
     ZObject (stop_fields @ [optional ''terminal_evidence_bundle_digest'' digestSchema])"

definition terminalCancellationPayloadSchema :: zschema where
  "terminalCancellationPayloadSchema =
     ZObject (cancellation_fields @ [optional ''terminal_evidence_bundle_digest'' digestSchema])"

definition candidatePayload :: "(string \<times> bool \<times> zschema) list \<Rightarrow> zschema" where
  "candidatePayload shape = ZObject (required ''candidate_sha'' gitShaSchema # shape)"

datatype contract_phase = Fixed phase | ResumePhaseFromPayload

type_synonym event_contract = "string \<times> contract_phase \<times> zschema"

section \<open>The contracts\<close>

definition setup_contracts :: "formats \<Rightarrow> event_contract list" where
  "setup_contracts f = [
     (''work_order.admitted'', Fixed ADMITTED, ZObject [
        required ''work_order_id'' identifierSchema, required ''attempt_id'' identifierSchema,
        required ''tenant_id'' identifierSchema, required ''payload_digest'' digestSchema,
        required ''envelope_digest'' digestSchema,
        required ''signature'' (ZObject [required ''verified'' ZTrue, required ''key_id'' identifierSchema,
          required ''algorithm'' (ZLiteral ''EdDSA'')])]),
     (''repository.lease_acquired'', Fixed REPOSITORY_LEASED, ZObject [
        required ''repository'' repositoryNameSchema, required ''generation'' positive_int]),
     (''identity.leases_acquired'', Fixed IDENTITY_READY, ZObject [
        required ''attributions_digest'' digestSchema,
        required ''roles'' (ZRefine (ZArray (\<lambda>n. n = 3) (ZEnum ASF_REQUIRED_IDENTITY_ROLES))
          (\<lambda>j. case j of JArray roles \<Rightarrow> card (set roles) = 3 | _ \<Rightarrow> False)),
        required ''attributions'' (ZArray (\<lambda>n. n = 3) (asfIdentityLeaseAttributionSchema f))]),
     (''workspace.prepared'', Fixed WORKSPACE_READY, ZObject [
        required ''workspace_id'' identifierSchema, required ''sandbox_profile'' identifierSchema,
        required ''isolation_evidence_digest'' digestSchema]),
     (''task_packet.created'', Fixed TASK_PACKET_READY, ZObject [
        required ''task_packet_digest'' digestSchema, required ''source_snapshot_digest'' digestSchema]),
     (''implementation.started'', Fixed IMPLEMENTING, ZObject [
        required ''session'' (ZEnum [''new'', ''resumed'']), required ''checkpoint_digest'' digestSchema])]"

definition review_outcome :: zschema where
  "review_outcome = ZEnum [''approved'', ''changes-requested'', ''blocked'']"

definition candidate_contracts :: "event_contract list" where
  "candidate_contracts = [
     (''candidate.created'', Fixed CANDIDATE_READY, candidatePayload [
        required ''parent_sha'' gitShaSchema, required ''tree_digest'' digestSchema]),
     (''verification.started'', Fixed LOCAL_VERIFY, candidatePayload [
        required ''required_check_ids'' (ZArray (\<lambda>_. True) identifierSchema)]),
     (''verification.completed'', Fixed LOCAL_VERIFY, candidatePayload [
        required ''check_id'' identifierSchema,
        required ''outcome'' (ZEnum [''passed'', ''failed'', ''blocked'']),
        required ''evidence_digest'' digestSchema]),
     (''review.started'', Fixed LOCAL_REVIEW, candidatePayload [
        required ''reviewer_attribution'' identifierSchema]),
     (''review.completed'', Fixed LOCAL_REVIEW, candidatePayload [
        required ''reviewer_attribution'' identifierSchema, required ''outcome'' review_outcome,
        required ''findings_digest'' digestSchema]),
     (''fixing.started'', Fixed FIXING, candidatePayload [required ''iteration'' positive_int]),
     (''delivery.ready'', Fixed DELIVERY_READY, candidatePayload [
        required ''required_remote_checks'' (ZArray (\<lambda>_. True) (ZString (\<lambda>s. s \<noteq> [])))])]"

definition ci_check :: "zschema \<Rightarrow> zschema" where
  "ci_check outcome = ZObject [required ''context'' (bounded_text 512), required ''outcome'' outcome,
     required ''evidence_digest'' digestSchema]"

definition ci_outcome :: zschema where
  "ci_outcome = ZEnum [''passed'', ''failed'', ''pending'', ''not-scheduled'']"

definition ci_contracts :: "formats \<Rightarrow> event_contract list" where
  "ci_contracts f = [
     (''branch.pushed'', Fixed PUSHED, candidatePayload [
        required ''remote_ref'' (ZString (\<lambda>s. s \<noteq> [])), required ''observed_remote_sha'' gitShaSchema]),
     (''pull_request.opened'', Fixed PR_OPEN, candidatePayload [
        required ''repository'' repositoryNameSchema, required ''number'' positive_int,
        required ''url'' (ZString (is_url f)), required ''observed_head_sha'' gitShaSchema,
        required ''base_sha'' gitShaSchema]),
     (''ci.waiting'', Fixed CI_WAIT, candidatePayload [required ''snapshot_digest'' digestSchema]),
     (''ci.completed'', Fixed CI_WAIT, candidatePayload [
        required ''outcome'' ci_outcome, required ''checks_digest'' digestSchema,
        required ''checks'' (ZArray (at_most 10000) (ci_check ci_outcome)),
        required ''observed_at'' (ZString (is_datetime f))]),
     (''ci.recheck_completed'', Fixed CI_WAIT, candidatePayload [
        required ''outcome'' (ZEnum [''failed'', ''pending'', ''not-scheduled'']),
        required ''observation_intent_digest'' digestSchema, required ''observation_digest'' digestSchema,
        required ''observation_fencing_generation'' positive_int, required ''checks_digest'' digestSchema,
        required ''checks'' (ZArray (at_most 10000) (ci_check ci_outcome)),
        required ''observed_at'' (ZString (is_datetime f))]),
     (''pr_review.started'', Fixed PR_REVIEW, candidatePayload [
        required ''reviewer_attribution'' identifierSchema]),
     (''pr_review.completed'', Fixed PR_REVIEW, candidatePayload [
        required ''reviewer_attribution'' identifierSchema, required ''outcome'' review_outcome,
        required ''findings_digest'' digestSchema]),
     (''ci.revalidated'', Fixed PR_REVIEW, candidatePayload [
        required ''outcome'' (ZLiteral ''passed''),
        required ''observation_intent_digest'' digestSchema, required ''observation_digest'' digestSchema,
        required ''observation_fencing_generation'' positive_int, required ''checks_digest'' digestSchema,
        required ''checks'' (ZArray (at_most 10000) (ci_check (ZLiteral ''passed''))),
        required ''observed_at'' (ZString (is_datetime f))])]"

text \<open>\<open>/^refs\/heads\/[A-Za-z0-9._/-]+$/u\<close>\<close>

definition branchRefSchema :: zschema where
  "branchRefSchema = ZString (\<lambda>s. take 11 s = ''refs/heads/'' \<and> drop 11 s \<noteq> [] \<and>
     list_all (\<lambda>c. upper_alpha c \<or> lower_alpha c \<or> digit_char c \<or> c \<in> set ''._/-'') (drop 11 s))"

definition delivery_contracts :: "formats \<Rightarrow> event_contract list" where
  "delivery_contracts f = [
     (''pull_request.delivered'', Fixed PR_DELIVERED, candidatePayload [
        required ''repository'' repositoryNameSchema, required ''number'' positive_int,
        required ''url'' (ZString (is_url f)), required ''head_ref'' branchRefSchema,
        required ''base_ref'' branchRefSchema, required ''marker'' identifierSchema,
        required ''head_sha'' gitShaSchema, required ''observed_head_sha'' gitShaSchema,
        required ''current_base_sha'' gitShaSchema, required ''collision_set_digest'' digestSchema,
        required ''base_observation_digest'' digestSchema, required ''protection_digest'' digestSchema,
        required ''protection'' (ZObject [
          required ''required_checks'' (ZArray (at_most 10000) (bounded_text 512)),
          required ''requires_approval'' ZBoolean,
          required ''requires_conversation_resolution'' ZBoolean,
          required ''uses_merge_queue'' ZBoolean]),
        required ''state'' (ZLiteral ''open''), required ''draft'' ZBoolean,
        required ''delivery_observation_intent_digest'' digestSchema,
        required ''delivery_observation_digest'' digestSchema,
        required ''observed_at'' (ZString (is_datetime f)),
        required ''final_ci_observation_intent_digest'' digestSchema,
        required ''final_ci_observation_digest'' digestSchema,
        required ''final_ci_observation_fencing_generation'' positive_int,
        required ''final_ci_checks_digest'' digestSchema,
        required ''final_ci_checks'' (ZArray (at_most 10000) (ci_check (ZLiteral ''passed''))),
        required ''final_ci_observed_at'' (ZString (is_datetime f))]),
     (''merge_queue.entered'', Fixed MERGE_QUEUE_WAIT, candidatePayload [
        required ''merge_group_sha'' gitShaSchema]),
     (''merge.ready'', Fixed MERGE_READY, candidatePayload [
        required ''merge_group_sha'' gitShaSchema, required ''evidence_digest'' digestSchema]),
     (''merge.completed'', Fixed MERGED, candidatePayload [
        required ''merge_sha'' gitShaSchema, required ''evidence_digest'' digestSchema]),
     (''evidence.finalized'', Fixed EVIDENCE_FINALIZED, candidatePayload [
        required ''bundle_digest'' digestSchema]),
     (''run.completed'', Fixed COMPLETED, candidatePayload [
        required ''closure_target'' (ZEnum [''pr'', ''merge'']), required ''satisfied'' ZTrue,
        required ''evidence_bundle_digest'' digestSchema,
        optional ''terminal_evidence_bundle_digest'' digestSchema])]"

definition resume_contracts :: "event_contract list" where
  "resume_contracts = [
     (''run.resumed'', ResumePhaseFromPayload, ZUnion [
        ZObject [required ''interrupted_phase'' (ZLiteral ''WAITING_APPROVAL''),
          required ''resume_phase'' runEventPhaseSchema, required ''evidence_digest'' digestSchema,
          required ''approval_id'' identifierSchema, optional ''candidate_sha'' gitShaSchema],
        ZObject [required ''interrupted_phase'' (ZLiteral ''BLOCKED_EXTERNAL''),
          required ''resume_phase'' runEventPhaseSchema, required ''evidence_digest'' digestSchema,
          optional ''candidate_sha'' gitShaSchema,
          required ''reconciliation'' (ZObject [
            required ''schema'' (ZLiteral ''asf.reconciliation-continuation-result/v1''),
            required ''operation_id'' identifierSchema, required ''result_digest'' digestSchema,
            required ''pending_set_digest'' digestSchema, required ''checkpoint_digest'' digestSchema,
            required ''blocked_event_id'' identifierSchema,
            required ''interrupted_event_seq'' positive_int,
            optional ''provider_budget_settlement_digests'' (ZArray (at_most 20000) digestSchema),
            required ''action''
              (ZEnum [''continue-confirmed'', ''replay-not-applied'', ''continue-cancellation''])])]])]"

definition stop_contracts :: "event_contract list" where
  "stop_contracts = [
     (''cancellation.requested'', Fixed CANCEL_REQUESTED, cancellationPayloadSchema),
     (''cancellation.escalated'', Fixed CANCEL_REQUESTED, cancellationPayloadSchema),
     (''cancellation.started'', Fixed CANCELLING, cancellationPayloadSchema),
     (''run.waiting_approval'', Fixed WAITING_APPROVAL, approvalStopPayloadSchema),
     (''run.needs_spec'', Fixed NEEDS_SPEC, stopPayloadSchema),
     (''run.blocked_external'', Fixed BLOCKED_EXTERNAL, blockedExternalPayloadSchema),
     (''budget.exhausted'', Fixed BUDGET_EXHAUSTED, terminalStopPayloadSchema),
     (''run.refused'', Fixed REFUSED, terminalStopPayloadSchema),
     (''run.quarantined'', Fixed QUARANTINED, terminalStopPayloadSchema),
     (''run.cancelled'', Fixed CANCELLED, terminalCancellationPayloadSchema),
     (''run.failed'', Fixed FAILED, terminalStopPayloadSchema)]"

definition RUN_EVENT_CONTRACTS :: "formats \<Rightarrow> event_contract list" where
  "RUN_EVENT_CONTRACTS f = setup_contracts f @ candidate_contracts @ ci_contracts f @
     delivery_contracts f @ resume_contracts @ stop_contracts"

section \<open>Transitions\<close>

fun NORMAL_PHASE_SUCCESSORS :: "phase \<Rightarrow> phase list" where
  "NORMAL_PHASE_SUCCESSORS RECEIVED = [ADMITTED]"
| "NORMAL_PHASE_SUCCESSORS ADMITTED = [REPOSITORY_LEASED]"
| "NORMAL_PHASE_SUCCESSORS REPOSITORY_LEASED = [IDENTITY_READY]"
| "NORMAL_PHASE_SUCCESSORS IDENTITY_READY = [WORKSPACE_READY]"
| "NORMAL_PHASE_SUCCESSORS WORKSPACE_READY = [TASK_PACKET_READY]"
| "NORMAL_PHASE_SUCCESSORS TASK_PACKET_READY = [IMPLEMENTING]"
| "NORMAL_PHASE_SUCCESSORS IMPLEMENTING = [CANDIDATE_READY]"
| "NORMAL_PHASE_SUCCESSORS CANDIDATE_READY = [LOCAL_VERIFY]"
| "NORMAL_PHASE_SUCCESSORS LOCAL_VERIFY = [LOCAL_REVIEW, FIXING]"
| "NORMAL_PHASE_SUCCESSORS LOCAL_REVIEW = [FIXING, DELIVERY_READY]"
| "NORMAL_PHASE_SUCCESSORS FIXING = [CANDIDATE_READY]"
| "NORMAL_PHASE_SUCCESSORS DELIVERY_READY = [PUSHED]"
| "NORMAL_PHASE_SUCCESSORS PUSHED = [PR_OPEN]"
| "NORMAL_PHASE_SUCCESSORS PR_OPEN = [CI_WAIT]"
| "NORMAL_PHASE_SUCCESSORS CI_WAIT = [PR_REVIEW, FIXING]"
| "NORMAL_PHASE_SUCCESSORS PR_REVIEW = [FIXING, CI_WAIT, PR_DELIVERED]"
| "NORMAL_PHASE_SUCCESSORS PR_DELIVERED = [MERGE_QUEUE_WAIT, EVIDENCE_FINALIZED]"
| "NORMAL_PHASE_SUCCESSORS MERGE_QUEUE_WAIT = [MERGE_READY]"
| "NORMAL_PHASE_SUCCESSORS MERGE_READY = [MERGED]"
| "NORMAL_PHASE_SUCCESSORS MERGED = [EVIDENCE_FINALIZED]"
| "NORMAL_PHASE_SUCCESSORS EVIDENCE_FINALIZED = [COMPLETED]"
| "NORMAL_PHASE_SUCCESSORS CANCEL_REQUESTED = [CANCELLING]"
| "NORMAL_PHASE_SUCCESSORS CANCELLING = [CANCELLED]"
| "NORMAL_PHASE_SUCCESSORS _ = []"

definition RUN_EVENT_FROM_PHASES :: "(string \<times> phase list) list" where
  "RUN_EVENT_FROM_PHASES = [
     (''work_order.admitted'', [RECEIVED]),
     (''repository.lease_acquired'', [ADMITTED]),
     (''identity.leases_acquired'', [REPOSITORY_LEASED]),
     (''workspace.prepared'', [IDENTITY_READY]),
     (''task_packet.created'', [WORKSPACE_READY]),
     (''implementation.started'', [TASK_PACKET_READY, IMPLEMENTING]),
     (''candidate.created'', [IMPLEMENTING, FIXING]),
     (''verification.started'', [CANDIDATE_READY]),
     (''verification.completed'', [LOCAL_VERIFY]),
     (''review.started'', [LOCAL_VERIFY]),
     (''review.completed'', [LOCAL_REVIEW]),
     (''fixing.started'', [LOCAL_VERIFY, LOCAL_REVIEW, CI_WAIT, PR_REVIEW]),
     (''delivery.ready'', [LOCAL_REVIEW]),
     (''branch.pushed'', [DELIVERY_READY]),
     (''pull_request.opened'', [PUSHED]),
     (''ci.waiting'', [PR_OPEN]),
     (''ci.completed'', [CI_WAIT]),
     (''ci.recheck_completed'', [PR_REVIEW]),
     (''pr_review.started'', [CI_WAIT]),
     (''pr_review.completed'', [PR_REVIEW]),
     (''ci.revalidated'', [PR_REVIEW]),
     (''pull_request.delivered'', [PR_REVIEW]),
     (''merge_queue.entered'', [PR_DELIVERED]),
     (''merge.ready'', [MERGE_QUEUE_WAIT]),
     (''merge.completed'', [MERGE_READY]),
     (''evidence.finalized'', [PR_DELIVERED, MERGED]),
     (''run.completed'', [EVIDENCE_FINALIZED]),
     (''run.resumed'', [WAITING_APPROVAL, NEEDS_SPEC, BLOCKED_EXTERNAL]),
     (''cancellation.requested'',
        [ADMITTED, REPOSITORY_LEASED, IDENTITY_READY, WORKSPACE_READY, TASK_PACKET_READY,
         IMPLEMENTING, CANDIDATE_READY, LOCAL_VERIFY, LOCAL_REVIEW, FIXING, DELIVERY_READY, PUSHED,
         PR_OPEN, CI_WAIT, PR_REVIEW, PR_DELIVERED, MERGE_QUEUE_WAIT, MERGE_READY, MERGED,
         EVIDENCE_FINALIZED, WAITING_APPROVAL, NEEDS_SPEC, BLOCKED_EXTERNAL]),
     (''cancellation.escalated'', [CANCEL_REQUESTED, CANCELLING]),
     (''cancellation.started'', [CANCEL_REQUESTED]),
     (''run.cancelled'', [CANCELLING])]"

definition CHECKPOINT_SELF_TRANSITIONS :: "phase list" where
  "CHECKPOINT_SELF_TRANSITIONS = [IMPLEMENTING, LOCAL_VERIFY, LOCAL_REVIEW, FIXING, CI_WAIT,
     PR_REVIEW, CANCELLING, CANCEL_REQUESTED]"

definition INTERRUPTING_PHASES :: "phase list" where
  "INTERRUPTING_PHASES = [CANCEL_REQUESTED, WAITING_APPROVAL, NEEDS_SPEC, BLOCKED_EXTERNAL]"

definition DIRECT_STOP_PHASES :: "phase list" where
  "DIRECT_STOP_PHASES = [BUDGET_EXHAUSTED, REFUSED, QUARANTINED, FAILED]"

datatype transition_error =
  TerminalPhase phase phase | InvalidTransition phase phase | WrongSource string phase phase

definition assertRunPhaseTransition :: "phase \<Rightarrow> phase \<Rightarrow> transition_error + unit" where
  "assertRunPhaseTransition from to =
     (if isTerminalRunEventPhase from then Inl (TerminalPhase from to)
      else let normal = to \<in> set (NORMAL_PHASE_SUCCESSORS from);
               checkpoint = (from = to \<and> from \<in> set CHECKPOINT_SELF_TRANSITIONS);
               interruption = (to \<in> set INTERRUPTING_PHASES \<and> to \<noteq> from);
               directStop = to \<in> set DIRECT_STOP_PHASES;
               resume = ((from = WAITING_APPROVAL \<or> from = NEEDS_SPEC \<or> from = BLOCKED_EXTERNAL) \<and>
                 \<not> isTerminalRunEventPhase to \<and> to \<notin> set INTERRUPTING_PHASES \<and>
                 to \<notin> set DIRECT_STOP_PHASES \<and> to \<noteq> CANCELLING \<and> to \<noteq> CANCEL_REQUESTED)
           in if \<not> normal \<and> \<not> checkpoint \<and> \<not> interruption \<and> \<not> directStop \<and> \<not> resume
              then Inl (InvalidTransition from to) else Inr ())"

record run_event =
  event_id :: string
  run_id :: string
  work_order_id :: string
  attempt_id :: string
  seq :: int
  occurred_at :: string
  event_type :: string
  event_phase :: phase
  payload :: "(string \<times> json) list"
  policy_digest :: string

definition continues_cancellation :: "json option \<Rightarrow> bool" where
  "continues_cancellation r = (case r of
       Some (JObject ms) \<Rightarrow> map_of ms ''action'' = Some (JString ''continue-cancellation'')
     | _ \<Rightarrow> False)"

definition assertRunEventTransition :: "phase \<Rightarrow> run_event \<Rightarrow> transition_error + unit" where
  "assertRunEventTransition from event =
     (let reconciliation = map_of (payload event) ''reconciliation'';
          protectedCancellationContinuation =
            (from = BLOCKED_EXTERNAL \<and> event_type event = ''run.resumed'' \<and>
             event_phase event = CANCELLING \<and> continues_cancellation reconciliation)
      in and_then
           (if \<not> protectedCancellationContinuation then assertRunPhaseTransition from (event_phase event)
            else Inr ())
           (\<lambda>_. case map_of RUN_EVENT_FROM_PHASES (event_type event) of
                  Some allowedFrom \<Rightarrow>
                    (if from \<notin> set allowedFrom
                     then Inl (WrongSource (event_type event) from (event_phase event)) else Inr ())
                | None \<Rightarrow> Inr ()))"

section \<open>Parsing\<close>

definition runEventSchema :: "formats \<Rightarrow> zschema" where
  "runEventSchema f = ZObject [
     required ''schema'' (ZLiteral ''asf.run-event/v1''),
     required ''event_id'' identifierSchema, required ''run_id'' identifierSchema,
     required ''work_order_id'' identifierSchema, required ''attempt_id'' identifierSchema,
     required ''seq'' positive_int, required ''occurred_at'' (ZString (is_datetime f)),
     required ''type'' eventTypeSchema, required ''phase'' runEventPhaseSchema,
     required ''payload'' ZRecord, required ''policy_digest'' digestSchema]"

text \<open>Reading a parsed object at the type the schema infers; \<open>None\<close> only for other values.\<close>

definition text_field :: "(string \<times> json) list \<Rightarrow> string \<Rightarrow> string option" where
  "text_field ms k = (case map_of ms k of Some (JString s) \<Rightarrow> Some s | _ \<Rightarrow> None)"

definition int_field :: "(string \<times> json) list \<Rightarrow> string \<Rightarrow> int option" where
  "int_field ms k = (case map_of ms k of Some (JNumber q) \<Rightarrow> Some \<lfloor>q\<rfloor> | _ \<Rightarrow> None)"

definition object_field :: "(string \<times> json) list \<Rightarrow> string \<Rightarrow> (string \<times> json) list option" where
  "object_field ms k = (case map_of ms k of Some (JObject o') \<Rightarrow> Some o' | _ \<Rightarrow> None)"

definition typed_event :: "json \<Rightarrow> run_event option" where
  "typed_event j =
     (case j of
        JObject ms \<Rightarrow>
          (case (text_field ms ''event_id'', text_field ms ''run_id'', text_field ms ''work_order_id'',
                 text_field ms ''attempt_id'', int_field ms ''seq'', text_field ms ''occurred_at'',
                 text_field ms ''type'', Option.bind (text_field ms ''phase'') phase_of_name,
                 object_field ms ''payload'', text_field ms ''policy_digest'') of
             (Some eid, Some rid, Some wid, Some aid, Some n, Some occ, Some ty, Some ph, Some pl, Some pd) \<Rightarrow>
               Some \<lparr>event_id = eid, run_id = rid, work_order_id = wid, attempt_id = aid, seq = n,
                     occurred_at = occ, event_type = ty, event_phase = ph, payload = pl,
                     policy_digest = pd\<rparr>
           | _ \<Rightarrow> None)
      | _ \<Rightarrow> None)"

datatype event_error =
  EventNotObject | UnsupportedSchema | UnsupportedPhase | InvalidEvent | UnsupportedType string
| WrongContractPhase string phase phase | InvalidPayload string | ResumePhaseUnbound
| ObservationMismatch string

definition observation_mismatch :: "(string \<times> json) list \<Rightarrow> string \<Rightarrow> bool" where
  "observation_mismatch ms k =
     (case (text_field ms ''candidate_sha'', text_field ms k) of
        (Some c, Some obs) \<Rightarrow> obs \<noteq> c | _ \<Rightarrow> False)"

text \<open>The checks on the parsed payload: the resume binding, then the two observation fields.\<close>

definition check_payload :: "contract_phase \<Rightarrow> phase \<Rightarrow> (string \<times> json) list \<Rightarrow> event_error + unit" where
  "check_payload cp ph ms =
     (if cp = ResumePhaseFromPayload \<and>
         (Option.bind (text_field ms ''resume_phase'') phase_of_name \<noteq> Some ph \<or>
          Option.bind (text_field ms ''interrupted_phase'') phase_of_name = Some ph)
      then Inl ResumePhaseUnbound
      else if observation_mismatch ms ''observed_remote_sha''
      then Inl (ObservationMismatch ''observed_remote_sha'')
      else if observation_mismatch ms ''observed_head_sha''
      then Inl (ObservationMismatch ''observed_head_sha'')
      else Inr ())"

definition parseRunEvent ::
  "(zschema \<Rightarrow> json \<Rightarrow> json option) \<Rightarrow> formats \<Rightarrow> json \<Rightarrow> event_error + run_event" where
  "parseRunEvent safe_parse f raw =
     (case raw of
        JObject ms \<Rightarrow>
          (if map_of ms ''schema'' \<noteq> Some (JString ''asf.run-event/v1'') then Inl UnsupportedSchema
           else if Option.bind (text_field ms ''phase'') phase_of_name = None then Inl UnsupportedPhase
           else
             (case Option.bind (safe_parse (runEventSchema f) raw) typed_event of
                None \<Rightarrow> Inl InvalidEvent
              | Some e \<Rightarrow>
                  (case map_of (RUN_EVENT_CONTRACTS f) (event_type e) of
                     None \<Rightarrow> Inl (UnsupportedType (event_type e))
                   | Some (cp, schema) \<Rightarrow>
                       (case cp of
                          Fixed p \<Rightarrow> if event_phase e \<noteq> p
                            then Inl (WrongContractPhase (event_type e) p (event_phase e))
                            else (case safe_parse schema (JObject (payload e)) of
                                    Some (JObject pl) \<Rightarrow> and_then (check_payload cp p pl) (\<lambda>_. Inr e)
                                  | _ \<Rightarrow> Inl (InvalidPayload (event_type e)))
                        | ResumePhaseFromPayload \<Rightarrow>
                            (case safe_parse schema (JObject (payload e)) of
                               Some (JObject pl) \<Rightarrow> and_then (check_payload cp (event_phase e) pl) (\<lambda>_. Inr e)
                             | _ \<Rightarrow> Inl (InvalidPayload (event_type e)))))))
      | _ \<Rightarrow> Inl EventNotObject)"

section \<open>What an accepted event satisfies\<close>

lemma parse_accepted:
  assumes "documented_parse sp" and "parseRunEvent sp f raw = Inr e"
  shows "\<exists>cp s. map_of (RUN_EVENT_CONTRACTS f) (event_type e) = Some (cp, s) \<and>
     conforms s (JObject (payload e)) \<and> (\<forall>p. cp = Fixed p \<longrightarrow> event_phase e = p) \<and>
     check_payload cp (event_phase e) (payload e) = Inr ()"
proof -
  have sp: "\<And>s a b. sp s (JObject a) = Some (JObject b) \<Longrightarrow> b = a \<and> conforms s (JObject a)"
    using assms(1) by (auto simp: documented_parse_def)
  show ?thesis
    using assms(2)
    by (auto simp: parseRunEvent_def result_simps split: json.splits if_splits option.splits
        contract_phase.splits dest: sp)
qed

text \<open>The names and phases of the contracts do not depend on the formats.\<close>

definition contract_table :: "(string \<times> contract_phase) list" where
  "contract_table = [
     (''work_order.admitted'', Fixed ADMITTED), (''repository.lease_acquired'', Fixed REPOSITORY_LEASED),
     (''identity.leases_acquired'', Fixed IDENTITY_READY), (''workspace.prepared'', Fixed WORKSPACE_READY),
     (''task_packet.created'', Fixed TASK_PACKET_READY), (''implementation.started'', Fixed IMPLEMENTING),
     (''candidate.created'', Fixed CANDIDATE_READY), (''verification.started'', Fixed LOCAL_VERIFY),
     (''verification.completed'', Fixed LOCAL_VERIFY), (''review.started'', Fixed LOCAL_REVIEW),
     (''review.completed'', Fixed LOCAL_REVIEW), (''fixing.started'', Fixed FIXING),
     (''delivery.ready'', Fixed DELIVERY_READY), (''branch.pushed'', Fixed PUSHED),
     (''pull_request.opened'', Fixed PR_OPEN), (''ci.waiting'', Fixed CI_WAIT),
     (''ci.completed'', Fixed CI_WAIT), (''ci.recheck_completed'', Fixed CI_WAIT),
     (''pr_review.started'', Fixed PR_REVIEW), (''pr_review.completed'', Fixed PR_REVIEW),
     (''ci.revalidated'', Fixed PR_REVIEW), (''pull_request.delivered'', Fixed PR_DELIVERED),
     (''merge_queue.entered'', Fixed MERGE_QUEUE_WAIT), (''merge.ready'', Fixed MERGE_READY),
     (''merge.completed'', Fixed MERGED), (''evidence.finalized'', Fixed EVIDENCE_FINALIZED),
     (''run.completed'', Fixed COMPLETED), (''run.resumed'', ResumePhaseFromPayload),
     (''cancellation.requested'', Fixed CANCEL_REQUESTED), (''cancellation.escalated'', Fixed CANCEL_REQUESTED),
     (''cancellation.started'', Fixed CANCELLING), (''run.waiting_approval'', Fixed WAITING_APPROVAL),
     (''run.needs_spec'', Fixed NEEDS_SPEC), (''run.blocked_external'', Fixed BLOCKED_EXTERNAL),
     (''budget.exhausted'', Fixed BUDGET_EXHAUSTED), (''run.refused'', Fixed REFUSED),
     (''run.quarantined'', Fixed QUARANTINED), (''run.cancelled'', Fixed CANCELLED),
     (''run.failed'', Fixed FAILED)]"

lemma contract_table_any: "map (\<lambda>(n, cp, _). (n, cp)) (RUN_EVENT_CONTRACTS f) = contract_table"
  by (simp add: contract_table_def RUN_EVENT_CONTRACTS_def setup_contracts_def candidate_contracts_def
      ci_contracts_def delivery_contracts_def resume_contracts_def stop_contracts_def)

lemma contract_in_table:
  "map_of (RUN_EVENT_CONTRACTS f) ty = Some (cp, s) \<Longrightarrow> (ty, cp) \<in> set contract_table"
  unfolding contract_table_any [of f, symmetric] by (force dest: map_of_SomeD)

lemma accepted_in_table:
  assumes "documented_parse sp" and "parseRunEvent sp f raw = Inr e"
  shows "(event_type e, Fixed (event_phase e)) \<in> set contract_table \<or> event_type e = ''run.resumed''"
proof -
  have only: "list_all (\<lambda>(ty, cp). cp = ResumePhaseFromPayload \<longrightarrow> ty = ''run.resumed'') contract_table"
    by code_simp
  obtain cp s where cs: "map_of (RUN_EVENT_CONTRACTS f) (event_type e) = Some (cp, s)"
    "\<forall>p. cp = Fixed p \<longrightarrow> event_phase e = p"
    using parse_accepted [OF assms] by blast
  then show ?thesis
    using contract_in_table [OF cs(1)] only by (cases cp) (auto simp: list_all_iff)
qed

lemma phase_transition_Inr:
  "assertRunPhaseTransition from to = Inr () \<Longrightarrow> \<not> isTerminalRunEventPhase from"
  by (simp add: assertRunPhaseTransition_def split: if_splits)

lemma event_transition_Inr:
  assumes "assertRunEventTransition from e = Inr ()"
  shows "\<not> isTerminalRunEventPhase from \<and>
     (\<forall>srcs. map_of RUN_EVENT_FROM_PHASES (event_type e) = Some srcs \<longrightarrow> from \<in> set srcs) \<and>
     (event_type e \<noteq> ''run.resumed'' \<or> event_phase e \<noteq> CANCELLING \<longrightarrow>
        assertRunPhaseTransition from (event_phase e) = Inr ())"
proof -
  have b: "\<not> isTerminalRunEventPhase BLOCKED_EXTERNAL" by code_simp
  show ?thesis
    using assms b phase_transition_Inr
    by (auto simp: assertRunEventTransition_def Let_def result_simps split: if_splits option.splits)
qed

lemma to_completed: "assertRunPhaseTransition q COMPLETED = Inr () \<Longrightarrow> q = EVIDENCE_FINALIZED"
  by (cases q) (simp_all add: assertRunPhaseTransition_def isTerminalRunEventPhase_def
      TERMINAL_RUN_EVENT_PHASES_def CHECKPOINT_SELF_TRANSITIONS_def INTERRUPTING_PHASES_def
      DIRECT_STOP_PHASES_def)

section \<open>Lifecycles\<close>

text \<open>The runs of the lifecycle: every event parses and its transition is accepted.\<close>

inductive lifecycle ::
  "(zschema \<Rightarrow> json \<Rightarrow> json option) \<Rightarrow> formats \<Rightarrow> phase \<Rightarrow> run_event list \<Rightarrow> phase \<Rightarrow> bool"
  for safe_parse f where
  lifecycle_start: "lifecycle safe_parse f p [] p"
| lifecycle_step: "lifecycle safe_parse f p es q \<Longrightarrow> parseRunEvent safe_parse f raw = Inr e \<Longrightarrow>
     assertRunEventTransition q e = Inr () \<Longrightarrow> lifecycle safe_parse f p (es @ [e]) (event_phase e)"

inductive_cases lifecycle_snocE: "lifecycle sp f p (es @ [e]) q"

lemma lifecycle_last:
  "lifecycle sp f p es q \<Longrightarrow> es \<noteq> [] \<Longrightarrow>
     \<exists>es' e raw q'. es = es' @ [e] \<and> q = event_phase e \<and> lifecycle sp f p es' q' \<and>
       parseRunEvent sp f raw = Inr e \<and> assertRunEventTransition q' e = Inr ()"
  by (erule lifecycle.cases) auto

lemma lifecycle_terminal: "lifecycle sp f p es q \<Longrightarrow> isTerminalRunEventPhase p \<Longrightarrow> es = [] \<and> q = p"
  by (induction rule: lifecycle.induct) (use event_transition_Inr in auto)

text \<open>The events a run without a resume must have had when it is in a phase.\<close>

definition milestone_events :: "string list" where
  "milestone_events = [''work_order.admitted'', ''repository.lease_acquired'',
     ''identity.leases_acquired'', ''workspace.prepared'', ''task_packet.created'',
     ''implementation.started'', ''candidate.created'', ''verification.started'', ''review.started'',
     ''delivery.ready'', ''branch.pushed'', ''pull_request.opened'', ''ci.waiting'',
     ''pr_review.started'', ''pull_request.delivered'']"

fun milestones :: "phase \<Rightarrow> string list" where
  "milestones ADMITTED = take 1 milestone_events"
| "milestones REPOSITORY_LEASED = take 2 milestone_events"
| "milestones IDENTITY_READY = take 3 milestone_events"
| "milestones WORKSPACE_READY = take 4 milestone_events"
| "milestones TASK_PACKET_READY = take 5 milestone_events"
| "milestones IMPLEMENTING = take 6 milestone_events"
| "milestones CANDIDATE_READY = take 7 milestone_events"
| "milestones LOCAL_VERIFY = take 8 milestone_events"
| "milestones FIXING = take 8 milestone_events"
| "milestones LOCAL_REVIEW = take 9 milestone_events"
| "milestones DELIVERY_READY = take 10 milestone_events"
| "milestones PUSHED = take 11 milestone_events"
| "milestones PR_OPEN = take 12 milestone_events"
| "milestones CI_WAIT = take 13 milestone_events"
| "milestones PR_REVIEW = take 14 milestone_events"
| "milestones PR_DELIVERED = milestone_events"
| "milestones MERGE_QUEUE_WAIT = ''merge_queue.entered'' # milestone_events"
| "milestones MERGE_READY = ''merge.ready'' # ''merge_queue.entered'' # milestone_events"
| "milestones MERGED = ''merge.completed'' # ''merge.ready'' # ''merge_queue.entered'' # milestone_events"
| "milestones EVIDENCE_FINALIZED = ''evidence.finalized'' # milestone_events"
| "milestones COMPLETED = ''run.completed'' # ''evidence.finalized'' # milestone_events"
| "milestones _ = []"

lemma table_milestones:
  "list_all (\<lambda>(ty, cp). case cp of ResumePhaseFromPayload \<Rightarrow> True
     | Fixed p \<Rightarrow> (case map_of RUN_EVENT_FROM_PHASES ty of
         None \<Rightarrow> milestones p = []
       | Some srcs \<Rightarrow> list_all (\<lambda>q. list_all (\<lambda>m. m = ty \<or> m \<in> set (milestones q)) (milestones p)) srcs))
     contract_table"
  by code_simp

lemma step_milestones:
  assumes "documented_parse sp" and "parseRunEvent sp f raw = Inr e"
    and "assertRunEventTransition q e = Inr ()" and "event_type e \<noteq> ''run.resumed''"
  shows "set (milestones (event_phase e)) \<subseteq> insert (event_type e) (set (milestones q))"
proof -
  have "(event_type e, Fixed (event_phase e)) \<in> set contract_table"
    using accepted_in_table [OF assms(1,2)] assms(4) by simp
  then have "case map_of RUN_EVENT_FROM_PHASES (event_type e) of None \<Rightarrow> milestones (event_phase e) = []
       | Some srcs \<Rightarrow> list_all (\<lambda>q. list_all (\<lambda>m. m = event_type e \<or> m \<in> set (milestones q))
           (milestones (event_phase e))) srcs"
    using table_milestones by (fastforce simp: list_all_iff)
  then show ?thesis
    using event_transition_Inr [OF assms(3)] by (auto simp: list_all_iff split: option.splits)
qed

lemma lifecycle_milestones:
  "lifecycle sp f p es q \<Longrightarrow> documented_parse sp \<Longrightarrow> p = RECEIVED \<Longrightarrow>
     ''run.resumed'' \<notin> event_type ` set es \<Longrightarrow> set (milestones q) \<subseteq> event_type ` set es"
proof (induction rule: lifecycle.induct)
  case (lifecycle_step p es q raw e)
  then have "set (milestones q) \<subseteq> event_type ` set es" by simp
  moreover have "set (milestones (event_phase e)) \<subseteq> insert (event_type e) (set (milestones q))"
    using lifecycle_step by (intro step_milestones) auto
  ultimately show ?case by auto
qed simp

lemma to_evidence_finalized:
  assumes "documented_parse sp" and "parseRunEvent sp f raw = Inr e"
    and "event_phase e = EVIDENCE_FINALIZED"
  shows "event_type e \<in> {''evidence.finalized'', ''run.resumed''}"
proof -
  have "list_all (\<lambda>(ty, cp). cp = Fixed EVIDENCE_FINALIZED \<longrightarrow> ty = ''evidence.finalized'') contract_table"
    by code_simp
  then show ?thesis using accepted_in_table [OF assms(1,2)] assms(3) by (auto simp: list_all_iff)
qed

lemma completed_event:
  assumes "documented_parse sp" and "parseRunEvent sp f raw = Inr e"
    and "assertRunEventTransition q e = Inr ()" and "event_phase e = COMPLETED"
  shows "q = EVIDENCE_FINALIZED \<and> event_type e = ''run.completed'' \<and>
     map_of (payload e) ''satisfied'' = Some (JBool True)"
proof -
  have table: "list_all (\<lambda>(ty, cp). cp = Fixed COMPLETED \<longrightarrow> ty = ''run.completed'') contract_table"
    by code_simp
  have q: "q = EVIDENCE_FINALIZED"
    using event_transition_Inr [OF assms(3)] assms(4) to_completed by simp
  then have "event_type e \<noteq> ''run.resumed''"
    using event_transition_Inr [OF assms(3)] by (auto simp: RUN_EVENT_FROM_PHASES_def)
  then have ty: "event_type e = ''run.completed''"
    using accepted_in_table [OF assms(1,2)] assms(4) table by (auto simp: list_all_iff)
  obtain cp s where "map_of (RUN_EVENT_CONTRACTS f) (event_type e) = Some (cp, s)"
    "conforms s (JObject (payload e))"
    using parse_accepted [OF assms(1,2)] by blast
  then have "map_of (payload e) ''satisfied'' = Some (JBool True)"
    unfolding ty
    by (auto simp: RUN_EVENT_CONTRACTS_def setup_contracts_def candidate_contracts_def ci_contracts_def
        delivery_contracts_def candidatePayload_def required_def split: option.splits json.splits bool.splits)
  with q ty show ?thesis by simp
qed

section \<open>Properties\<close>

text \<open>Sample input: a validator as documented, and the raw events of a short run.\<close>

definition sample_parse :: "zschema \<Rightarrow> json \<Rightarrow> json option" where
  "sample_parse s v = (if conforms s v then Some v else None)"

definition sample_formats :: formats where
  "sample_formats = \<lparr>is_url = \<lambda>_. True, is_datetime = \<lambda>_. True\<rparr>"

definition sample_digest :: string where "sample_digest = ''sha256:'' @ replicate 64 (CHR ''0'')"
definition sample_sha :: string where "sample_sha = replicate 40 (CHR ''a'')"

definition raw_event :: "string \<Rightarrow> phase \<Rightarrow> (string \<times> json) list \<Rightarrow> json" where
  "raw_event ty p pl = JObject [(''schema'', JString ''asf.run-event/v1''), (''event_id'', JString ''e''),
     (''run_id'', JString ''r''), (''work_order_id'', JString ''w''), (''attempt_id'', JString ''a''),
     (''seq'', JNumber 1), (''occurred_at'', JString ''t''), (''type'', JString ty),
     (''phase'', JString (the (map_of RUN_EVENT_PHASES p))), (''payload'', JObject pl),
     (''policy_digest'', JString sample_digest)]"

definition the_event :: "string \<Rightarrow> phase \<Rightarrow> (string \<times> json) list \<Rightarrow> run_event" where
  "the_event ty p pl = \<lparr>event_id = ''e'', run_id = ''r'', work_order_id = ''w'', attempt_id = ''a'', seq = 1,
     occurred_at = ''t'', event_type = ty, event_phase = p, payload = pl, policy_digest = sample_digest\<rparr>"

definition pause_payload :: "(string \<times> json) list" where
  "pause_payload = [(''code'', JString ''WAIT''), (''summary'', JString ''s''),
     (''checkpoint'', JString ''RECEIVED''), (''retry_disposition'', JString ''safe''),
     (''required_actor'', JString ''asf''), (''required_action'', JString ''a''),
     (''evidence_refs'', JArray [])]"

definition resume_payload :: "(string \<times> json) list" where
  "resume_payload = [(''interrupted_phase'', JString ''WAITING_APPROVAL''),
     (''resume_phase'', JString ''EVIDENCE_FINALIZED''), (''evidence_digest'', JString sample_digest),
     (''approval_id'', JString ''ap'')]"

definition completed_payload :: "(string \<times> json) list" where
  "completed_payload = [(''candidate_sha'', JString sample_sha), (''closure_target'', JString ''pr''),
     (''satisfied'', JBool True), (''evidence_bundle_digest'', JString sample_digest)]"

lemma sample_documented: "documented_parse sample_parse"
  by (simp add: documented_parse_def sample_parse_def)

lemma sample_digest_ok: "is_digest sample_digest"
  by code_simp

lemma sample_sha_ok: "is_git_sha sample_sha"
  by (simp add: is_git_sha_def sample_sha_def hex_char_def digit_char_def char_in_def list_all_iff)

lemma phase_named: "\<exists>n. map_of RUN_EVENT_PHASES p = Some n \<and> n \<in> set (map snd RUN_EVENT_PHASES) \<and> phase_of_name n = Some p"
proof -
  have d: "distinct (map snd RUN_EVENT_PHASES)" by code_simp
  have "p \<in> set (map fst RUN_EVENT_PHASES)" by (cases p) (simp_all add: RUN_EVENT_PHASES_def)
  then obtain n where n: "map_of RUN_EVENT_PHASES p = Some n"
    by (metis list.set_map map_of_eq_None_iff not_Some_eq)
  then have m: "(p, n) \<in> set RUN_EVENT_PHASES" by (rule map_of_SomeD)
  then have "(n, p) \<in> set (map (\<lambda>(p, n). (n, p)) RUN_EVENT_PHASES)" by force
  moreover have "distinct (map fst (map (\<lambda>(p, n). (n, p)) RUN_EVENT_PHASES))"
    using d by (simp add: comp_def case_prod_unfold)
  ultimately have "phase_of_name n = Some p" by (simp add: phase_of_name_def)
  moreover have "n \<in> set (map snd RUN_EVENT_PHASES)" using m by force
  ultimately show ?thesis using n by blast
qed

lemma raw_event_conforms:
  "conforms eventTypeSchema (JString ty) \<Longrightarrow> conforms (runEventSchema sample_formats) (raw_event ty p pl)"
proof -
  assume ty: "conforms eventTypeSchema (JString ty)"
  obtain n where "map_of RUN_EVENT_PHASES p = Some n" "n \<in> set (map snd RUN_EVENT_PHASES)"
    using phase_named [of p] by blast
  with ty show ?thesis
    by (simp add: runEventSchema_def raw_event_def required_def identifierSchema_def positive_int_def
        safe_int_def digestSchema_def sample_digest_ok sample_formats_def runEventPhaseSchema_def)
qed

lemma raw_event_typed: "typed_event (raw_event ty p pl) = Some (the_event ty p pl)"
  using phase_named [of p]
  by (auto simp: typed_event_def raw_event_def text_field_def int_field_def object_field_def the_event_def)

lemma raw_event_parses:
  assumes "conforms eventTypeSchema (JString ty)"
    and "map_of (RUN_EVENT_CONTRACTS sample_formats) ty = Some (cp, s)"
    and "\<forall>p'. cp = Fixed p' \<longrightarrow> p' = p" and "conforms s (JObject pl)"
    and "check_payload cp p pl = Inr ()"
  shows "parseRunEvent sample_parse sample_formats (raw_event ty p pl) = Inr (the_event ty p pl)"
proof -
  have head: "raw_event ty p pl = JObject ms \<Longrightarrow> map_of ms ''schema'' = Some (JString ''asf.run-event/v1'') \<and>
      Option.bind (text_field ms ''phase'') phase_of_name \<noteq> None" for ms
    using phase_named [of p] by (auto simp: raw_event_def text_field_def)
  obtain ms where raw: "raw_event ty p pl = JObject ms" by (simp add: raw_event_def)
  have "Option.bind (sample_parse (runEventSchema sample_formats) (JObject ms)) typed_event =
      Some (the_event ty p pl)"
    using raw_event_conforms [OF assms(1), of p pl] raw_event_typed [of ty p pl]
    by (simp add: sample_parse_def raw)
  then show ?thesis
    using head [OF raw] assms
    by (cases cp) (auto simp: parseRunEvent_def raw the_event_def sample_parse_def)
qed

lemmas contract_defs = RUN_EVENT_CONTRACTS_def setup_contracts_def candidate_contracts_def
  ci_contracts_def delivery_contracts_def resume_contracts_def stop_contracts_def

lemmas payload_defs = required_def optional_def digestSchema_def sample_digest_ok gitShaSchema_def
  sample_sha_ok identifierSchema_def runEventPhaseSchema_def RUN_EVENT_PHASES_def bounded_text_def

lemmas word_defs = eventTypeSchema_def event_word_def lower_alpha_def char_in_def

lemma sample_steps:
  "parseRunEvent sample_parse sample_formats (raw_event ''run.waiting_approval'' WAITING_APPROVAL pause_payload) =
     Inr (the_event ''run.waiting_approval'' WAITING_APPROVAL pause_payload)"
  "parseRunEvent sample_parse sample_formats (raw_event ''run.resumed'' EVIDENCE_FINALIZED resume_payload) =
     Inr (the_event ''run.resumed'' EVIDENCE_FINALIZED resume_payload)"
  "parseRunEvent sample_parse sample_formats (raw_event ''run.completed'' COMPLETED completed_payload) =
     Inr (the_event ''run.completed'' COMPLETED completed_payload)"
    apply (rule raw_event_parses [where cp = "Fixed WAITING_APPROVAL" and s = approvalStopPayloadSchema])
        apply (simp_all add: word_defs contract_defs)
     apply (simp add: approvalStopPayloadSchema_def stop_fields_def pause_payload_def payload_defs
      upper_alpha_def char_in_def evidenceRefsSchema_def)
    apply (simp add: check_payload_def observation_mismatch_def text_field_def pause_payload_def)
   apply (rule raw_event_parses [where cp = ResumePhaseFromPayload])
       apply (simp_all add: word_defs contract_defs)
    apply (simp add: resume_payload_def payload_defs)
   apply (simp add: check_payload_def observation_mismatch_def text_field_def resume_payload_def
      phase_of_name_def RUN_EVENT_PHASES_def)
  apply (rule raw_event_parses [where cp = "Fixed COMPLETED"])
      apply (simp_all add: word_defs contract_defs)
   apply (simp add: completed_payload_def candidatePayload_def payload_defs)
  apply (simp add: check_payload_def observation_mismatch_def text_field_def completed_payload_def)
  done

lemma sample_lifecycle:
  "lifecycle sample_parse sample_formats RECEIVED
     [the_event ''run.waiting_approval'' WAITING_APPROVAL pause_payload,
      the_event ''run.resumed'' EVIDENCE_FINALIZED resume_payload] EVIDENCE_FINALIZED"
  "lifecycle sample_parse sample_formats RECEIVED
     [the_event ''run.waiting_approval'' WAITING_APPROVAL pause_payload,
      the_event ''run.resumed'' EVIDENCE_FINALIZED resume_payload,
      the_event ''run.completed'' COMPLETED completed_payload] COMPLETED"
proof -
  let ?a = "the_event ''run.waiting_approval'' WAITING_APPROVAL pause_payload"
  let ?b = "the_event ''run.resumed'' EVIDENCE_FINALIZED resume_payload"
  let ?c = "the_event ''run.completed'' COMPLETED completed_payload"
  have ph: "event_phase ?a = WAITING_APPROVAL" "event_phase ?b = EVIDENCE_FINALIZED" "event_phase ?c = COMPLETED"
    by (simp_all add: the_event_def)
  have t: "assertRunEventTransition RECEIVED ?a = Inr ()"
    "assertRunEventTransition WAITING_APPROVAL ?b = Inr ()"
    "assertRunEventTransition EVIDENCE_FINALIZED ?c = Inr ()"
    by (simp_all add: assertRunEventTransition_def the_event_def assertRunPhaseTransition_def
        isTerminalRunEventPhase_def TERMINAL_RUN_EVENT_PHASES_def INTERRUPTING_PHASES_def
        DIRECT_STOP_PHASES_def CHECKPOINT_SELF_TRANSITIONS_def RUN_EVENT_FROM_PHASES_def)
  have "lifecycle sample_parse sample_formats RECEIVED ([] @ [?a]) (event_phase ?a)"
    by (rule lifecycle_step [OF lifecycle_start sample_steps(1) t(1)])
  then have 1: "lifecycle sample_parse sample_formats RECEIVED [?a] WAITING_APPROVAL" by (simp add: ph)
  show 2: "lifecycle sample_parse sample_formats RECEIVED [?a, ?b] EVIDENCE_FINALIZED"
    using lifecycle_step [OF 1 sample_steps(2) t(2)] by (simp add: ph)
  show "lifecycle sample_parse sample_formats RECEIVED [?a, ?b, ?c] COMPLETED"
    using lifecycle_step [OF 2 sample_steps(3) t(3)] by (simp add: ph)
qed

text \<open>a terminal phase is final: no sequence of events that parse and are accepted leaves
  \<open>COMPLETED\<close>, \<open>CANCELLED\<close>, \<open>FAILED\<close>, \<open>REFUSED\<close>, \<open>QUARANTINED\<close> or \<open>BUDGET_EXHAUSTED\<close>, not even
  by a resume or a cancellation.\<close>

theorem terminal_phase_is_final:
  assumes "lifecycle safe_parse f p es q" and "isTerminalRunEventPhase p"
  shows "es = [] \<and> q = p"
  using assms by (rule lifecycle_terminal)

theorem terminal_phase_is_final_witness:
  "\<not> lifecycle sample_parse sample_formats CANCELLED
     [the_event ''run.completed'' COMPLETED completed_payload] COMPLETED"
proof
  assume "lifecycle sample_parse sample_formats CANCELLED
     [the_event ''run.completed'' COMPLETED completed_payload] COMPLETED"
  from terminal_phase_is_final [OF this] show False
    by (simp add: isTerminalRunEventPhase_def TERMINAL_RUN_EVENT_PHASES_def)
qed

text \<open>C21: a run becomes \<open>COMPLETED\<close> only by a \<open>run.completed\<close> event whose payload says that the
  closure target is satisfied, directly after it was \<open>EVIDENCE_FINALIZED\<close>; and it entered that
  phase by \<open>evidence.finalized\<close> or by a resume.\<close>

theorem completion_needs_evidence:
  assumes "documented_parse safe_parse" and "lifecycle safe_parse f RECEIVED es COMPLETED"
  shows "\<exists>es' e. es = es' @ [e] \<and> event_type e = ''run.completed'' \<and>
     map_of (payload e) ''satisfied'' = Some (JBool True) \<and>
     lifecycle safe_parse f RECEIVED es' EVIDENCE_FINALIZED \<and>
     (\<exists>d \<in> set es'. event_phase d = EVIDENCE_FINALIZED \<and>
        event_type d \<in> {''evidence.finalized'', ''run.resumed''})"
proof -
  have "es \<noteq> []" using assms(2) by (auto elim: lifecycle.cases)
  then obtain es' e raw q where e: "es = es' @ [e]" "event_phase e = COMPLETED"
    "lifecycle safe_parse f RECEIVED es' q" "parseRunEvent safe_parse f raw = Inr e"
    "assertRunEventTransition q e = Inr ()"
    using lifecycle_last [OF assms(2)] by metis
  then have c: "q = EVIDENCE_FINALIZED" "event_type e = ''run.completed''"
    "map_of (payload e) ''satisfied'' = Some (JBool True)"
    using completed_event [OF assms(1) e(4,5,2)] by auto
  have "es' \<noteq> []" using e(3) c(1) by (auto elim: lifecycle.cases)
  then obtain ds d raw' where "es' = ds @ [d]" "event_phase d = EVIDENCE_FINALIZED"
    "parseRunEvent safe_parse f raw' = Inr d"
    using lifecycle_last [OF e(3)] c(1) by fastforce
  then have "d \<in> set es'" "event_phase d = EVIDENCE_FINALIZED"
    "event_type d \<in> {''evidence.finalized'', ''run.resumed''}"
    using to_evidence_finalized [OF assms(1)] by auto
  then show ?thesis using e c by blast
qed

theorem completion_needs_evidence_witness:
  "\<exists>es' e. [the_event ''run.waiting_approval'' WAITING_APPROVAL pause_payload,
      the_event ''run.resumed'' EVIDENCE_FINALIZED resume_payload,
      the_event ''run.completed'' COMPLETED completed_payload] = es' @ [e] \<and>
     map_of (payload e) ''satisfied'' = Some (JBool True)"
  using completion_needs_evidence [OF sample_documented sample_lifecycle(2)] by blast

text \<open>nothing is skipped in a run that was never resumed from a pause: in every phase of the
  delivery path it has had all the events of the path before it, so a pushed branch has been
  admitted, leased, implemented, verified, reviewed and declared ready for delivery.\<close>

theorem unresumed_run_skips_nothing:
  assumes "documented_parse safe_parse" and "lifecycle safe_parse f RECEIVED es q"
    and "\<forall>e \<in> set es. event_type e \<noteq> ''run.resumed''"
  shows "set (milestones q) \<subseteq> event_type ` set es"
proof -
  have "''run.resumed'' \<notin> event_type ` set es" using assms(3) by force
  then show ?thesis using lifecycle_milestones [OF assms(2,1)] by simp
qed

theorem unresumed_run_skips_nothing_witness:
  "set (milestones WAITING_APPROVAL) \<subseteq>
     {event_type (the_event ''run.waiting_approval'' WAITING_APPROVAL pause_payload)}"
proof -
  let ?a = "the_event ''run.waiting_approval'' WAITING_APPROVAL pause_payload"
  have "assertRunEventTransition RECEIVED ?a = Inr ()"
    by (simp add: assertRunEventTransition_def the_event_def assertRunPhaseTransition_def
        isTerminalRunEventPhase_def TERMINAL_RUN_EVENT_PHASES_def INTERRUPTING_PHASES_def
        RUN_EVENT_FROM_PHASES_def)
  then have "lifecycle sample_parse sample_formats RECEIVED ([] @ [?a]) (event_phase ?a)"
    by (rule lifecycle_step [OF lifecycle_start sample_steps(1)])
  then have l: "lifecycle sample_parse sample_formats RECEIVED [?a] WAITING_APPROVAL"
    by (simp add: the_event_def)
  show ?thesis
    using unresumed_run_skips_nothing [OF sample_documented l] by (simp add: the_event_def)
qed

text \<open>the table of source phases and the phase relation agree: every event is accepted from
  each of its source phases, and every normal successor of a phase is reached by some event.\<close>

theorem event_tables_agree:
  assumes "map_of RUN_EVENT_FROM_PHASES (event_type e) = Some srcs" and "q \<in> set srcs"
    and "map_of (RUN_EVENT_CONTRACTS f) (event_type e) = Some (Fixed (event_phase e), s)"
  shows "assertRunEventTransition q e = Inr () \<and>
     (\<forall>p' \<in> set (NORMAL_PHASE_SUCCESSORS q). \<exists>ty srcs' s'. map_of RUN_EVENT_FROM_PHASES ty = Some srcs' \<and>
        q \<in> set srcs' \<and> map_of (RUN_EVENT_CONTRACTS f) ty = Some (Fixed p', s'))"
proof
  have a: "list_all (\<lambda>(ty, cp). case cp of ResumePhaseFromPayload \<Rightarrow> True | Fixed p \<Rightarrow>
      (case map_of RUN_EVENT_FROM_PHASES ty of None \<Rightarrow> True
       | Some srcs \<Rightarrow> list_all (\<lambda>q. assertRunPhaseTransition q p = Inr ()) srcs)) contract_table"
    by code_simp
  have mem: "(event_type e, Fixed (event_phase e)) \<in> set contract_table"
    using contract_in_table [OF assms(3)] .
  then have "assertRunPhaseTransition q (event_phase e) = Inr ()"
    using a assms(1,2) by (fastforce simp: list_all_iff)
  moreover have "event_type e \<noteq> ''run.resumed''"
  proof
    assume "event_type e = ''run.resumed''"
    moreover have "list_all (\<lambda>(ty, cp). ty = ''run.resumed'' \<longrightarrow> cp = ResumePhaseFromPayload) contract_table"
      by code_simp
    ultimately show False using mem by (fastforce simp: list_all_iff)
  qed
  ultimately show "assertRunEventTransition q e = Inr ()"
    using assms(1,2) by (simp add: assertRunEventTransition_def)
next
  have b: "list_all (\<lambda>q. list_all (\<lambda>p. list_ex (\<lambda>(ty, cp). cp = Fixed p \<and>
      (case map_of RUN_EVENT_FROM_PHASES ty of None \<Rightarrow> False | Some srcs \<Rightarrow> q \<in> set srcs))
      contract_table) (NORMAL_PHASE_SUCCESSORS q)) (map fst RUN_EVENT_PHASES)"
    by code_simp
  have q: "q \<in> set (map fst RUN_EVENT_PHASES)" by (cases q) (simp_all add: RUN_EVENT_PHASES_def)
  have dist: "distinct (map fst (RUN_EVENT_CONTRACTS f))"
  proof -
    have "map fst (RUN_EVENT_CONTRACTS f) = map fst contract_table"
      unfolding contract_table_any [of f, symmetric] by auto
    moreover have "distinct (map fst contract_table)" by code_simp
    ultimately show ?thesis by simp
  qed
  show "\<forall>p' \<in> set (NORMAL_PHASE_SUCCESSORS q). \<exists>ty srcs' s'. map_of RUN_EVENT_FROM_PHASES ty = Some srcs' \<and>
        q \<in> set srcs' \<and> map_of (RUN_EVENT_CONTRACTS f) ty = Some (Fixed p', s')"
  proof
    fix p' assume "p' \<in> set (NORMAL_PHASE_SUCCESSORS q)"
    then have "list_ex (\<lambda>(ty, cp). cp = Fixed p' \<and>
      (case map_of RUN_EVENT_FROM_PHASES ty of None \<Rightarrow> False | Some srcs \<Rightarrow> q \<in> set srcs)) contract_table"
      using b q by (auto simp only: list_all_iff)
    then obtain ty srcs' where ty: "(ty, Fixed p') \<in> set contract_table"
      "map_of RUN_EVENT_FROM_PHASES ty = Some srcs'" "q \<in> set srcs'"
      by (auto simp: list_ex_iff split: option.splits)
    then obtain s' where "(ty, Fixed p', s') \<in> set (RUN_EVENT_CONTRACTS f)"
      unfolding contract_table_any [of f, symmetric] by auto
    then have "map_of (RUN_EVENT_CONTRACTS f) ty = Some (Fixed p', s')"
      using dist by (simp add: map_of_eq_Some_iff)
    then show "\<exists>ty srcs' s'. map_of RUN_EVENT_FROM_PHASES ty = Some srcs' \<and>
        q \<in> set srcs' \<and> map_of (RUN_EVENT_CONTRACTS f) ty = Some (Fixed p', s')"
      using ty by blast
  qed
qed

theorem event_tables_agree_witness:
  "assertRunEventTransition EVIDENCE_FINALIZED (the_event ''run.completed'' COMPLETED completed_payload) = Inr ()"
proof -
  have "\<exists>s. map_of (RUN_EVENT_CONTRACTS sample_formats) ''run.completed'' = Some (Fixed COMPLETED, s)"
    by (simp add: contract_defs)
  then obtain s where s: "map_of (RUN_EVENT_CONTRACTS sample_formats) ''run.completed'' = Some (Fixed COMPLETED, s)"
    by blast
  show ?thesis
    using event_tables_agree [of "the_event ''run.completed'' COMPLETED completed_payload" "[EVIDENCE_FINALIZED]"
        EVIDENCE_FINALIZED sample_formats s] s
    by (simp add: the_event_def RUN_EVENT_FROM_PHASES_def)
qed

text \<open>an accepted event that reports an observed remote or pull-request head reports the exact
  candidate: when both fields are present they are equal, and a pushed branch and a delivered
  pull request have both.\<close>

theorem observations_bind_candidate:
  assumes "documented_parse safe_parse" and "parseRunEvent safe_parse f raw = Inr e"
  shows "(event_type e = ''branch.pushed'' \<longrightarrow>
       (\<exists>sha. is_git_sha sha \<and> text_field (payload e) ''candidate_sha'' = Some sha \<and>
          text_field (payload e) ''observed_remote_sha'' = Some sha)) \<and>
     (event_type e = ''pull_request.opened'' \<or> event_type e = ''pull_request.delivered'' \<longrightarrow>
       (\<exists>sha. is_git_sha sha \<and> text_field (payload e) ''candidate_sha'' = Some sha \<and>
          text_field (payload e) ''observed_head_sha'' = Some sha))"
proof -
  obtain cp s where s: "map_of (RUN_EVENT_CONTRACTS f) (event_type e) = Some (cp, s)"
    "conforms s (JObject (payload e))" "check_payload cp (event_phase e) (payload e) = Inr ()"
    using parse_accepted [OF assms] by blast
  have m: "\<not> observation_mismatch (payload e) ''observed_remote_sha''"
    "\<not> observation_mismatch (payload e) ''observed_head_sha''"
    using s(3) by (auto simp: check_payload_def split: if_splits)
  have field: "\<exists>v. map_of ms k = Some (JString v) \<and> is_git_sha v"
    if "conforms (ZObject fs) (JObject ms)" "(k, False, gitShaSchema) \<in> set fs" for fs ms k
    using that by (fastforce simp: list_all_iff gitShaSchema_def split: option.splits json.splits)
  have push: "event_type e = ''branch.pushed'' \<Longrightarrow> \<exists>fs. s = ZObject fs \<and>
      (''candidate_sha'', False, gitShaSchema) \<in> set fs \<and> (''observed_remote_sha'', False, gitShaSchema) \<in> set fs"
    using s(1) by (auto simp: contract_defs candidatePayload_def required_def)
  have opened: "event_type e = ''pull_request.opened'' \<or> event_type e = ''pull_request.delivered'' \<Longrightarrow>
      \<exists>fs. s = ZObject fs \<and>
      (''candidate_sha'', False, gitShaSchema) \<in> set fs \<and> (''observed_head_sha'', False, gitShaSchema) \<in> set fs"
    using s(1) by (auto simp: contract_defs candidatePayload_def required_def)
  have "\<exists>sha. is_git_sha sha \<and> text_field (payload e) ''candidate_sha'' = Some sha \<and>
      text_field (payload e) k = Some sha"
    if "s = ZObject fs" "(''candidate_sha'', False, gitShaSchema) \<in> set fs" "(k, False, gitShaSchema) \<in> set fs"
      "\<not> observation_mismatch (payload e) k" for k fs
    using field [of fs "payload e" "''candidate_sha''"] field [of fs "payload e" k] that s(2)
    by (auto simp: observation_mismatch_def text_field_def)
  then show ?thesis using push opened m by blast
qed

theorem observations_bind_candidate_witness:
  "\<exists>sha. is_git_sha sha \<and> text_field [(''candidate_sha'', JString sample_sha), (''remote_ref'', JString ''r''),
     (''observed_remote_sha'', JString sample_sha)] ''observed_remote_sha'' = Some sha"
proof -
  let ?pl = "[(''candidate_sha'', JString sample_sha), (''remote_ref'', JString ''r''),
     (''observed_remote_sha'', JString sample_sha)]"
  have "parseRunEvent sample_parse sample_formats (raw_event ''branch.pushed'' PUSHED ?pl) =
     Inr (the_event ''branch.pushed'' PUSHED ?pl)"
    apply (rule raw_event_parses [where cp = "Fixed PUSHED"])
        apply (simp_all add: word_defs contract_defs)
     apply (simp add: candidatePayload_def payload_defs)
    apply (simp add: check_payload_def observation_mismatch_def text_field_def)
    done
  from observations_bind_candidate [OF sample_documented this] show ?thesis
    by (auto simp: the_event_def)
qed

text \<open>the transition checks alone do not bind a resume to the phase it interrupted: a run that
  was only received can be paused, resumed as \<open>EVIDENCE_FINALIZED\<close> and completed, with every event
  parsing and every transition accepted.\<close>

theorem resume_can_skip_the_path:
  "lifecycle sample_parse sample_formats RECEIVED
     [the_event ''run.waiting_approval'' WAITING_APPROVAL pause_payload,
      the_event ''run.resumed'' EVIDENCE_FINALIZED resume_payload,
      the_event ''run.completed'' COMPLETED completed_payload] COMPLETED"
  by (rule sample_lifecycle(2))

end
