(* ===== verification/Checkpoint_Policy.thy ===== *)
theory Checkpoint_Policy
  imports Run_Event
begin

text \<open>
  The operator-owned recovery policies of \<open>src/src/asf/checkpoint-policy.ts\<close> (lines 15-719): the
  seventeen checkpoint kinds, the entry of each, and the lookup by kind. Enumerations of string
  literals are datatypes with a table of their names.
\<close>

section \<open>Enumerations\<close>

datatype checkpoint_kind =
  WorkOrderAdmission | RepositoryLeaseAcquisition | IdentityLeaseAcquisition
| WorkspaceSandboxProof | TaskPacketCreation | ImplementerSessionMarker
| CandidateCommitCreation | LocalVerificationPass | LocalReviewFixerIteration
| BranchPushIntentObservation | PullRequestIntentObservation | CiReconciliationSnapshot
| PrReviewFixerIteration | MergeQueueCandidateState | MergeIntentObservation
| EvidenceFinalizationAcknowledgement | LeaseReleaseWorkspaceCleanup

definition ASF_CHECKPOINT_KINDS :: "(checkpoint_kind \<times> string) list" where
  "ASF_CHECKPOINT_KINDS = [
     (WorkOrderAdmission, ''work-order-admission''),
     (RepositoryLeaseAcquisition, ''repository-lease-acquisition''),
     (IdentityLeaseAcquisition, ''identity-lease-acquisition''),
     (WorkspaceSandboxProof, ''workspace-sandbox-proof''),
     (TaskPacketCreation, ''task-packet-creation''),
     (ImplementerSessionMarker, ''implementer-session-marker''),
     (CandidateCommitCreation, ''candidate-commit-creation''),
     (LocalVerificationPass, ''local-verification-pass''),
     (LocalReviewFixerIteration, ''local-review-fixer-iteration''),
     (BranchPushIntentObservation, ''branch-push-intent-observation''),
     (PullRequestIntentObservation, ''pull-request-intent-observation''),
     (CiReconciliationSnapshot, ''ci-reconciliation-snapshot''),
     (PrReviewFixerIteration, ''pr-review-fixer-iteration''),
     (MergeQueueCandidateState, ''merge-queue-candidate-state''),
     (MergeIntentObservation, ''merge-intent-observation''),
     (EvidenceFinalizationAcknowledgement, ''evidence-finalization-acknowledgement''),
     (LeaseReleaseWorkspaceCleanup, ''lease-release-workspace-cleanup'')]"

datatype replay_policy =
  Replayable | ReconcileFirst | FreshContext | NotReplayable

definition ASF_CHECKPOINT_REPLAY_POLICIES :: "(replay_policy \<times> string) list" where
  "ASF_CHECKPOINT_REPLAY_POLICIES = [
     (Replayable, ''replayable''), (ReconcileFirst, ''reconcile-first''),
     (FreshContext, ''fresh-context''), (NotReplayable, ''not-replayable'')]"

datatype reconciliation_observation =
  ObsIdentityLease | ObsProviderSession | ObsGithubBranch | ObsGithubPullRequest | ObsGithubCi
| ObsGithubMergeQueue | ObsGithubMerge | ObsAsfAcknowledgement | ObsRepositoryLease

definition ASF_RECONCILIATION_OBSERVATIONS :: "(reconciliation_observation \<times> string) list" where
  "ASF_RECONCILIATION_OBSERVATIONS = [
     (ObsIdentityLease, ''identity-lease-state''),
     (ObsProviderSession, ''provider-session-state''),
     (ObsGithubBranch, ''github-branch-state''),
     (ObsGithubPullRequest, ''github-pull-request-state''), (ObsGithubCi, ''github-ci-state''),
     (ObsGithubMergeQueue, ''github-merge-queue-state''),
     (ObsGithubMerge, ''github-merge-state''),
     (ObsAsfAcknowledgement, ''asf-acknowledgement-state''),
     (ObsRepositoryLease, ''repository-lease-state'')]"

datatype evidence_class =
  EvRepositoryLease | EvIdentityLease | EvSandboxProof | EvTaskPacket | EvImplementerSession
| EvCandidate | EvLocalVerification | EvLocalReview | EvPushEquivalence | EvPullRequestIdentity
| EvCi | EvPrReview | EvApproval | EvMergeQueue | EvMergeReadiness | EvMergeProvenance
| EvEvidenceBundle | EvAsfAcknowledgement | EvCleanup

definition CANDIDATE_CHANGE_INVALIDATES :: "evidence_class list" where
  "CANDIDATE_CHANGE_INVALIDATES = [
     EvLocalVerification, EvLocalReview, EvPushEquivalence, EvPullRequestIdentity, EvCi,
     EvPrReview, EvApproval, EvMergeQueue, EvMergeReadiness, EvMergeProvenance,
     EvEvidenceBundle, EvAsfAcknowledgement]"

definition MERGE_BASE_CHANGE_INVALIDATES :: "evidence_class list" where
  "MERGE_BASE_CHANGE_INVALIDATES = [
     EvLocalVerification, EvLocalReview, EvPushEquivalence, EvCi, EvPrReview, EvApproval,
     EvMergeQueue, EvMergeReadiness, EvMergeProvenance, EvEvidenceBundle, EvAsfAcknowledgement]"

datatype candidate_binding = NoCandidate | CandidateRequired | CandidateOptional

datatype implementer_session_resume = NeverResume | ProtectedConditional

datatype reviewer_session_resume = FreshOnly

datatype recovery_role = Orchestrator | Implementer | LocalReviewer | PrReviewer

definition recovery_roles :: "(recovery_role \<times> string) list" where
  "recovery_roles = [(Orchestrator, ''orchestrator''), (Implementer, ''implementer''),
     (LocalReviewer, ''local-reviewer''), (PrReviewer, ''pr-reviewer'')]"

record recovery_policy =
  pol_number :: nat
  pol_kind :: checkpoint_kind
  phases :: "phase list"
  durableInputs :: "string list"
  durableOutputs :: "string list"
  replayPolicy :: replay_policy
  reconciliationBeforeReplay :: "reconciliation_observation list"
  invalidatesOnReplay :: "evidence_class list"
  candidateBinding :: candidate_binding
  implementerSessionResume :: implementer_session_resume
  reviewerSessionResume :: reviewer_session_resume
  allowedRecoveryRoles :: "recovery_role list"
  cleanupAndFencing :: "string list"

text \<open>\<open>frozenPolicy\<close>: every entry is given the same reviewer rule. Freezing is the value itself.\<close>

definition frozenPolicy ::
  "(reviewer_session_resume \<Rightarrow> recovery_policy) \<Rightarrow> recovery_policy" where
  "frozenPolicy input = input FreshOnly"

definition TERMINAL_PHASES :: "phase list" where
  "TERMINAL_PHASES = [COMPLETED, CANCELLED, FAILED, REFUSED, QUARANTINED, BUDGET_EXHAUSTED]"

definition CANDIDATE_EVIDENCE :: "evidence_class list" where
  "CANDIDATE_EVIDENCE = CANDIDATE_CHANGE_INVALIDATES"

section \<open>The policies\<close>

definition policy_work_order_admission :: recovery_policy where
  "policy_work_order_admission = frozenPolicy (\<lambda>reviewer. \<lparr>
     pol_number = 1, pol_kind = WorkOrderAdmission, phases = [ADMITTED],
     durableInputs = [''canonical-signed-work-order'', ''signer-trust-snapshot'',
       ''operator-repository-registration'', ''base-ref-and-protection-observation''],
     durableOutputs = [''immutable-admission-record'', ''run-id'', ''work-order-and-envelope-digests'',
       ''effective-policy-digest''],
     replayPolicy = Replayable,
     reconciliationBeforeReplay = [],
     invalidatesOnReplay = [],
     candidateBinding = NoCandidate, implementerSessionResume = NeverResume,
     reviewerSessionResume = reviewer, allowedRecoveryRoles = [Orchestrator],
     cleanupAndFencing = [''admission replay uses the original canonical envelope and idempotency key'',
       ''a conflicting payload creates no run and acquires no resource'']\<rparr>)"

definition policy_repository_lease_acquisition :: recovery_policy where
  "policy_repository_lease_acquisition = frozenPolicy (\<lambda>reviewer. \<lparr>
     pol_number = 2, pol_kind = RepositoryLeaseAcquisition, phases = [REPOSITORY_LEASED],
     durableInputs = [''immutable-admission-record'', ''repository-and-base-binding''],
     durableOutputs = [''repository-lease-id'', ''repository-lease-generation''],
     replayPolicy = Replayable,
     reconciliationBeforeReplay = [],
     invalidatesOnReplay = [EvRepositoryLease],
     candidateBinding = NoCandidate, implementerSessionResume = NeverResume,
     reviewerSessionResume = reviewer, allowedRecoveryRoles = [Orchestrator],
     cleanupAndFencing = [''acquire only after the durable run fence is current'',
       ''release or expire the prior repository lease before a new generation proceeds'']\<rparr>)"

definition policy_identity_lease_acquisition :: recovery_policy where
  "policy_identity_lease_acquisition = frozenPolicy (\<lambda>reviewer. \<lparr>
     pol_number = 3, pol_kind = IdentityLeaseAcquisition, phases = [IDENTITY_READY],
     durableInputs = [''work-order-role-profiles'', ''effective-policy-digest'', ''current-run-generation''],
     durableOutputs = [''role-scoped-identity-attributions'', ''protected-identity-lease-references''],
     replayPolicy = ReconcileFirst,
     reconciliationBeforeReplay = [ObsIdentityLease],
     invalidatesOnReplay = [EvIdentityLease, EvImplementerSession],
     candidateBinding = NoCandidate, implementerSessionResume = NeverResume,
     reviewerSessionResume = reviewer, allowedRecoveryRoles = [Orchestrator],
     cleanupAndFencing = [''observe and revoke any prior-generation identity lease before reacquisition'',
       ''never publish lease identifiers or execution handles'']\<rparr>)"

definition policy_workspace_sandbox_proof :: recovery_policy where
  "policy_workspace_sandbox_proof = frozenPolicy (\<lambda>reviewer. \<lparr>
     pol_number = 4, pol_kind = WorkspaceSandboxProof, phases = [WORKSPACE_READY],
     durableInputs = [''repository-lease'', ''base-sha'', ''sandbox-and-tool-policy''],
     durableOutputs = [''workspace-id'', ''workspace-base-head'', ''sandbox-denial-proof''],
     replayPolicy = Replayable,
     reconciliationBeforeReplay = [],
     invalidatesOnReplay = [EvSandboxProof],
     candidateBinding = NoCandidate, implementerSessionResume = NeverResume,
     reviewerSessionResume = reviewer, allowedRecoveryRoles = [Orchestrator],
     cleanupAndFencing = [''destroy an incomplete workspace before creating a fresh one'',
       ''prove the new sandbox rather than inheriting a prior enforcement result'']\<rparr>)"

definition policy_task_packet_creation :: recovery_policy where
  "policy_task_packet_creation = frozenPolicy (\<lambda>reviewer. \<lparr>
     pol_number = 5, pol_kind = TaskPacketCreation, phases = [TASK_PACKET_READY],
     durableInputs = [''immutable-work-order-contract'', ''effective-policy'',
       ''base-commit-repository-guidance''],
     durableOutputs = [''task-packet-digest'', ''untrusted-source-fence-digest''],
     replayPolicy = Replayable,
     reconciliationBeforeReplay = [],
     invalidatesOnReplay = [EvTaskPacket],
     candidateBinding = NoCandidate, implementerSessionResume = NeverResume,
     reviewerSessionResume = reviewer, allowedRecoveryRoles = [Orchestrator],
     cleanupAndFencing = [''regenerate only from the original immutable inputs'',
       ''repository guidance remains narrowing-only untrusted data'']\<rparr>)"

definition policy_implementer_session_marker :: recovery_policy where
  "policy_implementer_session_marker = frozenPolicy (\<lambda>reviewer. \<lparr>
     pol_number = 6, pol_kind = ImplementerSessionMarker, phases = [IMPLEMENTING],
     durableInputs = [''task-packet-digest'', ''implementer-identity-attribution'',
       ''provider-capability-observation''],
     durableOutputs = [''session-start-or-resume-marker'', ''protected-provider-session-metadata'',
       ''session-identity-digest''],
     replayPolicy = ReconcileFirst,
     reconciliationBeforeReplay = [ObsProviderSession, ObsIdentityLease],
     invalidatesOnReplay = [EvImplementerSession],
     candidateBinding = NoCandidate, implementerSessionResume = ProtectedConditional,
     reviewerSessionResume = reviewer, allowedRecoveryRoles = [Orchestrator, Implementer],
     cleanupAndFencing = [''abort or fence a prior-generation provider session before starting another'',
       ''resume only through protected controller state and a current identity lease'']\<rparr>)"

definition policy_candidate_commit_creation :: recovery_policy where
  "policy_candidate_commit_creation = frozenPolicy (\<lambda>reviewer. \<lparr>
     pol_number = 7, pol_kind = CandidateCommitCreation, phases = [CANDIDATE_READY],
     durableInputs = [''trusted-workspace-head'', ''allowed-change-scope'', ''implementer-output''],
     durableOutputs = [''candidate-sha'', ''parent-sha'', ''tree-digest'', ''candidate-lineage-digest''],
     replayPolicy = Replayable,
     reconciliationBeforeReplay = [],
     invalidatesOnReplay = CANDIDATE_EVIDENCE,
     candidateBinding = CandidateRequired, implementerSessionResume = ProtectedConditional,
     reviewerSessionResume = reviewer, allowedRecoveryRoles = [Orchestrator, Implementer],
     cleanupAndFencing = [''discard uncheckpointed changes after ownership loss'',
       ''a new candidate invalidates every prior candidate-bound result'']\<rparr>)"

definition policy_local_verification_pass :: recovery_policy where
  "policy_local_verification_pass = frozenPolicy (\<lambda>reviewer. \<lparr>
     pol_number = 8, pol_kind = LocalVerificationPass, phases = [LOCAL_VERIFY],
     durableInputs = [''candidate-sha-and-tree'', ''trusted-check-definition'',
       ''sandbox-and-toolchain-digests''],
     durableOutputs = [''candidate-bound-check-result'', ''coverage-status'', ''verification-evidence''],
     replayPolicy = Replayable,
     reconciliationBeforeReplay = [],
     invalidatesOnReplay = [EvLocalVerification, EvLocalReview, EvPushEquivalence, EvCi, EvPrReview, EvApproval,
       EvMergeReadiness, EvEvidenceBundle, EvAsfAcknowledgement],
     candidateBinding = CandidateRequired, implementerSessionResume = ProtectedConditional,
     reviewerSessionResume = reviewer, allowedRecoveryRoles = [Orchestrator, Implementer],
     cleanupAndFencing = [''terminate an incomplete verification process tree'',
       ''re-run in a fresh candidate-bound network-disabled sandbox'']\<rparr>)"

definition policy_local_review_fixer_iteration :: recovery_policy where
  "policy_local_review_fixer_iteration = frozenPolicy (\<lambda>reviewer. \<lparr>
     pol_number = 9, pol_kind = LocalReviewFixerIteration, phases = [LOCAL_REVIEW, FIXING, CANDIDATE_READY],
     durableInputs = [''candidate-bound-local-verification'', ''immutable-task-contract'',
       ''fresh-independent-reviewer-identity''],
     durableOutputs = [''structured-review-verdict'', ''findings-digest'', ''fix-iteration-result''],
     replayPolicy = FreshContext,
     reconciliationBeforeReplay = [],
     invalidatesOnReplay = CANDIDATE_EVIDENCE,
     candidateBinding = CandidateRequired, implementerSessionResume = ProtectedConditional,
     reviewerSessionResume = reviewer, allowedRecoveryRoles = [Orchestrator, Implementer, LocalReviewer],
     cleanupAndFencing = [''terminate any prior reviewer and discard its conversational context'',
       ''a fixer may resume only the implementer session under exact protected bindings'']\<rparr>)"

definition policy_branch_push_intent_observation :: recovery_policy where
  "policy_branch_push_intent_observation = frozenPolicy (\<lambda>reviewer. \<lparr>
     pol_number = 10, pol_kind = BranchPushIntentObservation, phases = [PUSHED],
     durableInputs = [''candidate-sha'', ''deterministic-branch-ref'', ''expected-remote-sha'', ''push-intent''],
     durableOutputs = [''branch-effect-key'', ''observed-exact-remote-sha'', ''observation-digest''],
     replayPolicy = ReconcileFirst,
     reconciliationBeforeReplay = [ObsGithubBranch],
     invalidatesOnReplay = [EvPushEquivalence, EvPullRequestIdentity, EvCi, EvPrReview, EvApproval,
       EvMergeReadiness, EvEvidenceBundle, EvAsfAcknowledgement],
     candidateBinding = CandidateRequired, implementerSessionResume = ProtectedConditional,
     reviewerSessionResume = reviewer, allowedRecoveryRoles = [Orchestrator],
     cleanupAndFencing = [''never retry an in-flight or ambiguous push without exact remote-ref observation'',
       ''use the durable expected remote SHA for any retry'']\<rparr>)"

definition policy_pull_request_intent_observation :: recovery_policy where
  "policy_pull_request_intent_observation = frozenPolicy (\<lambda>reviewer. \<lparr>
     pol_number = 11, pol_kind = PullRequestIntentObservation, phases = [PR_OPEN],
     durableInputs = [''candidate-bound-branch-confirmation'', ''deterministic-pr-marker'',
       ''head-and-base-refs'', ''pr-create-intent''],
     durableOutputs = [''pr-effect-key'', ''observed-pr-identity'', ''observed-head-sha''],
     replayPolicy = ReconcileFirst,
     reconciliationBeforeReplay = [ObsGithubPullRequest],
     invalidatesOnReplay = [EvPullRequestIdentity, EvCi, EvPrReview, EvApproval, EvMergeReadiness, EvEvidenceBundle,
       EvAsfAcknowledgement],
     candidateBinding = CandidateRequired, implementerSessionResume = ProtectedConditional,
     reviewerSessionResume = reviewer, allowedRecoveryRoles = [Orchestrator],
     cleanupAndFencing = [''enumerate all matching PRs before create or retry'',
       ''multiple or mismatched marker matches quarantine instead of choosing one'']\<rparr>)"

definition policy_ci_reconciliation_snapshot :: recovery_policy where
  "policy_ci_reconciliation_snapshot = frozenPolicy (\<lambda>reviewer. \<lparr>
     pol_number = 12, pol_kind = CiReconciliationSnapshot, phases = [CI_WAIT],
     durableInputs = [''exact-pr-head-sha'', ''required-check-contexts'', ''forge-protection-snapshot''],
     durableOutputs = [''complete-ci-snapshot'', ''per-context-evidence'', ''observation-digest''],
     replayPolicy = ReconcileFirst,
     reconciliationBeforeReplay = [ObsGithubCi],
     invalidatesOnReplay = [EvCi, EvPrReview, EvApproval, EvMergeReadiness, EvEvidenceBundle, EvAsfAcknowledgement],
     candidateBinding = CandidateRequired, implementerSessionResume = ProtectedConditional,
     reviewerSessionResume = reviewer, allowedRecoveryRoles = [Orchestrator, Implementer],
     cleanupAndFencing = [''polling has no caller lifetime and resumes from durable required contexts'',
       ''missing, skipped, incomplete, or stale contexts never become success'']\<rparr>)"

definition policy_pr_review_fixer_iteration :: recovery_policy where
  "policy_pr_review_fixer_iteration = frozenPolicy (\<lambda>reviewer. \<lparr>
     pol_number = 13, pol_kind = PrReviewFixerIteration, phases = [PR_REVIEW, PR_DELIVERED, FIXING, CANDIDATE_READY],
     durableInputs = [''exact-pr-head-and-ci-snapshot'', ''immutable-task-contract'',
       ''fresh-independent-pr-reviewer-identity'', ''final-pr-delivery-observation-intent''],
     durableOutputs = [''structured-pr-review-verdict'', ''findings-digest'', ''fix-iteration-result'',
       ''final-pr-collision-base-and-protection-observation''],
     replayPolicy = ReconcileFirst,
     reconciliationBeforeReplay = [ObsGithubPullRequest, ObsGithubCi],
     invalidatesOnReplay = CANDIDATE_EVIDENCE,
     candidateBinding = CandidateRequired, implementerSessionResume = ProtectedConditional,
     reviewerSessionResume = reviewer, allowedRecoveryRoles = [Orchestrator, Implementer, PrReviewer],
     cleanupAndFencing = [''reconcile exact PR head and CI before starting a new reviewer'',
       ''terminate any prior reviewer and never restore its context'',
       ''a changed candidate returns through complete verification and review gates'',
       ''re-read and bind the exact PR collision set and current base protection before delivery'']\<rparr>)"

definition policy_merge_queue_candidate_state :: recovery_policy where
  "policy_merge_queue_candidate_state = frozenPolicy (\<lambda>reviewer. \<lparr>
     pol_number = 14, pol_kind = MergeQueueCandidateState, phases = [MERGE_QUEUE_WAIT, MERGE_READY],
     durableInputs = [''approved-pr-and-candidate'', ''current-base-and-protection'',
       ''merge-queue-entry-intent''],
     durableOutputs = [''queue-entry-identity'', ''merge-group-sha'', ''candidate-group-evidence''],
     replayPolicy = ReconcileFirst,
     reconciliationBeforeReplay = [ObsGithubMergeQueue],
     invalidatesOnReplay = [EvApproval, EvMergeQueue, EvMergeReadiness, EvMergeProvenance, EvEvidenceBundle,
       EvAsfAcknowledgement],
     candidateBinding = CandidateRequired, implementerSessionResume = ProtectedConditional,
     reviewerSessionResume = reviewer, allowedRecoveryRoles = [Orchestrator, Implementer],
     cleanupAndFencing = [''observe queue regrouping and current base before any retry'',
       ''a changed merge group invalidates stale approval and merge readiness'']\<rparr>)"

definition policy_merge_intent_observation :: recovery_policy where
  "policy_merge_intent_observation = frozenPolicy (\<lambda>reviewer. \<lparr>
     pol_number = 15, pol_kind = MergeIntentObservation, phases = [MERGED],
     durableInputs = [''current-exact-approval'', ''candidate-or-merge-group-sha'',
       ''expected-head-protection'', ''merge-intent''],
     durableOutputs = [''merge-effect-key'', ''observed-merge-sha'', ''candidate-provenance-evidence''],
     replayPolicy = ReconcileFirst,
     reconciliationBeforeReplay = [ObsGithubMerge],
     invalidatesOnReplay = [EvMergeReadiness, EvMergeProvenance, EvEvidenceBundle, EvAsfAcknowledgement],
     candidateBinding = CandidateRequired, implementerSessionResume = NeverResume,
     reviewerSessionResume = reviewer, allowedRecoveryRoles = [Orchestrator],
     cleanupAndFencing = [''observe the expected PR and merge provenance before any merge retry'',
       ''ambiguous merge outcome prohibits retry and becomes an actionable escalation'']\<rparr>)"

definition policy_evidence_finalization_acknowledgement :: recovery_policy where
  "policy_evidence_finalization_acknowledgement = frozenPolicy (\<lambda>reviewer. \<lparr>
     pol_number = 16, pol_kind = EvidenceFinalizationAcknowledgement, phases = [EVIDENCE_FINALIZED, COMPLETED],
     durableInputs = [''exact-closure-evidence'', ''work-order-and-policy-bindings'',
       ''portable-artifact-manifest''],
     durableOutputs = [''signed-evidence-bundle'', ''bundle-digest'', ''asf-acknowledgement''],
     replayPolicy = ReconcileFirst,
     reconciliationBeforeReplay = [ObsAsfAcknowledgement],
     invalidatesOnReplay = [EvEvidenceBundle, EvAsfAcknowledgement],
     candidateBinding = CandidateRequired, implementerSessionResume = NeverResume,
     reviewerSessionResume = reviewer, allowedRecoveryRoles = [Orchestrator],
     cleanupAndFencing = [''rebuild only from exact immutable evidence and the same candidate binding'',
       ''observe acknowledgement by bundle digest before retrying delivery'']\<rparr>)"

definition policy_lease_release_workspace_cleanup :: recovery_policy where
  "policy_lease_release_workspace_cleanup = frozenPolicy (\<lambda>reviewer. \<lparr>
     pol_number = 17, pol_kind = LeaseReleaseWorkspaceCleanup, phases = TERMINAL_PHASES,
     durableInputs = [''terminal-run-outcome'', ''protected-active-resource-inventory'',
       ''current-run-generation''],
     durableOutputs = [''identity-lease-release'', ''repository-lease-release'', ''workspace-cleanup-proof''],
     replayPolicy = ReconcileFirst,
     reconciliationBeforeReplay = [ObsIdentityLease, ObsRepositoryLease],
     invalidatesOnReplay = [EvCleanup],
     candidateBinding = CandidateOptional, implementerSessionResume = NeverResume,
     reviewerSessionResume = reviewer, allowedRecoveryRoles = [Orchestrator],
     cleanupAndFencing = [''revoke or close identity leases before releasing repository ownership'',
       ''preserve artifacts needed to reconcile ambiguous effects before workspace deletion'',
       ''record cleanup confirmation without reopening the terminal run'']\<rparr>)"

definition ASF_CHECKPOINT_RECOVERY_POLICIES :: "recovery_policy list" where
  "ASF_CHECKPOINT_RECOVERY_POLICIES = [
     policy_work_order_admission, policy_repository_lease_acquisition,
     policy_identity_lease_acquisition, policy_workspace_sandbox_proof,
     policy_task_packet_creation, policy_implementer_session_marker,
     policy_candidate_commit_creation, policy_local_verification_pass,
     policy_local_review_fixer_iteration, policy_branch_push_intent_observation,
     policy_pull_request_intent_observation, policy_ci_reconciliation_snapshot,
     policy_pr_review_fixer_iteration, policy_merge_queue_candidate_state,
     policy_merge_intent_observation, policy_evidence_finalization_acknowledgement,
     policy_lease_release_workspace_cleanup]"

text \<open>The map built from the list; the last entry of a key would win.\<close>

definition POLICY_BY_KIND :: "checkpoint_kind \<Rightarrow> recovery_policy option" where
  "POLICY_BY_KIND = map_of (rev (map (\<lambda>p. (pol_kind p, p)) ASF_CHECKPOINT_RECOVERY_POLICIES))"

section \<open>Refusals and lookup\<close>

datatype refusal_code =
  INVALID_REQUEST | UNKNOWN_CHECKPOINT | CHECKPOINT_BINDING_MISMATCH | CHECKPOINT_INTEGRITY_UNPROVEN
| CHECKPOINT_POLICY_MISMATCH | OWNERSHIP_UNPROVEN | STALE_OBSERVATION | REMOTE_RECONCILIATION_REQUIRED
| REMOTE_OUTCOME_UNRESOLVED | REMOTE_BINDING_MISMATCH | RECOVERY_ROLE_FORBIDDEN
| REVIEWER_RESUME_FORBIDDEN | IMPLEMENTER_RESUME_UNPROVEN

text \<open>\<open>AsfRecoveryRefusedError\<close> without its text.\<close>

datatype refusal = Refused refusal_code "checkpoint_kind option"

definition name_in :: "('e \<times> string) list \<Rightarrow> string \<Rightarrow> 'e option" where
  "name_in tbl s = map_of (map (\<lambda>(e, n). (n, e)) tbl) s"

definition getAsfCheckpointRecoveryPolicy :: "string \<Rightarrow> refusal + recovery_policy" where
  "getAsfCheckpointRecoveryPolicy kind =
     (case name_in ASF_CHECKPOINT_KINDS kind of
        None \<Rightarrow> Inl (Refused UNKNOWN_CHECKPOINT None)
      | Some k \<Rightarrow>
          (case POLICY_BY_KIND k of
             None \<Rightarrow> Inl (Refused UNKNOWN_CHECKPOINT (Some k))
           | Some policy \<Rightarrow> Inr policy))"

text \<open>The same lookup for a kind that was already parsed.\<close>

definition policy_of :: "checkpoint_kind \<Rightarrow> recovery_policy" where
  "policy_of k = the (POLICY_BY_KIND k)"

lemmas policy_entry_defs = frozenPolicy_def policy_work_order_admission_def
  policy_repository_lease_acquisition_def policy_identity_lease_acquisition_def
  policy_workspace_sandbox_proof_def policy_task_packet_creation_def
  policy_implementer_session_marker_def policy_candidate_commit_creation_def
  policy_local_verification_pass_def policy_local_review_fixer_iteration_def
  policy_branch_push_intent_observation_def policy_pull_request_intent_observation_def
  policy_ci_reconciliation_snapshot_def policy_pr_review_fixer_iteration_def
  policy_merge_queue_candidate_state_def policy_merge_intent_observation_def
  policy_evidence_finalization_acknowledgement_def policy_lease_release_workspace_cleanup_def

lemma policy_kinds: "map pol_kind ASF_CHECKPOINT_RECOVERY_POLICIES = map fst ASF_CHECKPOINT_KINDS"
  by code_simp

lemma policy_numbers: "map pol_number ASF_CHECKPOINT_RECOVERY_POLICIES = [1..<18]"
  by code_simp

lemma policy_by_kind: "\<exists>p. POLICY_BY_KIND k = Some p \<and> pol_kind p = k \<and> p \<in> set ASF_CHECKPOINT_RECOVERY_POLICIES"
proof -
  have "k \<in> set (map fst ASF_CHECKPOINT_KINDS)"
    unfolding ASF_CHECKPOINT_KINDS_def by (cases k) simp_all
  then have "k \<in> pol_kind ` set ASF_CHECKPOINT_RECOVERY_POLICIES"
    unfolding policy_kinds [symmetric] by simp
  moreover have "dom POLICY_BY_KIND = pol_kind ` set ASF_CHECKPOINT_RECOVERY_POLICIES"
    by (simp add: POLICY_BY_KIND_def dom_map_of_conv_image_fst image_image)
  ultimately obtain p where p: "POLICY_BY_KIND k = Some p" by (auto dest: equalityD2)
  then have "(k, p) \<in> set (rev (map (\<lambda>p. (pol_kind p, p)) ASF_CHECKPOINT_RECOVERY_POLICIES))"
    unfolding POLICY_BY_KIND_def by (rule map_of_SomeD)
  with p show ?thesis by auto
qed

lemma policy_of_member: "policy_of k \<in> set ASF_CHECKPOINT_RECOVERY_POLICIES \<and> pol_kind (policy_of k) = k"
  using policy_by_kind [of k] by (auto simp: policy_of_def)

lemma policy_of_all: "list_all P ASF_CHECKPOINT_RECOVERY_POLICIES \<Longrightarrow> P (policy_of k)"
  using policy_of_member [of k] by (simp add: list_all_iff)

lemma kind_named: "\<exists>n. map_of ASF_CHECKPOINT_KINDS k = Some n \<and> name_in ASF_CHECKPOINT_KINDS n = Some k"
  unfolding ASF_CHECKPOINT_KINDS_def name_in_def by (cases k) simp_all

text \<open>The binding of a kind's name: what the lookup by name returns for it.\<close>

lemma getPolicy_of_kind:
  "map_of ASF_CHECKPOINT_KINDS k = Some n \<Longrightarrow> getAsfCheckpointRecoveryPolicy n = Inr (policy_of k)"
  using kind_named [of k] policy_by_kind [of k]
  by (auto simp: getAsfCheckpointRecoveryPolicy_def policy_of_def)


section \<open>Properties\<close>

text \<open>Evidence in the order in which a delivery produces it.\<close>

definition evidence_order :: "evidence_class list" where
  "evidence_order = [EvLocalVerification, EvLocalReview, EvPushEquivalence, EvCi, EvPrReview, EvApproval,
     EvMergeReadiness, EvEvidenceBundle, EvAsfAcknowledgement]"

text \<open>replaying a checkpoint never keeps evidence that rests on what it invalidates: whenever a
  policy invalidates one class of the evidence order, it invalidates every later class too.\<close>

theorem invalidation_is_downstream_closed:
  assumes "i < j" and "j < length evidence_order"
    and "evidence_order ! i \<in> set (invalidatesOnReplay (policy_of k))"
  shows "evidence_order ! j \<in> set (invalidatesOnReplay (policy_of k))"
proof -
  have "list_all (\<lambda>p. list_all (\<lambda>j. list_all (\<lambda>i.
      evidence_order ! i \<in> set (invalidatesOnReplay p) \<longrightarrow> evidence_order ! j \<in> set (invalidatesOnReplay p))
      [0..<j]) [0..<9]) ASF_CHECKPOINT_RECOVERY_POLICIES"
    by code_simp
  from policy_of_all [OF this]
  have "\<forall>j \<in> {0..<9}. \<forall>i \<in> {0..<j}. evidence_order ! i \<in> set (invalidatesOnReplay (policy_of k)) \<longrightarrow>
      evidence_order ! j \<in> set (invalidatesOnReplay (policy_of k))"
    by (simp only: list_all_iff set_upt)
  moreover have "j \<in> {0..<9}" "i \<in> {0..<j}"
    using assms(1,2) by (simp_all add: evidence_order_def)
  ultimately show ?thesis using assms(3) by blast
qed

theorem invalidation_is_downstream_closed_witness:
  "EvAsfAcknowledgement \<in> set (invalidatesOnReplay (policy_of CiReconciliationSnapshot))"
proof -
  have "evidence_order ! 3 \<in> set (invalidatesOnReplay (policy_of CiReconciliationSnapshot))"
    by code_simp
  from invalidation_is_downstream_closed [OF _ _ this, of 8] show ?thesis
    by (simp add: evidence_order_def)
qed

text \<open>the policy table is complete and safe for external effects: every kind has its own entry,
  found under its name and numbered by its place in the list; a policy requires observations before
  replay exactly when it is reconcile-first; and a checkpoint of an externally visible effect (push,
  pull request, merge, evidence hand-over, cleanup) is reconcile-first and left to the
  orchestrator, reviewers being allowed only at the two review checkpoints.\<close>

theorem policy_table_is_safe:
  "\<exists>n i. map_of ASF_CHECKPOINT_KINDS k = Some n \<and> getAsfCheckpointRecoveryPolicy n = Inr (policy_of k) \<and>
     pol_kind (policy_of k) = k \<and> ASF_CHECKPOINT_RECOVERY_POLICIES ! i = policy_of k \<and>
     i < 17 \<and> pol_number (policy_of k) = Suc i \<and>
     (reconciliationBeforeReplay (policy_of k) \<noteq> [] \<longleftrightarrow> replayPolicy (policy_of k) = ReconcileFirst) \<and>
     (k \<notin> {BranchPushIntentObservation, PullRequestIntentObservation, MergeIntentObservation,
           EvidenceFinalizationAcknowledgement, LeaseReleaseWorkspaceCleanup} \<or>
        replayPolicy (policy_of k) = ReconcileFirst \<and> allowedRecoveryRoles (policy_of k) = [Orchestrator]) \<and>
     (LocalReviewer \<in> set (allowedRecoveryRoles (policy_of k)) \<longleftrightarrow> k = LocalReviewFixerIteration) \<and>
     (PrReviewer \<in> set (allowedRecoveryRoles (policy_of k)) \<longleftrightarrow> k = PrReviewFixerIteration)"
proof -
  obtain n where n: "map_of ASF_CHECKPOINT_KINDS k = Some n" using kind_named [of k] by blast
  have "list_all (\<lambda>p. (reconciliationBeforeReplay p \<noteq> [] \<longleftrightarrow> replayPolicy p = ReconcileFirst) \<and>
     (pol_kind p \<notin> {BranchPushIntentObservation, PullRequestIntentObservation, MergeIntentObservation,
           EvidenceFinalizationAcknowledgement, LeaseReleaseWorkspaceCleanup} \<or>
        replayPolicy p = ReconcileFirst \<and> allowedRecoveryRoles p = [Orchestrator]) \<and>
     (LocalReviewer \<in> set (allowedRecoveryRoles p) \<longleftrightarrow> pol_kind p = LocalReviewFixerIteration) \<and>
     (PrReviewer \<in> set (allowedRecoveryRoles p) \<longleftrightarrow> pol_kind p = PrReviewFixerIteration))
     ASF_CHECKPOINT_RECOVERY_POLICIES"
    by code_simp
  from policy_of_all [OF this]
  have rest: "(reconciliationBeforeReplay (policy_of k) \<noteq> [] \<longleftrightarrow> replayPolicy (policy_of k) = ReconcileFirst) \<and>
     (k \<notin> {BranchPushIntentObservation, PullRequestIntentObservation, MergeIntentObservation,
           EvidenceFinalizationAcknowledgement, LeaseReleaseWorkspaceCleanup} \<or>
        replayPolicy (policy_of k) = ReconcileFirst \<and> allowedRecoveryRoles (policy_of k) = [Orchestrator]) \<and>
     (LocalReviewer \<in> set (allowedRecoveryRoles (policy_of k)) \<longleftrightarrow> k = LocalReviewFixerIteration) \<and>
     (PrReviewer \<in> set (allowedRecoveryRoles (policy_of k)) \<longleftrightarrow> k = PrReviewFixerIteration)"
    unfolding conjunct2 [OF policy_of_member] .
  have len: "length ASF_CHECKPOINT_RECOVERY_POLICIES = 17"
    using arg_cong [OF policy_numbers, of length] by simp
  obtain i where i: "i < 17" "ASF_CHECKPOINT_RECOVERY_POLICIES ! i = policy_of k"
    using policy_of_member [of k] len by (metis in_set_conv_nth)
  then have "pol_number (policy_of k) = Suc i"
    using arg_cong [OF policy_numbers, of "\<lambda>xs. xs ! i"] len by simp
  with n i rest show ?thesis
    using getPolicy_of_kind [OF n] policy_of_member [of k] by blast
qed

theorem policy_table_is_safe_witness:
  "replayPolicy (policy_of MergeIntentObservation) = ReconcileFirst \<and>
   allowedRecoveryRoles (policy_of MergeIntentObservation) = [Orchestrator]"
  using policy_table_is_safe [of MergeIntentObservation] by blast

end
