(* ===== verification/Recovery_Plan.thy ===== *)
theory Recovery_Plan
  imports Checkpoint_Policy "HOL-Library.Monad_Syntax"
begin

text \<open>
  Durable checkpoints and the recovery decision of \<open>src/src/asf/checkpoint-policy.ts\<close> (lines
  721-1742): the declared schemas, the checks on a checkpoint, its content address, the
  authorisation of a protected implementer resume, and \<open>planAsfCheckpointRecovery\<close>. The schema
  validator, the digest of a JSON value, \<open>Date.parse\<close> and the clock are parameters.
\<close>

record recovery_env =
  safe_parse :: "zschema \<Rightarrow> json \<Rightarrow> json option"
  formats_of :: formats
  sha256Digest :: "json \<Rightarrow> string"
  date_parse :: "string \<Rightarrow> rat option"
  now :: rat

section \<open>Schemas\<close>

definition checkpoint_identifier :: zschema where
  "checkpoint_identifier = ZString (\<lambda>s. s \<noteq> [] \<and> length s \<le> 512 \<and>
     list_all (\<lambda>c. \<not> (char_in 0 31 c \<or> char_in 127 127 c)) s)"

definition timestampSchema :: "formats \<Rightarrow> zschema" where
  "timestampSchema f = ZString (is_datetime f)"

definition nullable :: "zschema \<Rightarrow> zschema" where
  "nullable s = ZUnion [s, ZNull]"

definition checkpointKindSchema :: zschema where
  "checkpointKindSchema = ZEnum (map snd ASF_CHECKPOINT_KINDS)"

definition checkpointReplayPolicySchema :: zschema where
  "checkpointReplayPolicySchema = ZEnum (map snd ASF_CHECKPOINT_REPLAY_POLICIES)"

definition reconciliationObservationSchema :: zschema where
  "reconciliationObservationSchema = ZEnum (map snd ASF_RECONCILIATION_OBSERVATIONS)"

definition protectedImplementerResumeMetadataSchema :: "formats \<Rightarrow> zschema" where
  "protectedImplementerResumeMetadataSchema f = ZObject [
     required ''schema'' (ZLiteral ''asf.protected-implementer-resume/v1''),
     required ''storage'' (ZLiteral ''protected-runtime-state''),
     required ''protected_resume_ref'' digestSchema,
     required ''session_identity_digest'' digestSchema,
     required ''run_id'' checkpoint_identifier,
     required ''work_order_id'' checkpoint_identifier,
     required ''attempt_id'' checkpoint_identifier,
     required ''policy_digest'' digestSchema,
     required ''fencing_generation'' positive_int,
     required ''candidate_sha'' (nullable gitShaSchema),
     required ''candidate_lineage_digest'' digestSchema,
     required ''identity_lease_binding_digest'' digestSchema,
     required ''provider'' checkpoint_identifier,
     required ''principal'' checkpoint_identifier,
     required ''profile'' checkpoint_identifier,
     required ''recorded_at'' (timestampSchema f),
     required ''identity_lease_expires_at'' (timestampSchema f)]"

definition new_checkpoint_fields :: "formats \<Rightarrow> (string \<times> bool \<times> zschema) list" where
  "new_checkpoint_fields f = [
     required ''schema'' (ZLiteral ''asf.durable-checkpoint/v1''),
     required ''checkpoint_id'' checkpoint_identifier,
     required ''checkpoint_kind'' checkpointKindSchema,
     required ''run_id'' checkpoint_identifier,
     required ''work_order_id'' checkpoint_identifier,
     required ''attempt_id'' checkpoint_identifier,
     required ''phase'' runEventPhaseSchema,
     required ''event_seq'' positive_int,
     required ''fencing_generation'' positive_int,
     required ''policy_digest'' digestSchema,
     required ''candidate_sha'' (nullable gitShaSchema),
     required ''candidate_lineage_digest'' digestSchema,
     required ''durable_inputs_digest'' digestSchema,
     required ''durable_outputs_digest'' digestSchema,
     required ''replay_policy'' checkpointReplayPolicySchema,
     required ''reconciliation_markers'' (ZArray (\<lambda>_. True) (ZObject [
       required ''observation'' reconciliationObservationSchema,
       required ''correlation_marker'' checkpoint_identifier])),
     required ''protected_implementer_resume'' (nullable (protectedImplementerResumeMetadataSchema f)),
     required ''created_at'' (timestampSchema f)]"

definition newDurableCheckpointSchema :: "formats \<Rightarrow> zschema" where
  "newDurableCheckpointSchema f = ZObject (new_checkpoint_fields f)"

definition durableCheckpointSchema :: "formats \<Rightarrow> zschema" where
  "durableCheckpointSchema f =
     ZObject (new_checkpoint_fields f @ [required ''checkpoint_digest'' digestSchema])"

definition observationWindowShape :: "formats \<Rightarrow> (string \<times> bool \<times> zschema) list" where
  "observationWindowShape f = [
     required ''observed_at'' (timestampSchema f), required ''valid_until'' (timestampSchema f),
     required ''evidence_digest'' digestSchema]"

definition ownershipObservationSchema :: "formats \<Rightarrow> zschema" where
  "ownershipObservationSchema f = ZObject ([
     required ''state'' (ZEnum [''current'', ''stale'', ''unknown'', ''contradictory'']),
     required ''run_id'' checkpoint_identifier, required ''work_order_id'' checkpoint_identifier,
     required ''attempt_id'' checkpoint_identifier, required ''worker_id'' checkpoint_identifier,
     required ''fencing_generation'' positive_int] @ observationWindowShape f)"

definition providerResumeObservationSchema :: "formats \<Rightarrow> zschema" where
  "providerResumeObservationSchema f = ZObject ([
     required ''capability'' (ZEnum [''supported'', ''unsupported'', ''unknown'', ''contradictory'']),
     required ''session_state'' (ZEnum [''resumable'', ''closed'', ''unknown'', ''contradictory'']),
     required ''provider'' checkpoint_identifier, required ''principal'' checkpoint_identifier,
     required ''profile'' checkpoint_identifier, required ''protected_resume_ref'' digestSchema,
     required ''session_identity_digest'' digestSchema] @ observationWindowShape f)"

definition identityResumeObservationSchema :: "formats \<Rightarrow> zschema" where
  "identityResumeObservationSchema f = ZObject ([
     required ''state'' (ZEnum [''current'', ''expired'', ''revoked'', ''unknown'', ''contradictory'']),
     required ''identity_lease_binding_digest'' digestSchema,
     required ''run_id'' checkpoint_identifier, required ''work_order_id'' checkpoint_identifier,
     required ''attempt_id'' checkpoint_identifier, required ''role'' (ZLiteral ''implementer''),
     required ''policy_digest'' digestSchema, required ''fencing_generation'' positive_int,
     required ''provider'' checkpoint_identifier, required ''principal'' checkpoint_identifier,
     required ''profile'' checkpoint_identifier, required ''expires_at'' (timestampSchema f)]
     @ observationWindowShape f)"

definition lineageResumeObservationSchema :: "formats \<Rightarrow> zschema" where
  "lineageResumeObservationSchema f = ZObject ([
     required ''state'' (ZEnum [''exact'', ''changed'', ''unknown'', ''contradictory'']),
     required ''candidate_sha'' (nullable gitShaSchema),
     required ''candidate_lineage_digest'' digestSchema] @ observationWindowShape f)"

definition policyResumeObservationSchema :: "formats \<Rightarrow> zschema" where
  "policyResumeObservationSchema f = ZObject ([
     required ''state'' (ZEnum [''permitted'', ''prohibited'', ''unknown'', ''contradictory'']),
     required ''policy_digest'' digestSchema] @ observationWindowShape f)"

definition implementerResumeObservationsSchema :: "formats \<Rightarrow> zschema" where
  "implementerResumeObservationsSchema f = ZObject [
     required ''schema'' (ZLiteral ''asf.implementer-resume-observation/v1''),
     required ''requesting_worker_id'' checkpoint_identifier,
     required ''ownership'' (ownershipObservationSchema f),
     required ''provider'' (providerResumeObservationSchema f),
     required ''identity_lease'' (identityResumeObservationSchema f),
     required ''candidate_lineage'' (lineageResumeObservationSchema f),
     required ''policy'' (policyResumeObservationSchema f)]"

definition checkpointObservationSchema :: "formats \<Rightarrow> zschema" where
  "checkpointObservationSchema f = ZObject ([
     required ''state'' (ZEnum [''verified'', ''missing'', ''unknown'', ''contradictory'']),
     required ''checkpoint_digest'' digestSchema] @ observationWindowShape f)"

definition remoteRecoveryObservationSchema :: "formats \<Rightarrow> zschema" where
  "remoteRecoveryObservationSchema f = ZObject ([
     required ''observation'' reconciliationObservationSchema,
     required ''state'' (ZEnum [''confirmed'', ''not-applied'', ''ambiguous'', ''unknown'', ''contradictory'']),
     required ''run_id'' checkpoint_identifier, required ''work_order_id'' checkpoint_identifier,
     required ''attempt_id'' checkpoint_identifier, required ''policy_digest'' digestSchema,
     required ''candidate_sha'' (nullable gitShaSchema),
     required ''correlation_marker'' checkpoint_identifier] @ observationWindowShape f)"

definition recoveryActorSchema :: "formats \<Rightarrow> zschema" where
  "recoveryActorSchema f = ZUnion [
     ZObject [required ''role'' (ZLiteral ''orchestrator''), required ''mode'' (ZLiteral ''automatic'')],
     ZObject [required ''role'' (ZLiteral ''implementer''), required ''mode'' (ZEnum [''fresh'', ''resume'']),
       required ''resume_observations'' (nullable (implementerResumeObservationsSchema f))],
     ZObject [required ''role'' (ZLiteral ''local-reviewer''), required ''mode'' (ZEnum [''fresh'', ''resume''])],
     ZObject [required ''role'' (ZLiteral ''pr-reviewer''), required ''mode'' (ZEnum [''fresh'', ''resume''])]]"

definition recoveryRequestSchema :: "formats \<Rightarrow> zschema" where
  "recoveryRequestSchema f = ZObject [
     required ''schema'' (ZLiteral ''asf.checkpoint-recovery-request/v1''),
     required ''requesting_worker_id'' checkpoint_identifier,
     required ''checkpoint'' (durableCheckpointSchema f),
     required ''checkpoint_observation'' (checkpointObservationSchema f),
     required ''ownership'' (ownershipObservationSchema f),
     required ''remote_observations'' (ZArray (\<lambda>_. True) (remoteRecoveryObservationSchema f)),
     required ''replay_requested'' ZBoolean,
     required ''actor'' (recoveryActorSchema f)]"

section \<open>Typed values\<close>

record protected_resume =
  res_ref :: string
  res_session_identity :: string
  res_run_id :: string
  res_work_order_id :: string
  res_attempt_id :: string
  res_policy_digest :: string
  res_fencing_generation :: int
  res_candidate_sha :: "string option"
  res_candidate_lineage :: string
  res_lease_binding :: string
  res_provider :: string
  res_principal :: string
  res_profile :: string
  res_recorded_at :: string
  res_lease_expires_at :: string

record new_checkpoint =
  chk_id :: string
  chk_kind :: checkpoint_kind
  chk_run_id :: string
  chk_work_order_id :: string
  chk_attempt_id :: string
  chk_phase :: phase
  chk_event_seq :: int
  chk_fencing_generation :: int
  chk_policy_digest :: string
  chk_candidate_sha :: "string option"
  chk_candidate_lineage :: string
  chk_replay_policy :: replay_policy
  chk_markers :: "(reconciliation_observation \<times> string) list"
  chk_resume :: "protected_resume option"
  chk_created_at :: string

record durable_checkpoint = new_checkpoint +
  chk_digest :: string

record observation_window =
  observed_at :: string
  valid_until :: string

record ownership_observation = observation_window +
  own_state :: string
  own_run_id :: string
  own_work_order_id :: string
  own_attempt_id :: string
  own_worker_id :: string
  own_fencing_generation :: int

record provider_observation = observation_window +
  prov_capability :: string
  prov_session_state :: string
  prov_provider :: string
  prov_principal :: string
  prov_profile :: string
  prov_resume_ref :: string
  prov_session_identity :: string

record identity_observation = observation_window +
  idl_state :: string
  idl_binding_digest :: string
  idl_run_id :: string
  idl_work_order_id :: string
  idl_attempt_id :: string
  idl_policy_digest :: string
  idl_fencing_generation :: int
  idl_provider :: string
  idl_principal :: string
  idl_profile :: string
  idl_expires_at :: string

record lineage_observation = observation_window +
  lin_state :: string
  lin_candidate_sha :: "string option"
  lin_candidate_lineage :: string

record policy_observation = observation_window +
  pol_state :: string
  pol_policy_digest :: string

record resume_observations =
  obs_worker_id :: string
  obs_ownership :: ownership_observation
  obs_provider :: provider_observation
  obs_identity :: identity_observation
  obs_lineage :: lineage_observation
  obs_policy :: policy_observation

record checkpoint_observation = observation_window +
  cko_state :: string
  cko_digest :: string

record remote_observation = observation_window +
  rem_observation :: reconciliation_observation
  rem_state :: string
  rem_run_id :: string
  rem_work_order_id :: string
  rem_attempt_id :: string
  rem_policy_digest :: string
  rem_candidate_sha :: "string option"
  rem_marker :: string

datatype session_mode = Fresh | Resume

text \<open>The resume observations stay JSON: they are validated again when they are used.\<close>

datatype recovery_actor =
  ActOrchestrator | ActImplementer session_mode "json option" | ActLocalReviewer session_mode
| ActPrReviewer session_mode

record recovery_request =
  req_worker_id :: string
  req_checkpoint :: json
  req_checkpoint_observation :: checkpoint_observation
  req_ownership :: ownership_observation
  req_remote :: "remote_observation list"
  req_replay :: bool
  req_actor :: recovery_actor

section \<open>Reading validated JSON at its inferred type\<close>

definition members :: "json \<Rightarrow> (string \<times> json) list option" where
  "members j = (case j of JObject ms \<Rightarrow> Some ms | _ \<Rightarrow> None)"

definition enum_field :: "('e \<times> string) list \<Rightarrow> (string \<times> json) list \<Rightarrow> string \<Rightarrow> 'e option" where
  "enum_field tbl ms k = Option.bind (text_field ms k) (name_in tbl)"

definition nullable_text :: "(string \<times> json) list \<Rightarrow> string \<Rightarrow> string option option" where
  "nullable_text ms k = (case map_of ms k of
     Some JNull \<Rightarrow> Some None | Some (JString s) \<Rightarrow> Some (Some s) | _ \<Rightarrow> None)"

definition bool_field :: "(string \<times> json) list \<Rightarrow> string \<Rightarrow> bool option" where
  "bool_field ms k = (case map_of ms k of Some (JBool b) \<Rightarrow> Some b | _ \<Rightarrow> None)"

definition list_field :: "(json \<Rightarrow> 'a option) \<Rightarrow> (string \<times> json) list \<Rightarrow> string \<Rightarrow> 'a list option" where
  "list_field rd ms k = (case map_of ms k of
     Some (JArray xs) \<Rightarrow> those (map rd xs) | _ \<Rightarrow> None)"

definition sub_field :: "(json \<Rightarrow> 'a option) \<Rightarrow> (string \<times> json) list \<Rightarrow> string \<Rightarrow> 'a option" where
  "sub_field rd ms k = Option.bind (map_of ms k) rd"

definition read_resume :: "json \<Rightarrow> protected_resume option" where
  "read_resume j = do {
     ms \<leftarrow> members j;
     ref \<leftarrow> text_field ms ''protected_resume_ref'';
     ses \<leftarrow> text_field ms ''session_identity_digest'';
     run \<leftarrow> text_field ms ''run_id'';
     wo \<leftarrow> text_field ms ''work_order_id'';
     att \<leftarrow> text_field ms ''attempt_id'';
     pol \<leftarrow> text_field ms ''policy_digest'';
     gen \<leftarrow> int_field ms ''fencing_generation'';
     cand \<leftarrow> nullable_text ms ''candidate_sha'';
     lin \<leftarrow> text_field ms ''candidate_lineage_digest'';
     bind \<leftarrow> text_field ms ''identity_lease_binding_digest'';
     prov \<leftarrow> text_field ms ''provider'';
     prin \<leftarrow> text_field ms ''principal'';
     prof \<leftarrow> text_field ms ''profile'';
     rec \<leftarrow> text_field ms ''recorded_at'';
     ex \<leftarrow> text_field ms ''identity_lease_expires_at'';
     Some \<lparr>res_ref = ref, res_session_identity = ses, res_run_id = run, res_work_order_id = wo,
       res_attempt_id = att, res_policy_digest = pol, res_fencing_generation = gen,
       res_candidate_sha = cand, res_candidate_lineage = lin, res_lease_binding = bind,
       res_provider = prov, res_principal = prin, res_profile = prof, res_recorded_at = rec,
       res_lease_expires_at = ex\<rparr> }"

definition read_marker :: "json \<Rightarrow> (reconciliation_observation \<times> string) option" where
  "read_marker j = do {
     ms \<leftarrow> members j;
     ob \<leftarrow> enum_field ASF_RECONCILIATION_OBSERVATIONS ms ''observation'';
     m \<leftarrow> text_field ms ''correlation_marker'';
     Some (ob, m) }"

definition nullable_read :: "(json \<Rightarrow> 'a option) \<Rightarrow> json \<Rightarrow> 'a option option" where
  "nullable_read rd j = (if j = JNull then Some None else map_option Some (rd j))"

definition read_checkpoint :: "(string \<times> json) list \<Rightarrow> new_checkpoint option" where
  "read_checkpoint ms = do {
     cid \<leftarrow> text_field ms ''checkpoint_id'';
     kind \<leftarrow> enum_field ASF_CHECKPOINT_KINDS ms ''checkpoint_kind'';
     run \<leftarrow> text_field ms ''run_id'';
     wo \<leftarrow> text_field ms ''work_order_id'';
     att \<leftarrow> text_field ms ''attempt_id'';
     ph \<leftarrow> enum_field RUN_EVENT_PHASES ms ''phase'';
     sq \<leftarrow> int_field ms ''event_seq'';
     gen \<leftarrow> int_field ms ''fencing_generation'';
     pol \<leftarrow> text_field ms ''policy_digest'';
     cand \<leftarrow> nullable_text ms ''candidate_sha'';
     lin \<leftarrow> text_field ms ''candidate_lineage_digest'';
     rp \<leftarrow> enum_field ASF_CHECKPOINT_REPLAY_POLICIES ms ''replay_policy'';
     mk \<leftarrow> list_field read_marker ms ''reconciliation_markers'';
     res \<leftarrow> sub_field (nullable_read read_resume) ms ''protected_implementer_resume'';
     cr \<leftarrow> text_field ms ''created_at'';
     Some \<lparr>chk_id = cid, chk_kind = kind, chk_run_id = run, chk_work_order_id = wo,
       chk_attempt_id = att, chk_phase = ph, chk_event_seq = sq, chk_fencing_generation = gen,
       chk_policy_digest = pol, chk_candidate_sha = cand, chk_candidate_lineage = lin,
       chk_replay_policy = rp, chk_markers = mk, chk_resume = res, chk_created_at = cr\<rparr> }"

definition with_digest :: "new_checkpoint \<Rightarrow> string \<Rightarrow> durable_checkpoint" where
  "with_digest c d = new_checkpoint.extend c (durable_checkpoint.fields d)"

definition read_ownership :: "json \<Rightarrow> ownership_observation option" where
  "read_ownership j = do {
     ms \<leftarrow> members j;
     obs \<leftarrow> text_field ms ''observed_at''; vu \<leftarrow> text_field ms ''valid_until'';
     st \<leftarrow> text_field ms ''state''; run \<leftarrow> text_field ms ''run_id'';
     wo \<leftarrow> text_field ms ''work_order_id''; att \<leftarrow> text_field ms ''attempt_id'';
     wk \<leftarrow> text_field ms ''worker_id''; gen \<leftarrow> int_field ms ''fencing_generation'';
     Some \<lparr>observed_at = obs, valid_until = vu, own_state = st, own_run_id = run,
       own_work_order_id = wo, own_attempt_id = att, own_worker_id = wk, own_fencing_generation = gen\<rparr> }"

definition read_provider :: "json \<Rightarrow> provider_observation option" where
  "read_provider j = do {
     ms \<leftarrow> members j;
     obs \<leftarrow> text_field ms ''observed_at''; vu \<leftarrow> text_field ms ''valid_until'';
     cap \<leftarrow> text_field ms ''capability''; st \<leftarrow> text_field ms ''session_state'';
     prov \<leftarrow> text_field ms ''provider''; prin \<leftarrow> text_field ms ''principal'';
     prof \<leftarrow> text_field ms ''profile''; ref \<leftarrow> text_field ms ''protected_resume_ref'';
     ses \<leftarrow> text_field ms ''session_identity_digest'';
     Some \<lparr>observed_at = obs, valid_until = vu, prov_capability = cap, prov_session_state = st,
       prov_provider = prov, prov_principal = prin, prov_profile = prof, prov_resume_ref = ref,
       prov_session_identity = ses\<rparr> }"

definition read_identity :: "json \<Rightarrow> identity_observation option" where
  "read_identity j = do {
     ms \<leftarrow> members j;
     obs \<leftarrow> text_field ms ''observed_at''; vu \<leftarrow> text_field ms ''valid_until'';
     st \<leftarrow> text_field ms ''state''; bd \<leftarrow> text_field ms ''identity_lease_binding_digest'';
     run \<leftarrow> text_field ms ''run_id''; wo \<leftarrow> text_field ms ''work_order_id'';
     att \<leftarrow> text_field ms ''attempt_id''; pol \<leftarrow> text_field ms ''policy_digest'';
     gen \<leftarrow> int_field ms ''fencing_generation''; prov \<leftarrow> text_field ms ''provider'';
     prin \<leftarrow> text_field ms ''principal''; prof \<leftarrow> text_field ms ''profile'';
     ex \<leftarrow> text_field ms ''expires_at'';
     Some \<lparr>observed_at = obs, valid_until = vu, idl_state = st, idl_binding_digest = bd,
       idl_run_id = run, idl_work_order_id = wo, idl_attempt_id = att, idl_policy_digest = pol,
       idl_fencing_generation = gen, idl_provider = prov, idl_principal = prin, idl_profile = prof,
       idl_expires_at = ex\<rparr> }"

definition read_lineage :: "json \<Rightarrow> lineage_observation option" where
  "read_lineage j = do {
     ms \<leftarrow> members j;
     obs \<leftarrow> text_field ms ''observed_at''; vu \<leftarrow> text_field ms ''valid_until'';
     st \<leftarrow> text_field ms ''state''; cand \<leftarrow> nullable_text ms ''candidate_sha'';
     lin \<leftarrow> text_field ms ''candidate_lineage_digest'';
     Some \<lparr>observed_at = obs, valid_until = vu, lin_state = st, lin_candidate_sha = cand,
       lin_candidate_lineage = lin\<rparr> }"

definition read_policy :: "json \<Rightarrow> policy_observation option" where
  "read_policy j = do {
     ms \<leftarrow> members j;
     obs \<leftarrow> text_field ms ''observed_at''; vu \<leftarrow> text_field ms ''valid_until'';
     st \<leftarrow> text_field ms ''state''; pol \<leftarrow> text_field ms ''policy_digest'';
     Some \<lparr>observed_at = obs, valid_until = vu, pol_state = st, pol_policy_digest = pol\<rparr> }"

definition read_resume_observations :: "json \<Rightarrow> resume_observations option" where
  "read_resume_observations j = do {
     ms \<leftarrow> members j;
     wk \<leftarrow> text_field ms ''requesting_worker_id'';
     own \<leftarrow> sub_field read_ownership ms ''ownership'';
     prov \<leftarrow> sub_field read_provider ms ''provider'';
     idl \<leftarrow> sub_field read_identity ms ''identity_lease'';
     lin \<leftarrow> sub_field read_lineage ms ''candidate_lineage'';
     pol \<leftarrow> sub_field read_policy ms ''policy'';
     Some \<lparr>obs_worker_id = wk, obs_ownership = own, obs_provider = prov, obs_identity = idl,
       obs_lineage = lin, obs_policy = pol\<rparr> }"

definition read_checkpoint_observation :: "json \<Rightarrow> checkpoint_observation option" where
  "read_checkpoint_observation j = do {
     ms \<leftarrow> members j;
     obs \<leftarrow> text_field ms ''observed_at''; vu \<leftarrow> text_field ms ''valid_until'';
     st \<leftarrow> text_field ms ''state''; d \<leftarrow> text_field ms ''checkpoint_digest'';
     Some \<lparr>observed_at = obs, valid_until = vu, cko_state = st, cko_digest = d\<rparr> }"

definition read_remote :: "json \<Rightarrow> remote_observation option" where
  "read_remote j = do {
     ms \<leftarrow> members j;
     obs \<leftarrow> text_field ms ''observed_at''; vu \<leftarrow> text_field ms ''valid_until'';
     ob \<leftarrow> enum_field ASF_RECONCILIATION_OBSERVATIONS ms ''observation'';
     st \<leftarrow> text_field ms ''state''; run \<leftarrow> text_field ms ''run_id'';
     wo \<leftarrow> text_field ms ''work_order_id''; att \<leftarrow> text_field ms ''attempt_id'';
     pol \<leftarrow> text_field ms ''policy_digest''; cand \<leftarrow> nullable_text ms ''candidate_sha'';
     m \<leftarrow> text_field ms ''correlation_marker'';
     Some \<lparr>observed_at = obs, valid_until = vu, rem_observation = ob, rem_state = st, rem_run_id = run,
       rem_work_order_id = wo, rem_attempt_id = att, rem_policy_digest = pol,
       rem_candidate_sha = cand, rem_marker = m\<rparr> }"

definition read_mode :: "(string \<times> json) list \<Rightarrow> session_mode option" where
  "read_mode ms = enum_field [(Fresh, ''fresh''), (Resume, ''resume'')] ms ''mode''"

definition read_actor :: "json \<Rightarrow> recovery_actor option" where
  "read_actor j = do {
     ms \<leftarrow> members j;
     role \<leftarrow> enum_field recovery_roles ms ''role'';
     case role of
       Orchestrator \<Rightarrow> Some ActOrchestrator
     | Implementer \<Rightarrow> do {
         m \<leftarrow> read_mode ms;
         ro \<leftarrow> sub_field (nullable_read Some) ms ''resume_observations'';
         Some (ActImplementer m ro) }
     | LocalReviewer \<Rightarrow> map_option ActLocalReviewer (read_mode ms)
     | PrReviewer \<Rightarrow> map_option ActPrReviewer (read_mode ms) }"

definition read_request :: "json \<Rightarrow> recovery_request option" where
  "read_request j = do {
     ms \<leftarrow> members j;
     wk \<leftarrow> text_field ms ''requesting_worker_id'';
     ck \<leftarrow> map_of ms ''checkpoint'';
     co \<leftarrow> sub_field read_checkpoint_observation ms ''checkpoint_observation'';
     own \<leftarrow> sub_field read_ownership ms ''ownership'';
     rem \<leftarrow> list_field read_remote ms ''remote_observations'';
     rp \<leftarrow> bool_field ms ''replay_requested'';
     act \<leftarrow> sub_field read_actor ms ''actor'';
     Some \<lparr>req_worker_id = wk, req_checkpoint = ck, req_checkpoint_observation = co,
       req_ownership = own, req_remote = rem, req_replay = rp, req_actor = act\<rparr> }"

section \<open>Durable checkpoints\<close>

definition exactSet :: "'a list \<Rightarrow> 'a list \<Rightarrow> bool" where
  "exactSet actual expected \<longleftrightarrow>
     length actual = length expected \<and> card (set actual) = length actual \<and>
     list_all (\<lambda>v. v \<in> set expected) actual"

text \<open>Comparisons of numbers that may be \<open>NaN\<close>: then they are false.\<close>

definition js_lt :: "rat option \<Rightarrow> rat option \<Rightarrow> bool" where
  "js_lt x y = (case (x, y) of (Some a, Some b) \<Rightarrow> a < b | _ \<Rightarrow> False)"

definition js_le :: "rat option \<Rightarrow> rat option \<Rightarrow> bool" where
  "js_le x y = (case (x, y) of (Some a, Some b) \<Rightarrow> a \<le> b | _ \<Rightarrow> False)"

definition refuse :: "refusal_code \<Rightarrow> checkpoint_kind \<Rightarrow> refusal + 'a" where
  "refuse c k = Inl (Refused c (Some k))"

text \<open>The bindings that the loop over labelled triples compares.\<close>

definition resume_bound :: "'a new_checkpoint_scheme \<Rightarrow> protected_resume \<Rightarrow> bool" where
  "resume_bound c r \<longleftrightarrow>
     res_run_id r = chk_run_id c \<and> res_work_order_id r = chk_work_order_id c \<and>
     res_attempt_id r = chk_attempt_id c \<and> res_policy_digest r = chk_policy_digest c \<and>
     res_fencing_generation r = chk_fencing_generation c \<and>
     res_candidate_sha r = chk_candidate_sha c \<and> res_candidate_lineage r = chk_candidate_lineage c"

definition semanticCheckpointValidation ::
  "recovery_env \<Rightarrow> 'a new_checkpoint_scheme \<Rightarrow> refusal + unit" where
  "semanticCheckpointValidation env c =
     (let kind = chk_kind c; policy = policy_of kind
      in if chk_phase c \<notin> set (phases policy) then refuse CHECKPOINT_BINDING_MISMATCH kind
         else if chk_replay_policy c \<noteq> replayPolicy policy then refuse CHECKPOINT_POLICY_MISMATCH kind
         else if \<not> exactSet (map fst (chk_markers c)) (reconciliationBeforeReplay policy)
         then refuse CHECKPOINT_POLICY_MISMATCH kind
         else if candidateBinding policy = CandidateRequired \<and> chk_candidate_sha c = None
         then refuse CHECKPOINT_BINDING_MISMATCH kind
         else if candidateBinding policy = NoCandidate \<and> chk_candidate_sha c \<noteq> None
         then refuse CHECKPOINT_BINDING_MISMATCH kind
         else case chk_resume c of
           None \<Rightarrow> Inr ()
         | Some r \<Rightarrow>
             (if implementerSessionResume policy \<noteq> ProtectedConditional
              then refuse CHECKPOINT_POLICY_MISMATCH kind
              else if \<not> resume_bound c r then refuse CHECKPOINT_BINDING_MISMATCH kind
              else let recordedAt = date_parse env (res_recorded_at r);
                       checkpointAt = date_parse env (chk_created_at c);
                       expiresAt = date_parse env (res_lease_expires_at r)
                   in if js_lt checkpointAt recordedAt \<or> js_le expiresAt checkpointAt
                      then refuse CHECKPOINT_BINDING_MISMATCH kind else Inr ()))"

definition unknown_raw_kind :: "json \<Rightarrow> bool" where
  "unknown_raw_kind raw =
     (case Option.bind (members raw) (\<lambda>ms. text_field ms ''checkpoint_kind'') of
        Some k \<Rightarrow> name_in ASF_CHECKPOINT_KINDS k = None | None \<Rightarrow> False)"

definition schema_refusal :: "json \<Rightarrow> refusal + 'a" where
  "schema_refusal raw =
     Inl (Refused (if unknown_raw_kind raw then UNKNOWN_CHECKPOINT else INVALID_REQUEST) None)"

definition parseNewCheckpoint ::
  "recovery_env \<Rightarrow> json \<Rightarrow> refusal + ((string \<times> json) list \<times> new_checkpoint)" where
  "parseNewCheckpoint env raw =
     (case do { v \<leftarrow> safe_parse env (newDurableCheckpointSchema (formats_of env)) raw;
                ms \<leftarrow> members v; c \<leftarrow> read_checkpoint ms; Some (ms, c) } of
        None \<Rightarrow> schema_refusal raw
      | Some (ms, c) \<Rightarrow> and_then (semanticCheckpointValidation env c) (\<lambda>_. Inr (ms, c)))"

definition createDurableAsfCheckpoint :: "recovery_env \<Rightarrow> json \<Rightarrow> refusal + json" where
  "createDurableAsfCheckpoint env raw =
     and_then (parseNewCheckpoint env raw) (\<lambda>(ms, c).
       Inr (JObject (ms @ [(''checkpoint_digest'', JString (sha256Digest env (JObject ms)))])))"

definition unsigned :: "(string \<times> json) list \<Rightarrow> (string \<times> json) list" where
  "unsigned ms = filter (\<lambda>m. fst m \<noteq> ''checkpoint_digest'') ms"

definition parseDurableAsfCheckpoint :: "recovery_env \<Rightarrow> json \<Rightarrow> refusal + durable_checkpoint" where
  "parseDurableAsfCheckpoint env raw =
     (case do { v \<leftarrow> safe_parse env (durableCheckpointSchema (formats_of env)) raw;
                ms \<leftarrow> members v; d \<leftarrow> text_field ms ''checkpoint_digest'';
                c \<leftarrow> read_checkpoint (unsigned ms); Some (ms, d, c) } of
        None \<Rightarrow> schema_refusal raw
      | Some (ms, recordedDigest, c) \<Rightarrow>
          and_then (semanticCheckpointValidation env c) (\<lambda>_.
            if sha256Digest env (JObject (unsigned ms)) \<noteq> recordedDigest
            then refuse CHECKPOINT_INTEGRITY_UNPROVEN (chk_kind c)
            else Inr (with_digest c recordedDigest)))"

record public_summary =
  sum_checkpoint_id :: string
  sum_kind :: checkpoint_kind
  sum_run_id :: string
  sum_work_order_id :: string
  sum_attempt_id :: string
  sum_phase :: phase
  sum_event_seq :: int
  sum_policy_digest :: string
  sum_candidate_sha :: "string option"
  sum_checkpoint_digest :: string
  sum_resume_binding :: "string option"
  sum_created_at :: string

definition nullable_json :: "string option \<Rightarrow> json" where
  "nullable_json s = (case s of None \<Rightarrow> JNull | Some t \<Rightarrow> JString t)"

definition resume_binding_json :: "protected_resume \<Rightarrow> json" where
  "resume_binding_json r = JObject [
     (''schema'', JString ''asf.protected-implementer-resume/v1''), (''run_id'', JString (res_run_id r)),
     (''work_order_id'', JString (res_work_order_id r)), (''attempt_id'', JString (res_attempt_id r)),
     (''policy_digest'', JString (res_policy_digest r)),
     (''fencing_generation'', JNumber (of_int (res_fencing_generation r))),
     (''candidate_sha'', nullable_json (res_candidate_sha r)),
     (''candidate_lineage_digest'', JString (res_candidate_lineage r)),
     (''protected_resume_ref'', JString (res_ref r)),
     (''session_identity_digest'', JString (res_session_identity r))]"

definition publicAsfCheckpointSummary :: "recovery_env \<Rightarrow> json \<Rightarrow> refusal + public_summary" where
  "publicAsfCheckpointSummary env raw =
     and_then (parseDurableAsfCheckpoint env raw) (\<lambda>c.
       Inr \<lparr>sum_checkpoint_id = chk_id c, sum_kind = chk_kind c, sum_run_id = chk_run_id c,
         sum_work_order_id = chk_work_order_id c, sum_attempt_id = chk_attempt_id c,
         sum_phase = chk_phase c, sum_event_seq = chk_event_seq c,
         sum_policy_digest = chk_policy_digest c, sum_candidate_sha = chk_candidate_sha c,
         sum_checkpoint_digest = chk_digest c,
         sum_resume_binding = map_option (sha256Digest env \<circ> resume_binding_json) (chk_resume c),
         sum_created_at = chk_created_at c\<rparr>)"

section \<open>Observations and ownership\<close>

definition assertFreshObservation ::
  "recovery_env \<Rightarrow> 'a observation_window_scheme \<Rightarrow> checkpoint_kind \<Rightarrow> refusal + unit" where
  "assertFreshObservation env obs kind =
     (let t = Some (now env);
          observedAt = date_parse env (observed_at obs);
          validUntil = date_parse env (valid_until obs)
      in if js_lt t observedAt \<or> js_lt validUntil observedAt \<or> js_le validUntil t
         then refuse STALE_OBSERVATION kind else Inr ())"

text \<open>The result says whether the owner is a newer generation that took over.\<close>

definition assertOwnership ::
  "recovery_env \<Rightarrow> durable_checkpoint \<Rightarrow> ownership_observation \<Rightarrow> string \<Rightarrow> bool \<Rightarrow> refusal + bool" where
  "assertOwnership env c obs requestingWorkerId allowNewerTakeoverGeneration =
     and_then (assertFreshObservation env obs (chk_kind c)) (\<lambda>_.
       if own_state obs \<noteq> ''current'' then refuse OWNERSHIP_UNPROVEN (chk_kind c)
       else if own_run_id obs \<noteq> chk_run_id c \<or> own_work_order_id obs \<noteq> chk_work_order_id c \<or>
               own_attempt_id obs \<noteq> chk_attempt_id c \<or> own_worker_id obs \<noteq> requestingWorkerId
       then refuse OWNERSHIP_UNPROVEN (chk_kind c)
       else let exactGeneration = (own_fencing_generation obs = chk_fencing_generation c);
                newer = (allowNewerTakeoverGeneration \<and>
                         own_fencing_generation obs > chk_fencing_generation c)
            in if \<not> exactGeneration \<and> \<not> newer then refuse OWNERSHIP_UNPROVEN (chk_kind c)
               else Inr newer)"

section \<open>Resuming a protected implementer session\<close>

record authorized_resume =
  auth_run_id :: string
  auth_work_order_id :: string
  auth_attempt_id :: string
  auth_kind :: checkpoint_kind
  auth_candidate_sha :: "string option"
  auth_policy_digest :: string
  auth_fencing_generation :: int
  auth_authorization_generation :: int
  auth_lease_binding :: string
  auth_session_identity :: string
  auth_resume_ref :: string

definition exact_bindings :: "durable_checkpoint \<Rightarrow> protected_resume \<Rightarrow> resume_observations \<Rightarrow> bool list" where
  "exact_bindings c r facts = [
     prov_provider (obs_provider facts) = res_provider r,
     prov_principal (obs_provider facts) = res_principal r,
     prov_profile (obs_provider facts) = res_profile r,
     prov_session_identity (obs_provider facts) = res_session_identity r,
     prov_resume_ref (obs_provider facts) = res_ref r,
     idl_run_id (obs_identity facts) = chk_run_id c,
     idl_work_order_id (obs_identity facts) = chk_work_order_id c,
     idl_attempt_id (obs_identity facts) = chk_attempt_id c,
     idl_policy_digest (obs_identity facts) = chk_policy_digest c,
     idl_fencing_generation (obs_identity facts) = own_fencing_generation (obs_ownership facts),
     idl_provider (obs_identity facts) = res_provider r,
     idl_principal (obs_identity facts) = res_principal r,
     idl_profile (obs_identity facts) = res_profile r,
     lin_candidate_sha (obs_lineage facts) = chk_candidate_sha c,
     lin_candidate_lineage (obs_lineage facts) = chk_candidate_lineage c,
     pol_policy_digest (obs_policy facts) = chk_policy_digest c]"

definition authorizeProtectedImplementerResume ::
  "recovery_env \<Rightarrow> json \<Rightarrow> json \<Rightarrow> refusal + authorized_resume" where
  "authorizeProtectedImplementerResume env checkpointRaw observationsRaw =
     and_then (parseDurableAsfCheckpoint env checkpointRaw) (\<lambda>c.
       let kind = chk_kind c; policy = policy_of kind; unproven = refuse IMPLEMENTER_RESUME_UNPROVEN kind
       in case Option.bind (safe_parse env (implementerResumeObservationsSchema (formats_of env)) observationsRaw)
                 read_resume_observations of
            None \<Rightarrow> unproven
          | Some facts \<Rightarrow>
              (if implementerSessionResume policy \<noteq> ProtectedConditional then unproven
               else case chk_resume c of
                 None \<Rightarrow> unproven
               | Some r \<Rightarrow>
                   and_then (assertOwnership env c (obs_ownership facts) (obs_worker_id facts) True) (\<lambda>takeover.
                   and_then (assertFreshObservation env (obs_provider facts) kind) (\<lambda>_.
                   and_then (assertFreshObservation env (obs_identity facts) kind) (\<lambda>_.
                   and_then (assertFreshObservation env (obs_lineage facts) kind) (\<lambda>_.
                   and_then (assertFreshObservation env (obs_policy facts) kind) (\<lambda>_.
                     if prov_capability (obs_provider facts) \<noteq> ''supported'' \<or>
                        prov_session_state (obs_provider facts) \<noteq> ''resumable'' then unproven
                     else if idl_state (obs_identity facts) \<noteq> ''current'' then unproven
                     else if lin_state (obs_lineage facts) \<noteq> ''exact'' then unproven
                     else if pol_state (obs_policy facts) \<noteq> ''permitted'' then unproven
                     else if js_le (date_parse env (idl_expires_at (obs_identity facts))) (Some (now env))
                     then unproven
                     else if \<not> list_all (\<lambda>b. b) (exact_bindings c r facts) then unproven
                     else if \<not> takeover \<and> idl_binding_digest (obs_identity facts) \<noteq> res_lease_binding r
                     then unproven
                     else Inr \<lparr>auth_run_id = chk_run_id c, auth_work_order_id = chk_work_order_id c,
                            auth_attempt_id = chk_attempt_id c, auth_kind = kind,
                            auth_candidate_sha = chk_candidate_sha c,
                            auth_policy_digest = chk_policy_digest c,
                            auth_fencing_generation = chk_fencing_generation c,
                            auth_authorization_generation = own_fencing_generation (obs_ownership facts),
                            auth_lease_binding = idl_binding_digest (obs_identity facts),
                            auth_session_identity = res_session_identity r,
                            auth_resume_ref = res_ref r\<rparr>)))))))"

section \<open>The recovery decision\<close>

datatype recovery_action =
  ContinueFromCheckpoint | ContinueAfterReconciliation | ReplayStage | RestartImplementerFresh
| ResumeImplementer | RestartReviewerFresh

datatype takeover_fencing =
  FencePriorWorkerGeneration | AbortPriorProviderAndToolWork | RevokePriorIdentityLeases
| ReconcileInFlightExternalEffects

record recovery_plan =
  plan_kind :: checkpoint_kind
  plan_action :: recovery_action
  plan_replay_policy :: replay_policy
  confirmedReconciliations :: "reconciliation_observation list"
  replayReconciliations :: "reconciliation_observation list"
  skipConfirmedEffects :: "reconciliation_observation list"
  invalidatedEvidence :: "evidence_class list"
  plan_cleanup :: "string list"
  ownershipTakeover :: bool
  requiredTakeoverFencing :: "takeover_fencing list"
  implementerResume :: "authorized_resume option"

fun actor_role :: "recovery_actor \<Rightarrow> recovery_role" where
  "actor_role ActOrchestrator = Orchestrator"
| "actor_role (ActImplementer m ro) = Implementer"
| "actor_role (ActLocalReviewer m) = LocalReviewer"
| "actor_role (ActPrReviewer m) = PrReviewer"

definition reviewer_not_fresh :: "recovery_actor \<Rightarrow> bool" where
  "reviewer_not_fresh a = (case a of ActLocalReviewer m \<Rightarrow> m \<noteq> Fresh | ActPrReviewer m \<Rightarrow> m \<noteq> Fresh | _ \<Rightarrow> False)"

definition remote_bound :: "durable_checkpoint \<Rightarrow> remote_observation \<Rightarrow> bool" where
  "remote_bound c ob \<longleftrightarrow>
     rem_run_id ob = chk_run_id c \<and> rem_work_order_id ob = chk_work_order_id c \<and>
     rem_attempt_id ob = chk_attempt_id c \<and> rem_policy_digest ob = chk_policy_digest c \<and>
     rem_candidate_sha ob = chk_candidate_sha c \<and>
     Some (rem_marker ob) = map_of (rev (chk_markers c)) (rem_observation ob)"

text \<open>The loop over the remote observations, with its two arrays.\<close>

fun reconcile_remote ::
  "recovery_env \<Rightarrow> durable_checkpoint \<Rightarrow> remote_observation list \<Rightarrow>
     reconciliation_observation list \<Rightarrow> reconciliation_observation list \<Rightarrow>
     refusal + (reconciliation_observation list \<times> reconciliation_observation list)" where
  "reconcile_remote env c [] confirmed notApplied = Inr (confirmed, notApplied)"
| "reconcile_remote env c (ob # rest) confirmed notApplied =
     and_then (assertFreshObservation env ob (chk_kind c)) (\<lambda>_.
       if \<not> remote_bound c ob then refuse REMOTE_BINDING_MISMATCH (chk_kind c)
       else if rem_state ob = ''confirmed''
       then reconcile_remote env c rest (confirmed @ [rem_observation ob]) notApplied
       else if rem_state ob = ''not-applied''
       then reconcile_remote env c rest confirmed (notApplied @ [rem_observation ob])
       else refuse REMOTE_OUTCOME_UNRESOLVED (chk_kind c))"

definition choose_action ::
  "recovery_env \<Rightarrow> recovery_request \<Rightarrow> checkpoint_kind \<Rightarrow> reconciliation_observation list \<Rightarrow>
     reconciliation_observation list \<Rightarrow> refusal + (recovery_action \<times> authorized_resume option)" where
  "choose_action env request kind confirmed notApplied =
     (if \<not> req_replay request \<and> notApplied = []
      then Inr (if confirmed = [] then ContinueFromCheckpoint else ContinueAfterReconciliation, None)
      else case req_actor request of
        ActLocalReviewer _ \<Rightarrow> Inr (RestartReviewerFresh, None)
      | ActPrReviewer _ \<Rightarrow> Inr (RestartReviewerFresh, None)
      | ActImplementer Resume ro \<Rightarrow>
          (if ObsProviderSession \<in> set notApplied \<or> ObsIdentityLease \<in> set notApplied
           then refuse IMPLEMENTER_RESUME_UNPROVEN kind
           else case ro of
             None \<Rightarrow> refuse IMPLEMENTER_RESUME_UNPROVEN kind
           | Some obs \<Rightarrow>
               and_then (authorizeProtectedImplementerResume env (req_checkpoint request) obs)
                 (\<lambda>a. Inr (ResumeImplementer, Some a)))
      | ActImplementer Fresh ro \<Rightarrow>
          (if ro \<noteq> None then refuse IMPLEMENTER_RESUME_UNPROVEN kind else Inr (RestartImplementerFresh, None))
      | ActOrchestrator \<Rightarrow>
          (if replayPolicy (policy_of kind) = NotReplayable then refuse CHECKPOINT_POLICY_MISMATCH kind
           else Inr (if notApplied = [] \<and> confirmed \<noteq> [] then ContinueAfterReconciliation else ReplayStage, None)))"

definition planAsfCheckpointRecovery :: "recovery_env \<Rightarrow> json \<Rightarrow> refusal + recovery_plan" where
  "planAsfCheckpointRecovery env raw =
     (case Option.bind (safe_parse env (recoveryRequestSchema (formats_of env)) raw) read_request of
        None \<Rightarrow> Inl (Refused INVALID_REQUEST None)
      | Some request \<Rightarrow>
          and_then (parseDurableAsfCheckpoint env (req_checkpoint request)) (\<lambda>c.
          let kind = chk_kind c; policy = policy_of kind; co = req_checkpoint_observation request
          in and_then (assertFreshObservation env co kind) (\<lambda>_.
             if cko_state co \<noteq> ''verified'' \<or> cko_digest co \<noteq> chk_digest c
             then refuse CHECKPOINT_INTEGRITY_UNPROVEN kind
             else and_then (assertOwnership env c (req_ownership request) (req_worker_id request) True) (\<lambda>takeover.
             if actor_role (req_actor request) \<notin> set (allowedRecoveryRoles policy)
             then refuse RECOVERY_ROLE_FORBIDDEN kind
             else if reviewer_not_fresh (req_actor request) then refuse REVIEWER_RESUME_FORBIDDEN kind
             else if \<not> exactSet (map rem_observation (req_remote request)) (reconciliationBeforeReplay policy)
             then refuse REMOTE_RECONCILIATION_REQUIRED kind
             else and_then (reconcile_remote env c (req_remote request) [] []) (\<lambda>(confirmed, notApplied).
             if \<not> req_replay request \<and> actor_role (req_actor request) \<noteq> Orchestrator
             then refuse RECOVERY_ROLE_FORBIDDEN kind
             else and_then (choose_action env request kind confirmed notApplied) (\<lambda>(action, resume).
             let replaying = action \<in> {ReplayStage, RestartImplementerFresh, ResumeImplementer, RestartReviewerFresh}
             in Inr \<lparr>plan_kind = kind, plan_action = action, plan_replay_policy = replayPolicy policy,
                  confirmedReconciliations = confirmed, replayReconciliations = notApplied,
                  skipConfirmedEffects = (if replaying then confirmed else []),
                  invalidatedEvidence = (if replaying then invalidatesOnReplay policy else []),
                  plan_cleanup = cleanupAndFencing policy, ownershipTakeover = takeover,
                  requiredTakeoverFencing =
                    (if takeover then [FencePriorWorkerGeneration, AbortPriorProviderAndToolWork,
                       RevokePriorIdentityLeases, ReconcileInFlightExternalEffects] else []),
                  implementerResume = resume\<rparr>))))))"

section \<open>What a plan rests on\<close>

text \<open>An observation is current when it was made, is not from the future and has not expired.\<close>

definition current_window :: "recovery_env \<Rightarrow> 'a observation_window_scheme \<Rightarrow> bool" where
  "current_window env obs \<longleftrightarrow>
     \<not> js_lt (Some (now env)) (date_parse env (observed_at obs)) \<and>
     \<not> js_lt (date_parse env (valid_until obs)) (date_parse env (observed_at obs)) \<and>
     \<not> js_le (date_parse env (valid_until obs)) (Some (now env))"

lemma fresh_iff [simp]:
  "assertFreshObservation env obs k = Inr u \<longleftrightarrow> current_window env obs"
  by (auto simp: assertFreshObservation_def current_window_def Let_def refuse_def)

definition owned :: "recovery_env \<Rightarrow> durable_checkpoint \<Rightarrow> ownership_observation \<Rightarrow> string \<Rightarrow> bool" where
  "owned env c obs wk \<longleftrightarrow>
     current_window env obs \<and> own_state obs = ''current'' \<and> own_run_id obs = chk_run_id c \<and>
     own_work_order_id obs = chk_work_order_id c \<and> own_attempt_id obs = chk_attempt_id c \<and>
     own_worker_id obs = wk \<and> own_fencing_generation obs \<ge> chk_fencing_generation c"

lemma ownership_iff:
  "assertOwnership env c obs wk True = Inr t \<longleftrightarrow>
     owned env c obs wk \<and> (t \<longleftrightarrow> own_fencing_generation obs > chk_fencing_generation c)"
  by (auto simp: assertOwnership_def owned_def Let_def refuse_def and_then_Inr_iff)

lemma reconcile_remote_Inr:
  "reconcile_remote env c obs cs ns = Inr (confirmed, notApplied) \<Longrightarrow>
     confirmed = cs @ map rem_observation (filter (\<lambda>ob. rem_state ob = ''confirmed'') obs) \<and>
     notApplied = ns @ map rem_observation (filter (\<lambda>ob. rem_state ob = ''not-applied'') obs) \<and>
     (\<forall>ob \<in> set obs. current_window env ob \<and> remote_bound c ob \<and>
        rem_state ob \<in> {''confirmed'', ''not-applied''})"
proof (induction obs arbitrary: cs ns)
  case (Cons ob obs)
  then have w: "current_window env ob" "remote_bound c ob" "rem_state ob \<in> {''confirmed'', ''not-applied''}"
    by (auto simp: and_then_Inr_iff refuse_def split: if_splits)
  show ?case
  proof (cases "rem_state ob = ''confirmed''")
    case True
    then show ?thesis using Cons.IH [of "cs @ [rem_observation ob]" ns] Cons.prems w
      by (auto simp: and_then_Inr_iff)
  next
    case False
    then show ?thesis using Cons.IH [of cs "ns @ [rem_observation ob]"] Cons.prems w
      by (auto simp: and_then_Inr_iff)
  qed
qed simp

text \<open>The facts that a plan is made on.\<close>

definition plan_ground :: "recovery_env \<Rightarrow> json \<Rightarrow> recovery_request \<Rightarrow> durable_checkpoint \<Rightarrow> bool" where
  "plan_ground env raw request c \<longleftrightarrow>
     Option.bind (safe_parse env (recoveryRequestSchema (formats_of env)) raw) read_request = Some request \<and>
     parseDurableAsfCheckpoint env (req_checkpoint request) = Inr c \<and>
     current_window env (req_checkpoint_observation request) \<and>
     cko_state (req_checkpoint_observation request) = ''verified'' \<and>
     cko_digest (req_checkpoint_observation request) = chk_digest c \<and>
     owned env c (req_ownership request) (req_worker_id request) \<and>
     actor_role (req_actor request) \<in> set (allowedRecoveryRoles (policy_of (chk_kind c))) \<and>
     \<not> reviewer_not_fresh (req_actor request) \<and>
     exactSet (map rem_observation (req_remote request)) (reconciliationBeforeReplay (policy_of (chk_kind c))) \<and>
     (\<forall>ob \<in> set (req_remote request). current_window env ob \<and> remote_bound c ob \<and>
        rem_state ob \<in> {''confirmed'', ''not-applied''}) \<and>
     (req_replay request \<or> actor_role (req_actor request) = Orchestrator)"

definition observed_as :: "string \<Rightarrow> recovery_request \<Rightarrow> reconciliation_observation list" where
  "observed_as st request = map rem_observation (filter (\<lambda>ob. rem_state ob = st) (req_remote request))"

definition is_replay :: "recovery_action \<Rightarrow> bool" where
  "is_replay a \<longleftrightarrow> a \<in> {ReplayStage, RestartImplementerFresh, ResumeImplementer, RestartReviewerFresh}"

lemma plan_Inr:
  assumes "planAsfCheckpointRecovery env raw = Inr plan"
  shows "\<exists>request c. plan_ground env raw request c \<and>
     choose_action env request (chk_kind c) (observed_as ''confirmed'' request)
       (observed_as ''not-applied'' request) = Inr (plan_action plan, implementerResume plan) \<and>
     plan_kind plan = chk_kind c \<and>
     confirmedReconciliations plan = observed_as ''confirmed'' request \<and>
     replayReconciliations plan = observed_as ''not-applied'' request \<and>
     skipConfirmedEffects plan = (if is_replay (plan_action plan) then observed_as ''confirmed'' request else []) \<and>
     invalidatedEvidence plan =
       (if is_replay (plan_action plan) then invalidatesOnReplay (policy_of (chk_kind c)) else []) \<and>
     (ownershipTakeover plan \<longleftrightarrow>
        own_fencing_generation (req_ownership request) > chk_fencing_generation c) \<and>
     requiredTakeoverFencing plan =
       (if ownershipTakeover plan then [FencePriorWorkerGeneration, AbortPriorProviderAndToolWork,
          RevokePriorIdentityLeases, ReconcileInFlightExternalEffects] else [])"
proof -
  obtain request where r: "Option.bind (safe_parse env (recoveryRequestSchema (formats_of env)) raw) read_request = Some request"
    using assms by (auto simp: planAsfCheckpointRecovery_def split: option.splits)
  obtain c where c: "parseDurableAsfCheckpoint env (req_checkpoint request) = Inr c"
    using assms r by (auto simp: planAsfCheckpointRecovery_def and_then_Inr_iff)
  note p = assms [unfolded planAsfCheckpointRecovery_def r option.case c and_then_simps Let_def]
  have co: "current_window env (req_checkpoint_observation request)"
    "cko_state (req_checkpoint_observation request) = ''verified''"
    "cko_digest (req_checkpoint_observation request) = chk_digest c"
    using p by (auto simp: and_then_Inr_iff refuse_def split: if_splits)
  obtain t where t: "assertOwnership env c (req_ownership request) (req_worker_id request) True = Inr t"
    using p co by (auto simp: and_then_Inr_iff)
  have g: "actor_role (req_actor request) \<in> set (allowedRecoveryRoles (policy_of (chk_kind c)))"
    "\<not> reviewer_not_fresh (req_actor request)"
    "exactSet (map rem_observation (req_remote request)) (reconciliationBeforeReplay (policy_of (chk_kind c)))"
    using p co t by (auto simp: and_then_Inr_iff refuse_def split: if_splits)
  obtain cf na where rr: "reconcile_remote env c (req_remote request) [] [] = Inr (cf, na)"
    using p co t g by (auto simp: and_then_Inr_iff)
  note rem = reconcile_remote_Inr [OF rr]
  have role: "req_replay request \<or> actor_role (req_actor request) = Orchestrator"
    using p co t g rr by (auto simp: and_then_Inr_iff refuse_def split: if_splits)
  obtain a res where a: "choose_action env request (chk_kind c) cf na = Inr (a, res)"
    using p co t g rr role by (auto simp: and_then_Inr_iff)
  have eqs: "cf = observed_as ''confirmed'' request" "na = observed_as ''not-applied'' request"
    using rem by (simp_all add: observed_as_def)
  have ground: "plan_ground env raw request c"
    using r c co t g rem role by (simp add: plan_ground_def ownership_iff)
  have f: "assertFreshObservation env (req_checkpoint_observation request) (chk_kind c) = Inr ()"
    using co(1) by simp
  have role': "\<not> (\<not> req_replay request \<and> actor_role (req_actor request) \<noteq> Orchestrator)" using role by blast
  have plan: "plan = \<lparr>plan_kind = chk_kind c, plan_action = a,
      plan_replay_policy = replayPolicy (policy_of (chk_kind c)),
      confirmedReconciliations = cf, replayReconciliations = na,
      skipConfirmedEffects = (if is_replay a then cf else []),
      invalidatedEvidence = (if is_replay a then invalidatesOnReplay (policy_of (chk_kind c)) else []),
      plan_cleanup = cleanupAndFencing (policy_of (chk_kind c)), ownershipTakeover = t,
      requiredTakeoverFencing = (if t then [FencePriorWorkerGeneration, AbortPriorProviderAndToolWork,
          RevokePriorIdentityLeases, ReconcileInFlightExternalEffects] else []),
      implementerResume = res\<rparr>"
    using p unfolding is_replay_def
    by (simp only: f t rr a co(2,3) g role' and_then_simps prod.case not_True_eq_False simp_thms
        if_True if_False sum.inject)
  show ?thesis
    using ground a t unfolding plan eqs
    by (intro exI [of _ request] exI [of _ c]) (simp add: ownership_iff)
qed

section \<open>What a parsed checkpoint satisfies\<close>

definition checkpoint_valid :: "recovery_env \<Rightarrow> 'a new_checkpoint_scheme \<Rightarrow> bool" where
  "checkpoint_valid env c \<longleftrightarrow>
     chk_phase c \<in> set (phases (policy_of (chk_kind c))) \<and>
     chk_replay_policy c = replayPolicy (policy_of (chk_kind c)) \<and>
     exactSet (map fst (chk_markers c)) (reconciliationBeforeReplay (policy_of (chk_kind c))) \<and>
     (candidateBinding (policy_of (chk_kind c)) = CandidateRequired \<longrightarrow> chk_candidate_sha c \<noteq> None) \<and>
     (candidateBinding (policy_of (chk_kind c)) = NoCandidate \<longrightarrow> chk_candidate_sha c = None) \<and>
     (\<forall>r. chk_resume c = Some r \<longrightarrow>
        implementerSessionResume (policy_of (chk_kind c)) = ProtectedConditional \<and> resume_bound c r \<and>
        \<not> js_lt (date_parse env (chk_created_at c)) (date_parse env (res_recorded_at r)) \<and>
        \<not> js_le (date_parse env (res_lease_expires_at r)) (date_parse env (chk_created_at c)))"

lemma semantic_iff: "semanticCheckpointValidation env c = Inr u \<longleftrightarrow> checkpoint_valid env c"
  by (auto simp: semanticCheckpointValidation_def checkpoint_valid_def Let_def refuse_def split: option.splits)

lemma checkpoint_valid_extend: "checkpoint_valid env (with_digest c d) \<longleftrightarrow> checkpoint_valid env c"
  by (simp add: checkpoint_valid_def with_digest_def resume_bound_def new_checkpoint.defs durable_checkpoint.defs)

lemma with_digest_simps [simp]:
  "chk_digest (with_digest c d) = d" "chk_kind (with_digest c d) = chk_kind c"
  "chk_resume (with_digest c d) = chk_resume c"
  by (simp_all add: with_digest_def new_checkpoint.defs durable_checkpoint.defs)

lemma parse_durable_Inr:
  assumes "parseDurableAsfCheckpoint env raw = Inr c"
  shows "checkpoint_valid env c \<and>
     (\<exists>v ms. safe_parse env (durableCheckpointSchema (formats_of env)) raw = Some v \<and> v = JObject ms \<and>
        text_field ms ''checkpoint_digest'' = Some (chk_digest c) \<and>
        chk_digest c = sha256Digest env (JObject (unsigned ms)))"
  using assms
  by (auto simp: parseDurableAsfCheckpoint_def schema_refusal_def and_then_Inr_iff semantic_iff refuse_def
      checkpoint_valid_extend members_def split: option.splits bind_splits if_splits json.splits)

lemma authorize_Inr:
  assumes "authorizeProtectedImplementerResume env raw obs = Inr a"
  shows "\<exists>c r facts. parseDurableAsfCheckpoint env raw = Inr c \<and> chk_resume c = Some r \<and>
     implementerSessionResume (policy_of (chk_kind c)) = ProtectedConditional \<and>
     owned env c (obs_ownership facts) (obs_worker_id facts) \<and>
     current_window env (obs_provider facts) \<and> current_window env (obs_identity facts) \<and>
     current_window env (obs_lineage facts) \<and> current_window env (obs_policy facts) \<and>
     prov_capability (obs_provider facts) = ''supported'' \<and>
     prov_session_state (obs_provider facts) = ''resumable'' \<and>
     idl_state (obs_identity facts) = ''current'' \<and> lin_state (obs_lineage facts) = ''exact'' \<and>
     pol_state (obs_policy facts) = ''permitted'' \<and>
     \<not> js_le (date_parse env (idl_expires_at (obs_identity facts))) (Some (now env)) \<and>
     list_all (\<lambda>b. b) (exact_bindings c r facts) \<and>
     (own_fencing_generation (obs_ownership facts) = chk_fencing_generation c \<longrightarrow>
        idl_binding_digest (obs_identity facts) = res_lease_binding r) \<and>
     auth_kind a = chk_kind c \<and> auth_resume_ref a = res_ref r \<and>
     auth_candidate_sha a = chk_candidate_sha c \<and>
     auth_fencing_generation a = chk_fencing_generation c \<and>
     auth_authorization_generation a = own_fencing_generation (obs_ownership facts)"
proof -
  obtain c where c: "parseDurableAsfCheckpoint env raw = Inr c"
    using assms by (auto simp: authorizeProtectedImplementerResume_def and_then_Inr_iff)
  note p = assms [unfolded authorizeProtectedImplementerResume_def c and_then_simps Let_def]
  obtain facts where f: "Option.bind (safe_parse env (implementerResumeObservationsSchema (formats_of env)) obs)
      read_resume_observations = Some facts"
    using p by (cases "Option.bind (safe_parse env (implementerResumeObservationsSchema (formats_of env)) obs)
      read_resume_observations") (auto simp: refuse_def)
  note p = p [unfolded f option.case]
  have pc: "implementerSessionResume (policy_of (chk_kind c)) = ProtectedConditional"
    using p by (auto simp: refuse_def split: if_splits)
  obtain r where r: "chk_resume c = Some r"
    using p pc by (cases "chk_resume c") (auto simp: refuse_def)
  obtain t where t: "assertOwnership env c (obs_ownership facts) (obs_worker_id facts) True = Inr t"
    using p pc r by (auto simp: and_then_Inr_iff)
  then have o: "owned env c (obs_ownership facts) (obs_worker_id facts)"
    "t \<longleftrightarrow> own_fencing_generation (obs_ownership facts) > chk_fencing_generation c"
    by (simp_all add: ownership_iff)
  have w: "current_window env (obs_provider facts)" "current_window env (obs_identity facts)"
    "current_window env (obs_lineage facts)" "current_window env (obs_policy facts)"
    using p pc r t by (auto simp: and_then_Inr_iff)
  then have fr: "assertFreshObservation env (obs_provider facts) (chk_kind c) = Inr ()"
    "assertFreshObservation env (obs_identity facts) (chk_kind c) = Inr ()"
    "assertFreshObservation env (obs_lineage facts) (chk_kind c) = Inr ()"
    "assertFreshObservation env (obs_policy facts) (chk_kind c) = Inr ()"
    by simp_all
  note q = p [unfolded r pc option.case t fr and_then_simps]
  have s: "prov_capability (obs_provider facts) = ''supported''"
    "prov_session_state (obs_provider facts) = ''resumable''"
    "idl_state (obs_identity facts) = ''current''" "lin_state (obs_lineage facts) = ''exact''"
    "pol_state (obs_policy facts) = ''permitted''"
    "\<not> js_le (date_parse env (idl_expires_at (obs_identity facts))) (Some (now env))"
    "list_all (\<lambda>b. b) (exact_bindings c r facts)"
    "t \<or> idl_binding_digest (obs_identity facts) = res_lease_binding r"
    using q unfolding refuse_def by (simp_all split: if_splits)
  have a: "auth_kind a = chk_kind c \<and> auth_resume_ref a = res_ref r \<and>
     auth_candidate_sha a = chk_candidate_sha c \<and>
     auth_fencing_generation a = chk_fencing_generation c \<and>
     auth_authorization_generation a = own_fencing_generation (obs_ownership facts)"
    using q unfolding refuse_def by (auto split: if_splits)
  show ?thesis
    using c r pc o w s a by (intro exI [of _ c] exI [of _ r] exI [of _ facts]) auto
qed

section \<open>Sample requests\<close>

definition sample_env :: recovery_env where
  "sample_env = \<lparr>safe_parse = (\<lambda>s v. Some v), formats_of = sample_formats, sha256Digest = (\<lambda>_. ''d''),
     date_parse = (\<lambda>s. if s = ''past'' then Some 1 else if s = ''made'' then Some 2 else Some 9), now = 5\<rparr>"

definition run_members :: "(string \<times> json) list" where
  "run_members = [(''run_id'', JString ''r''), (''work_order_id'', JString ''w''), (''attempt_id'', JString ''a'')]"

definition window_members :: "(string \<times> json) list" where
  "window_members = [(''observed_at'', JString ''past''), (''valid_until'', JString ''soon'')]"

definition profile_members :: "(string \<times> json) list" where
  "profile_members = [(''provider'', JString ''p''), (''principal'', JString ''q''), (''profile'', JString ''f'')]"

definition session_members :: "(string \<times> json) list" where
  "session_members = [(''protected_resume_ref'', JString ''ref''), (''session_identity_digest'', JString ''ses''),
     (''candidate_sha'', JNull), (''candidate_lineage_digest'', JString ''lin''), (''policy_digest'', JString ''pol'')]"

definition sample_resume :: json where
  "sample_resume = JObject (run_members @ profile_members @ session_members @
     [(''fencing_generation'', JNumber 1), (''identity_lease_binding_digest'', JString ''b1''),
      (''recorded_at'', JString ''past''), (''identity_lease_expires_at'', JString ''soon'')])"

definition sample_marker :: "string \<Rightarrow> json" where
  "sample_marker ob = JObject [(''observation'', JString ob), (''correlation_marker'', JString ''m'')]"

definition sample_checkpoint :: json where
  "sample_checkpoint = JObject (run_members @ session_members @
     [(''checkpoint_id'', JString ''c''), (''checkpoint_kind'', JString ''implementer-session-marker''),
      (''phase'', JString ''IMPLEMENTING''), (''event_seq'', JNumber 7), (''fencing_generation'', JNumber 1),
      (''replay_policy'', JString ''reconcile-first''),
      (''reconciliation_markers'', JArray [sample_marker ''provider-session-state'', sample_marker ''identity-lease-state'']),
      (''protected_implementer_resume'', sample_resume), (''created_at'', JString ''made''),
      (''checkpoint_digest'', JString ''d'')])"

definition sample_ownership :: json where
  "sample_ownership = JObject (run_members @ window_members @
     [(''state'', JString ''current''), (''worker_id'', JString ''k''), (''fencing_generation'', JNumber 2)])"

definition sample_observations :: json where
  "sample_observations = JObject [(''requesting_worker_id'', JString ''k''), (''ownership'', sample_ownership),
     (''provider'', JObject (profile_members @ session_members @ window_members @
        [(''capability'', JString ''supported''), (''session_state'', JString ''resumable'')])),
     (''identity_lease'', JObject (run_members @ profile_members @ session_members @ window_members @
        [(''state'', JString ''current''), (''identity_lease_binding_digest'', JString ''b2''),
         (''fencing_generation'', JNumber 2), (''expires_at'', JString ''soon'')])),
     (''candidate_lineage'', JObject (session_members @ window_members @ [(''state'', JString ''exact'')])),
     (''policy'', JObject (session_members @ window_members @ [(''state'', JString ''permitted'')]))]"

definition sample_remote :: "string \<Rightarrow> string \<Rightarrow> json" where
  "sample_remote ob st = JObject (run_members @ session_members @ window_members @
     [(''observation'', JString ob), (''state'', JString st), (''correlation_marker'', JString ''m'')])"

definition sample_request :: "json \<Rightarrow> string \<Rightarrow> json" where
  "sample_request actor st = JObject [(''requesting_worker_id'', JString ''k''), (''checkpoint'', sample_checkpoint),
     (''checkpoint_observation'', JObject (window_members @
        [(''state'', JString ''verified''), (''checkpoint_digest'', JString ''d'')])),
     (''ownership'', sample_ownership),
     (''remote_observations'', JArray [sample_remote ''identity-lease-state'' st,
        sample_remote ''provider-session-state'' ''confirmed'']),
     (''replay_requested'', JBool True), (''actor'', actor)]"

definition resume_actor :: json where
  "resume_actor = JObject [(''role'', JString ''implementer''), (''mode'', JString ''resume''),
     (''resume_observations'', sample_observations)]"

definition orchestrator_actor :: json where
  "orchestrator_actor = JObject [(''role'', JString ''orchestrator''), (''mode'', JString ''automatic'')]"

lemma sample_resume_plan:
  "case planAsfCheckpointRecovery sample_env (sample_request resume_actor ''confirmed'') of
     Inl _ \<Rightarrow> False
   | Inr p \<Rightarrow> plan_action p = ResumeImplementer \<and> ownershipTakeover p \<and> implementerResume p \<noteq> None"
  by code_simp

lemma sample_replay_plan:
  "case planAsfCheckpointRecovery sample_env (sample_request orchestrator_actor ''not-applied'') of
     Inl _ \<Rightarrow> False
   | Inr p \<Rightarrow> plan_action p = ReplayStage \<and> plan_kind p = ImplementerSessionMarker \<and>
       replayReconciliations p = [ObsIdentityLease]"
  by code_simp

section \<open>Properties\<close>

lemma names_partition:
  assumes "exactSet (map f obs) expected"
    and "\<forall>ob \<in> set obs. P ob \<or> Q ob" and "\<forall>ob. \<not> (P ob \<and> Q ob)"
  shows "set (map f (filter P obs)) \<union> set (map f (filter Q obs)) = set expected"
    and "set (map f (filter P obs)) \<inter> set (map f (filter Q obs)) = {}"
proof -
  have d: "distinct (map f obs)" using assms(1) by (simp add: exactSet_def card_distinct)
  have "set (map f obs) \<subseteq> set expected" using assms(1) by (auto simp: exactSet_def list_all_iff)
  moreover have "card (set expected) \<le> card (set (map f obs))"
    using assms(1) card_length [of expected] by (simp add: exactSet_def)
  ultimately have "set (map f obs) = set expected" by (intro card_seteq) auto
  moreover have "{x \<in> set obs. P x} \<union> {x \<in> set obs. Q x} = set obs" using assms(2) by blast
  ultimately show "set (map f (filter P obs)) \<union> set (map f (filter Q obs)) = set expected"
    by (simp add: image_Un [symmetric])
  show "set (map f (filter P obs)) \<inter> set (map f (filter Q obs)) = {}"
    using d assms(3) by (auto simp: distinct_map inj_on_def)
qed

lemma choose_replays:
  "choose_action env request k cf na = Inr (a, res) \<Longrightarrow> na \<noteq> [] \<Longrightarrow> is_replay a"
  by (auto simp: choose_action_def is_replay_def refuse_def and_then_Inr_iff
      split: if_splits recovery_actor.splits session_mode.splits option.splits)

lemma choose_resume:
  "choose_action env request k cf na = Inr (a, res) \<Longrightarrow> res \<noteq> None \<longleftrightarrow> a = ResumeImplementer"
  by (auto simp: choose_action_def refuse_def and_then_Inr_iff
      split: if_splits recovery_actor.splits session_mode.splits option.splits)

lemma choose_resume_authorized:
  "choose_action env request k cf na = Inr (a, Some res) \<Longrightarrow>
     ObsProviderSession \<notin> set na \<and> ObsIdentityLease \<notin> set na \<and>
     (\<exists>obs. authorizeProtectedImplementerResume env (req_checkpoint request) obs = Inr res)"
  by (auto simp: choose_action_def refuse_def and_then_Inr_iff
      split: if_splits recovery_actor.splits session_mode.splits option.splits)



text \<open>A plan accounts for every external effect once: the confirmed and the not-applied
  observations partition the set that the policy requires; an effect that was not applied always
  leads to a replay, a replay skips exactly the confirmed effects and invalidates what the policy
  says, and a plan that does not replay invalidates nothing.\<close>

theorem plan_accounts_for_effects:
  assumes "planAsfCheckpointRecovery env raw = Inr plan"
  shows "set (confirmedReconciliations plan) \<union> set (replayReconciliations plan) =
       set (reconciliationBeforeReplay (policy_of (plan_kind plan))) \<and>
     set (confirmedReconciliations plan) \<inter> set (replayReconciliations plan) = {} \<and>
     (replayReconciliations plan \<noteq> [] \<longrightarrow> is_replay (plan_action plan)) \<and>
     skipConfirmedEffects plan = (if is_replay (plan_action plan) then confirmedReconciliations plan else []) \<and>
     invalidatedEvidence plan =
       (if is_replay (plan_action plan) then invalidatesOnReplay (policy_of (plan_kind plan)) else [])"
proof -
  obtain request c where g: "plan_ground env raw request c"
    "choose_action env request (chk_kind c) (observed_as ''confirmed'' request)
       (observed_as ''not-applied'' request) = Inr (plan_action plan, implementerResume plan)"
    "plan_kind plan = chk_kind c"
    "confirmedReconciliations plan = observed_as ''confirmed'' request"
    "replayReconciliations plan = observed_as ''not-applied'' request"
    "skipConfirmedEffects plan = (if is_replay (plan_action plan) then observed_as ''confirmed'' request else [])"
    "invalidatedEvidence plan =
       (if is_replay (plan_action plan) then invalidatesOnReplay (policy_of (chk_kind c)) else [])"
    using plan_Inr [OF assms] by blast
  have "exactSet (map rem_observation (req_remote request)) (reconciliationBeforeReplay (policy_of (chk_kind c)))"
    "\<forall>ob \<in> set (req_remote request). rem_state ob = ''confirmed'' \<or> rem_state ob = ''not-applied''"
    "\<forall>ob. \<not> (rem_state ob = ''confirmed'' \<and> rem_state ob = ''not-applied'')"
    using g(1) by (simp_all add: plan_ground_def)
  note part = names_partition [OF this]
  show ?thesis
    using part choose_replays [OF g(2)] unfolding g(3-7) observed_as_def by simp
qed

theorem plan_accounts_for_effects_witness:
  "\<exists>p. planAsfCheckpointRecovery sample_env (sample_request orchestrator_actor ''not-applied'') = Inr p \<and>
     is_replay (plan_action p) \<and> skipConfirmedEffects p = confirmedReconciliations p"
proof -
  obtain p where p: "planAsfCheckpointRecovery sample_env (sample_request orchestrator_actor ''not-applied'') = Inr p"
    "replayReconciliations p = [ObsIdentityLease]"
    using sample_replay_plan by (auto split: sum.splits)
  show ?thesis using plan_accounts_for_effects [OF p(1)] p by (intro exI [of _ p]) simp
qed

text \<open>an implementer session is resumed only with a complete proof: the action is a resume exactly
  when the plan carries an authorisation; then the observations prove a supported provider with a
  resumable session, a current identity lease, an exact candidate lineage and a permitting policy,
  all of them current and bound to the checkpoint, by the owner of the same or a newer generation,
  and in the same generation by the very lease that the checkpoint recorded; and neither the
  session nor the lease was observed as not applied.\<close>

theorem resume_needs_full_proof:
  assumes "planAsfCheckpointRecovery env raw = Inr plan"
  shows "(implementerResume plan \<noteq> None \<longleftrightarrow> plan_action plan = ResumeImplementer) \<and>
     (\<forall>a. implementerResume plan = Some a \<longrightarrow>
        ObsProviderSession \<notin> set (replayReconciliations plan) \<and>
        ObsIdentityLease \<notin> set (replayReconciliations plan) \<and>
        (\<exists>c r facts. chk_kind c = plan_kind plan \<and> chk_resume c = Some r \<and>
           implementerSessionResume (policy_of (chk_kind c)) = ProtectedConditional \<and>
           owned env c (obs_ownership facts) (obs_worker_id facts) \<and>
           current_window env (obs_provider facts) \<and> current_window env (obs_identity facts) \<and>
           current_window env (obs_lineage facts) \<and> current_window env (obs_policy facts) \<and>
           prov_capability (obs_provider facts) = ''supported'' \<and>
           prov_session_state (obs_provider facts) = ''resumable'' \<and>
           idl_state (obs_identity facts) = ''current'' \<and> lin_state (obs_lineage facts) = ''exact'' \<and>
           pol_state (obs_policy facts) = ''permitted'' \<and>
           list_all (\<lambda>b. b) (exact_bindings c r facts) \<and>
           (own_fencing_generation (obs_ownership facts) = chk_fencing_generation c \<longrightarrow>
              idl_binding_digest (obs_identity facts) = res_lease_binding r) \<and>
           auth_resume_ref a = res_ref r))"
proof -
  obtain request c where g: "plan_ground env raw request c"
    "choose_action env request (chk_kind c) (observed_as ''confirmed'' request)
       (observed_as ''not-applied'' request) = Inr (plan_action plan, implementerResume plan)"
    "plan_kind plan = chk_kind c" "replayReconciliations plan = observed_as ''not-applied'' request"
    using plan_Inr [OF assms] by blast
  have ck: "parseDurableAsfCheckpoint env (req_checkpoint request) = Inr c"
    using g(1) by (simp add: plan_ground_def)
  show ?thesis
  proof (intro conjI allI impI)
    show "implementerResume plan \<noteq> None \<longleftrightarrow> plan_action plan = ResumeImplementer"
      by (rule choose_resume [OF g(2)])
  next
    fix a assume a: "implementerResume plan = Some a"
    note ch = choose_resume_authorized [OF g(2) [unfolded a]]
    show "ObsProviderSession \<notin> set (replayReconciliations plan)"
      "ObsIdentityLease \<notin> set (replayReconciliations plan)"
      using ch g(4) by simp_all
    obtain obs where "authorizeProtectedImplementerResume env (req_checkpoint request) obs = Inr a"
      using ch by blast
    from authorize_Inr [OF this] show "\<exists>c r facts. chk_kind c = plan_kind plan \<and> chk_resume c = Some r \<and>
           implementerSessionResume (policy_of (chk_kind c)) = ProtectedConditional \<and>
           owned env c (obs_ownership facts) (obs_worker_id facts) \<and>
           current_window env (obs_provider facts) \<and> current_window env (obs_identity facts) \<and>
           current_window env (obs_lineage facts) \<and> current_window env (obs_policy facts) \<and>
           prov_capability (obs_provider facts) = ''supported'' \<and>
           prov_session_state (obs_provider facts) = ''resumable'' \<and>
           idl_state (obs_identity facts) = ''current'' \<and> lin_state (obs_lineage facts) = ''exact'' \<and>
           pol_state (obs_policy facts) = ''permitted'' \<and>
           list_all (\<lambda>b. b) (exact_bindings c r facts) \<and>
           (own_fencing_generation (obs_ownership facts) = chk_fencing_generation c \<longrightarrow>
              idl_binding_digest (obs_identity facts) = res_lease_binding r) \<and>
           auth_resume_ref a = res_ref r"
      unfolding ck g(3) by (elim exE conjE) (simp only: sum.inject, blast)
  qed
qed

theorem resume_needs_full_proof_witness:
  "\<exists>p. planAsfCheckpointRecovery sample_env (sample_request resume_actor ''confirmed'') = Inr p \<and>
     plan_action p = ResumeImplementer \<and> ObsIdentityLease \<notin> set (replayReconciliations p)"
proof -
  obtain p where p: "planAsfCheckpointRecovery sample_env (sample_request resume_actor ''confirmed'') = Inr p"
    "plan_action p = ResumeImplementer"
    using sample_resume_plan by (auto split: sum.splits)
  show ?thesis using resume_needs_full_proof [OF p(1)] p by (intro exI [of _ p]) auto
qed

text \<open>a plan takes ownership over exactly when the owner's generation is newer than the
  checkpoint's, and only then it demands the four fencing steps; an older generation gets no plan.\<close>

theorem takeover_is_fenced:
  assumes "planAsfCheckpointRecovery env raw = Inr plan"
  shows "\<exists>request c. plan_ground env raw request c \<and>
     own_fencing_generation (req_ownership request) \<ge> chk_fencing_generation c \<and>
     (ownershipTakeover plan \<longleftrightarrow> own_fencing_generation (req_ownership request) > chk_fencing_generation c) \<and>
     set (requiredTakeoverFencing plan) =
       (if ownershipTakeover plan
        then {FencePriorWorkerGeneration, AbortPriorProviderAndToolWork, RevokePriorIdentityLeases,
              ReconcileInFlightExternalEffects}
        else {})"
proof -
  obtain request c where g: "plan_ground env raw request c"
    "ownershipTakeover plan \<longleftrightarrow> own_fencing_generation (req_ownership request) > chk_fencing_generation c"
    "requiredTakeoverFencing plan =
       (if ownershipTakeover plan then [FencePriorWorkerGeneration, AbortPriorProviderAndToolWork,
          RevokePriorIdentityLeases, ReconcileInFlightExternalEffects] else [])"
    using plan_Inr [OF assms] by blast
  have "own_fencing_generation (req_ownership request) \<ge> chk_fencing_generation c"
    using g(1) by (simp add: plan_ground_def owned_def)
  moreover have "set (requiredTakeoverFencing plan) =
       (if ownershipTakeover plan
        then {FencePriorWorkerGeneration, AbortPriorProviderAndToolWork, RevokePriorIdentityLeases,
              ReconcileInFlightExternalEffects}
        else {})"
    unfolding g(3) by (cases "ownershipTakeover plan") simp_all
  ultimately show ?thesis using g(1,2) by blast
qed

theorem takeover_is_fenced_witness:
  "\<exists>p. planAsfCheckpointRecovery sample_env (sample_request resume_actor ''confirmed'') = Inr p \<and>
     RevokePriorIdentityLeases \<in> set (requiredTakeoverFencing p)"
proof -
  obtain p where p: "planAsfCheckpointRecovery sample_env (sample_request resume_actor ''confirmed'') = Inr p"
    "ownershipTakeover p"
    using sample_resume_plan by (auto split: sum.splits)
  show ?thesis using takeover_is_fenced [OF p(1)] p by (intro exI [of _ p]) auto
qed

text \<open>a durable checkpoint that parses is intact and lawful: its recorded digest is the digest of
  all its other members, its phase, replay policy and reconciliation markers are those of the
  operator's policy, it has a candidate exactly as the policy binds one, and protected resume data
  only where the policy permits it and bound to the same run, policy, generation and candidate.\<close>

theorem parsed_checkpoint_is_lawful:
  assumes "parseDurableAsfCheckpoint env raw = Inr c"
  shows "checkpoint_valid env c \<and>
     (\<exists>v ms. safe_parse env (durableCheckpointSchema (formats_of env)) raw = Some v \<and> v = JObject ms \<and>
        text_field ms ''checkpoint_digest'' = Some (chk_digest c) \<and>
        chk_digest c = sha256Digest env (JObject (unsigned ms)))"
  using assms by (rule parse_durable_Inr)

lemma sample_checkpoint_parses:
  "case parseDurableAsfCheckpoint sample_env sample_checkpoint of Inl _ \<Rightarrow> False
   | Inr c \<Rightarrow> chk_kind c = ImplementerSessionMarker"
  by code_simp

theorem parsed_checkpoint_is_lawful_witness:
  "\<exists>c :: durable_checkpoint. chk_kind c = ImplementerSessionMarker \<and> checkpoint_valid sample_env c"
proof -
  obtain c where "parseDurableAsfCheckpoint sample_env sample_checkpoint = Inr c"
    "chk_kind c = ImplementerSessionMarker"
    using sample_checkpoint_parses by (auto split: sum.splits)
  then show ?thesis using parsed_checkpoint_is_lawful by blast
qed

lemma conforms_object_iff:
  "conforms (ZObject fs) (JObject ms) \<longleftrightarrow>
     fst ` set ms \<subseteq> fst ` set fs \<and>
     (\<forall>f \<in> set fs. case map_of ms (fst f) of None \<Rightarrow> fst (snd f) | Some v \<Rightarrow> conforms (snd (snd f)) v)"
  by (auto simp: list_all_iff)

lemma digest_not_a_field: "''checkpoint_digest'' \<notin> fst ` set (new_checkpoint_fields f)"
  by (simp add: new_checkpoint_fields_def required_def)

lemma signed_conforms:
  assumes "conforms (newDurableCheckpointSchema f) (JObject ms)" and "is_digest d"
  shows "conforms (durableCheckpointSchema f) (JObject (ms @ [(''checkpoint_digest'', JString d)])) \<and>
     unsigned (ms @ [(''checkpoint_digest'', JString d)]) = ms \<and>
     text_field (ms @ [(''checkpoint_digest'', JString d)]) ''checkpoint_digest'' = Some d"
proof -
  let ?k = "''checkpoint_digest''"
  let ?fs = "new_checkpoint_fields f"
  have c: "fst ` set ms \<subseteq> fst ` set ?fs"
    "\<And>g. g \<in> set ?fs \<Longrightarrow> case map_of ms (fst g) of None \<Rightarrow> fst (snd g) | Some v \<Rightarrow> conforms (snd (snd g)) v"
    using assms(1) unfolding newDurableCheckpointSchema_def conforms_object_iff by blast+
  then have nk: "?k \<notin> fst ` set ms" using digest_not_a_field by blast
  then have none: "map_of ms ?k = None" by (simp add: map_of_eq_None_iff)
  have "unsigned ms = ms" unfolding unsigned_def using nk by (intro filter_True) force
  then have u: "unsigned (ms @ [(?k, JString d)]) = ms" by (simp add: unsigned_def)
  have t: "text_field (ms @ [(?k, JString d)]) ?k = Some d" by (simp add: text_field_def none map_add_def)
  have other: "map_of (ms @ [(?k, JString d)]) (fst g) = map_of ms (fst g)" if "g \<in> set ?fs" for g
  proof -
    have "fst g \<noteq> ?k" using that digest_not_a_field by (metis image_eqI)
    then show ?thesis by (simp add: map_add_def split: option.splits)
  qed
  have "conforms (durableCheckpointSchema f) (JObject (ms @ [(?k, JString d)]))"
    unfolding durableCheckpointSchema_def conforms_object_iff
  proof (intro conjI ballI)
    show "fst ` set (ms @ [(?k, JString d)]) \<subseteq> fst ` set (?fs @ [required ?k digestSchema])"
      using c(1) by (auto simp: required_def)
  next
    fix g assume "g \<in> set (?fs @ [required ?k digestSchema])"
    then consider "g \<in> set ?fs" | "g = required ?k digestSchema" by auto
    then show "case map_of (ms @ [(?k, JString d)]) (fst g) of None \<Rightarrow> fst (snd g)
        | Some v \<Rightarrow> conforms (snd (snd g)) v"
    proof cases
      case 1
      then show ?thesis using c(2) other by simp
    next
      case 2
      then show ?thesis using none assms(2) by (simp add: required_def map_add_def digestSchema_def)
    qed
  qed
  with u t show ?thesis by blast
qed

lemma read_parse_new:
  assumes "documented_parse (safe_parse env)" and "parseNewCheckpoint env raw = Inr (ms, c)"
  shows "conforms (newDurableCheckpointSchema (formats_of env)) (JObject ms) \<and> read_checkpoint ms = Some c \<and>
     semanticCheckpointValidation env c = Inr ()"
proof -
  have sp: "safe_parse env s v = Some r \<Longrightarrow> r = v \<and> conforms s v" for s v r
    using assms(1) by (simp add: documented_parse_def)
  show ?thesis
    using assms(2)
    by (auto simp: parseNewCheckpoint_def schema_refusal_def and_then_Inr_iff members_def dest!: sp
        split: option.splits bind_splits json.splits)
qed

text \<open>C33: a checkpoint round-trips: whatever \<open>createDurableAsfCheckpoint\<close> returns is accepted by
  \<open>parseDurableAsfCheckpoint\<close> and gives back the same checkpoint with its content digest.\<close>

theorem checkpoint_round_trip:
  assumes "documented_parse (safe_parse env)"
    and "\<And>s v. conforms s v \<Longrightarrow> safe_parse env s v = Some v"
    and "\<And>j. is_digest (sha256Digest env j)"
    and "parseNewCheckpoint env raw = Inr (ms, c)"
  shows "\<exists>d. createDurableAsfCheckpoint env raw = Inr d \<and>
     parseDurableAsfCheckpoint env d = Inr (with_digest c (sha256Digest env (JObject ms)))"
proof -
  let ?d = "sha256Digest env (JObject ms)"
  let ?s = "ms @ [(''checkpoint_digest'', JString ?d)]"
  note new = read_parse_new [OF assms(1,4)]
  note signed = signed_conforms [OF conjunct1 [OF new] assms(3), of "JObject ms"]
  have "safe_parse env (durableCheckpointSchema (formats_of env)) (JObject ?s) = Some (JObject ?s)"
    using signed assms(2) by blast
  then have "parseDurableAsfCheckpoint env (JObject ?s) = Inr (with_digest c ?d)"
    using new signed by (simp add: parseDurableAsfCheckpoint_def members_def)
  then show ?thesis using assms(4) by (simp add: createDurableAsfCheckpoint_def)
qed

text \<open>A conforming new checkpoint, with a validator as documented.\<close>

definition digest_env :: recovery_env where
  "digest_env = sample_env\<lparr>safe_parse := sample_parse, sha256Digest := (\<lambda>_. sample_digest)\<rparr>"

definition admission_members :: "(string \<times> json) list" where
  "admission_members = [(''schema'', JString ''asf.durable-checkpoint/v1''), (''checkpoint_id'', JString ''c''),
     (''checkpoint_kind'', JString ''work-order-admission''), (''run_id'', JString ''r''),
     (''work_order_id'', JString ''w''), (''attempt_id'', JString ''a''), (''phase'', JString ''ADMITTED''),
     (''event_seq'', JNumber 1), (''fencing_generation'', JNumber 1),
     (''policy_digest'', JString sample_digest), (''candidate_sha'', JNull),
     (''candidate_lineage_digest'', JString sample_digest),
     (''durable_inputs_digest'', JString sample_digest), (''durable_outputs_digest'', JString sample_digest),
     (''replay_policy'', JString ''replayable''), (''reconciliation_markers'', JArray []),
     (''protected_implementer_resume'', JNull), (''created_at'', JString ''past'')]"

definition admission_checkpoint :: new_checkpoint where
  "admission_checkpoint = \<lparr>chk_id = ''c'', chk_kind = WorkOrderAdmission, chk_run_id = ''r'',
     chk_work_order_id = ''w'', chk_attempt_id = ''a'', chk_phase = ADMITTED, chk_event_seq = 1,
     chk_fencing_generation = 1, chk_policy_digest = sample_digest, chk_candidate_sha = None,
     chk_candidate_lineage = sample_digest, chk_replay_policy = Replayable, chk_markers = [],
     chk_resume = None, chk_created_at = ''past''\<rparr>"

lemma admission_conforms: "conforms (newDurableCheckpointSchema f) (JObject admission_members)"
  if "\<And>s. is_datetime f s"
  using that
  by (simp add: newDurableCheckpointSchema_def new_checkpoint_fields_def admission_members_def
      payload_defs checkpoint_identifier_def timestampSchema_def nullable_def checkpointKindSchema_def
      checkpointReplayPolicySchema_def ASF_CHECKPOINT_KINDS_def ASF_CHECKPOINT_REPLAY_POLICIES_def
      positive_int_def safe_int_def char_in_def)

lemma admission_reads: "read_checkpoint admission_members = Some admission_checkpoint"
  by (simp add: read_checkpoint_def admission_members_def text_field_def enum_field_def int_field_def
      nullable_text_def list_field_def sub_field_def nullable_read_def name_in_def
      ASF_CHECKPOINT_KINDS_def ASF_CHECKPOINT_REPLAY_POLICIES_def RUN_EVENT_PHASES_def
      admission_checkpoint_def)

lemma admission_semantic: "semanticCheckpointValidation env admission_checkpoint = Inr ()"
proof -
  have p: "phases (policy_of WorkOrderAdmission) = [ADMITTED]"
    "replayPolicy (policy_of WorkOrderAdmission) = Replayable"
    "reconciliationBeforeReplay (policy_of WorkOrderAdmission) = []"
    "candidateBinding (policy_of WorkOrderAdmission) = NoCandidate"
    by code_simp+
  then show ?thesis
    by (simp add: semanticCheckpointValidation_def admission_checkpoint_def Let_def exactSet_def)
qed

theorem checkpoint_round_trip_witness:
  "\<exists>d. createDurableAsfCheckpoint digest_env (JObject admission_members) = Inr d \<and>
     parseDurableAsfCheckpoint digest_env d = Inr (with_digest admission_checkpoint sample_digest)"
proof -
  have new: "parseNewCheckpoint digest_env (JObject admission_members) = Inr (admission_members, admission_checkpoint)"
    using admission_conforms [of sample_formats] admission_reads admission_semantic [of digest_env]
    by (simp add: parseNewCheckpoint_def digest_env_def sample_env_def sample_parse_def sample_formats_def
        members_def)
  have "documented_parse (safe_parse digest_env)" by (simp add: digest_env_def sample_documented)
  from checkpoint_round_trip [OF this _ _ new] show ?thesis
    by (simp add: digest_env_def sample_parse_def sample_digest_ok)
qed

end
