(* ===== verification/Git_Lease.thy ===== *)
theory Git_Lease
  imports Prelude
begin

text \<open>
  The distributed issue lease of \<open>src/src/queue/git-lease.ts\<close>: a lease is a git ref, created by a
  plain push and moved by a compare-and-swap push. Git and its server are a parameter: the
  operations the code calls, each of which may also fail without telling whether it took effect.
  \<open>git_documented\<close> states what git documents of them, over the refs and the objects of the
  server. Times are milliseconds; the JSON text of a record is read back as the record.
\<close>

section \<open>Records and the git interface\<close>

record lease_record =
  issueId :: string
  lease_runId :: string
  lease_repo :: string
  generation :: int
  acquiredAt :: int
  expiresAt :: int
  heartbeatAt :: int
  hostId :: string
  pid :: int
  bootId :: "string option"
  priorStateId :: "string option"
  priorAssigneeId :: "string option"

record held_lease = lease_record +
  refName :: string
  objectId :: string

datatype lease_error =
  LeaseConflict "string option" "int option"
| ClaimFailed
| StillLive string
| GitFailed

record lease_options =
  opt_runId :: string
  opt_remote :: "string option"
  ttlMinutes :: rat
  opt_hostId :: string
  opt_pid :: int
  opt_bootId :: "string option"
  takeoverGraceMinutes :: "rat option"

text \<open>
  The commands: \<open>commit-tree\<close> of a record, \<open>ls-remote\<close> of a ref, \<open>fetch\<close> with \<open>log\<close> of an
  object, a plain \<open>push\<close> of an object to a ref, and a \<open>push --force-with-lease\<close> of an object or,
  with \<open>None\<close>, a deletion. \<open>Inl\<close> and \<open>False\<close> are a thrown error.
\<close>

record 's git_commands =
  commit_tree :: "'s \<Rightarrow> lease_record \<Rightarrow> 's \<times> string"
  ls_remote :: "'s \<Rightarrow> string \<Rightarrow> unit + string option"
  fetch_record :: "'s \<Rightarrow> string \<Rightarrow> unit + lease_record"
  push_new :: "'s \<Rightarrow> string \<Rightarrow> string \<Rightarrow> 's \<times> bool"
  push_lease :: "'s \<Rightarrow> string \<Rightarrow> string \<Rightarrow> string option \<Rightarrow> 's \<times> bool"

definition git_documented ::
  "'s git_commands \<Rightarrow> ('s \<Rightarrow> string \<Rightarrow> string option) \<Rightarrow> ('s \<Rightarrow> string \<Rightarrow> lease_record option) \<Rightarrow> bool" where
  "git_documented g refs objs \<longleftrightarrow>
     (\<forall>s ref x. ls_remote g s ref = Inr x \<longrightarrow> x = refs s ref) \<and>
     (\<forall>s oid r. fetch_record g s oid = Inr r \<longrightarrow> objs s oid = Some r) \<and>
     (\<forall>s r s' oid. commit_tree g s r = (s', oid) \<longrightarrow>
        refs s' = refs s \<and> objs s' = (objs s)(oid \<mapsto> r) \<and> objs s oid \<in> {None, Some r}) \<and>
     (\<forall>s ref oid s' ok. push_new g s ref oid = (s', ok) \<longrightarrow> objs s' = objs s \<and>
        (let moved = (refs s ref \<in> {None, Some oid} \<and> refs s' = (refs s)(ref \<mapsto> oid))
         in if ok then moved else moved \<or> refs s' = refs s)) \<and>
     (\<forall>s ref old new s' ok. push_lease g s ref old new = (s', ok) \<longrightarrow> objs s' = objs s \<and>
        (let moved = (refs s ref = Some old \<and> refs s' = (refs s)(ref := new))
         in if ok then moved else moved \<or> refs s' = refs s))"

section \<open>Operations\<close>

definition leaseRefName :: "string \<Rightarrow> string" where
  "leaseRefName issue = ''refs/runmill/leases/'' @ issue"

text \<open>The handle of a record that was read for an issue.\<close>

definition handle :: "string \<Rightarrow> lease_record \<Rightarrow> string \<Rightarrow> held_lease" where
  "handle issue r oid = lease_record.extend r (held_lease.fields (leaseRefName issue) oid)"

definition read_lease :: "'s git_commands \<Rightarrow> 's \<Rightarrow> string \<Rightarrow> lease_error + held_lease option" where
  "read_lease g s issue =
     (case ls_remote g s (leaseRefName issue) of
        Inl _ \<Rightarrow> Inl GitFailed
      | Inr None \<Rightarrow> Inr None
      | Inr (Some oid) \<Rightarrow>
          (case fetch_record g s oid of
             Inl _ \<Rightarrow> Inl GitFailed
           | Inr r \<Rightarrow> Inr (Some (handle issue r oid))))"

definition buildRecord ::
  "lease_options \<Rightarrow> int \<Rightarrow> string \<Rightarrow> int \<Rightarrow> string option \<times> string option \<Rightarrow> int option \<Rightarrow> lease_record" where
  "buildRecord opts now issue gen prior acquired =
     \<lparr>issueId = issue, lease_runId = opt_runId opts,
      lease_repo = (case opt_remote opts of None \<Rightarrow> ''origin'' | Some r \<Rightarrow> r),
      generation = gen,
      acquiredAt = (case acquired of None \<Rightarrow> now | Some t \<Rightarrow> t),
      expiresAt = \<lfloor>of_int now + ttlMinutes opts * 60000\<rfloor>,
      heartbeatAt = now, hostId = opt_hostId opts, pid = opt_pid opts, bootId = opt_bootId opts,
      priorStateId = fst prior, priorAssigneeId = snd prior\<rparr>"

definition acquire ::
  "'s git_commands \<Rightarrow> lease_options \<Rightarrow> int \<Rightarrow> 's \<Rightarrow> string \<Rightarrow> string option \<times> string option \<Rightarrow>
     's \<times> (lease_error + held_lease)" where
  "acquire g opts now s issue extra =
     (let record = buildRecord opts now issue 1 extra None;
          (s1, oid) = commit_tree g s record;
          (s2, ok) = push_new g s1 (leaseRefName issue) oid
      in if ok then (s2, Inr (handle issue record oid))
         else case read_lease g s2 issue of
                Inr (Some existing) \<Rightarrow>
                  (s2, Inl (LeaseConflict (Some (lease_runId existing)) (Some (generation existing))))
              | _ \<Rightarrow> (s2, Inl ClaimFailed))"

definition compareAndSwap ::
  "'s git_commands \<Rightarrow> 's \<Rightarrow> held_lease \<Rightarrow> lease_record \<Rightarrow> 's \<times> (lease_error + held_lease)" where
  "compareAndSwap g s held next =
     (let (s1, oid) = commit_tree g s next;
          ref = leaseRefName (issueId next);
          (s2, ok) = push_lease g s1 ref (objectId held) (Some oid)
      in if ok then (s2, Inr (handle (issueId next) next oid))
         else case read_lease g s2 (issueId next) of
                Inl e \<Rightarrow> (s2, Inl e)
              | Inr current \<Rightarrow>
                  (s2, Inl (LeaseConflict (map_option lease_runId current) (map_option generation current))))"

definition heartbeat ::
  "'s git_commands \<Rightarrow> lease_options \<Rightarrow> int \<Rightarrow> 's \<Rightarrow> held_lease \<Rightarrow> 's \<times> (lease_error + held_lease)" where
  "heartbeat g opts now s held =
     compareAndSwap g s held
       (buildRecord opts now (issueId held) (generation held)
          (priorStateId held, priorAssigneeId held) (Some (acquiredAt held)))"

definition assertHeld :: "'s git_commands \<Rightarrow> 's \<Rightarrow> held_lease \<Rightarrow> lease_error + unit" where
  "assertHeld g s held =
     and_then (read_lease g s (issueId held)) (\<lambda>current.
       case current of
         None \<Rightarrow> Inl (LeaseConflict None None)
       | Some c \<Rightarrow>
           (if lease_runId c \<noteq> lease_runId held \<or> generation c \<noteq> generation held
            then Inl (LeaseConflict (Some (lease_runId c)) (Some (generation c))) else Inr ()))"

definition isStale :: "lease_options \<Rightarrow> int \<Rightarrow> 'a lease_record_scheme \<Rightarrow> bool" where
  "isStale opts now r =
     (let grace = (case takeoverGraceMinutes opts of None \<Rightarrow> 10 | Some m \<Rightarrow> m) * 60000;
          deadline = of_int (expiresAt r) + grace
      in of_int now > deadline)"

definition takeover ::
  "'s git_commands \<Rightarrow> lease_options \<Rightarrow> int \<Rightarrow> 's \<Rightarrow> string \<Rightarrow> 's \<times> (lease_error + held_lease)" where
  "takeover g opts now s issue =
     (case read_lease g s issue of
        Inl e \<Rightarrow> (s, Inl e)
      | Inr None \<Rightarrow> acquire g opts now s issue (None, None)
      | Inr (Some current) \<Rightarrow>
          (if \<not> isStale opts now current then (s, Inl (StillLive (lease_runId current)))
           else compareAndSwap g s current
                  (buildRecord opts now issue (generation current + 1)
                     (priorStateId current, priorAssigneeId current) None)))"

definition release :: "'s git_commands \<Rightarrow> 's \<Rightarrow> held_lease \<Rightarrow> 's \<times> (lease_error + unit)" where
  "release g s held =
     (case assertHeld g s held of
        Inl e \<Rightarrow> (s, Inl e)
      | Inr _ \<Rightarrow>
          (let (s', ok) = push_lease g s (leaseRefName (issueId held)) (objectId held) None
           in (s', if ok then Inr () else Inl GitFailed)))"

section \<open>Lemmas\<close>

lemma handle_simps [simp]:
  "issueId (handle i r oid) = issueId r" "lease_runId (handle i r oid) = lease_runId r"
  "generation (handle i r oid) = generation r" "objectId (handle i r oid) = oid"
  "expiresAt (handle i r oid) = expiresAt r" "priorStateId (handle i r oid) = priorStateId r"
  "priorAssigneeId (handle i r oid) = priorAssigneeId r" "acquiredAt (handle i r oid) = acquiredAt r"
  "lease_record.truncate (handle i r oid) = r"
  by (simp_all add: handle_def lease_record.defs held_lease.defs)

lemma buildRecord_simps [simp]:
  "issueId (buildRecord opts now issue gen prior acq) = issue"
  "lease_runId (buildRecord opts now issue gen prior acq) = opt_runId opts"
  "generation (buildRecord opts now issue gen prior acq) = gen"
  "priorStateId (buildRecord opts now issue gen prior acq) = fst prior"
  "priorAssigneeId (buildRecord opts now issue gen prior acq) = snd prior"
  "acquiredAt (buildRecord opts now issue gen prior acq) = (case acq of None \<Rightarrow> now | Some t \<Rightarrow> t)"
  by (simp_all add: buildRecord_def)

lemma leaseRefName_inj [simp]: "leaseRefName i = leaseRefName j \<longleftrightarrow> i = j"
  by (simp add: leaseRefName_def)

lemma doc_read:
  assumes "git_documented g refs objs" and "read_lease g s issue = Inr x"
  shows "case x of None \<Rightarrow> refs s (leaseRefName issue) = None
     | Some c \<Rightarrow> \<exists>oid r. refs s (leaseRefName issue) = Some oid \<and> objs s oid = Some r \<and> c = handle issue r oid"
  using assms unfolding git_documented_def read_lease_def
  by (fastforce split: sum.splits option.splits)

lemma doc_commit:
  "git_documented g refs objs \<Longrightarrow> commit_tree g s r = (s', oid) \<Longrightarrow>
     refs s' = refs s \<and> objs s' = (objs s)(oid \<mapsto> r) \<and> objs s oid \<in> {None, Some r}"
  unfolding git_documented_def by blast

lemma doc_new:
  "git_documented g refs objs \<Longrightarrow> push_new g s ref oid = (s', ok) \<Longrightarrow> objs s' = objs s \<and>
     (refs s' = refs s \<and> \<not> ok \<or> refs s ref \<in> {None, Some oid} \<and> refs s' = (refs s)(ref \<mapsto> oid))"
  unfolding git_documented_def Let_def by (metis (full_types))

lemma doc_cas:
  "git_documented g refs objs \<Longrightarrow> push_lease g s ref old new = (s', ok) \<Longrightarrow> objs s' = objs s \<and>
     (refs s' = refs s \<and> \<not> ok \<or> refs s ref = Some old \<and> refs s' = (refs s)(ref := new))"
  unfolding git_documented_def Let_def by (metis (full_types))

text \<open>What each operation does to the server, whatever it reports.\<close>

lemma acquire_effect:
  assumes "git_documented g refs objs" and "acquire g opts now s issue extra = (s', res)"
  shows "\<exists>oid. (objs s oid \<in> {None, Some (buildRecord opts now issue 1 extra None)}) \<and>
     objs s' = (objs s)(oid \<mapsto> buildRecord opts now issue 1 extra None) \<and>
     (refs s' = refs s \<and> \<not> is_ok res \<or>
      refs s (leaseRefName issue) \<in> {None, Some oid} \<and> refs s' = (refs s)(leaseRefName issue \<mapsto> oid)) \<and>
     (\<forall>h. res = Inr h \<longrightarrow> h = handle issue (buildRecord opts now issue 1 extra None) oid)"
proof -
  let ?r = "buildRecord opts now issue 1 extra None"
  obtain s1 oid where c: "commit_tree g s ?r = (s1, oid)" by fastforce
  obtain s2 ok where p: "push_new g s1 (leaseRefName issue) oid = (s2, ok)" by fastforce
  note d = doc_commit [OF assms(1) c] and n = doc_new [OF assms(1) p]
  have "s' = s2" "is_ok res \<longleftrightarrow> ok" "\<forall>h. res = Inr h \<longrightarrow> h = handle issue ?r oid"
    using assms(2) by (auto simp: acquire_def c p split: if_splits sum.splits option.splits)
  then show ?thesis using d n by (intro exI [of _ oid]) auto
qed

lemma cas_effect:
  assumes "git_documented g refs objs" and "compareAndSwap g s held r = (s', res)"
  shows "\<exists>oid. (objs s oid \<in> {None, Some r}) \<and> objs s' = (objs s)(oid \<mapsto> r) \<and>
     (refs s' = refs s \<and> \<not> is_ok res \<or>
      refs s (leaseRefName (issueId r)) = Some (objectId held) \<and>
      refs s' = (refs s)(leaseRefName (issueId r) \<mapsto> oid)) \<and>
     (\<forall>h. res = Inr h \<longrightarrow> h = handle (issueId r) r oid)"
proof -
  obtain s1 oid where c: "commit_tree g s r = (s1, oid)" by fastforce
  obtain s2 ok where p: "push_lease g s1 (leaseRefName (issueId r)) (objectId held) (Some oid) = (s2, ok)"
    by fastforce
  note d = doc_commit [OF assms(1) c] and n = doc_cas [OF assms(1) p]
  have "s' = s2" "is_ok res \<longleftrightarrow> ok" "\<forall>h. res = Inr h \<longrightarrow> h = handle (issueId r) r oid"
    using assms(2) by (auto simp: compareAndSwap_def c p split: if_splits sum.splits)
  then show ?thesis using d n by (intro exI [of _ oid]) auto
qed

lemma release_effect:
  assumes "git_documented g refs objs" and "release g s held = (s', res)"
  shows "objs s' = objs s \<and>
     (refs s' = refs s \<and> \<not> is_ok res \<or>
      assertHeld g s held = Inr () \<and> refs s (leaseRefName (issueId held)) = Some (objectId held) \<and>
      refs s' = (refs s)(leaseRefName (issueId held) := None))"
proof (cases "assertHeld g s held")
  case (Inl e)
  then have "s' = s" "res = Inl e" using assms(2) by (simp_all add: release_def)
  then show ?thesis by simp
next
  case (Inr u)
  obtain s2 ok where p: "push_lease g s (leaseRefName (issueId held)) (objectId held) None = (s2, ok)"
    by fastforce
  then show ?thesis using doc_cas [OF assms(1) p] assms(2) Inr
    by (auto simp: release_def split: if_splits)
qed

section \<open>Interleaved workers\<close>

datatype lease_op =
  OpAcquire lease_options int "string option \<times> string option"
| OpHeartbeat lease_options int held_lease
| OpTakeover lease_options int
| OpRelease held_lease

fun run_op :: "'s git_commands \<Rightarrow> string \<Rightarrow> 's \<Rightarrow> lease_op \<Rightarrow> 's" where
  "run_op g issue s (OpAcquire opts now extra) = fst (acquire g opts now s issue extra)"
| "run_op g issue s (OpHeartbeat opts now h) = fst (heartbeat g opts now s h)"
| "run_op g issue s (OpTakeover opts now) = fst (takeover g opts now s issue)"
| "run_op g issue s (OpRelease h) = fst (release g s h)"

text \<open>
  The operations of any workers on one issue, except that run \<open>r\<close> does not claim it again: workers
  renew and release only handles that they were given.
\<close>

fun op_of_others :: "('s \<Rightarrow> string \<Rightarrow> lease_record option) \<Rightarrow> string \<Rightarrow> string \<Rightarrow> 's \<Rightarrow> lease_op \<Rightarrow> bool" where
  "op_of_others objs issue r s (OpAcquire opts now extra) \<longleftrightarrow> opt_runId opts \<noteq> r"
| "op_of_others objs issue r s (OpHeartbeat opts now h) \<longleftrightarrow>
     issueId h = issue \<and> lease_runId h = opt_runId opts \<and>
     (\<exists>rec. objs s (objectId h) = Some rec \<and> lease_runId rec = lease_runId h)"
| "op_of_others objs issue r s (OpTakeover opts now) \<longleftrightarrow> opt_runId opts \<noteq> r"
| "op_of_others objs issue r s (OpRelease h) \<longleftrightarrow> issueId h = issue"

definition lease_step ::
  "'s git_commands \<Rightarrow> ('s \<Rightarrow> string \<Rightarrow> string option) \<Rightarrow> ('s \<Rightarrow> string \<Rightarrow> lease_record option) \<Rightarrow>
     string \<Rightarrow> string \<Rightarrow> 's \<Rightarrow> lease_op \<Rightarrow> 's \<Rightarrow> bool" where
  "lease_step g refs objs issue r s op' s' \<longleftrightarrow>
     git_documented g refs objs \<and> op_of_others objs issue r s op' \<and> s' = run_op g issue s op'"

text \<open>The issue is not leased by run \<open>r\<close>.\<close>

definition not_held_by ::
  "('s \<Rightarrow> string \<Rightarrow> string option) \<Rightarrow> ('s \<Rightarrow> string \<Rightarrow> lease_record option) \<Rightarrow> string \<Rightarrow> string \<Rightarrow> 's \<Rightarrow> bool" where
  "not_held_by refs objs issue r s \<longleftrightarrow>
     (\<forall>oid. refs s (leaseRefName issue) = Some oid \<longrightarrow>
        (\<exists>rec. objs s oid = Some rec \<and> lease_runId rec \<noteq> r))"

lemma takeover_preserves:
  assumes "git_documented g refs objs" and "not_held_by refs objs issue r s" and "opt_runId opts \<noteq> r"
  shows "not_held_by refs objs issue r (fst (takeover g opts now s issue))"
proof -
  have acq: "not_held_by refs objs issue r (fst (acquire g opts now s issue extra))" for extra
    using acquire_effect [OF assms(1), of opts now s issue extra] assms(2,3)
    by (cases "acquire g opts now s issue extra") (fastforce simp: not_held_by_def)
  have cas: "not_held_by refs objs issue r (fst (compareAndSwap g s held rec))"
    if "issueId rec = issue" "lease_runId rec \<noteq> r" for held rec
    using cas_effect [OF assms(1), of s held rec] assms(2) that
    by (cases "compareAndSwap g s held rec") (fastforce simp: not_held_by_def)
  show ?thesis
    using assms(2) acq cas assms(3) by (auto simp: takeover_def split: sum.splits option.splits)
qed

lemma step_preserves:
  assumes "not_held_by refs objs issue r s" and "lease_step g refs objs issue r s op' s'"
  shows "not_held_by refs objs issue r s'"
proof -
  have d: "git_documented g refs objs" and o: "op_of_others objs issue r s op'"
    and s': "s' = run_op g issue s op'"
    using assms(2) by (simp_all add: lease_step_def)
  show ?thesis
  proof (cases op')
    case (OpAcquire opts now extra)
    then show ?thesis
      using acquire_effect [OF d, of opts now s issue extra] assms(1) o s'
      by (cases "acquire g opts now s issue extra") (fastforce simp: not_held_by_def)
  next
    case (OpHeartbeat opts now h)
    let ?rec = "buildRecord opts now (issueId h) (generation h) (priorStateId h, priorAssigneeId h)
      (Some (acquiredAt h))"
    obtain s2 res where c: "compareAndSwap g s h ?rec = (s2, res)" by fastforce
    have h: "issueId h = issue" "lease_runId h = opt_runId opts"
      "\<exists>rec. objs s (objectId h) = Some rec \<and> lease_runId rec = lease_runId h"
      using o OpHeartbeat by auto
    have "s' = s2" using s' c OpHeartbeat by (simp add: heartbeat_def)
    then show ?thesis
      using cas_effect [OF d c] h assms(1) by (fastforce simp: not_held_by_def)
  next
    case (OpTakeover opts now)
    then show ?thesis using takeover_preserves [OF d assms(1)] o s' by simp
  next
    case (OpRelease h)
    obtain s2 res where c: "release g s h = (s2, res)" by fastforce
    have "s' = s2" using s' c OpRelease by simp
    then show ?thesis
      using release_effect [OF d c] o OpRelease assms(1) by (auto simp: not_held_by_def)
  qed
qed

interpretation fence: preserved "lease_step g refs objs issue r" "not_held_by refs objs issue r"
  for g refs objs issue r
  by unfold_locales (rule step_preserves)

lemma not_held_fails:
  assumes "git_documented g refs objs" and "not_held_by refs objs issue r s"
    and "lease_runId h = r" and "issueId h = issue"
  shows "assertHeld g s h \<noteq> Inr ()"
proof
  assume "assertHeld g s h = Inr ()"
  then obtain c where c: "read_lease g s issue = Inr (Some c)" "lease_runId c = lease_runId h"
    using assms(4) by (auto simp: assertHeld_def and_then_Inr_iff split: option.splits if_splits)
  from doc_read [OF assms(1) c(1)] show False
    using assms(2,3) c(2) by (auto simp: not_held_by_def)
qed

lemma takeover_success:
  assumes "git_documented g refs objs" and "takeover g opts now s issue = (s', Inr h)"
  shows "refs s (leaseRefName issue) = None \<and> generation h = 1 \<and>
       refs s' = (refs s)(leaseRefName issue \<mapsto> objectId h) \<or>
     (\<exists>oid r. refs s (leaseRefName issue) = Some oid \<and> objs s oid = Some r \<and> isStale opts now r \<and>
        generation h = generation r + 1 \<and> priorStateId h = priorStateId r \<and>
        priorAssigneeId h = priorAssigneeId r \<and>
        refs s' = (refs s)(leaseRefName issue \<mapsto> objectId h))"
    (is "?fresh \<or> ?taken")
    and "lease_runId h = opt_runId opts \<and> objs s' (objectId h) = Some (lease_record.truncate h)"
proof -
  obtain x where x: "read_lease g s issue = Inr x"
    using assms(2) by (auto simp: takeover_def split: sum.splits)
  note rd = doc_read [OF assms(1) x]
  have both: "(?fresh \<or> ?taken) \<and> lease_runId h = opt_runId opts \<and>
      objs s' (objectId h) = Some (lease_record.truncate h)"
  proof (cases x)
    case None
    then have "acquire g opts now s issue (None, None) = (s', Inr h)"
      using assms(2) x by (simp add: takeover_def)
    from acquire_effect [OF assms(1) this] show ?thesis using rd None by auto
  next
    case (Some c)
    then obtain oid r where r: "refs s (leaseRefName issue) = Some oid" "objs s oid = Some r"
      "c = handle issue r oid"
      using rd by auto
    let ?n = "buildRecord opts now issue (generation r + 1) (priorStateId r, priorAssigneeId r) None"
    have st: "isStale opts now r"
      using assms(2) x Some r(3) by (auto simp: takeover_def isStale_def split: if_splits)
    then have "compareAndSwap g s c ?n = (s', Inr h)"
      using assms(2) x Some r(3) by (auto simp: takeover_def isStale_def)
    from cas_effect [OF assms(1) this] show ?thesis using r st by auto
  qed
  then show "?fresh \<or> ?taken" by blast
  from both show "lease_runId h = opt_runId opts \<and> objs s' (objectId h) = Some (lease_record.truncate h)" by blast
qed

section \<open>A concrete server\<close>

text \<open>Refs and a list of objects; an object's name is its position, in unary.\<close>

type_synonym demo_server = "(string \<Rightarrow> string option) \<times> lease_record list"

definition demo_name :: "nat \<Rightarrow> string" where "demo_name n = replicate n (CHR ''x'')"

definition demo_refs :: "demo_server \<Rightarrow> string \<Rightarrow> string option" where "demo_refs = fst"

definition demo_objs :: "demo_server \<Rightarrow> string \<Rightarrow> lease_record option" where
  "demo_objs s oid = (if length oid < length (snd s) \<and> oid = demo_name (length oid)
     then Some (snd s ! length oid) else None)"

definition demo_git :: "demo_server git_commands" where
  "demo_git = \<lparr>
     commit_tree = (\<lambda>s r. ((fst s, snd s @ [r]), demo_name (length (snd s)))),
     ls_remote = (\<lambda>s ref. Inr (fst s ref)),
     fetch_record = (\<lambda>s oid. case demo_objs s oid of None \<Rightarrow> Inl () | Some r \<Rightarrow> Inr r),
     push_new = (\<lambda>s ref oid. if fst s ref \<in> {None, Some oid} then (((fst s)(ref \<mapsto> oid), snd s), True) else (s, False)),
     push_lease = (\<lambda>s ref old new. if fst s ref = Some old then (((fst s)(ref := new), snd s), True) else (s, False))\<rparr>"

lemma demo_documented: "git_documented demo_git demo_refs demo_objs"
proof -
  have "demo_objs (rs, l @ [r]) = (demo_objs (rs, l))(demo_name (length l) \<mapsto> r)" for rs l r
    by (rule ext) (auto simp: demo_objs_def demo_name_def nth_append less_Suc_eq)
  moreover have "demo_objs (rs, l) (demo_name (length l)) = None" for rs l
    by (simp add: demo_objs_def demo_name_def)
  moreover have "demo_objs (rs, l) = demo_objs (rs', l)" for rs rs' l
    by (simp add: demo_objs_def fun_eq_iff)
  ultimately show ?thesis
    by (auto simp: git_documented_def demo_git_def demo_refs_def Let_def split: option.splits if_splits)
qed

definition demo_options :: "string \<Rightarrow> lease_options" where
  "demo_options r = \<lparr>opt_runId = r, opt_remote = None, ttlMinutes = 1, opt_hostId = ''h'', opt_pid = 1,
     opt_bootId = None, takeoverGraceMinutes = Some 1\<rparr>"

definition demo_start :: demo_server where "demo_start = (\<lambda>_. None, [])"

section \<open>Properties\<close>

text \<open>acquiring is mutual exclusion: a claim succeeds only when the issue had no lease, or held the
  very record that this worker is pushing; so no other run's lease is ever replaced, and afterwards
  the ref is this worker's record of generation 1.\<close>

theorem acquire_is_exclusive:
  assumes "git_documented g refs objs" and "acquire g opts now s issue extra = (s', Inr h)"
  shows "(refs s (leaseRefName issue) = None \<or>
      (\<exists>oid r. refs s (leaseRefName issue) = Some oid \<and> objs s' oid = Some r \<and> lease_runId r = opt_runId opts)) \<and>
     refs s' = (refs s)(leaseRefName issue \<mapsto> objectId h) \<and>
     objs s' (objectId h) = Some (lease_record.truncate h) \<and>
     lease_runId h = opt_runId opts \<and> generation h = 1"
  using acquire_effect [OF assms] by auto

theorem acquire_is_exclusive_witness:
  "\<exists>s' h. acquire demo_git (demo_options ''r1'') 0 demo_start ''ENG-1'' (None, None) = (s', Inr h) \<and>
     demo_refs s' (leaseRefName ''ENG-1'') = Some (objectId h) \<and> generation h = 1"
proof -
  obtain s' h where a: "acquire demo_git (demo_options ''r1'') 0 demo_start ''ENG-1'' (None, None) = (s', Inr h)"
    by (simp add: acquire_def demo_git_def demo_start_def Let_def)
  show ?thesis
    using a acquire_is_exclusive [OF demo_documented a] by (intro exI [of _ s'] exI [of _ h]) simp
qed

text \<open>a lease is taken over only when it is absent or stale, that is when the clock has passed
  its expiry by more than the grace period; the new record has the next generation and carries the
  restoration targets forward, and every handle of the replaced lease is fenced out.\<close>

theorem takeover_only_stale:
  assumes "git_documented g refs objs" and "takeover g opts now s issue = (s', Inr h)"
    and "refs s (leaseRefName issue) = Some oid" and "objs s oid = Some r"
    and "issueId old = issue" and "generation old = generation r"
  shows "of_int now > (of_int (expiresAt r) +
       (case takeoverGraceMinutes opts of None \<Rightarrow> 10 | Some m \<Rightarrow> m) * 60000 :: rat) \<and>
     generation h = generation r + 1 \<and>
     priorStateId h = priorStateId r \<and> priorAssigneeId h = priorAssigneeId r \<and>
     assertHeld g s' old \<noteq> Inr ()"
proof -
  have t: "isStale opts now r" "generation h = generation r + 1" "priorStateId h = priorStateId r"
    "priorAssigneeId h = priorAssigneeId r" "refs s' = (refs s)(leaseRefName issue \<mapsto> objectId h)"
    using takeover_success(1) [OF assms(1,2)] assms(3,4) by auto
  have "assertHeld g s' old \<noteq> Inr ()"
  proof
    assume "assertHeld g s' old = Inr ()"
    then obtain c where c: "read_lease g s' issue = Inr (Some c)" "generation c = generation old"
      using assms(5) by (auto simp: assertHeld_def and_then_Inr_iff split: option.splits if_splits)
    from doc_read [OF assms(1) c(1)] have "generation c = generation h"
      using t(5) takeover_success(2) [OF assms(1,2)] by (auto simp: lease_record.defs)
    then show False using c(2) assms(6) t(2) by simp
  qed
  with t show ?thesis by (simp add: isStale_def)
qed

theorem takeover_only_stale_witness:
  "\<exists>h. generation h = 2 \<and> snd (takeover demo_git (demo_options ''r2'') 120001
     (fst (acquire demo_git (demo_options ''r1'') 0 demo_start ''ENG-1'' (None, None))) ''ENG-1'') = Inr h"
proof -
  define r where "r = buildRecord (demo_options ''r1'') 0 ''ENG-1'' 1 (None, None) None"
  define s where "s = fst (acquire demo_git (demo_options ''r1'') 0 demo_start ''ENG-1'' (None, None))"
  define old where "old = handle ''ENG-1'' r []"
  have s: "s = ((\<lambda>_. None)(leaseRefName ''ENG-1'' \<mapsto> []), [r])"
    by (simp add: s_def r_def acquire_def demo_git_def demo_start_def demo_name_def Let_def)
  have "takeoverGraceMinutes (demo_options ''r2'') = Some 1" "expiresAt r = 60000"
    by (simp_all add: r_def demo_options_def buildRecord_def)
  then have "isStale (demo_options ''r2'') 120001 (handle ''ENG-1'' r [])" by (simp add: isStale_def)
  then obtain s' h where t: "takeover demo_git (demo_options ''r2'') 120001 s ''ENG-1'' = (s', Inr h)"
    unfolding s
    by (simp add: takeover_def read_lease_def compareAndSwap_def demo_git_def demo_objs_def demo_name_def Let_def)
  have 1: "demo_refs s (leaseRefName ''ENG-1'') = Some []" and 2: "demo_objs s [] = Some r"
    unfolding s by (simp_all add: demo_refs_def demo_objs_def demo_name_def)
  have 3: "issueId old = ''ENG-1''" "generation old = generation r"
    by (simp_all add: old_def r_def)
  have "generation h = generation r + 1"
    using takeover_only_stale [where g = demo_git and refs = demo_refs and objs = demo_objs, OF demo_documented t 1 2 3]
    by (elim conjE)
  then have "generation h = 2" by (simp add: r_def)
  then show ?thesis using t unfolding s_def [symmetric] by (intro exI [of _ h]) simp
qed

text \<open>C10: a run that lost its lease is fenced out for good: after another run has taken the lease
  over, no interleaving of claims, renewals, takeovers and releases by any workers makes the old
  run's fence pass again, unless that run itself claims the issue again.\<close>

theorem fenced_out_for_good:
  assumes "git_documented g refs objs" and "takeover g opts now s issue = (s1, Inr h)"
    and "opt_runId opts \<noteq> r" and "steps (lease_step g refs objs issue r) s1 ops s2"
    and "lease_runId old = r" and "issueId old = issue"
  shows "assertHeld g s2 old \<noteq> Inr ()"
proof -
  have "refs s1 (leaseRefName issue) = Some (objectId h)"
    using takeover_success(1) [OF assms(1,2)] by auto
  moreover have "objs s1 (objectId h) = Some (lease_record.truncate h)" "lease_runId h = opt_runId opts"
    using takeover_success(2) [OF assms(1,2)] by simp_all
  ultimately have "not_held_by refs objs issue r s1"
    using assms(3) by (simp add: not_held_by_def lease_record.defs)
  then have "not_held_by refs objs issue r s2"
    using fence.steps_inv [OF assms(4)] by simp
  then show ?thesis using not_held_fails [OF assms(1) _ assms(5,6)] by blast
qed

theorem fenced_out_for_good_witness:
  "assertHeld demo_git
     (fst (takeover demo_git (demo_options ''r2'') 0 demo_start ''ENG-1''))
     (handle ''ENG-1'' (buildRecord (demo_options ''r1'') 0 ''ENG-1'' 1 (None, None) None) []) \<noteq> Inr ()"
proof -
  define old where "old = handle ''ENG-1'' (buildRecord (demo_options ''r1'') 0 ''ENG-1'' 1 (None, None) None) []"
  obtain s1 h where t: "takeover demo_git (demo_options ''r2'') 0 demo_start ''ENG-1'' = (s1, Inr h)"
    by (simp add: takeover_def read_lease_def acquire_def demo_git_def demo_start_def Let_def)
  have r: "opt_runId (demo_options ''r2'') \<noteq> ''r1''" by (simp add: demo_options_def)
  have o: "lease_runId old = ''r1''" "issueId old = ''ENG-1''" by (simp_all add: old_def demo_options_def)
  have "assertHeld demo_git s1 old \<noteq> Inr ()"
    by (rule fenced_out_for_good [where g = demo_git and refs = demo_refs and objs = demo_objs,
        OF demo_documented t r steps_refl o])
  then show ?thesis unfolding t old_def by simp
qed

end
