(* ===== verification/Review.thy ===== *)
theory Review
  imports Prelude
begin

text \<open>
  Reviews of a candidate (\<open>src/src/review/schema.ts\<close>): the parsed review, which findings block,
  the glob dialect of the risk paths, and the deterministic cross-check of the verdict. A
  compiled risk rule is the list of its atoms and \<open>risk_re_match\<close> is the meaning of the regular
  expression between \<open>^\<close> and \<open>$\<close> without flags, where the dot stands for any code unit but the
  line terminators. Texts of reasons are constructors that carry the interpolated values.
\<close>

section \<open>Data\<close>

datatype severity = Critical | High | Medium | Low

datatype finding_category =
  Correctness | Security | Scope | Maintainability | Testing | Documentation

record finding_evidence =
  fe_path :: string
  fe_start_line :: nat
  fe_end_line :: nat

record finding =
  fi_id :: string
  fi_severity :: severity
  fi_category :: finding_category
  fi_title :: string
  fi_evidence :: finding_evidence
  fi_claim :: string
  fi_required_resolution :: string
  fi_confidence :: rat

datatype verdict = Approved | ChangesRequired | NoFindings

datatype scope_assessment = WithinScope | OutOfScope | Unclear

record criterion_entry =
  ce_criterion :: string
  ce_met :: bool

record review =
  rv_verdict :: verdict
  rv_scope :: scope_assessment
  rv_criteria :: "criterion_entry list"
  rv_findings :: "finding list"

fun severity_name :: "severity \<Rightarrow> string" where
  "severity_name Critical = ''critical''"
| "severity_name High = ''high''"
| "severity_name Medium = ''medium''"
| "severity_name Low = ''low''"

definition blockingFindings :: "review \<Rightarrow> string list \<Rightarrow> bool \<Rightarrow> finding list" where
  "blockingFindings rv blockingSeverities requireAll =
     (if requireAll \<or> rv_verdict rv = ChangesRequired then rv_findings rv
      else filter (\<lambda>f. severity_name (fi_severity f) \<in> set blockingSeverities) (rv_findings rv))"

section \<open>Risk path rules\<close>

definition to_slashes :: "string \<Rightarrow> string" where
  "to_slashes s = map (\<lambda>c. if c = CHR 0x5C then CHR ''/'' else c) s"

definition normalizeRiskPath :: "string \<Rightarrow> string" where
  "normalizeRiskPath value =
     (let v = to_slashes value;
          w = (if js_starts_with ''./'' v then drop 2 v else v)
      in dropWhile (\<lambda>c. c = CHR ''/'') w)"

definition validRiskPathRule :: "string \<Rightarrow> bool" where
  "validRiskPathRule rule =
     (let trimmed = to_slashes (js_trim rule);
          normalized = normalizeRiskPath trimmed
      in if normalized = '''' \<or> CHR 0x00 \<in> set normalized \<or>
            CHR 0x0A \<in> set normalized \<or> CHR 0x0D \<in> set normalized \<or>
            js_starts_with ''/'' trimmed \<or> drive_prefix trimmed
         then False
         else let segs = js_split (CHR ''/'') normalized
              in if ''.'' \<in> set segs \<or> ''..'' \<in> set segs then False
                 else if '''' \<in> set (butlast segs) then False
                 else \<not> list_ex (\<lambda>c. c \<in> set ''[]{}!'') normalized)"

datatype risk_atom =
  DirsOpt          \<comment> \<open>\<open>(?:.*/)?\<close>\<close>
| DotRun           \<comment> \<open>\<open>.*\<close>\<close>
| NoSlashRun       \<comment> \<open>\<open>[^/]*\<close>\<close>
| NoSlash          \<comment> \<open>\<open>[^/]\<close>\<close>
| Lit char

text \<open>One step of the loop of \<open>riskPathExpression\<close> per equation, looking ahead as the source does.\<close>

fun risk_atoms :: "string \<Rightarrow> risk_atom list" where
  "risk_atoms [] = []"
| "risk_atoms (c # cs) =
     (if c = CHR ''*'' then
        (case cs of
           d # ds \<Rightarrow>
             if d = CHR ''*'' then
               (case ds of
                  e # es \<Rightarrow> if e = CHR ''/'' then DirsOpt # risk_atoms es else DotRun # risk_atoms ds
                | [] \<Rightarrow> [DotRun])
             else NoSlashRun # risk_atoms cs
         | [] \<Rightarrow> [NoSlashRun])
      else if c = CHR ''?'' then NoSlash # risk_atoms cs
      else Lit c # risk_atoms cs)"

definition riskPathExpression :: "string \<Rightarrow> risk_atom list" where
  "riskPathExpression rule = risk_atoms (normalizeRiskPath (js_trim rule))"

definition dot_char :: "char \<Rightarrow> bool" where
  "dot_char c \<longleftrightarrow> c \<noteq> CHR 0x0A \<and> c \<noteq> CHR 0x0D"

fun risk_re_match :: "risk_atom list \<Rightarrow> string \<Rightarrow> bool" where
  "risk_re_match [] s = (s = [])"
| "risk_re_match (DirsOpt # as) s =
     (risk_re_match as s \<or>
      list_ex (\<lambda>n. list_all dot_char (take n s) \<and> s ! n = CHR ''/'' \<and> risk_re_match as (drop (Suc n) s))
        [0 ..< length s])"
| "risk_re_match (DotRun # as) s =
     list_ex (\<lambda>n. list_all dot_char (take n s) \<and> risk_re_match as (drop n s)) [0 ..< Suc (length s)]"
| "risk_re_match (NoSlashRun # as) s =
     list_ex (\<lambda>n. list_all (\<lambda>c. c \<noteq> CHR ''/'') (take n s) \<and> risk_re_match as (drop n s))
       [0 ..< Suc (length s)]"
| "risk_re_match (NoSlash # as) s =
     (case s of [] \<Rightarrow> False | c # cs \<Rightarrow> c \<noteq> CHR ''/'' \<and> risk_re_match as cs)"
| "risk_re_match (Lit l # as) s =
     (case s of [] \<Rightarrow> False | c # cs \<Rightarrow> c = l \<and> risk_re_match as cs)"

text \<open>\<open>undefined\<close> is \<open>None\<close>. The replacement of \<open>/\/+$/\<close> drops trailing slashes.\<close>

definition matchesRiskPath :: "string \<Rightarrow> string \<Rightarrow> bool option" where
  "matchesRiskPath path rule =
     (if \<not> validRiskPathRule rule then None
      else let normalizedPath = normalizeRiskPath path;
               normalizedRule = normalizeRiskPath (js_trim rule)
           in if \<not> list_ex (\<lambda>c. c = CHR ''?'' \<or> c = CHR ''*'') normalizedRule
              then let prefix = rev (dropWhile (\<lambda>c. c = CHR ''/'') (rev normalizedRule))
                   in Some (normalizedPath = prefix \<or> js_starts_with (prefix @ ''/'') normalizedPath)
              else Some (risk_re_match (riskPathExpression normalizedRule) normalizedPath))"

section \<open>The cross-check\<close>

datatype withhold_reason =
  FindingsDespiteNoFindings
| ChangesWithoutFinding
| ApprovedOutOfScope
| ScopeNotEstablished
| InvalidRiskRule string
| NoFindingsOnRiskPaths
| MissingCriterionEvidence "string list"

text \<open>The map \<open>evidenceByCriterion\<close> as the loop builds it.\<close>

fun evidence_by_criterion ::
  "(string \<rightharpoonup> bool list) \<Rightarrow> criterion_entry list \<Rightarrow> (string \<rightharpoonup> bool list)" where
  "evidence_by_criterion m [] = m"
| "evidence_by_criterion m (e # es) =
     evidence_by_criterion
       (m(ce_criterion e \<mapsto> (case m (ce_criterion e) of None \<Rightarrow> [] | Some bs \<Rightarrow> bs) @ [ce_met e])) es"

definition incomplete_criteria :: "review \<Rightarrow> string list \<Rightarrow> string list" where
  "incomplete_criteria rv acceptanceCriteria =
     (let m = evidence_by_criterion (\<lambda>_. None) (rv_criteria rv)
      in filter (\<lambda>c. case m c of None \<Rightarrow> True | Some bs \<Rightarrow> length bs \<noteq> 1 \<or> hd bs \<noteq> True)
           acceptanceCriteria)"

definition touchesRisk :: "string list \<Rightarrow> string list \<Rightarrow> bool" where
  "touchesRisk changedPaths riskPaths =
     list_ex (\<lambda>p. list_ex (\<lambda>r. matchesRiskPath p r = Some True) riskPaths) changedPaths"

definition crossCheckVerdict ::
  "review \<Rightarrow> string list \<Rightarrow> string list \<Rightarrow> string list \<Rightarrow> withhold_reason + unit" where
  "crossCheckVerdict rv changedPaths riskPaths acceptanceCriteria =
     (if rv_verdict rv = NoFindings \<and> length (rv_findings rv) > 0 then Inl FindingsDespiteNoFindings
      else if rv_verdict rv = ChangesRequired \<and> length (rv_findings rv) = 0 then Inl ChangesWithoutFinding
      else if rv_verdict rv \<noteq> ChangesRequired \<and> rv_scope rv \<noteq> WithinScope
      then Inl (if rv_scope rv = OutOfScope then ApprovedOutOfScope else ScopeNotEstablished)
      else case List.find (\<lambda>r. matchesRiskPath '''' r = None) riskPaths of
             Some r \<Rightarrow> Inl (InvalidRiskRule r)
           | None \<Rightarrow>
               (if rv_verdict rv = NoFindings \<and> touchesRisk changedPaths riskPaths
                then Inl NoFindingsOnRiskPaths
                else let incomplete = incomplete_criteria rv acceptanceCriteria
                     in if length incomplete > 0 \<and>
                           (rv_verdict rv = Approved \<or> rv_verdict rv = NoFindings)
                        then Inl (MissingCriterionEvidence incomplete)
                        else Inr ()))"

section \<open>Lemmas: rules\<close>

definition wild_free :: "string \<Rightarrow> bool" where
  "wild_free s \<longleftrightarrow> \<not> list_ex (\<lambda>c. c = CHR ''?'' \<or> c = CHR ''*'') s"

definition strip_trailing_slashes :: "string \<Rightarrow> string" where
  "strip_trailing_slashes s = rev (dropWhile (\<lambda>c. c = CHR ''/'') (rev s))"

lemma js_split_append: "js_split sep (p @ sep # t) = js_split sep p @ js_split sep t"
  by (induction p) (auto split: list.splits)

lemma js_join_append:
  "ws \<noteq> [] \<Longrightarrow> vs \<noteq> [] \<Longrightarrow> js_join sep (ws @ vs) = js_join sep ws @ sep @ js_join sep vs"
proof (induction ws rule: induct_list012)
  case (2 w)
  then show ?case by (cases vs) simp_all
qed simp_all

lemma under_prefix_iff:
  "s = p \<or> js_starts_with (p @ ''/'') s \<longleftrightarrow>
     (\<exists>rest. js_split (CHR ''/'') s = js_split (CHR ''/'') p @ rest)"
proof
  assume "s = p \<or> js_starts_with (p @ ''/'') s"
  then show "\<exists>rest. js_split (CHR ''/'') s = js_split (CHR ''/'') p @ rest"
    by (auto simp: js_starts_with_iff js_split_append)
next
  assume "\<exists>rest. js_split (CHR ''/'') s = js_split (CHR ''/'') p @ rest"
  then obtain rest where rest: "js_split (CHR ''/'') s = js_split (CHR ''/'') p @ rest" ..
  show "s = p \<or> js_starts_with (p @ ''/'') s"
  proof (cases "rest = []")
    case True
    with rest show ?thesis by (simp add: js_split_inj)
  next
    case False
    have "s = js_join ''/'' (js_split (CHR ''/'') p @ rest)"
      using js_join_split [of "CHR ''/''" s] rest by simp
    also have "\<dots> = p @ ''/'' @ js_join ''/'' rest"
      using False by (simp add: js_join_append js_join_split)
    finally show ?thesis by (auto simp: js_starts_with_iff)
  qed
qed

lemma js_trim_id:
  "s \<noteq> [] \<Longrightarrow> \<not> js_space (hd s) \<Longrightarrow> \<not> js_space (last s) \<Longrightarrow> js_trim s = s"
proof -
  assume s: "s \<noteq> []" "\<not> js_space (hd s)" "\<not> js_space (last s)"
  then have "dropWhile js_space s = s" by (cases s) auto
  moreover have "dropWhile js_space (rev s) = rev s"
    using s by (cases s rule: rev_cases) auto
  ultimately show ?thesis by (simp add: js_trim_def js_trim_start_def)
qed

lemma to_slashes_id: "CHR 0x5C \<notin> set s \<Longrightarrow> to_slashes s = s"
  unfolding to_slashes_def by (induction s) auto

lemma normalizeRiskPath_id:
  "CHR 0x5C \<notin> set s \<Longrightarrow> \<not> js_starts_with ''/'' s \<Longrightarrow> \<not> js_starts_with ''./'' s \<Longrightarrow>
     normalizeRiskPath s = s"
  by (cases s) (auto simp: normalizeRiskPath_def to_slashes_id Let_def)

lemma risk_atoms_lits: "wild_free d \<Longrightarrow> risk_atoms (d @ s) = map Lit d @ risk_atoms s"
  by (induction d) (auto simp: wild_free_def)

lemma risk_re_match_lits:
  "risk_re_match (map Lit d @ as) s \<longleftrightarrow> (\<exists>t. s = d @ t \<and> risk_re_match as t)"
  by (induction d arbitrary: s) (auto split: list.splits)

lemma risk_re_match_DotRun_end: "risk_re_match [DotRun] s \<longleftrightarrow> list_all dot_char s"
proof
  assume "risk_re_match [DotRun] s"
  then obtain n where "list_all dot_char (take n s)" "drop n s = []"
    by (auto simp: list_ex_iff)
  then show "list_all dot_char s" by simp
next
  assume "list_all dot_char s"
  then show "risk_re_match [DotRun] s"
    by (auto simp: list_ex_iff intro!: bexI [where x = "length s"])
qed

lemma valid_rule_start:
  assumes "validRiskPathRule rule" "js_trim rule = rule" "CHR 0x5C \<notin> set rule"
  shows "\<not> js_starts_with ''/'' rule" "js_starts_with ''./'' rule \<Longrightarrow> normalizeRiskPath rule \<noteq> rule"
  using assms
  by (auto simp: validRiskPathRule_def Let_def to_slashes_id normalizeRiskPath_def js_starts_with_iff
      dest: arg_cong [where f = length] split: if_splits)
lemma matches_None_iff [simp]: "matchesRiskPath p r = None \<longleftrightarrow> \<not> validRiskPathRule r"
  by (simp add: matchesRiskPath_def Let_def)

text \<open>A valid risk rule without wildcards matches exactly the file or directory it names and what
  lies below it: the path's segments start with the rule's segments, so \<open>src/key\<close> does not match
  \<open>src/keys.ts\<close>.\<close>

theorem literal_rule_is_segment_prefix:
  assumes "validRiskPathRule rule" "wild_free (normalizeRiskPath (js_trim rule))"
  shows "matchesRiskPath path rule =
    Some (\<exists>rest. js_split (CHR ''/'') (normalizeRiskPath path) =
      js_split (CHR ''/'') (strip_trailing_slashes (normalizeRiskPath (js_trim rule))) @ rest)"
  using assms
  by (simp add: matchesRiskPath_def Let_def wild_free_def strip_trailing_slashes_def
      under_prefix_iff [symmetric])

theorem literal_rule_is_segment_prefix_witness:
  "matchesRiskPath ''src/keys.ts'' ''src/key/'' = Some False \<and>
   matchesRiskPath ''./src/key/a'' ''src/key/'' =
     Some (\<exists>rest. js_split (CHR ''/'') (normalizeRiskPath ''./src/key/a'') =
       js_split (CHR ''/'') (strip_trailing_slashes (normalizeRiskPath (js_trim ''src/key/''))) @ rest)"
proof (intro conjI)
  show "matchesRiskPath ''src/keys.ts'' ''src/key/'' = Some False" by code_simp
  have "validRiskPathRule ''src/key/''" "wild_free (normalizeRiskPath (js_trim ''src/key/''))"
    by code_simp+
  then show "matchesRiskPath ''./src/key/a'' ''src/key/'' =
     Some (\<exists>rest. js_split (CHR ''/'') (normalizeRiskPath ''./src/key/a'') =
       js_split (CHR ''/'') (strip_trailing_slashes (normalizeRiskPath (js_trim ''src/key/''))) @ rest)"
    by (rule literal_rule_is_segment_prefix)
qed

text \<open>The rule \<open>dir/**\<close>: everything below the directory whose remaining path has no line break.\<close>

lemma subtree_rule_matches:
  assumes valid: "validRiskPathRule (d @ ''/**'')"
    and d: "wild_free d" "CHR 0x5C \<notin> set d" "d \<noteq> []" "\<not> js_space (hd d)" "\<not> js_starts_with ''./'' (d @ ''/'')"
  shows "matchesRiskPath path (d @ ''/**'') =
    Some (\<exists>x. normalizeRiskPath path = d @ ''/'' @ x \<and> list_all dot_char x)"
proof -
  have trim: "js_trim (d @ ''/**'') = d @ ''/**''"
    using d by (intro js_trim_id) (auto simp: js_space_def)
  have noback: "CHR 0x5C \<notin> set (d @ ''/**'')" using d by simp
  have "\<not> js_starts_with ''./'' (d @ ''/**'')"
    using d by (cases d; cases "tl d") auto
  then have norm: "normalizeRiskPath (d @ ''/**'') = d @ ''/**''"
    using valid_rule_start(1) [OF valid trim noback] noback by (intro normalizeRiskPath_id)
  have atoms: "riskPathExpression (d @ ''/**'') = map Lit d @ [Lit CHR ''/'', DotRun]"
    using d by (simp add: riskPathExpression_def trim norm risk_atoms_lits)
  have "risk_re_match (map Lit d @ [Lit CHR ''/'', DotRun]) s \<longleftrightarrow>
      (\<exists>x. s = d @ ''/'' @ x \<and> list_all dot_char x)" for s
    using risk_re_match_lits [of "d @ ''/''" "[DotRun]" s] by (simp add: risk_re_match_DotRun_end del: risk_re_match.simps)
  then show ?thesis
    using valid d by (simp add: matchesRiskPath_def Let_def trim norm atoms wild_free_def)
qed

lemma subtree_rule_misses_line_breaks:
  assumes "validRiskPathRule (d @ ''/**'')" "wild_free d" "CHR 0x5C \<notin> set d" "d \<noteq> []"
    "\<not> js_space (hd d)" "\<not> js_starts_with ''./'' (d @ ''/'')" "normalizeRiskPath path = d @ ''/'' @ x"
  shows "matchesRiskPath path (d @ ''/**'') = Some (CHR 0x0A \<notin> set x \<and> CHR 0x0D \<notin> set x)"
  using assms by (auto simp: subtree_rule_matches list_all_iff dot_char_def)

section \<open>Lemmas: the cross-check\<close>

lemma evidence_by_criterion_filter:
  "evidence_by_criterion m es c =
     (case filter (\<lambda>e. ce_criterion e = c) es of
        [] \<Rightarrow> m c
      | fs \<Rightarrow> Some ((case m c of None \<Rightarrow> [] | Some bs \<Rightarrow> bs) @ map ce_met fs))"
  by (induction es arbitrary: m) (auto split: list.splits option.splits)

definition criterion_proved :: "review \<Rightarrow> string \<Rightarrow> bool" where
  "criterion_proved rv c \<longleftrightarrow> (\<exists>e. filter (\<lambda>e. ce_criterion e = c) (rv_criteria rv) = [e] \<and> ce_met e)"

lemma incomplete_criteria_eq:
  "incomplete_criteria rv cs = filter (\<lambda>c. \<not> criterion_proved rv c) cs"
proof -
  have "(case evidence_by_criterion (\<lambda>_. None) (rv_criteria rv) c of
          None \<Rightarrow> True | Some bs \<Rightarrow> length bs \<noteq> 1 \<or> hd bs \<noteq> True) \<longleftrightarrow> \<not> criterion_proved rv c" for c
    unfolding evidence_by_criterion_filter criterion_proved_def
    by (auto split: list.splits)
  then show ?thesis by (simp add: incomplete_criteria_def)
qed

lemma touchesRisk_iff:
  "touchesRisk P R \<longleftrightarrow> (\<exists>p \<in> set P. \<exists>r \<in> set R. matchesRiskPath p r = Some True)"
  by (auto simp: touchesRisk_def list_ex_iff)

lemma touchesRisk_mono: "touchesRisk P R \<Longrightarrow> set P \<subseteq> set P' \<Longrightarrow> set R \<subseteq> set R' \<Longrightarrow> touchesRisk P' R'"
  by (auto simp: touchesRisk_iff)

lemma crossCheck_Inr_iff:
  "crossCheckVerdict rv P R C = Inr () \<longleftrightarrow>
     (rv_verdict rv = NoFindings \<longrightarrow> rv_findings rv = [] \<and> \<not> touchesRisk P R) \<and>
     (rv_verdict rv = ChangesRequired \<longrightarrow> rv_findings rv \<noteq> []) \<and>
     (rv_verdict rv \<noteq> ChangesRequired \<longrightarrow>
        rv_scope rv = WithinScope \<and> (\<forall>c \<in> set C. criterion_proved rv c)) \<and>
     (\<forall>r \<in> set R. validRiskPathRule r)"
  by (cases "rv_verdict rv")
    (auto simp: crossCheckVerdict_def Let_def incomplete_criteria_eq filter_empty_conv find_None_iff
      find_Some_iff split: option.splits)

text \<open>C24: The cross-check lets a passing verdict through only when the reviewer stayed consistent: the
  scope is established, every acceptance criterion has exactly one evidence entry and that entry is
  positive, all risk rules are legible, and a review without findings carries none and does not
  concern a risk path. A review that requires changes passes exactly with a finding to act on.\<close>

theorem cross_check_accepts_exactly:
  assumes "rv_verdict rv \<noteq> ChangesRequired"
  shows "crossCheckVerdict rv changedPaths riskPaths criteria = Inr () \<longleftrightarrow>
    rv_scope rv = WithinScope \<and>
    (\<forall>c \<in> set criteria. \<exists>e. filter (\<lambda>e. ce_criterion e = c) (rv_criteria rv) = [e] \<and> ce_met e) \<and>
    (\<forall>r \<in> set riskPaths. validRiskPathRule r) \<and>
    (rv_verdict rv = NoFindings \<longrightarrow>
       rv_findings rv = [] \<and>
       \<not> (\<exists>p \<in> set changedPaths. \<exists>r \<in> set riskPaths. matchesRiskPath p r = Some True))"
  using assms unfolding crossCheck_Inr_iff criterion_proved_def touchesRisk_iff by blast

definition sample_review :: review where
  "sample_review = \<lparr>rv_verdict = NoFindings, rv_scope = WithinScope,
     rv_criteria = [\<lparr>ce_criterion = ''a'', ce_met = True\<rparr>], rv_findings = []\<rparr>"

theorem cross_check_accepts_exactly_witness:
  "crossCheckVerdict sample_review [''src/a''] [''infra/**''] [''a''] = Inr () \<and>
   rv_scope sample_review = WithinScope \<and>
   crossCheckVerdict sample_review [''infra/a''] [''infra/**''] [''a''] = Inl NoFindingsOnRiskPaths \<and>
   crossCheckVerdict sample_review [''src/a''] [] [''a'', ''b''] = Inl (MissingCriterionEvidence [''b''])"
proof (intro conjI)
  show ok: "crossCheckVerdict sample_review [''src/a''] [''infra/**''] [''a''] = Inr ()" by code_simp
  have "rv_verdict sample_review \<noteq> ChangesRequired" by (simp add: sample_review_def)
  from cross_check_accepts_exactly [OF this, of "[''src/a'']" "[''infra/**'']" "[''a'']"] ok
  show "rv_scope sample_review = WithinScope" by blast
qed code_simp+

text \<open>The cross-check can only withhold: with more changed paths, more risk rules or more acceptance
  criteria, a review that was withheld stays withheld.\<close>

theorem cross_check_only_withholds:
  assumes "crossCheckVerdict rv P' R' C' = Inr ()"
    and "set P \<subseteq> set P'" "set R \<subseteq> set R'" "set C \<subseteq> set C'"
  shows "crossCheckVerdict rv P R C = Inr ()"
  using assms touchesRisk_mono [of P R P' R'] unfolding crossCheck_Inr_iff by blast

theorem cross_check_only_withholds_witness:
  "crossCheckVerdict sample_review [''src/a''] [] [] = Inr ()"
proof (rule cross_check_only_withholds [where P' = "[''src/a'', ''b'']" and R' = "[''infra/**'']" and C' = "[''a'']"])
  show "crossCheckVerdict sample_review [''src/a'', ''b''] [''infra/**''] [''a''] = Inr ()" by code_simp
qed auto

lemma changes_required_blocks_all:
  "rv_verdict rv = ChangesRequired \<Longrightarrow> blockingFindings rv sev req = rv_findings rv"
  by (simp add: blockingFindings_def)

end
