(* ===== verification/Merge_Risk.thy ===== *)
theory Merge_Risk
  imports Review
begin

text \<open>
  The deterministic risk gate of automatic merge (\<open>src/src/orchestrator/risk-policy.ts\<close>): the
  default tier, path rules, labels and conditions of the operator's policy against the evidence
  of a run. Texts of reasons are constructors that carry the interpolated values.
\<close>

section \<open>Data\<close>

record risk_config =
  rc_default :: string
  rc_paths :: "string list"
  rc_labels :: "string list"
  rc_conditions :: "string list"

record risk_evidence =
  changedPaths :: "string list"
  issueLabels :: "string list"
  acceptanceCriteria :: "string list"
  checkManifestPath :: string

datatype risk_reason =
  UnknownTier string
| TierNotLow string
| UnsupportedPathRule string
| PathMatchesRule string string
| EmptyLabel
| LabelMatches string
| ConditionMatched string risk_reason
| NoAcceptanceCriteria
| CheckManifestChanged string
| ManifestNotMatchable string
| LockfileChanged string
| NotProvablyAbsent string
| UnknownCondition string

datatype merge_risk_decision =
  Allow | ManualApproval "risk_reason list" | Unknown "risk_reason list"

definition RISK_TIERS :: "string list" where
  "RISK_TIERS = [''low'', ''medium'', ''high'', ''critical'']"

definition LOCKFILES :: "string list" where
  "LOCKFILES =
     [''Cargo.lock'', ''Gemfile.lock'', ''Package.resolved'', ''Pipfile.lock'', ''bun.lock'',
      ''bun.lockb'', ''composer.lock'', ''flake.lock'', ''go.sum'', ''npm-shrinkwrap.json'',
      ''package-lock.json'', ''pnpm-lock.yaml'', ''pnpm-lock.yml'', ''poetry.lock'',
      ''pubspec.lock'', ''uv.lock'', ''yarn.lock'']"

text \<open>The module repeats \<open>normalizeRiskPath\<close> of the review module word for word.\<close>

definition normalizePath :: "string \<Rightarrow> string" where
  "normalizePath value =
     (let v = to_slashes value;
          w = (if js_starts_with ''./'' v then drop 2 v else v)
      in dropWhile (\<lambda>c. c = CHR ''/'') w)"

definition is_lockfile :: "string \<Rightarrow> bool" where
  "is_lockfile path = (last (js_split (CHR ''/'') (normalizePath path)) \<in> set LOCKFILES)"

section \<open>Conditions\<close>

text \<open>The members \<open>matched\<close> and \<open>unknown\<close> of the result.\<close>

definition conditionResult :: "string \<Rightarrow> risk_evidence \<Rightarrow> risk_reason option \<times> risk_reason option" where
  "conditionResult condition ev =
     (if condition = ''missing_acceptance_criteria'' then
        (if \<not> list_ex (\<lambda>c. js_trim c \<noteq> '''') (acceptanceCriteria ev)
         then (Some NoAcceptanceCriteria, None) else (None, None))
      else if condition = ''check_config_changed'' then
        (if matchesRiskPath '''' (checkManifestPath ev) = None
         then (None, Some (ManifestNotMatchable (checkManifestPath ev)))
         else (case List.find (\<lambda>p. matchesRiskPath p (checkManifestPath ev) = Some True)
                      (changedPaths ev) of
                 None \<Rightarrow> (None, None)
               | Some changed \<Rightarrow> (Some (CheckManifestChanged changed), None)))
      else if condition = ''lockfile_changed'' then
        (case List.find is_lockfile (changedPaths ev) of
           None \<Rightarrow> (None, None)
         | Some changed \<Rightarrow> (Some (LockfileChanged changed), None))
      else if condition = ''public_api_change'' \<or> condition = ''permissions_change'' \<or>
              condition = ''secret_related_change''
      then (None, Some (NotProvablyAbsent condition))
      else (None, Some (UnknownCondition condition)))"

section \<open>The decision\<close>

text \<open>Both lists of reasons, manual first; each loop appends to them.\<close>

type_synonym reasons = "risk_reason list \<times> risk_reason list"

definition tier_reasons :: "string \<Rightarrow> reasons" where
  "tier_reasons tier =
     (if tier \<notin> set RISK_TIERS then ([], [UnknownTier tier])
      else if tier \<noteq> ''low'' then ([TierNotLow tier], [])
      else ([], []))"

fun path_reasons :: "string list \<Rightarrow> string list \<Rightarrow> reasons \<Rightarrow> reasons" where
  "path_reasons paths [] acc = acc"
| "path_reasons paths (rule # rules) (manual, unknown) =
     (if matchesRiskPath '''' rule = None
      then path_reasons paths rules (manual, unknown @ [UnsupportedPathRule rule])
      else case List.find (\<lambda>p. matchesRiskPath p rule = Some True) paths of
             None \<Rightarrow> path_reasons paths rules (manual, unknown)
           | Some p \<Rightarrow> path_reasons paths rules (manual @ [PathMatchesRule p rule], unknown))"

definition normalize_label :: "string \<Rightarrow> string" where
  "normalize_label label = js_to_lower (js_trim label)"

fun label_reasons :: "string set \<Rightarrow> string list \<Rightarrow> reasons \<Rightarrow> reasons" where
  "label_reasons issue_labels [] acc = acc"
| "label_reasons issue_labels (label # labels) (manual, unknown) =
     (let normalizedLabel = normalize_label label
      in if normalizedLabel = '''' then label_reasons issue_labels labels (manual, unknown @ [EmptyLabel])
         else if normalizedLabel \<in> issue_labels
         then label_reasons issue_labels labels (manual @ [LabelMatches label], unknown)
         else label_reasons issue_labels labels (manual, unknown))"

fun condition_reasons :: "risk_evidence \<Rightarrow> string list \<Rightarrow> reasons \<Rightarrow> reasons" where
  "condition_reasons ev [] acc = acc"
| "condition_reasons ev (condition # conditions) (manual, unknown) =
     (let (matched, unk) = conditionResult condition ev;
          manual' = (case matched of None \<Rightarrow> manual | Some r \<Rightarrow> manual @ [ConditionMatched condition r]);
          unknown' = (case unk of None \<Rightarrow> unknown | Some r \<Rightarrow> unknown @ [r])
      in condition_reasons ev conditions (manual', unknown'))"

definition evaluateAutomaticMergeRisk :: "risk_config \<Rightarrow> risk_evidence \<Rightarrow> merge_risk_decision" where
  "evaluateAutomaticMergeRisk risk ev =
     (let r0 = tier_reasons (rc_default risk);
          r1 = path_reasons (changedPaths ev) (rc_paths risk) r0;
          r2 = label_reasons (set (map normalize_label (issueLabels ev))) (rc_labels risk) r1;
          (manual, unknown) = condition_reasons ev (rc_conditions risk) r2
      in if length unknown > 0 then Unknown unknown
         else if length manual > 0 then ManualApproval manual
         else Allow)"

section \<open>Lemmas\<close>

lemma find_None_all: "List.find P xs = None \<longleftrightarrow> (\<forall>x \<in> set xs. \<not> P x)"
  by (auto simp: find_None_iff)

lemma normalizePath_eq: "normalizePath = normalizeRiskPath"
  by (rule ext) (simp add: normalizePath_def normalizeRiskPath_def)

definition rule_clear :: "string list \<Rightarrow> string \<Rightarrow> bool" where
  "rule_clear paths r \<longleftrightarrow>
     validRiskPathRule r \<and> (\<forall>p \<in> set paths. matchesRiskPath p r \<noteq> Some True)"

definition label_clear :: "string set \<Rightarrow> string \<Rightarrow> bool" where
  "label_clear issue_labels l \<longleftrightarrow> normalize_label l \<noteq> '''' \<and> normalize_label l \<notin> issue_labels"

definition condition_clear :: "risk_evidence \<Rightarrow> string \<Rightarrow> bool" where
  "condition_clear ev c \<longleftrightarrow>
     c = ''missing_acceptance_criteria'' \<and> (\<exists>a \<in> set (acceptanceCriteria ev). js_trim a \<noteq> '''') \<or>
     c = ''check_config_changed'' \<and> rule_clear (changedPaths ev) (checkManifestPath ev) \<or>
     c = ''lockfile_changed'' \<and> (\<forall>p \<in> set (changedPaths ev). \<not> is_lockfile p)"

lemma tier_reasons_none: "tier_reasons t = ([], []) \<longleftrightarrow> t = ''low''"
  by (auto simp: tier_reasons_def RISK_TIERS_def)

lemma path_reasons_none:
  "path_reasons P R acc = ([], []) \<longleftrightarrow> acc = ([], []) \<and> (\<forall>r \<in> set R. rule_clear P r)"
  by (induction P R acc rule: path_reasons.induct)
    (auto simp: rule_clear_def find_None_all find_Some_iff split: option.splits)

lemma label_reasons_none:
  "label_reasons I L acc = ([], []) \<longleftrightarrow> acc = ([], []) \<and> (\<forall>l \<in> set L. label_clear I l)"
  by (induction I L acc rule: label_reasons.induct) (auto simp: label_clear_def Let_def)

text \<open>The three decidable conditions have distinct names.\<close>

lemma condition_names_distinct:
  "''check_config_changed'' \<noteq> ''missing_acceptance_criteria''"
  "''lockfile_changed'' \<noteq> ''missing_acceptance_criteria''"
  "''lockfile_changed'' \<noteq> ''check_config_changed''"
  by simp_all

lemma conditionResult_missing:
  "conditionResult ''missing_acceptance_criteria'' ev = (None, None) \<longleftrightarrow>
     (\<exists>a \<in> set (acceptanceCriteria ev). js_trim a \<noteq> '''')"
  unfolding conditionResult_def if_P [OF refl] by (simp add: list_ex_iff)

lemma conditionResult_manifest:
  "conditionResult ''check_config_changed'' ev = (None, None) \<longleftrightarrow>
     rule_clear (changedPaths ev) (checkManifestPath ev)"
  unfolding conditionResult_def if_not_P [OF condition_names_distinct(1)] if_P [OF refl]
  by (auto simp: rule_clear_def find_None_all find_Some_iff split: option.splits)

lemma conditionResult_lockfile:
  "conditionResult ''lockfile_changed'' ev = (None, None) \<longleftrightarrow>
     (\<forall>p \<in> set (changedPaths ev). \<not> is_lockfile p)"
  unfolding conditionResult_def if_not_P [OF condition_names_distinct(2)]
    if_not_P [OF condition_names_distinct(3)] if_P [OF refl]
  by (auto simp: find_None_all find_Some_iff split: option.splits)

lemma conditionResult_other:
  assumes "c \<noteq> ''missing_acceptance_criteria''" "c \<noteq> ''check_config_changed''" "c \<noteq> ''lockfile_changed''"
  shows "conditionResult c ev \<noteq> (None, None)"
  unfolding conditionResult_def if_not_P [OF assms(1)] if_not_P [OF assms(2)] if_not_P [OF assms(3)]
  by (metis option.distinct(1) prod.inject)

lemma conditionResult_none: "conditionResult c ev = (None, None) \<longleftrightarrow> condition_clear ev c"
proof -
  consider "c = ''missing_acceptance_criteria''" | "c = ''check_config_changed''"
    | "c = ''lockfile_changed''"
    | "c \<noteq> ''missing_acceptance_criteria''" "c \<noteq> ''check_config_changed''" "c \<noteq> ''lockfile_changed''"
    by blast
  then show ?thesis
  proof cases
    case 1
    show ?thesis
      unfolding 1 conditionResult_missing condition_clear_def
      using condition_names_distinct by (metis (no_types))
  next
    case 2
    show ?thesis
      unfolding 2 conditionResult_manifest condition_clear_def
      using condition_names_distinct by (metis (no_types))
  next
    case 3
    show ?thesis
      unfolding 3 conditionResult_lockfile condition_clear_def
      using condition_names_distinct by (metis (no_types))
  next
    case 4
    then show ?thesis
      unfolding condition_clear_def using conditionResult_other [OF 4] by (metis (no_types))
  qed
qed

lemma condition_reasons_none:
  "condition_reasons ev C acc = ([], []) \<longleftrightarrow> acc = ([], []) \<and> (\<forall>c \<in> set C. condition_clear ev c)"
  by (induction ev C acc rule: condition_reasons.induct)
    (auto simp: conditionResult_none [symmetric] split: option.splits prod.splits)

lemma allow_iff:
  "evaluateAutomaticMergeRisk risk ev = Allow \<longleftrightarrow>
     rc_default risk = ''low'' \<and>
     (\<forall>r \<in> set (rc_paths risk). rule_clear (changedPaths ev) r) \<and>
     (\<forall>l \<in> set (rc_labels risk). label_clear (set (map normalize_label (issueLabels ev))) l) \<and>
     (\<forall>c \<in> set (rc_conditions risk). condition_clear ev c)"
proof -
  have "evaluateAutomaticMergeRisk risk ev = Allow \<longleftrightarrow>
      condition_reasons ev (rc_conditions risk)
        (label_reasons (set (map normalize_label (issueLabels ev))) (rc_labels risk)
          (path_reasons (changedPaths ev) (rc_paths risk) (tier_reasons (rc_default risk)))) = ([], [])"
    by (auto simp: evaluateAutomaticMergeRisk_def Let_def split: prod.splits)
  then show ?thesis
    by (simp add: condition_reasons_none label_reasons_none path_reasons_none tier_reasons_none)
qed

text \<open>C23: Automatic merge is allowed exactly when the policy's tier is low and every configured rule,
  label and condition is legible and provably does not apply: no changed path matches a path rule, no
  issue label matches after trimming and lower-casing, and each condition is one of the three
  decidable ones and is false of the evidence.\<close>

theorem merge_allowed_exactly:
  shows "evaluateAutomaticMergeRisk risk ev = Allow \<longleftrightarrow>
     rc_default risk = ''low'' \<and>
     (\<forall>r \<in> set (rc_paths risk).
        validRiskPathRule r \<and> (\<forall>p \<in> set (changedPaths ev). matchesRiskPath p r = Some False)) \<and>
     (\<forall>l \<in> set (rc_labels risk). js_to_lower (js_trim l) \<noteq> '''' \<and>
        (\<forall>i \<in> set (issueLabels ev). js_to_lower (js_trim i) \<noteq> js_to_lower (js_trim l))) \<and>
     (\<forall>c \<in> set (rc_conditions risk).
        c = ''missing_acceptance_criteria'' \<and> (\<exists>a \<in> set (acceptanceCriteria ev). js_trim a \<noteq> '''') \<or>
        c = ''check_config_changed'' \<and> validRiskPathRule (checkManifestPath ev) \<and>
          (\<forall>p \<in> set (changedPaths ev). matchesRiskPath p (checkManifestPath ev) = Some False) \<or>
        c = ''lockfile_changed'' \<and>
          (\<forall>p \<in> set (changedPaths ev).
             last (js_split (CHR ''/'') (normalizeRiskPath p)) \<notin> set LOCKFILES))"
proof -
  have not_true: "validRiskPathRule r \<Longrightarrow> matchesRiskPath p r \<noteq> Some True \<longleftrightarrow> matchesRiskPath p r = Some False"
    for p r using matches_None_iff [of p r] by (cases "matchesRiskPath p r") auto
  have clear: "rule_clear P r \<longleftrightarrow>
      validRiskPathRule r \<and> (\<forall>p \<in> set P. matchesRiskPath p r = Some False)" for P r
    using not_true by (auto simp: rule_clear_def)
  have label: "label_clear (set (map normalize_label is)) l \<longleftrightarrow> js_to_lower (js_trim l) \<noteq> '''' \<and>
      (\<forall>i \<in> set is. js_to_lower (js_trim i) \<noteq> js_to_lower (js_trim l))" for "is" l
    unfolding label_clear_def normalize_label_def by (simp add: image_iff) metis
  show ?thesis
    unfolding allow_iff clear label condition_clear_def is_lockfile_def normalizePath_eq by (rule refl)
qed

definition sample_risk :: risk_config where
  "sample_risk = \<lparr>rc_default = ''low'', rc_paths = [''infra/**''], rc_labels = ['' Security ''],
     rc_conditions = [''missing_acceptance_criteria'', ''lockfile_changed'']\<rparr>"

definition sample_evidence :: risk_evidence where
  "sample_evidence = \<lparr>changedPaths = [''src/a.ts''], issueLabels = [''bug''],
     acceptanceCriteria = [''works''], checkManifestPath = ''runmill.yaml''\<rparr>"

theorem merge_allowed_exactly_witness:
  "evaluateAutomaticMergeRisk sample_risk sample_evidence = Allow \<and>
   matchesRiskPath ''src/a.ts'' ''infra/**'' = Some False \<and>
   evaluateAutomaticMergeRisk sample_risk (sample_evidence\<lparr>changedPaths := [''a/yarn.lock'']\<rparr>) =
     ManualApproval [ConditionMatched ''lockfile_changed'' (LockfileChanged ''a/yarn.lock'')]"
proof (intro conjI)
  show allowed: "evaluateAutomaticMergeRisk sample_risk sample_evidence = Allow" by code_simp
  show "matchesRiskPath ''src/a.ts'' ''infra/**'' = Some False"
    using allowed unfolding merge_allowed_exactly by (simp add: sample_risk_def sample_evidence_def)
qed code_simp

text \<open>The risk gate only subtracts permission: with more path rules, labels or conditions in the
  policy and more changed paths or issue labels in the evidence, a refused merge stays refused.\<close>

theorem risk_gate_only_subtracts:
  assumes "evaluateAutomaticMergeRisk risk' ev' = Allow"
    and "rc_default risk' = rc_default risk"
    and "set (rc_paths risk) \<subseteq> set (rc_paths risk')" "set (rc_labels risk) \<subseteq> set (rc_labels risk')"
    and "set (rc_conditions risk) \<subseteq> set (rc_conditions risk')"
    and "set (changedPaths ev) \<subseteq> set (changedPaths ev')" "set (issueLabels ev) \<subseteq> set (issueLabels ev')"
    and "acceptanceCriteria ev = acceptanceCriteria ev'" "checkManifestPath ev = checkManifestPath ev'"
  shows "evaluateAutomaticMergeRisk risk ev = Allow"
proof -
  have rule: "rule_clear (changedPaths ev') r \<Longrightarrow> rule_clear (changedPaths ev) r" for r
    using assms(6) by (auto simp: rule_clear_def)
  have label: "label_clear (set (map normalize_label (issueLabels ev'))) l \<Longrightarrow>
      label_clear (set (map normalize_label (issueLabels ev))) l" for l
    using assms(7) by (auto simp: label_clear_def)
  have condition: "condition_clear ev' c \<Longrightarrow> condition_clear ev c" for c
    unfolding condition_clear_def assms(8,9) using assms(6) rule by blast
  show ?thesis
    using assms(1) rule label condition unfolding allow_iff assms(2)
    using subsetD [OF assms(3)] subsetD [OF assms(4)] subsetD [OF assms(5)] by simp
qed

theorem risk_gate_only_subtracts_witness:
  "evaluateAutomaticMergeRisk (sample_risk\<lparr>rc_paths := []\<rparr>) (sample_evidence\<lparr>issueLabels := []\<rparr>) = Allow"
proof (rule risk_gate_only_subtracts [where risk' = sample_risk and ev' = sample_evidence])
  show "evaluateAutomaticMergeRisk sample_risk sample_evidence = Allow" by code_simp
qed (auto simp: sample_risk_def)

text \<open>The dot of the compiled rule does not match line terminators, so a changed file below the
  directory of a rule \<open>dir/**\<close> whose remaining path contains a line break escapes the rule: the gate
  allows the merge, although the same file without the line break demands manual approval.\<close>

theorem line_break_escapes_risk_rule:
  "evaluateAutomaticMergeRisk sample_risk
     (sample_evidence\<lparr>changedPaths := [''infra/prod'' @ [CHR 0x0A] @ ''.tf'']\<rparr>) = Allow \<and>
   evaluateAutomaticMergeRisk sample_risk
     (sample_evidence\<lparr>changedPaths := [''infra/prod.tf'']\<rparr>) =
       ManualApproval [PathMatchesRule ''infra/prod.tf'' ''infra/**'']"
proof
  have match: "matchesRiskPath (''infra/prod'' @ [CHR 0x0A] @ ''.tf'') (''infra'' @ ''/**'') =
      Some (CHR 0x0A \<notin> set (''prod'' @ [CHR 0x0A] @ ''.tf'') \<and> CHR 0x0D \<notin> set (''prod'' @ [CHR 0x0A] @ ''.tf''))"
    by (rule subtree_rule_misses_line_breaks) code_simp+
  have "evaluateAutomaticMergeRisk sample_risk sample_evidence = Allow" by code_simp
  then show "evaluateAutomaticMergeRisk sample_risk
      (sample_evidence\<lparr>changedPaths := [''infra/prod'' @ [CHR 0x0A] @ ''.tf'']\<rparr>) = Allow"
    using match unfolding allow_iff
    by (auto simp: sample_risk_def sample_evidence_def rule_clear_def condition_clear_def
        is_lockfile_def LOCKFILES_def normalizePath_def to_slashes_def Let_def)
qed code_simp

end
