(* ===== verification/Run_Budget.thy ===== *)
theory Run_Budget
  imports Prelude
begin

text \<open>
  Normalised provider events and the usage they carry (\<open>src/src/agent/events.ts\<close>), and the
  enforcement of an issue's limits during a run (\<open>src/src/orchestrator/run-budget.ts\<close>): wall time,
  invocations per role and in total, and cost. The budget object is a record threaded through the
  operations; an operation that throws returns the state it leaves behind, because a failing
  \<open>finishInvocation\<close> has already accounted the cost. Every reading of the monotonic clock is an
  argument.
\<close>

section \<open>Provider events\<close>

datatype agent_role = ImplementerAgent | LocalReviewerAgent | FixerAgent | PrReviewerAgent | RetrospectiveAgent

datatype command_outcome = Exited | Signaled | TimedOut | Cancelled | SandboxDenied

datatype file_op = CreateFile | ModifyFile | DeleteFile | RenameFile

datatype provider_error_class = RateLimit | Auth | ContextOverflow | Transport | ProviderInternal

datatype 'j agent_event_body =
  SessionStarted
| AssistantMessage (message_text: string)
| ToolRequested (tr_call: string) (tr_tool: string) (tr_input: 'j)
| ToolCompleted (tc_call: string) (tc_tool: string) (tc_output: string)
| CommandStarted (cs_call: string) (cs_command: string) (cs_cwd: string) (cs_env: string) (cs_pid: rat) (cs_timeout: rat)
| CommandCompleted (cc_call: string) (cc_output: string) (cc_outcome: command_outcome) (cc_exit: "rat option") (cc_signal: "string option")
| FileChanged (fc_path: string) (fc_op: file_op) (fc_before: "string option") (fc_after: "string option")
| PermissionRequested (pr_request: string) (pr_action: string) (pr_scope: string) (pr_expires: string)
| UsageUpdated (uu_input: rat) (uu_output: rat) (uu_cache: "rat option") (uu_model: string) (uu_cost: "rat option")
| ErrorEvent (ee_class: provider_error_class) (ee_retryable: bool) (ee_code: "string option")
| ResultEvent (re_success: bool) (re_output: string)

record 'j agent_event =
  ev_seq :: rat
  ev_ts :: string
  ev_run :: string
  ev_session :: string
  ev_role :: agent_role
  ev_attempt :: rat
  ev_body :: "'j agent_event_body"

definition KNOWN_EVENT_TYPES :: "string list" where
  "KNOWN_EVENT_TYPES =
     [''session.started'', ''assistant.message'', ''tool.requested'', ''tool.completed'',
      ''command.started'', ''command.completed'', ''file.changed'', ''permission.requested'',
      ''usage.updated'', ''error'', ''result'']"

fun body_type :: "'j agent_event_body \<Rightarrow> string" where
  "body_type SessionStarted = ''session.started''"
| "body_type (AssistantMessage _) = ''assistant.message''"
| "body_type (ToolRequested _ _ _) = ''tool.requested''"
| "body_type (ToolCompleted _ _ _) = ''tool.completed''"
| "body_type (CommandStarted _ _ _ _ _ _) = ''command.started''"
| "body_type (CommandCompleted _ _ _ _ _) = ''command.completed''"
| "body_type (FileChanged _ _ _ _) = ''file.changed''"
| "body_type (PermissionRequested _ _ _ _) = ''permission.requested''"
| "body_type (UsageUpdated _ _ _ _ _) = ''usage.updated''"
| "body_type (ErrorEvent _ _ _) = ''error''"
| "body_type (ResultEvent _ _) = ''result''"

definition assertKnownEvent :: "string \<Rightarrow> string + unit" where
  "assertKnownEvent t = (if t \<notin> set KNOWN_EVENT_TYPES then Inl t else Inr ())"

record usage_totals =
  inputTokens :: rat
  outputTokens :: rat
  ut_costUsd :: rat
  costReported :: bool
  model :: "string option"

definition no_usage :: usage_totals where
  "no_usage = \<lparr>inputTokens = 0, outputTokens = 0, ut_costUsd = 0, costReported = False, model = None\<rparr>"

fun add_usage :: "usage_totals \<Rightarrow> 'j agent_event_body \<Rightarrow> usage_totals" where
  "add_usage totals (UsageUpdated inp out cache mdl cost) =
     (let t1 = totals\<lparr>inputTokens := inp, outputTokens := out\<rparr>;
          t2 = (case cost of None \<Rightarrow> t1 | Some c \<Rightarrow> t1\<lparr>ut_costUsd := c, costReported := True\<rparr>)
      in t2\<lparr>model := Some mdl\<rparr>)"
| "add_usage totals _ = totals"

definition accumulateUsage :: "'j agent_event list \<Rightarrow> usage_totals" where
  "accumulateUsage events = foldl (\<lambda>t e. add_usage t (ev_body e)) no_usage events"

section \<open>The budget of a run\<close>

datatype budget_role = Implementer | LocalReview | Fixer | PrReview | PrFixer

record budget_options =
  maxWallMs :: rat
  maxCostUsd :: "rat option"
  maxRole :: "budget_role \<Rightarrow> rat"
  maxTotal :: rat
  clampInvocationTimeout :: bool
  wallAndInvocationsOnly :: bool

record run_budget =
  options :: budget_options
  startedAt :: rat
  count :: "budget_role \<Rightarrow> nat"
  total :: nat
  costUsd :: rat

datatype exhausted =
  WallTime rat rat
| TotalInvocations nat rat
| RoleInvocations budget_role nat rat
| UnknownCost
| CostCap rat rat

definition new_run_budget :: "budget_options \<Rightarrow> rat \<Rightarrow> run_budget" where
  "new_run_budget opts now =
     \<lparr>options = opts, startedAt = now, count = (\<lambda>_. 0), total = 0, costUsd = 0\<rparr>"

definition elapsedMs :: "run_budget \<Rightarrow> rat \<Rightarrow> rat" where
  "elapsedMs b now = max 0 (now - startedAt b)"

definition assertActive :: "run_budget \<Rightarrow> rat \<Rightarrow> exhausted + unit" where
  "assertActive b now =
     (if elapsedMs b now \<ge> maxWallMs (options b)
      then Inl (WallTime (elapsedMs b now) (maxWallMs (options b))) else Inr ())"

text \<open>\<open>now\<close> is the clock at the first test, \<open>later\<close> the clock when the timeout is computed.\<close>

definition beginInvocation ::
  "run_budget \<Rightarrow> budget_role \<Rightarrow> rat \<Rightarrow> rat \<Rightarrow> rat \<Rightarrow> run_budget \<times> (exhausted + rat)" where
  "beginInvocation b role requestedTimeoutMs now later =
     (case assertActive b now of
        Inl e \<Rightarrow> (b, Inl e)
      | Inr _ \<Rightarrow>
          (if of_nat (total b) \<ge> maxTotal (options b)
           then (b, Inl (TotalInvocations (total b) (maxTotal (options b))))
           else if of_nat (count b role) \<ge> maxRole (options b) role
           then (b, Inl (RoleInvocations role (count b role) (maxRole (options b) role)))
           else let b' = b\<lparr>total := total b + 1, count := (count b)(role := count b role + 1)\<rparr>
                in if \<not> clampInvocationTimeout (options b) then (b', Inr requestedTimeoutMs)
                   else let remaining = max 1 (maxWallMs (options b) - elapsedMs b' later)
                        in (b', Inr (min requestedTimeoutMs remaining))))"

definition finishInvocation ::
  "run_budget \<Rightarrow> 'j agent_event list \<Rightarrow> rat \<Rightarrow> run_budget \<times> (exhausted + unit)" where
  "finishInvocation b events now =
     (let usage = accumulateUsage events;
          b' = b\<lparr>costUsd := costUsd b + ut_costUsd usage\<rparr>
      in case maxCostUsd (options b) of
           Some cap \<Rightarrow>
             (if \<not> wallAndInvocationsOnly (options b) \<and> \<not> costReported usage then (b', Inl UnknownCost)
              else if \<not> wallAndInvocationsOnly (options b) \<and> costUsd b' > cap
              then (b', Inl (CostCap (costUsd b') cap))
              else (b', assertActive b' now))
         | None \<Rightarrow> (b', assertActive b' now))"

section \<open>Lemmas\<close>

lemma known_event_accepted: "assertKnownEvent (body_type e) = Inr ()"
  by (cases e) (simp_all add: assertKnownEvent_def KNOWN_EVENT_TYPES_def)

text \<open>The totals are those of the last usage event; the cost is the last reported one.\<close>

fun usage_cost :: "'j agent_event_body \<Rightarrow> rat option" where
  "usage_cost (UsageUpdated _ _ _ _ c) = c"
| "usage_cost _ = None"

definition reported_costs :: "'j agent_event list \<Rightarrow> rat list" where
  "reported_costs events = List.map_filter (\<lambda>e. usage_cost (ev_body e)) events"

lemma add_usage_cost:
  "ut_costUsd (add_usage t e) = (case usage_cost e of None \<Rightarrow> ut_costUsd t | Some c \<Rightarrow> c)"
  "costReported (add_usage t e) \<longleftrightarrow> costReported t \<or> usage_cost e \<noteq> None"
  by (cases e; auto simp: Let_def split: option.splits)+

lemma accumulateUsage_cost:
  "ut_costUsd (accumulateUsage events) = (if reported_costs events = [] then 0 else last (reported_costs events))"
  "costReported (accumulateUsage events) \<longleftrightarrow> reported_costs events \<noteq> []"
proof -
  have "ut_costUsd (foldl (\<lambda>t e. add_usage t (ev_body e)) t events) =
      (if reported_costs events = [] then ut_costUsd t else last (reported_costs events))" for t
    by (induction events arbitrary: t)
      (auto simp: add_usage_cost reported_costs_def List.map_filter_def split: option.splits)
  moreover have "costReported (foldl (\<lambda>t e. add_usage t (ev_body e)) t events) \<longleftrightarrow>
      costReported t \<or> reported_costs events \<noteq> []" for t
    by (induction events arbitrary: t)
      (auto simp: add_usage_cost reported_costs_def List.map_filter_def split: option.splits)
  ultimately show "ut_costUsd (accumulateUsage events) =
      (if reported_costs events = [] then 0 else last (reported_costs events))"
    "costReported (accumulateUsage events) \<longleftrightarrow> reported_costs events \<noteq> []"
    by (simp_all add: accumulateUsage_def no_usage_def)
qed

lemma assertActive_Inr: "assertActive b now = Inr u \<longleftrightarrow> elapsedMs b now < maxWallMs (options b)"
  by (auto simp: assertActive_def)

lemma beginInvocation_Inr:
  "beginInvocation b role req now later = (b', Inr t) \<longleftrightarrow>
     elapsedMs b now < maxWallMs (options b) \<and>
     of_nat (total b) < maxTotal (options b) \<and>
     of_nat (count b role) < maxRole (options b) role \<and>
     b' = b\<lparr>total := total b + 1, count := (count b)(role := count b role + 1)\<rparr> \<and>
     t = (if clampInvocationTimeout (options b)
          then min req (max 1 (maxWallMs (options b) - elapsedMs b later)) else req)"
  by (auto simp: beginInvocation_def assertActive_def elapsedMs_def Let_def not_le)

lemma beginInvocation_Inl: "beginInvocation b role req now later = (b', Inl e) \<Longrightarrow> b' = b"
  by (auto simp: beginInvocation_def Let_def split: sum.splits if_splits)

lemma finishInvocation_state:
  "fst (finishInvocation b events now) = b\<lparr>costUsd := costUsd b + ut_costUsd (accumulateUsage events)\<rparr>"
  by (simp add: finishInvocation_def Let_def split: option.splits)

lemma finishInvocation_ok:
  "finishInvocation b events now = (b', Inr u) \<Longrightarrow>
     elapsedMs b' now < maxWallMs (options b) \<and>
     (maxCostUsd (options b) = Some cap \<and> \<not> wallAndInvocationsOnly (options b) \<longrightarrow>
        costUsd b' \<le> cap \<and> reported_costs events \<noteq> [])"
  by (auto simp: finishInvocation_def Let_def assertActive_Inr accumulateUsage_cost
      split: option.splits if_splits)

section \<open>A run's calls\<close>

datatype 'j budget_call =
  Begin budget_role rat rat rat
| Finish "'j agent_event list" rat

definition budget_step :: "run_budget \<Rightarrow> 'j budget_call \<Rightarrow> run_budget \<Rightarrow> bool" where
  "budget_step b c b' \<longleftrightarrow>
     (case c of
        Begin role req now later \<Rightarrow> b' = fst (beginInvocation b role req now later)
      | Finish events now \<Rightarrow> b' = fst (finishInvocation b events now))"

fun spent :: "'j budget_call list \<Rightarrow> rat" where
  "spent [] = 0"
| "spent (Begin _ _ _ _ # cs) = spent cs"
| "spent (Finish events _ # cs) = ut_costUsd (accumulateUsage events) + spent cs"

definition role_total :: "(budget_role \<Rightarrow> nat) \<Rightarrow> nat" where
  "role_total c = c Implementer + c LocalReview + c Fixer + c PrReview + c PrFixer"

lemma role_total_incr: "role_total (c(r := Suc (c r))) = Suc (role_total c)"
  by (cases r) (simp_all add: role_total_def)

definition within_caps :: "budget_options \<Rightarrow> run_budget \<Rightarrow> bool" where
  "within_caps opts b \<longleftrightarrow>
     options b = opts \<and>
     total b = role_total (count b) \<and>
     (total b = 0 \<or> of_nat (total b) < maxTotal opts + 1) \<and>
     (\<forall>r. count b r = 0 \<or> of_nat (count b r) < maxRole opts r + 1)"

lemma within_caps_cost [simp]: "within_caps opts (b\<lparr>costUsd := x\<rparr>) \<longleftrightarrow> within_caps opts b"
  by (simp add: within_caps_def)

lemma within_caps_grant:
  assumes "within_caps opts b" "of_nat (total b) < maxTotal opts" "of_nat (count b role) < maxRole opts role"
  shows "within_caps opts (b\<lparr>total := Suc (total b), count := (count b)(role := Suc (count b role))\<rparr>)"
  using assms unfolding within_caps_def by (simp add: role_total_incr)

lemma within_caps_begin:
  assumes "within_caps opts b"
  shows "within_caps opts (fst (beginInvocation b role req now later))"
proof (cases "beginInvocation b role req now later")
  case (Pair b' r)
  show ?thesis
  proof (cases r)
    case (Inl e)
    then show ?thesis using assms Pair beginInvocation_Inl [of b role req now later b' e] by simp
  next
    case (Inr t)
    with Pair have "beginInvocation b role req now later = (b', Inr t)" by simp
    from this [unfolded beginInvocation_Inr] have
      "of_nat (total b) < maxTotal (options b)" "of_nat (count b role) < maxRole (options b) role"
      "b' = b\<lparr>total := Suc (total b), count := (count b)(role := Suc (count b role))\<rparr>"
      by simp_all
    moreover have "options b = opts" using assms unfolding within_caps_def by blast
    ultimately show ?thesis using assms Pair by (simp add: within_caps_grant)
  qed
qed

interpretation caps: preserved budget_step "within_caps opts" for opts
proof
  fix b b' :: run_budget and c :: "'a budget_call"
  assume inv: "within_caps opts b" and step: "budget_step b c b'"
  show "within_caps opts b'"
  proof (cases c)
    case Begin
    with step inv show ?thesis by (simp add: budget_step_def within_caps_begin)
  next
    case Finish
    with step inv show ?thesis by (simp add: budget_step_def finishInvocation_state)
  qed
qed

lemma budget_step_cost:
  "budget_step b c b' \<Longrightarrow> costUsd b' = costUsd b + spent [c]"
  by (cases c) (auto simp: budget_step_def finishInvocation_state beginInvocation_def Let_def
      split: sum.splits)

lemma spent_Cons: "spent (c # cs) = spent [c] + spent cs"
  by (cases c) simp_all

lemma steps_cost: "steps budget_step b cs b' \<Longrightarrow> costUsd b' = costUsd b + spent cs"
proof (induction rule: steps.induct)
  case (steps_step b c b' cs b'')
  then show ?case by (subst spent_Cons) (simp add: budget_step_cost)
qed simp

lemma new_within_caps: "within_caps opts (new_run_budget opts now)"
  by (simp add: within_caps_def new_run_budget_def role_total_def)

text \<open>Whatever sequence of invocations a run begins and finishes, refused ones included, no role and
  not the run as a whole is ever granted an invocation beyond its cap, the total is the sum of the
  roles, and the recorded cost is exactly the sum of the last cost each invocation reported.\<close>

theorem budget_caps_hold:
  assumes "steps budget_step (new_run_budget opts start) calls b"
  shows "total b = role_total (count b) \<and>
    (total b = 0 \<or> of_nat (total b) < maxTotal opts + 1) \<and>
    (count b r = 0 \<or> of_nat (count b r) < maxRole opts r + 1) \<and>
    costUsd b = spent calls"
proof -
  have "costUsd b = spent calls" using steps_cost [OF assms] by (simp add: new_run_budget_def)
  then show ?thesis using caps.steps_inv [OF assms new_within_caps] unfolding within_caps_def by blast
qed

definition sample_options :: budget_options where
  "sample_options = \<lparr>maxWallMs = 1000, maxCostUsd = Some 2, maxRole = (\<lambda>_. 1), maxTotal = 2,
     clampInvocationTimeout = True, wallAndInvocationsOnly = False\<rparr>"

definition usage_event :: "rat option \<Rightarrow> unit agent_event" where
  "usage_event cost = \<lparr>ev_seq = 1, ev_ts = '''', ev_run = ''r'', ev_session = ''s'',
     ev_role = ImplementerAgent, ev_attempt = 1, ev_body = UsageUpdated 1 1 None ''m'' cost\<rparr>"

definition sample_calls :: "unit budget_call list" where
  "sample_calls = [Begin Implementer 100 0 0, Finish [usage_event (Some 1)] 10, Begin Implementer 100 20 20]"

lemma sample_calls_run:
  "steps budget_step (new_run_budget sample_options 0) sample_calls
     \<lparr>options = sample_options, startedAt = 0, count = (\<lambda>_. 0)(Implementer := 1), total = 1, costUsd = 1\<rparr>"
  by (simp add: sample_calls_def steps_Cons_iff budget_step_def beginInvocation_def finishInvocation_def
      assertActive_def elapsedMs_def new_run_budget_def sample_options_def accumulateUsage_def
      no_usage_def usage_event_def Let_def)

theorem budget_caps_hold_witness: "spent sample_calls = 1"
  using budget_caps_hold [OF sample_calls_run] by simp

text \<open>When a cost cap is configured and enforced, a run is let through to its next stage after an
  invocation only when that invocation reported its cost, the cost of all invocations so far is
  within the cap, and the wall time is not used up.\<close>

theorem accepted_spend_within_cap:
  assumes "steps budget_step (new_run_budget opts start) calls b"
    and "finishInvocation b events now = (b', Inr ())"
    and "maxCostUsd opts = Some cap" "\<not> wallAndInvocationsOnly opts"
  shows "spent (calls @ [Finish events now]) \<le> cap \<and> reported_costs events \<noteq> [] \<and>
    (now - start < maxWallMs opts)"
proof -
  have opts: "options b = opts"
    using caps.steps_inv [OF assms(1) new_within_caps] unfolding within_caps_def by blast
  have "steps budget_step (new_run_budget opts start) (calls @ [Finish events now]) b'"
    using assms(1,2) by (auto simp: steps_append steps_Cons_iff budget_step_def)
  then have spent: "costUsd b' = spent (calls @ [Finish events now])"
    using steps_cost by (fastforce simp: new_run_budget_def)
  have "steps budget_step b cs b2 \<Longrightarrow> startedAt b2 = startedAt b" for b cs b2
    by (induction rule: steps.induct)
      (auto simp: budget_step_def beginInvocation_def finishInvocation_state Let_def split: budget_call.splits sum.splits)
  from this [OF assms(1)] have start: "startedAt b' = start"
    using finishInvocation_state [of b events now] assms(2) by (simp add: new_run_budget_def)
  show ?thesis
    using finishInvocation_ok [OF assms(2), of cap] opts assms(3,4) spent start
    by (auto simp: elapsedMs_def)
qed

theorem accepted_spend_within_cap_witness:
  "spent (sample_calls @ [Finish [usage_event (Some 1)] 40]) \<le> 2"
proof -
  let ?b = "\<lparr>options = sample_options, startedAt = 0, count = (\<lambda>_. 0)(Implementer := 1), total = 1, costUsd = 1\<rparr>"
  have "finishInvocation ?b [usage_event (Some 1)] 40 = (?b\<lparr>costUsd := 2\<rparr>, Inr ())"
    by (simp add: finishInvocation_def assertActive_def elapsedMs_def sample_options_def
        accumulateUsage_def no_usage_def usage_event_def Let_def)
  from accepted_spend_within_cap [OF sample_calls_run this, of 2] show ?thesis
    by (simp add: sample_options_def)
qed

text \<open>A granted timeout never reaches past the run's deadline, except by the minimum of one millisecond.\<close>

lemma granted_timeout_meets_deadline:
  "beginInvocation b role req now later = (b', Inr t) \<Longrightarrow> clampInvocationTimeout (options b) \<Longrightarrow>
     t \<le> req \<and> elapsedMs b later + t \<le> max (maxWallMs (options b)) (elapsedMs b later + 1)"
  by (auto simp: beginInvocation_Inr)

end
