(* ===== verification/Checks.thy ===== *)
theory Checks
  imports Prelude
begin

text \<open>
  The checks of a pull request (\<open>src/src/pr/adapter.ts\<close>) and their reconciliation with the required
  contexts (\<open>src/src/pr/reconcile.ts\<close>). \<open>String.prototype.localeCompare\<close> depends on the collation of
  the host and is the argument \<open>localeCompare\<close>; what the proofs use of it is \<open>collation\<close>. Texts of
  details are constructors that carry the interpolated values.
\<close>

section \<open>Data\<close>

datatype check_conclusion =
  Success | Failure | Neutral | Skipped | CheckCancelled | CheckTimedOut | Pending | NotScheduled

record remote_check =
  rk_name :: string
  rk_appId :: "string option"
  rk_conclusion :: check_conclusion
  rk_headSha :: string
  rk_completedAt :: "string option"

record check_mapping =
  cm_localId :: string
  cm_contextName :: string
  cm_mergeGroupContextName :: "string option"
  cm_expectedAppId :: "string option"

datatype verdict_detail =
  NoMapping string
| NeverScheduledAfter string int
| NotReportedYet string
| Running string
| NotCoverage string check_conclusion
| Passed string
| Concluded string check_conclusion

datatype reconcile_verdict =
  Satisfied verdict_detail
| Waiting verdict_detail
| Failed verdict_detail
| NeverScheduled verdict_detail
| Unmapped verdict_detail

datatype reconcile_event = PullRequestEvent | MergeGroupEvent

record reconcile_input =
  requiredContexts :: "string list"
  mappings :: "check_mapping list"
  observed :: "remote_check list"
  ri_headSha :: string
  waitedMs :: rat
  scheduleDeadlineMs :: rat
  ri_event :: "reconcile_event option"

section \<open>Reconciliation\<close>

definition NOT_COVERAGE :: "check_conclusion list" where
  "NOT_COVERAGE = [Neutral, Skipped]"

definition completed_key :: "remote_check \<Rightarrow> string" where
  "completed_key c = (case rk_completedAt c of None \<Rightarrow> '''' | Some t \<Rightarrow> t)"

definition latest :: "(string \<Rightarrow> string \<Rightarrow> int) \<Rightarrow> remote_check list \<Rightarrow> remote_check option" where
  "latest localeCompare checks =
     (let sorted = js_sort (\<lambda>a b. localeCompare (completed_key a) (completed_key b)) checks
      in if sorted = [] then None else Some (last sorted))"

definition names_context :: "string \<Rightarrow> check_mapping \<Rightarrow> bool" where
  "names_context context m \<longleftrightarrow>
     cm_contextName m = context \<or> cm_mergeGroupContextName m = Some context \<or> cm_localId m = context"

definition expectedName :: "reconcile_input \<Rightarrow> check_mapping \<Rightarrow> string" where
  "expectedName inp m =
     (case cm_mergeGroupContextName m of
        Some n \<Rightarrow> if ri_event inp = Some MergeGroupEvent then n else cm_contextName m
      | None \<Rightarrow> cm_contextName m)"

definition matching_check :: "reconcile_input \<Rightarrow> check_mapping \<Rightarrow> remote_check \<Rightarrow> bool" where
  "matching_check inp m c \<longleftrightarrow>
     rk_name c = expectedName inp m \<and> rk_headSha c = ri_headSha inp \<and>
     (cm_expectedAppId m = None \<or> rk_appId c = cm_expectedAppId m)"

text \<open>\<open>Math.round\<close>.\<close>

definition js_round :: "rat \<Rightarrow> int" where
  "js_round x = \<lfloor>x + 1 / 2\<rfloor>"

definition reconcile_context ::
  "(string \<Rightarrow> string \<Rightarrow> int) \<Rightarrow> reconcile_input \<Rightarrow> string \<Rightarrow> reconcile_verdict" where
  "reconcile_context localeCompare inp context =
     (case List.find (names_context context) (mappings inp) of
        None \<Rightarrow> Unmapped (NoMapping context)
      | Some m \<Rightarrow>
          (let name = expectedName inp m
           in case latest localeCompare (filter (matching_check inp m) (observed inp)) of
                None \<Rightarrow>
                  (if waitedMs inp \<ge> scheduleDeadlineMs inp
                   then NeverScheduled (NeverScheduledAfter name (js_round (waitedMs inp / 1000)))
                   else Waiting (NotReportedYet name))
              | Some current \<Rightarrow>
                  (if rk_conclusion current = Pending then Waiting (Running name)
                   else if rk_conclusion current \<in> set NOT_COVERAGE
                   then Failed (NotCoverage name (rk_conclusion current))
                   else if rk_conclusion current = Success then Satisfied (Passed name)
                   else Failed (Concluded name (rk_conclusion current)))))"

definition reconcileChecks ::
  "(string \<Rightarrow> string \<Rightarrow> int) \<Rightarrow> reconcile_input \<Rightarrow> (string \<rightharpoonup> reconcile_verdict)" where
  "reconcileChecks localeCompare inp =
     foldl (\<lambda>verdicts context. verdicts(context \<mapsto> reconcile_context localeCompare inp context))
       (\<lambda>_. None) (requiredContexts inp)"

section \<open>Lemmas\<close>

definition collation :: "(string \<Rightarrow> string \<Rightarrow> int) \<Rightarrow> bool" where
  "collation lc \<longleftrightarrow>
     (\<forall>x y. lc x y \<le> 0 \<or> lc y x \<le> 0) \<and> (\<forall>x y z. lc x y \<le> 0 \<longrightarrow> lc y z \<le> 0 \<longrightarrow> lc x z \<le> 0)"

lemma js_sort_eq_Nil: "js_sort f cs = [] \<longleftrightarrow> cs = []"
  using length_js_sort [of f cs] by (cases "js_sort f cs"; cases cs) simp_all

lemma latest_None [simp]: "latest lc cs = None \<longleftrightarrow> cs = []"
  by (simp add: latest_def Let_def js_sort_eq_Nil)

lemma latest_Nil [simp]: "latest lc [] = None"
  by simp

lemma latest_mem: "latest lc cs = Some c \<Longrightarrow> c \<in> set cs"
  using last_in_set [of "js_sort (\<lambda>a b. lc (completed_key a) (completed_key b)) cs"]
  by (simp add: latest_def Let_def set_js_sort split: if_splits)

lemma latest_newest:
  assumes "collation lc" "latest lc cs = Some c" "d \<in> set cs"
  shows "lc (completed_key d) (completed_key c) \<le> 0"
proof -
  let ?cmp = "\<lambda>a b. lc (completed_key a) (completed_key b)"
  have "consistent_cmp ?cmp"
    using assms(1) unfolding collation_def by unfold_locales blast+
  then have sorted: "sorted_wrt (\<lambda>a b. ?cmp a b \<le> 0) (js_sort ?cmp cs)"
    by (rule consistent_cmp.sorted_sort)
  have c: "c = last (js_sort ?cmp cs)" and ne: "js_sort ?cmp cs \<noteq> []"
    using assms(2) by (auto simp: latest_def Let_def split: if_splits)
  have refl: "?cmp c c \<le> 0" using assms(1) unfolding collation_def by blast
  obtain bs where bs: "js_sort ?cmp cs = bs @ [c]"
    using c ne by (metis append_butlast_last_id)
  then have "set cs = set (bs @ [c])" by (metis set_js_sort)
  with assms(3) sorted refl bs show ?thesis by (auto simp: sorted_wrt_append)
qed

lemma reconcileChecks_eq:
  "reconcileChecks lc inp =
     (\<lambda>c. if c \<in> set (requiredContexts inp) then Some (reconcile_context lc inp c) else None)"
proof -
  have "foldl (\<lambda>verdicts c. verdicts(c \<mapsto> f c)) v cs = (\<lambda>c. if c \<in> set cs then Some (f c) else v c)"
    for f :: "string \<Rightarrow> reconcile_verdict" and v cs
    by (induction cs arbitrary: v) auto
  then show ?thesis by (simp add: reconcileChecks_def)
qed

lemma satisfied_iff:
  "reconcile_context lc inp context = Satisfied d \<longleftrightarrow>
     (\<exists>m c. List.find (names_context context) (mappings inp) = Some m \<and>
        latest lc (filter (matching_check inp m) (observed inp)) = Some c \<and>
        rk_conclusion c = Success \<and> d = Passed (expectedName inp m))"
  by (auto simp: reconcile_context_def Let_def NOT_COVERAGE_def split: option.splits)

text \<open>C26: A required context counts as satisfied only on the evidence of a successful check: one with the
  name its mapping expects for the event, on exactly the head in question, from the expected
  application, and no matching check of that head was completed later. Neutral and skipped
  conclusions never satisfy it.\<close>

theorem satisfied_needs_exact_success:
  assumes "collation localeCompare"
    and "reconcileChecks localeCompare inp context = Some (Satisfied d)"
  shows "context \<in> set (requiredContexts inp) \<and>
    (\<exists>m \<in> set (mappings inp). \<exists>c \<in> set (observed inp). names_context context m \<and>
       rk_conclusion c = Success \<and> rk_name c = expectedName inp m \<and> rk_headSha c = ri_headSha inp \<and>
       (cm_expectedAppId m = None \<or> rk_appId c = cm_expectedAppId m) \<and>
       (\<forall>d \<in> set (observed inp). matching_check inp m d \<longrightarrow>
          localeCompare (completed_key d) (completed_key c) \<le> 0))"
proof -
  have req: "context \<in> set (requiredContexts inp)"
    and sat: "reconcile_context localeCompare inp context = Satisfied d"
    using assms(2) by (auto simp: reconcileChecks_eq split: if_splits)
  from sat obtain m c where m: "List.find (names_context context) (mappings inp) = Some m"
    and c: "latest localeCompare (filter (matching_check inp m) (observed inp)) = Some c"
    and ok: "rk_conclusion c = Success"
    unfolding satisfied_iff by blast
  have "m \<in> set (mappings inp)" "names_context context m"
    using m by (auto simp: find_Some_iff)
  moreover have "c \<in> set (observed inp)" "matching_check inp m c"
    using latest_mem [OF c] by simp_all
  moreover have "\<forall>d \<in> set (observed inp). matching_check inp m d \<longrightarrow>
      localeCompare (completed_key d) (completed_key c) \<le> 0"
    using latest_newest [OF assms(1) c] by simp
  ultimately show ?thesis
    using req ok unfolding matching_check_def by blast
qed

lemma classified_domain: "dom (reconcileChecks lc inp) = set (requiredContexts inp)"
  by (auto simp: reconcileChecks_eq dom_def split: if_splits)

lemma unmapped_iff:
  "context \<in> set (requiredContexts inp) \<Longrightarrow>
     reconcileChecks lc inp context = Some (Unmapped (NoMapping context)) \<longleftrightarrow>
       (\<forall>m \<in> set (mappings inp). \<not> names_context context m)"
  by (auto simp: reconcileChecks_eq reconcile_context_def Let_def find_None_iff find_Some_iff
      split: option.splits if_splits)

lemma waiting_after_deadline:
  assumes "reconcileChecks lc inp context = Some (Waiting d)" "scheduleDeadlineMs inp \<le> waitedMs inp"
  shows "\<exists>m \<in> set (mappings inp). \<exists>c \<in> set (observed inp).
    names_context context m \<and> matching_check inp m c \<and> rk_conclusion c = Pending"
proof -
  from assms obtain m c where m: "List.find (names_context context) (mappings inp) = Some m"
    and c: "latest lc (filter (matching_check inp m) (observed inp)) = Some c"
    and pending: "rk_conclusion c = Pending"
    by (auto simp: reconcileChecks_eq reconcile_context_def Let_def split: option.splits if_splits)
  have "m \<in> set (mappings inp)" "names_context context m"
    using m by (auto simp: find_Some_iff)
  moreover have "c \<in> set (observed inp)" "matching_check inp m c"
    using latest_mem [OF c] by simp_all
  ultimately show ?thesis using pending by blast
qed

text \<open>C31: Every required context gets exactly one verdict and no other context any. It is unmapped exactly
  when no mapping names it, and once the scheduling deadline has passed it is still waiting only
  when the newest matching check is running, so a check that is never scheduled cannot hold the
  run for its whole budget.\<close>

theorem every_context_is_classified:
  shows "dom (reconcileChecks localeCompare inp) = set (requiredContexts inp) \<and>
    (context \<in> set (requiredContexts inp) \<longrightarrow>
      (reconcileChecks localeCompare inp context = Some (Unmapped (NoMapping context)) \<longleftrightarrow>
        (\<forall>m \<in> set (mappings inp). \<not> names_context context m))) \<and>
    (reconcileChecks localeCompare inp context = Some (Waiting d) \<longrightarrow> scheduleDeadlineMs inp \<le> waitedMs inp \<longrightarrow>
      (\<exists>m \<in> set (mappings inp). \<exists>c \<in> set (observed inp).
        names_context context m \<and> matching_check inp m c \<and> rk_conclusion c = Pending))"
  using classified_domain unmapped_iff waiting_after_deadline by blast

section \<open>Examples\<close>

text \<open>A collation: code-unit order.\<close>

definition code_unit_compare :: "string \<Rightarrow> string \<Rightarrow> int" where
  "code_unit_compare s t = (if s < t then -1 else if s = t then 0 else 1)"

lemma code_unit_collation: "collation code_unit_compare"
  by (auto simp: collation_def code_unit_compare_def split: if_splits)

definition sample_run_of :: "check_conclusion \<Rightarrow> string option \<Rightarrow> remote_check" where
  "sample_run_of conclusion completed = \<lparr>rk_name = ''build'', rk_appId = Some ''7'', rk_conclusion = conclusion,
     rk_headSha = ''abc'', rk_completedAt = completed\<rparr>"

definition sample_input :: "remote_check list \<Rightarrow> reconcile_input" where
  "sample_input checks = \<lparr>requiredContexts = [''ci''],
     mappings = [\<lparr>cm_localId = ''ci'', cm_contextName = ''build'', cm_mergeGroupContextName = None,
                  cm_expectedAppId = Some ''7''\<rparr>],
     observed = checks, ri_headSha = ''abc'', waitedMs = 100, scheduleDeadlineMs = 50,
     ri_event = Some PullRequestEvent\<rparr>"

theorem satisfied_needs_exact_success_witness:
  "\<exists>c \<in> set (observed (sample_input [sample_run_of Success (Some ''2026'')])). rk_conclusion c = Success"
proof -
  have "reconcileChecks code_unit_compare (sample_input [sample_run_of Success (Some ''2026'')]) ''ci'' =
      Some (Satisfied (Passed ''build''))"
    by code_simp
  from satisfied_needs_exact_success [OF code_unit_collation this] show ?thesis by blast
qed

theorem every_context_is_classified_witness:
  "\<exists>c \<in> set (observed (sample_input [sample_run_of Pending None])). rk_conclusion c = Pending"
proof -
  have "reconcileChecks code_unit_compare (sample_input [sample_run_of Pending None]) ''ci'' =
      Some (Waiting (Running ''build''))"
    by code_simp
  moreover have "scheduleDeadlineMs (sample_input [sample_run_of Pending None]) \<le>
      waitedMs (sample_input [sample_run_of Pending None])"
    by (simp add: sample_input_def)
  ultimately show ?thesis
    using every_context_is_classified [of code_unit_compare "sample_input [sample_run_of Pending None]" "''ci''"]
    by blast
qed

text \<open>The reduction to the newest re-run sorts a check without a completion time before every completed
  one, so while a re-run is still running the conclusion of the run it replaces is used: the same
  head is reported as satisfied although its newest check is pending.\<close>

theorem running_rerun_is_ignored:
  "reconcileChecks code_unit_compare
     (sample_input [sample_run_of Success (Some ''2026-01-01T00:00:00Z''), sample_run_of Pending None]) ''ci'' =
     Some (Satisfied (Passed ''build''))"
  by code_simp

end
