(* ===== verification/Lifecycle_Spec.thy ===== *)
theory Lifecycle_Spec
  imports Run_Event
begin

text \<open>
  The abstract life of one run, as the durable store promises it (\<open>src/src/state/store.ts\<close>): its phase, its
  event cursor, the fence that the owner of the current generation holds, and its history. What every
  implementation of this specification guarantees is proved once, in the locale \<open>lifecycle_store\<close>; the
  transactions of the store are its instance in \<open>Store_Steps\<close>.
\<close>

section \<open>The specification\<close>

record life =
  lf_phase :: phase
  lf_cursor :: int
  lf_owner :: "string option"
  lf_generation :: int
  lf_log :: "(int \<times> phase \<times> phase) list"   \<comment> \<open>the transitions: event number, from, to\<close>
  lf_events :: "int list"   \<comment> \<open>the numbers of the events\<close>

text \<open>The edges of the lifecycle, and the one that continues a cancellation whose effects are reconciled.\<close>

definition life_edge :: "phase \<Rightarrow> phase \<Rightarrow> bool" where
  "life_edge p q \<longleftrightarrow> assertRunPhaseTransition p q = Inr () \<or> p = BLOCKED_EXTERNAL \<and> q = CANCELLING"

definition admitted_life :: life where
  "admitted_life = \<lparr>lf_phase = ADMITTED, lf_cursor = 1, lf_owner = None, lf_generation = 0,
     lf_log = [(1, RECEIVED, ADMITTED)], lf_events = [1]\<rparr>"

definition advanced_life :: "phase \<Rightarrow> life \<Rightarrow> life" where
  "advanced_life q l = l\<lparr>lf_phase := q, lf_cursor := lf_cursor l + 1,
     lf_log := lf_log l @ [(lf_cursor l + 1, lf_phase l, q)], lf_events := lf_events l @ [lf_cursor l + 1]\<rparr>"

text \<open>What a transaction may do to a run: nothing, admit it, claim it for a new owner with the next generation,
  release it, or advance it by one event along an edge, either under its fence or fencing its owner out.\<close>

inductive life_step :: "life option \<Rightarrow> life option \<Rightarrow> bool" where
  life_stays: "life_step l l"
| life_admitted: "life_step None (Some admitted_life)"
| life_claimed: "life_step (Some l) (Some (l\<lparr>lf_owner := Some w, lf_generation := lf_generation l + 1\<rparr>))"
| life_released: "life_step (Some l) (Some (l\<lparr>lf_owner := None\<rparr>))"
| life_advanced: "life_edge (lf_phase l) q \<Longrightarrow> life_step (Some l) (Some (advanced_life q l))"
| life_fenced: "life_edge (lf_phase l) q \<Longrightarrow>
    life_step (Some l) (Some ((advanced_life q l)\<lparr>lf_owner := None, lf_generation := lf_generation l + 1\<rparr>))"

inductive_cases life_step_NoneE: "life_step None l"
inductive_cases life_step_SomeE: "life_step (Some l) l'"

section \<open>What every sequence of steps keeps\<close>

text \<open>A history is the replay of its transitions: they are numbered without a gap from 1 to the cursor, lead
  along edges from \<open>RECEIVED\<close> to the phase of the run, and each has its event.\<close>

fun log_path :: "int \<Rightarrow> phase \<Rightarrow> (int \<times> phase \<times> phase) list \<Rightarrow> int \<Rightarrow> phase \<Rightarrow> bool" where
  "log_path n p [] m q \<longleftrightarrow> n = m \<and> p = q"
| "log_path n p ((k, a, b) # ts) m q \<longleftrightarrow> k = n + 1 \<and> a = p \<and> life_edge a b \<and> log_path k b ts m q"

definition replayable_life :: "life \<Rightarrow> bool" where
  "replayable_life l \<longleftrightarrow> log_path 0 RECEIVED (lf_log l) (lf_cursor l) (lf_phase l) \<and>
     lf_events l = map fst (lf_log l) \<and> 0 \<le> lf_generation l \<and> (lf_owner l \<noteq> None \<longrightarrow> 0 < lf_generation l)"

lemma log_path_append:
  "log_path n p (ts @ us) m q \<longleftrightarrow> (\<exists>k r. log_path n p ts k r \<and> log_path k r us m q)"
  by (induction n p ts m q rule: log_path.induct) auto

text \<open>The numbers of a path are all numbers of its interval.\<close>

lemma log_path_numbers: "log_path n p ts m q \<Longrightarrow> map fst ts = [n + 1..m] \<and> n \<le> m"
proof (induction ts arbitrary: n p)
  case (Cons t ts)
  obtain k a b where t: "t = (k, a, b)" by (cases t)
  with Cons.prems have k: "k = n + 1" "log_path k b ts m q" by auto
  from Cons.IH [OF k(2)] k(1) show ?case using upto_rec1 [of k m] by (simp add: t)
qed simp

lemma admitted_edge: "life_edge RECEIVED ADMITTED"
  unfolding life_edge_def by code_simp

lemma replayable_admitted: "replayable_life admitted_life"
  by (simp add: replayable_life_def admitted_life_def admitted_edge)

lemma life_step_replayable:
  "life_step l l' \<Longrightarrow> (\<forall>x. l = Some x \<longrightarrow> replayable_life x) \<Longrightarrow> (\<forall>x. l' = Some x \<longrightarrow> replayable_life x)"
  by (induction rule: life_step.induct)
    (auto simp: replayable_admitted, auto simp: replayable_life_def log_path_append advanced_life_def)

text \<open>A generation never decreases, and an owner of the current one holds it alone.\<close>

lemma life_step_generation:
  "life_step (Some l) (Some l') \<Longrightarrow> lf_generation l \<le> lf_generation l'"
  by (erule life_step_SomeE) (auto simp: advanced_life_def)

definition holds :: "life option \<Rightarrow> string \<Rightarrow> int \<Rightarrow> bool" where
  "holds l w g \<longleftrightarrow> (case l of None \<Rightarrow> False | Some x \<Rightarrow> lf_owner x = Some w \<and> lf_generation x = g)"

text \<open>A fence of a generation that exists and is not held can never be held again.\<close>

definition fenced_out :: "life option \<Rightarrow> string \<Rightarrow> int \<Rightarrow> bool" where
  "fenced_out l w g \<longleftrightarrow> (case l of None \<Rightarrow> False | Some x \<Rightarrow> g \<le> lf_generation x) \<and> \<not> holds l w g"

lemma life_step_fenced: "life_step l l' \<Longrightarrow> fenced_out l w g \<Longrightarrow> fenced_out l' w g"
  by (induction rule: life_step.induct) (auto simp: fenced_out_def holds_def advanced_life_def)

lemma terminal_no_edge: "isTerminalRunEventPhase p \<Longrightarrow> \<not> life_edge p q"
  by (auto simp: life_edge_def assertRunPhaseTransition_def isTerminalRunEventPhase_def
      TERMINAL_RUN_EVENT_PHASES_def)

text \<open>What is fixed of a run that has finished.\<close>

definition same_history :: "life option \<Rightarrow> life option \<Rightarrow> bool" where
  "same_history l l' \<longleftrightarrow> (\<exists>x y. l = Some x \<and> l' = Some y \<and> lf_phase y = lf_phase x \<and> lf_cursor y = lf_cursor x \<and>
     lf_log y = lf_log x \<and> lf_events y = lf_events x)"

lemma life_step_terminal:
  "life_step (Some l) l' \<Longrightarrow> isTerminalRunEventPhase (lf_phase l) \<Longrightarrow> same_history (Some l) l'"
  by (erule life_step_SomeE) (auto simp: same_history_def dest: terminal_no_edge)

text \<open>A history only grows, at its end.\<close>

definition extends_history :: "life option \<Rightarrow> life option \<Rightarrow> bool" where
  "extends_history l l' \<longleftrightarrow> (case l of None \<Rightarrow> True
     | Some x \<Rightarrow> (case l' of None \<Rightarrow> False
        | Some y \<Rightarrow> (\<exists>ts es. lf_log y = lf_log x @ ts \<and> lf_events y = lf_events x @ es)))"

lemma life_step_extends: "life_step l l' \<Longrightarrow> extends_history l l'"
  by (induction rule: life_step.induct) (auto simp: extends_history_def advanced_life_def split: option.splits)

section \<open>The interface\<close>

text \<open>A store with transactions, a view of the life of each run, and a property that its transactions keep
  and under which each of them is a step of the specification for every run.\<close>

locale lifecycle_store = preserved step inv
  for step :: "'s \<Rightarrow> 'l \<Rightarrow> 's \<Rightarrow> bool" and inv :: "'s \<Rightarrow> bool" +
  fixes life_of :: "'s \<Rightarrow> string \<Rightarrow> life option"
  assumes refines: "inv s \<Longrightarrow> step s l s' \<Longrightarrow> life_step (life_of s run) (life_of s' run)"
begin

lemma steps_preserve:
  assumes "steps step s ls s'" and "inv s" and "P (life_of s run)"
    and "\<And>a b. life_step a b \<Longrightarrow> P a \<Longrightarrow> P b"
  shows "P (life_of s' run)"
  using assms by (induction rule: steps.induct) (auto intro: refines preserve)

lemma replayable_always:
  assumes "steps step s ls s'" and "inv s" and "\<forall>x. life_of s run = Some x \<longrightarrow> replayable_life x"
  shows "\<forall>x. life_of s' run = Some x \<longrightarrow> replayable_life x"
  by (rule steps_preserve [OF assms(1,2), where P = "\<lambda>l. \<forall>x. l = Some x \<longrightarrow> replayable_life x"])
    (use assms(3) life_step_replayable in blast)+

lemma fenced_out_always:
  assumes "steps step s ls s'" and "inv s" and "fenced_out (life_of s run) w g"
  shows "fenced_out (life_of s' run) w g"
  by (rule steps_preserve [OF assms(1,2), where P = "\<lambda>l. fenced_out l w g"]) (use assms(3) life_step_fenced in blast)+

lemma finished_always:
  assumes "steps step s ls s'" and "inv s" and "life_of s run = Some x" and "isTerminalRunEventPhase (lf_phase x)"
  shows "same_history (life_of s run) (life_of s' run)"
proof -
  have step: "same_history (Some x) b" if st: "life_step a b" and same: "same_history (Some x) a" for a b
  proof -
    obtain y where y: "a = Some y" "lf_phase y = lf_phase x" "same_history (Some x) (Some y)"
      using same by (auto simp: same_history_def)
    with life_step_terminal [of y b] st assms(4) show ?thesis by (auto simp: same_history_def)
  qed
  show ?thesis unfolding assms(3)
    by (rule steps_preserve [OF assms(1,2), where P = "same_history (Some x)"])
      (use assms(3) step in \<open>auto simp: same_history_def\<close>)
qed

lemma history_grows:
  assumes "steps step s ls s'" and "inv s"
  shows "extends_history (life_of s run) (life_of s' run)"
proof -
  have "extends_history (life_of s run) b" if "life_step a b" and "extends_history (life_of s run) a" for a b
    using life_step_extends [OF that(1)] that(2) by (auto simp: extends_history_def split: option.splits)
  then show ?thesis
    by (intro steps_preserve [OF assms, where P = "extends_history (life_of s run)"])
      (auto simp: extends_history_def split: option.splits)
qed

end

end
