(* ===== verification/State_Store.thy ===== *)
theory State_Store
  imports Recovery_Plan
begin

text \<open>
  The tables of the durable state (\<open>src/src/state/store.ts\<close>, schema in \<open>src/src/state/migrations.ts\<close>)
  that the supervised delivery uses, as records of rows, and the reading of runs, admissions and
  checkpoints.

  A table is a list of rows in insertion order. Every modelled operation is one immediate SQLite
  transaction of the single writer: it returns the new state or throws, and a throw leaves the state
  as it was. The clock is read once per transaction. \<open>runs\<close> holds the rows of mode \<open>asf-worker\<close>; their
  state is always a phase.
\<close>

section \<open>Environment\<close>

text \<open>\<open>json_parse\<close> is \<open>JSON.parse\<close>, \<open>canonicalJson\<close> the canonical rendering, \<open>iso\<close> is \<open>toISOString\<close>,
  \<open>None\<close> outside its range, \<open>sha_hex\<close> the digest of a text and \<open>number_text\<close> the decimal text of a
  number, \<open>stringify\<close> is \<open>JSON.stringify\<close>, and
  \<open>localeCompare\<close> the collation of the host.\<close>

record store_env =
  recovery :: recovery_env
  json_parse :: "string \<Rightarrow> json option"
  canonicalJson :: "json \<Rightarrow> string"
  iso :: "rat \<Rightarrow> string option"
  sha_hex :: "string \<Rightarrow> string"
  number_text :: "rat \<Rightarrow> string"
  stringify :: "json \<Rightarrow> string"
  localeCompare :: "string \<Rightarrow> string \<Rightarrow> int"

definition clock :: "store_env \<Rightarrow> rat" where
  "clock env = now (recovery env)"

definition digest_of :: "store_env \<Rightarrow> json \<Rightarrow> string" where
  "digest_of env j = sha256Digest (recovery env) j"

definition parse_time :: "store_env \<Rightarrow> string \<Rightarrow> rat option" where
  "parse_time env s = date_parse (recovery env) s"

datatype store_error =
  StaleLease           \<comment> \<open>RM-LEASE-001\<close>
| StateConflict        \<comment> \<open>RM-STATE-002\<close>
| EvidenceConflict     \<comment> \<open>RM-EVID-008\<close>
| ApprovalConflict     \<comment> \<open>RM-APPROVAL-003\<close>
| WorkOrderConflict    \<comment> \<open>RM-WO-003\<close>
| ReconciliationConflict \<comment> \<open>RM-RECON-001\<close>
| CancellationConflict \<comment> \<open>RM-CANCEL-001\<close>
| Rejected             \<comment> \<open>any other thrown error\<close>

text \<open>\<open>clock.now().toISOString()\<close>.\<close>

definition now_iso :: "store_env \<Rightarrow> store_error + string" where
  "now_iso env = (case iso env (clock env) of None \<Rightarrow> Inl Rejected | Some s \<Rightarrow> Inr s)"

section \<open>Rows\<close>

record run_row =
  r_run_id :: string
  r_issue_id :: string
  r_repo :: string
  r_provider :: string
  r_state :: phase
  r_version :: int
  r_attempt :: int
  r_base :: "string option"
  r_candidate :: "string option"
  r_branch :: "string option"
  r_work_order :: string
  r_attempt_id :: string
  r_generation :: int
  r_owner :: "string option"
  r_heartbeat :: "string option"
  r_resume_phase :: "phase option"
  r_reconcile :: bool
  r_updated :: string
  r_created :: string

record admission =
  a_idempotency_key :: string
  a_payload_digest :: string
  a_envelope_digest :: string
  a_envelope :: string
  a_work_order :: string
  a_attempt_id :: string
  a_tenant :: string
  a_run_id :: string
  a_policy :: string
  a_policy_digest :: string
  a_key_id :: string
  a_algorithm :: string
  a_accepted_at :: string
  a_compacted :: int   \<comment> \<open>\<open>compacted_through\<close>\<close>

record checkpoint_row =
  c_id :: string
  c_run_id :: string
  c_kind :: string
  c_phase :: string
  c_event_seq :: int
  c_generation :: int
  c_candidate :: "string option"
  c_policy_digest :: string
  c_digest :: string
  c_replay_policy :: string
  c_canonical :: string
  c_created_at :: string
  c_recorded_at :: string

record event_row =
  w_run_id :: string
  w_seq :: int
  w_type :: string
  w_payload :: string
  w_at :: string
  w_event_id :: string
  w_schema :: string
  w_phase :: string
  w_policy_digest :: string

datatype outcome = Confirmed | NotApplied | Ambiguous

record delivery_intent =
  i_schema :: string
  i_id :: string
  i_digest :: string
  i_effect_key :: string
  i_stage :: string
  i_run_id :: string
  i_work_order :: string
  i_attempt_id :: string
  i_policy_digest :: string
  i_generation :: int
  i_candidate :: "string option"
  i_event_seq :: int
  i_operation_digest :: string
  i_created_at :: string

record stored_intent = delivery_intent +
  i_observation_digest :: "string option"
  i_outcome :: "outcome option"
  i_confirmed_generation :: "int option"
  i_confirmed_at :: "string option"
  i_replay_operation :: "string option"
  i_replay_generation :: "int option"

record intent_row = stored_intent +
  i_canonical :: string

datatype observation_source = FromConfirmation | FromReconciliation | FromLegacy

record intent_observation =
  io_effect_key :: string
  io_seq :: nat
  io_outcome :: outcome
  io_digest :: string
  io_generation :: int
  io_source :: observation_source
  io_observed_at :: string

datatype effect_status = Intended | InFlight | Observed outcome

record effect_row =
  e_key :: string
  e_run_id :: string
  e_generation :: int
  e_operation :: string
  e_target :: string
  e_marker :: string
  e_candidate :: string
  e_expected_remote :: "string option"
  e_policy_digest :: string
  e_intent_digest :: string
  e_status :: effect_status
  e_remote_id :: "string option"
  e_observation_digest :: "string option"
  e_retry_prohibited :: bool
  e_intended_at :: string
  e_updated_at :: string

record effect_observation =
  eo_key :: string
  eo_seq :: nat
  eo_outcome :: outcome
  eo_candidate :: string
  eo_details :: string
  eo_observer :: string
  eo_observed_at :: string

datatype reservation_status = Reserved | Completed | Denied | SettledUnknown

datatype exhaustion_reason = WallDeadline | CostLimit | InvocationLimit

record reservation =
  b_id :: string
  b_digest :: string
  b_effect_key :: string
  b_intent_id :: string
  b_intent_digest :: string
  b_run_id :: string
  b_work_order :: string
  b_attempt_id :: string
  b_policy_digest :: string
  b_generation :: int
  b_completed_generation :: "int option"
  b_candidate :: "string option"
  b_provider_candidate :: string
  b_role :: string
  b_invocation :: string
  b_reserved :: int
  b_actual :: "int option"
  b_max_cost :: int
  b_max_invocations :: int
  b_accepted_at :: string
  b_deadline_at :: string
  b_status :: reservation_status
  b_denial :: "exhaustion_reason option"
  b_denial_digest :: "string option"
  b_result_digest :: "string option"
  b_provider :: "string option"
  b_model :: "string option"
  b_principal :: "string option"
  b_profile :: "string option"
  b_settlement :: "outcome option"
  b_settlement_observation :: "string option"
  b_settlement_digest :: "string option"
  b_settlement_generation :: "int option"
  b_settlement_at :: "string option"
  b_created_at :: string
  b_completed_at :: "string option"

record terminal_seal =
  sl_cleanup_digest :: string
  sl_intent_digest :: string
  sl_canonical :: string
  sl_at :: string

record terminal_plan =
  p_run_id :: string
  p_phase :: phase
  p_event_seq :: int
  p_candidate :: "string option"
  p_policy_digest :: string
  p_cleanup_intent :: string
  p_cleanup_digest :: string
  p_bundle_digest :: "string option"
  p_digest :: string
  p_canonical :: string
  p_created_at :: string
  p_seal :: "terminal_seal option"

datatype reconciliation_status = ReconQueued | ReconRunning | ReconCompleted | ReconBlocked

record reconciliation_row =
  k_operation :: string
  k_run_id :: string
  k_request_digest :: string
  k_requested_by :: string
  k_authority :: string
  k_scope :: string
  k_status :: reconciliation_status
  k_generation :: "int option"
  k_owner :: "string option"
  k_requested_at :: string
  k_started_at :: "string option"
  k_completed_at :: "string option"
  k_result_digest :: "string option"
  k_pending_digest :: "string option"
  k_pending_github :: "nat option"
  k_pending_delivery :: "nat option"
  k_canonical_pending :: "string option"
  k_result :: "string option"
  k_resumed_seq :: "int option"

record transition_row =
  st_run :: string
  st_seq :: int
  st_from :: phase
  st_to :: phase
  st_reason :: "string option"
  st_actor :: string
  st_at :: string

record cancellation_row =
  ca_id :: string
  ca_run_id :: string
  ca_digest :: string
  ca_requester :: string
  ca_authority :: string
  ca_reason :: string
  ca_forced :: bool      \<comment> \<open>mode \<open>forced\<close>; the other mode is \<open>graceful\<close>\<close>
  ca_grace :: int
  ca_requested_at :: string
  ca_recorded_at :: string

record terminal_bundle =
  tb_run :: string
  tb_phase :: phase
  tb_event_seq :: int
  tb_candidate :: "string option"
  tb_policy_digest :: string
  tb_cleanup_intent :: string
  tb_cleanup_intent_digest :: string
  tb_cleanup_digest :: string
  tb_delivery_digest :: "string option"
  tb_bundle_digest :: string
  tb_envelope_digest :: string
  tb_envelope :: string
  tb_finalized_at :: string

record acknowledgement_row =
  ak_id :: string
  ak_run :: string
  ak_bundle_digest :: string
  ak_by :: string
  ak_at :: string
  ak_request_digest :: string

record gate_result =
  gr_run :: string
  gr_candidate :: string
  gr_kind :: string
  gr_id :: string
  gr_outcome :: string
  gr_digest :: string
  gr_seq :: int

record evidence_row =
  eb_run :: string
  eb_candidate :: string
  eb_policy_digest :: string
  eb_bundle_digest :: string
  eb_envelope_digest :: string
  eb_envelope :: string
  eb_finalized_at :: string

datatype approval_decision = Approved | ApprovalDenied

record approval_row =
  ap_id :: string
  ap_run_id :: string
  ap_work_order :: string
  ap_attempt_id :: string
  ap_work_order_digest :: string
  ap_candidate :: string
  ap_decision :: approval_decision
  ap_decision_type :: string
  ap_effect :: string
  ap_policy_digest :: string
  ap_subject :: string
  ap_authority :: string
  ap_issued_at :: string
  ap_expires_at :: string
  ap_key_id :: string
  ap_envelope :: string
  ap_envelope_digest :: string
  ap_binding_digest :: string
  ap_recorded_at :: string

record store =
  runs :: "run_row list"
  admissions :: "admission list"
  checkpoints :: "checkpoint_row list"
  events :: "event_row list"
  intents :: "intent_row list"
  intent_observations :: "intent_observation list"
  effects :: "effect_row list"
  effect_observations :: "effect_observation list"
  reservations :: "reservation list"
  terminal_plans :: "terminal_plan list"
  reconciliations :: "reconciliation_row list"
  gate_results :: "gate_result list"
  evidence_bundles :: "evidence_row list"
  approvals :: "approval_row list"
  transitions :: "transition_row list"
  cancellations :: "cancellation_row list"
  terminal_bundles :: "terminal_bundle list"
  acknowledgements :: "acknowledgement_row list"

section \<open>Reading\<close>

definition getAsfRun :: "store \<Rightarrow> string \<Rightarrow> run_row option" where
  "getAsfRun db run = List.find (\<lambda>r. r_run_id r = run) (runs db)"

definition getAsfAdmissionForRun :: "store \<Rightarrow> string \<Rightarrow> admission option" where
  "getAsfAdmissionForRun db run = List.find (\<lambda>a. a_run_id a = run) (admissions db)"

definition getAsfAdmission :: "store \<Rightarrow> string \<Rightarrow> admission option" where
  "getAsfAdmission db key = List.find (\<lambda>a. a_idempotency_key a = key) (admissions db)"

definition getAsfCheckpointRecord :: "store \<Rightarrow> string \<Rightarrow> checkpoint_row option" where
  "getAsfCheckpointRecord db cid = List.find (\<lambda>c. c_id c = cid) (checkpoints db)"

definition getAsfTerminalEvidencePlanRecord :: "store \<Rightarrow> string \<Rightarrow> terminal_plan option" where
  "getAsfTerminalEvidencePlanRecord db run = List.find (\<lambda>p. p_run_id p = run) (terminal_plans db)"

definition event_at :: "store \<Rightarrow> string \<Rightarrow> int \<Rightarrow> event_row option" where
  "event_at db run n = List.find (\<lambda>w. w_run_id w = run \<and> w_seq w = n) (events db)"

definition kind_text :: "checkpoint_kind \<Rightarrow> string" where
  "kind_text k = the (map_of ASF_CHECKPOINT_KINDS k)"

definition phase_text :: "phase \<Rightarrow> string" where
  "phase_text p = the (map_of RUN_EVENT_PHASES p)"

text \<open>A stored checkpoint is parsed again and compared with its columns.\<close>

definition validated_checkpoint :: "store_env \<Rightarrow> json \<Rightarrow> json option" where
  "validated_checkpoint env raw =
     safe_parse (recovery env) (durableCheckpointSchema (formats_of (recovery env))) raw"

definition getAsfCheckpoint :: "store_env \<Rightarrow> store \<Rightarrow> string \<Rightarrow> store_error + durable_checkpoint option" where
  "getAsfCheckpoint env db cid =
     (case getAsfCheckpointRecord db cid of
        None \<Rightarrow> Inr None
      | Some rec \<Rightarrow>
          (case json_parse env (c_canonical rec) of
             None \<Rightarrow> Inl Rejected
           | Some raw \<Rightarrow>
               (case parseDurableAsfCheckpoint (recovery env) raw of
                  Inl _ \<Rightarrow> Inl Rejected
                | Inr c \<Rightarrow>
                    if map_option (canonicalJson env) (validated_checkpoint env raw) \<noteq> Some (c_canonical rec) \<or>
                       chk_id c \<noteq> c_id rec \<or>
                       chk_run_id c \<noteq> c_run_id rec \<or> kind_text (chk_kind c) \<noteq> c_kind rec \<or>
                       chk_event_seq c \<noteq> c_event_seq rec \<or>
                       chk_fencing_generation c \<noteq> c_generation rec \<or> chk_digest c \<noteq> c_digest rec
                    then Inl Rejected else Inr (Some c))))"

text \<open>\<open>ORDER BY event_seq DESC, recorded_at DESC, checkpoint_id DESC LIMIT 1\<close>.\<close>

definition later_checkpoint :: "checkpoint_row \<Rightarrow> checkpoint_row \<Rightarrow> bool" where
  "later_checkpoint x y \<longleftrightarrow>
     (c_event_seq x, c_recorded_at x, c_id x) \<ge> (c_event_seq y, c_recorded_at y, c_id y)"

fun latest_row :: "checkpoint_row list \<Rightarrow> checkpoint_row option" where
  "latest_row [] = None"
| "latest_row (c # cs) =
     (case latest_row cs of None \<Rightarrow> Some c | Some d \<Rightarrow> Some (if later_checkpoint c d then c else d))"

definition getLatestAsfCheckpoint ::
  "store_env \<Rightarrow> store \<Rightarrow> string \<Rightarrow> store_error + durable_checkpoint option" where
  "getLatestAsfCheckpoint env db run =
     (case latest_row (filter (\<lambda>c. c_run_id c = run) (checkpoints db)) of
        None \<Rightarrow> Inr None
      | Some c \<Rightarrow> getAsfCheckpoint env db (c_id c))"

end
