(* ===== verification/Checkpoint_Store.thy ===== *)
theory Checkpoint_Store
  imports State_Store
begin

text \<open>
  Writing checkpoints (\<open>src/src/state/store.ts\<close>): the lineage digest of a candidate, the checkpoint that
  is bound to a lifecycle event inside its transaction, its insertion under a unique identifier, and
  the standalone recording under the current fence.
\<close>

definition text_member :: "(string \<times> json) list \<Rightarrow> string \<Rightarrow> string option" where
  "text_member ms k = (case map_of ms k of Some (JString s) \<Rightarrow> Some s | _ \<Rightarrow> None)"

definition lineage_json :: "string \<Rightarrow> string \<Rightarrow> string \<Rightarrow> json" where
  "lineage_json candidate parent tree =
     JObject [(''candidate_sha'', JString candidate), (''parent_sha'', JString parent),
              (''tree_digest'', JString tree)]"

text \<open>The lineage named by the payload of a \<open>candidate.created\<close> event.\<close>

definition lineage_of_payload :: "store_env \<Rightarrow> string \<Rightarrow> (string \<times> json) list \<Rightarrow> store_error + string" where
  "lineage_of_payload env candidate ms =
     (case (text_member ms ''parent_sha'', text_member ms ''tree_digest'') of
        (Some parent, Some tree) \<Rightarrow>
          if map_of ms ''candidate_sha'' \<noteq> Some (JString candidate) then Inl Rejected
          else Inr (digest_of env (lineage_json candidate parent tree))
      | _ \<Rightarrow> Inl Rejected)"

fun latest_event :: "event_row list \<Rightarrow> event_row option" where
  "latest_event [] = None"
| "latest_event (w # ws) =
     (case latest_event ws of None \<Rightarrow> Some w | Some v \<Rightarrow> Some (if w_seq w \<ge> w_seq v then w else v))"

definition candidateLineageDigestForCheckpoint ::
  "store_env \<Rightarrow> store \<Rightarrow> string \<Rightarrow> string option \<Rightarrow> string \<Rightarrow> (string \<times> json) list \<Rightarrow> store_error + string" where
  "candidateLineageDigestForCheckpoint env db run candidate eventType pl =
     (case candidate of
        None \<Rightarrow> Inr (digest_of env (JObject [(''run_id'', JString run), (''candidate_sha'', JNull)]))
      | Some sha \<Rightarrow>
          if eventType = ''candidate.created'' then lineage_of_payload env sha pl
          else (case latest_row (filter (\<lambda>c. c_run_id c = run \<and> c_candidate c = Some sha) (checkpoints db)) of
                  Some prior \<Rightarrow>
                    (case json_parse env (c_canonical prior) of
                       None \<Rightarrow> Inl Rejected
                     | Some raw \<Rightarrow>
                         (case parseDurableAsfCheckpoint (recovery env) raw of
                            Inl _ \<Rightarrow> Inl Rejected
                          | Inr c \<Rightarrow>
                              if chk_run_id c \<noteq> run \<or> chk_candidate_sha c \<noteq> Some sha then Inl Rejected
                              else Inr (chk_candidate_lineage c)))
                | None \<Rightarrow>
                    (case latest_event (filter (\<lambda>w. w_run_id w = run \<and> w_type w = ''candidate.created'') (events db)) of
                       None \<Rightarrow> Inl Rejected
                     | Some w \<Rightarrow>
                         (case json_parse env (w_payload w) of
                            Some (JObject ms) \<Rightarrow> lineage_of_payload env sha ms
                          | _ \<Rightarrow> Inl Rejected))))"

section \<open>The checkpoint of a lifecycle event\<close>

record checkpoint_material =
  m_kind :: checkpoint_kind
  m_inputs :: json
  m_outputs :: json
  m_marker :: "string option"
  m_resume :: "json option"

record checkpoint_binding =
  n_run :: string
  n_work_order :: string
  n_attempt :: string
  n_policy_digest :: string
  n_phase :: phase
  n_seq :: int
  n_generation :: int
  n_candidate :: "string option"
  n_event_type :: string
  n_payload :: "(string \<times> json) list"
  n_at :: string

text \<open>\<open>padStart(2, "0")\<close>, and the first 32 digits of a tagged digest.\<close>

definition pad2 :: "string \<Rightarrow> string" where
  "pad2 s = replicate (2 - length s) (CHR ''0'') @ s"

definition digest_prefix :: "string \<Rightarrow> string" where
  "digest_prefix d = take 32 (drop 7 d)"

definition text_or_null :: "string option \<Rightarrow> json" where
  "text_or_null s = (case s of None \<Rightarrow> JNull | Some t \<Rightarrow> JString t)"

definition checkpoint_id_of :: "store_env \<Rightarrow> checkpoint_binding \<Rightarrow> checkpoint_kind \<Rightarrow> string" where
  "checkpoint_id_of env n kind =
     ''cp_'' @ pad2 (number_text env (of_nat (pol_number (policy_of kind)))) @ ''_'' @
     digest_prefix (digest_of env (JObject [
       (''run_id'', JString (n_run n)), (''event_seq'', JNumber (of_int (n_seq n))),
       (''generation'', JNumber (of_int (n_generation n))), (''kind'', JString (kind_text kind))]))"

definition replay_text :: "replay_policy \<Rightarrow> string" where
  "replay_text p = the (map_of ASF_CHECKPOINT_REPLAY_POLICIES p)"

definition observation_text :: "reconciliation_observation \<Rightarrow> string" where
  "observation_text o' = the (map_of ASF_RECONCILIATION_OBSERVATIONS o')"

definition default_marker :: "store_env \<Rightarrow> checkpoint_binding \<Rightarrow> checkpoint_kind \<Rightarrow> string" where
  "default_marker env n kind =
     ''checkpoint:'' @ n_run n @ '':'' @ kind_text kind @ '':'' @ number_text env (of_int (n_seq n))"

definition bound_checkpoint_json ::
  "store_env \<Rightarrow> checkpoint_binding \<Rightarrow> checkpoint_material \<Rightarrow> string \<Rightarrow> json" where
  "bound_checkpoint_json env n m lineage =
     (let policy = policy_of (m_kind m);
          marker = (case m_marker m of None \<Rightarrow> default_marker env n (m_kind m) | Some t \<Rightarrow> t)
      in JObject [
        (''schema'', JString ''asf.durable-checkpoint/v1''),
        (''checkpoint_id'', JString (checkpoint_id_of env n (m_kind m))),
        (''checkpoint_kind'', JString (kind_text (m_kind m))),
        (''run_id'', JString (n_run n)),
        (''work_order_id'', JString (n_work_order n)),
        (''attempt_id'', JString (n_attempt n)),
        (''phase'', JString (phase_text (n_phase n))),
        (''event_seq'', JNumber (of_int (n_seq n))),
        (''fencing_generation'', JNumber (of_int (n_generation n))),
        (''policy_digest'', JString (n_policy_digest n)),
        (''candidate_sha'', text_or_null (n_candidate n)),
        (''candidate_lineage_digest'', JString lineage),
        (''durable_inputs_digest'', JString (digest_of env (m_inputs m))),
        (''durable_outputs_digest'', JString (digest_of env (m_outputs m))),
        (''replay_policy'', JString (replay_text (replayPolicy policy))),
        (''reconciliation_markers'', JArray (map (\<lambda>o'. JObject [
           (''observation'', JString (observation_text o')),
           (''correlation_marker'', JString marker)]) (reconciliationBeforeReplay policy))),
        (''protected_implementer_resume'', (case m_resume m of None \<Rightarrow> JNull | Some r \<Rightarrow> r)),
        (''created_at'', JString (n_at n))])"

text \<open>The checkpoint as the value to store and as the record it is read as.\<close>

definition createAsfBoundCheckpoint ::
  "store_env \<Rightarrow> store \<Rightarrow> checkpoint_binding \<Rightarrow> checkpoint_material \<Rightarrow> store_error + (json \<times> durable_checkpoint)" where
  "createAsfBoundCheckpoint env db n m =
     and_then (candidateLineageDigestForCheckpoint env db (n_run n) (n_candidate n) (n_event_type n) (n_payload n))
       (\<lambda>lineage.
         case createDurableAsfCheckpoint (recovery env) (bound_checkpoint_json env n m lineage) of
           Inl _ \<Rightarrow> Inl Rejected
         | Inr value \<Rightarrow>
             (case parseDurableAsfCheckpoint (recovery env) value of
                Inl _ \<Rightarrow> Inl Rejected
              | Inr c \<Rightarrow> Inr (value, c)))"

definition checkpoint_row_of :: "durable_checkpoint \<Rightarrow> string \<Rightarrow> string \<Rightarrow> checkpoint_row" where
  "checkpoint_row_of c canonical recordedAt =
     \<lparr>c_id = chk_id c, c_run_id = chk_run_id c, c_kind = kind_text (chk_kind c),
      c_phase = phase_text (chk_phase c), c_event_seq = chk_event_seq c,
      c_generation = chk_fencing_generation c, c_candidate = chk_candidate_sha c,
      c_policy_digest = chk_policy_digest c, c_digest = chk_digest c,
      c_replay_policy = replay_text (chk_replay_policy c), c_canonical = canonical,
      c_created_at = chk_created_at c, c_recorded_at = recordedAt\<rparr>"

definition insertAsfCheckpoint ::
  "store \<Rightarrow> durable_checkpoint \<Rightarrow> string \<Rightarrow> string \<Rightarrow> store_error + (store \<times> checkpoint_row \<times> bool)" where
  "insertAsfCheckpoint db c canonical recordedAt =
     (case getAsfCheckpointRecord db (chk_id c) of
        Some existing \<Rightarrow>
          (if c_digest existing \<noteq> chk_digest c \<or> c_canonical existing \<noteq> canonical then Inl Rejected
           else Inr (db, existing, False))
      | None \<Rightarrow>
          (let row = checkpoint_row_of c canonical recordedAt
           in if list_ex (\<lambda>d. c_digest d = c_digest row \<or> (c_run_id d = c_run_id row \<and>
                   c_kind d = c_kind row \<and> c_event_seq d = c_event_seq row)) (checkpoints db)
              then Inl Rejected   \<comment> \<open>unique digest, and unique run, kind and event\<close>
              else Inr (db\<lparr>checkpoints := checkpoints db @ [row]\<rparr>, row, True)))"

section \<open>Recording a checkpoint under the current fence\<close>

definition recordAsfCheckpoint ::
  "store_env \<Rightarrow> store \<Rightarrow> json \<Rightarrow> string \<Rightarrow> int \<Rightarrow> store_error + (store \<times> checkpoint_row \<times> bool)" where
  "recordAsfCheckpoint env db raw ownerId gen =
     (case parseDurableAsfCheckpoint (recovery env) raw of
        Inl _ \<Rightarrow> Inl Rejected
      | Inr c \<Rightarrow>
          (case (getAsfRun db (chk_run_id c), getAsfAdmissionForRun db (chk_run_id c)) of
             (Some run, Some adm) \<Rightarrow>
               if r_owner run \<noteq> Some ownerId \<or> r_generation run \<noteq> gen then Inl StaleLease
               else if getAsfTerminalEvidencePlanRecord db (chk_run_id c) \<noteq> None then Inl EvidenceConflict
               else (case event_at db (chk_run_id c) (chk_event_seq c) of
                  None \<Rightarrow> Inl Rejected
                | Some event \<Rightarrow>
                    if chk_work_order_id c \<noteq> a_work_order adm \<or> chk_attempt_id c \<noteq> a_attempt_id adm \<or>
                       chk_policy_digest c \<noteq> a_policy_digest adm \<or> chk_fencing_generation c \<noteq> gen \<or>
                       chk_event_seq c \<noteq> r_version run \<or> chk_phase c \<noteq> r_state run \<or>
                       chk_candidate_sha c \<noteq> r_candidate run \<or> w_phase event \<noteq> phase_text (chk_phase c) \<or>
                       w_policy_digest event \<noteq> chk_policy_digest c \<or>
                       js_lt (parse_time env (chk_created_at c)) (parse_time env (w_at event)) \<or>
                       js_lt (Some (clock env)) (parse_time env (chk_created_at c))
                    then Inl Rejected
                    else and_then (now_iso env) (\<lambda>recordedAt.
                           case validated_checkpoint env raw of
                             None \<Rightarrow> Inl Rejected
                           | Some value \<Rightarrow> insertAsfCheckpoint db c (canonicalJson env value) recordedAt))
           | _ \<Rightarrow> Inl Rejected))"

end
