(* ===== verification/Run_Ownership.thy ===== *)
theory Run_Ownership
  imports Checkpoint_Store
begin

text \<open>
  Ownership of a supervised run (\<open>claimAsfRun\<close>, \<open>heartbeatAsfRun\<close> and \<open>releaseAsfRunOwnership\<close> of
  \<open>src/src/state/store.ts\<close>): every acquisition takes the next fencing generation, a live owner keeps
  its run, a repository has at most one live owner, and the host runs at most the configured number.
\<close>

definition update_run :: "store \<Rightarrow> string \<Rightarrow> (run_row \<Rightarrow> run_row) \<Rightarrow> store" where
  "update_run db run f = db\<lparr>runs := map (\<lambda>r. if r_run_id r = run then f r else r) (runs db)\<rparr>"

record claim_input =
  cl_run :: string
  cl_owner :: string
  cl_stale_before :: string
  cl_max_concurrency :: "int option"

text \<open>Row of a run that is owned with a heartbeat at or after the staleness bound.\<close>

definition live_owner :: "string \<Rightarrow> run_row \<Rightarrow> bool" where
  "live_owner staleBefore r \<longleftrightarrow>
     r_owner r \<noteq> None \<and> (case r_heartbeat r of None \<Rightarrow> False | Some h \<Rightarrow> h \<ge> staleBefore)"

definition liveOwners :: "store \<Rightarrow> claim_input \<Rightarrow> run_row list" where
  "liveOwners db i =
     filter (\<lambda>r. r_run_id r \<noteq> cl_run i \<and> live_owner (cl_stale_before i) r \<and>
                 \<not> isTerminalRunEventPhase (r_state r)) (runs db)"

text \<open>The checkpoint of a first claim, which must start from the durable admission event.\<close>

definition admission_checkpoint_of ::
  "store_env \<Rightarrow> store \<Rightarrow> run_row \<Rightarrow> int \<Rightarrow> string \<Rightarrow> store_error + store" where
  "admission_checkpoint_of env db row gen at_time =
     (if r_state row \<noteq> ADMITTED \<or> r_version row \<noteq> 1 \<or> r_candidate row \<noteq> None then Inl Rejected
      else case (getAsfAdmissionForRun db (r_run_id row), event_at db (r_run_id row) 1) of
        (Some adm, Some event) \<Rightarrow>
          if w_type event \<noteq> ''work_order.admitted'' \<or> w_phase event \<noteq> ''ADMITTED'' \<or>
             w_policy_digest event \<noteq> a_policy_digest adm \<or>
             js_lt (parse_time env at_time) (parse_time env (w_at event))
          then Inl Rejected
          else and_then (createAsfBoundCheckpoint env db
                 \<lparr>n_run = r_run_id row, n_work_order = a_work_order adm, n_attempt = a_attempt_id adm,
                  n_policy_digest = a_policy_digest adm, n_phase = ADMITTED, n_seq = 1,
                  n_generation = gen, n_candidate = None, n_event_type = w_type event, n_payload = [],
                  n_at = at_time\<rparr>
                 \<lparr>m_kind = WorkOrderAdmission,
                  m_inputs = JObject [(''envelope_digest'', JString (a_envelope_digest adm)),
                                      (''payload_digest'', JString (a_payload_digest adm))],
                  m_outputs = JObject [(''admission_digest'', JString (digest_of env (JObject [
                     (''run_id'', JString (r_run_id row)),
                     (''policy_digest'', JString (a_policy_digest adm))])))],
                  m_marker = None, m_resume = None\<rparr>)
               (\<lambda>(value, c). and_then (insertAsfCheckpoint db c (canonicalJson env value) at_time)
                  (\<lambda>(db', _). Inr db'))
      | _ \<Rightarrow> Inl Rejected)"

text \<open>The result is the new generation and whether a prior generation's checkpoint is taken over;
  \<open>None\<close> when the claim is refused without an error.\<close>

definition claimAsfRun :: "store_env \<Rightarrow> store \<Rightarrow> claim_input \<Rightarrow> store_error + (store \<times> (int \<times> bool) option)" where
  "claimAsfRun env db i =
     (let maxHostConcurrency = (case cl_max_concurrency i of None \<Rightarrow> 1 | Some n \<Rightarrow> n)
      in if \<not> safe_int maxHostConcurrency \<or> maxHostConcurrency < 1 then Inl Rejected
         else case getAsfRun db (cl_run i) of
           None \<Rightarrow> Inr (db, None)
         | Some row \<Rightarrow>
             if isTerminalRunEventPhase (r_state row) then Inr (db, None)
             else and_then (now_iso env) (\<lambda>at_time.
               if live_owner (cl_stale_before i) row then Inr (db, None)
               else if list_ex (\<lambda>r. js_to_lower (r_repo r) = js_to_lower (r_repo row)) (liveOwners db i)
               then Inr (db, None)
               else if int (length (liveOwners db i)) \<ge> maxHostConcurrency then Inr (db, None)
               else and_then (getLatestAsfCheckpoint env db (cl_run i)) (\<lambda>latest.
                 if (case latest of None \<Rightarrow> False | Some c \<Rightarrow> chk_fencing_generation c > r_generation row)
                 then Inl Rejected
                 else
                   let gen = r_generation row + 1;
                       takeover = (case latest of None \<Rightarrow> False | Some c \<Rightarrow> chk_fencing_generation c < gen);
                       db1 = update_run db (cl_run i) (\<lambda>r. r\<lparr>r_owner := Some (cl_owner i),
                               r_generation := gen, r_heartbeat := Some at_time, r_updated := at_time\<rparr>)
                   in (case latest of
                         Some _ \<Rightarrow> Inr (db1, Some (gen, takeover))
                       | None \<Rightarrow> and_then (admission_checkpoint_of env db1 row gen at_time)
                           (\<lambda>db2. Inr (db2, Some (gen, takeover)))))))"

definition owns :: "store \<Rightarrow> string \<Rightarrow> string \<Rightarrow> int \<Rightarrow> bool" where
  "owns db run ownerId gen \<longleftrightarrow>
     (case getAsfRun db run of None \<Rightarrow> False | Some r \<Rightarrow> r_owner r = Some ownerId \<and> r_generation r = gen)"

definition heartbeatAsfRun :: "store_env \<Rightarrow> store \<Rightarrow> string \<Rightarrow> string \<Rightarrow> int \<Rightarrow> store_error + store" where
  "heartbeatAsfRun env db run ownerId gen =
     and_then (now_iso env) (\<lambda>at_time.
       if \<not> owns db run ownerId gen then Inl StaleLease
       else Inr (update_run db run (\<lambda>r. r\<lparr>r_heartbeat := Some at_time, r_updated := at_time\<rparr>)))"

definition releaseAsfRunOwnership :: "store_env \<Rightarrow> store \<Rightarrow> string \<Rightarrow> string \<Rightarrow> int \<Rightarrow> store_error + store" where
  "releaseAsfRunOwnership env db run ownerId gen =
     and_then (now_iso env) (\<lambda>at_time.
       if \<not> owns db run ownerId gen then Inl StaleLease
       else Inr (update_run db run (\<lambda>r. r\<lparr>r_owner := None, r_heartbeat := None, r_updated := at_time\<rparr>)))"

section \<open>Lemmas\<close>

text \<open>The primary key of the table of runs.\<close>

definition run_ids_distinct :: "store \<Rightarrow> bool" where
  "run_ids_distinct db \<longleftrightarrow> distinct (map r_run_id (runs db))"

definition generation_of :: "store \<Rightarrow> string \<Rightarrow> int option" where
  "generation_of db run = map_option r_generation (getAsfRun db run)"

lemma find_map_update:
  "(\<And>r. r_run_id (f r) = r_run_id r) \<Longrightarrow>
     List.find (\<lambda>r. r_run_id r = k) (map (\<lambda>r. if r_run_id r = run then f r else r) rs) =
       map_option (\<lambda>r. if r_run_id r = run then f r else r) (List.find (\<lambda>r. r_run_id r = k) rs)"
  by (induction rs) auto

lemma getAsfRun_update:
  assumes "\<And>r. r_run_id (f r) = r_run_id r"
  shows "getAsfRun (update_run db run f) k =
    map_option (\<lambda>r. if k = run then f r else r) (getAsfRun db k)"
proof -
  have "List.find (\<lambda>r. r_run_id r = k) rs = Some r \<Longrightarrow> r_run_id r = k" for rs r
    by (auto simp: find_Some_iff)
  then show ?thesis
    by (cases "getAsfRun db k") (auto simp: getAsfRun_def update_run_def find_map_update assms)
qed

lemma update_run_tables [simp]:
  "admissions (update_run db run f) = admissions db" "checkpoints (update_run db run f) = checkpoints db"
  "events (update_run db run f) = events db" "intents (update_run db run f) = intents db"
  "effects (update_run db run f) = effects db" "reservations (update_run db run f) = reservations db"
  "terminal_plans (update_run db run f) = terminal_plans db"
  by (simp_all add: update_run_def)

lemma insertAsfCheckpoint_runs:
  "insertAsfCheckpoint db c canonical t = Inr (db', row, fresh) \<Longrightarrow> \<exists>cs. db' = db\<lparr>checkpoints := cs\<rparr>"
  by (auto simp: insertAsfCheckpoint_def Let_def split: option.splits if_splits)
    (metis store.surjective store.update_convs(3))

lemma admission_checkpoint_runs:
  "admission_checkpoint_of env db row gen t = Inr db' \<Longrightarrow> \<exists>cs. db' = db\<lparr>checkpoints := cs\<rparr>"
  by (auto simp: admission_checkpoint_of_def and_then_Inr_iff split: if_splits option.splits
      dest!: insertAsfCheckpoint_runs)

text \<open>A store with the admitted run \<open>''r''\<close> and its first event.\<close>

definition sample_store_env :: store_env where
  "sample_store_env = \<lparr>recovery = digest_env\<lparr>date_parse := (\<lambda>_. Some 0)\<rparr>, json_parse = (\<lambda>_. Some (JObject [])),
     canonicalJson = (\<lambda>_. ''doc''), iso = (\<lambda>_. Some ''2026''), sha_hex = (\<lambda>s. s),
     number_text = (\<lambda>_. ''1''),
     stringify = (\<lambda>_. ''{}''), localeCompare = (\<lambda>s t. if s < t then -1 else if t < s then 1 else 0)\<rparr>"

definition sample_run :: "string \<Rightarrow> run_row" where
  "sample_run run = \<lparr>r_run_id = run, r_issue_id = ''i'', r_repo = ''o/n'', r_provider = ''p'', r_state = ADMITTED,
     r_version = 1, r_attempt = 1, r_base = None, r_candidate = None, r_branch = None, r_work_order = ''w'',
     r_attempt_id = ''a'', r_generation = 0, r_owner = None, r_heartbeat = None, r_resume_phase = None,
     r_reconcile = False, r_updated = ''2025'', r_created = ''2025''\<rparr>"

definition sample_admission :: "string \<Rightarrow> admission" where
  "sample_admission run = \<lparr>a_idempotency_key = ''k'', a_payload_digest = sample_digest,
     a_envelope_digest = sample_digest, a_envelope = ''e'', a_work_order = ''w'', a_attempt_id = ''a'',
     a_tenant = ''t'', a_run_id = run, a_policy = ''p'', a_policy_digest = sample_digest, a_key_id = ''k'',
     a_algorithm = ''ed25519'', a_accepted_at = ''2025'', a_compacted = 0\<rparr>"

definition sample_event :: "string \<Rightarrow> event_row" where
  "sample_event run = \<lparr>w_run_id = run, w_seq = 1, w_type = ''work_order.admitted'', w_payload = ''{}'',
     w_at = ''2025'', w_event_id = ''e'', w_schema = ''s'', w_phase = ''ADMITTED'', w_policy_digest = sample_digest\<rparr>"

definition empty_store :: store where
  "empty_store = \<lparr>runs = [], admissions = [], checkpoints = [], events = [], intents = [],
     intent_observations = [], effects = [], effect_observations = [], reservations = [],
     terminal_plans = [], reconciliations = [], gate_results = [], evidence_bundles = [], approvals = [],
     transitions = [], cancellations = [], terminal_bundles = [], acknowledgements = []\<rparr>"

definition sample_store :: store where
  "sample_store = empty_store\<lparr>runs := [sample_run ''r'', (sample_run ''q'')\<lparr>r_owner := Some ''v'',
     r_generation := 1, r_heartbeat := Some ''2024''\<rparr>], admissions := [sample_admission ''r''],
     events := [sample_event ''r'']\<rparr>"

definition sample_claim :: claim_input where
  "sample_claim = \<lparr>cl_run = ''r'', cl_owner = ''o'', cl_stale_before = ''2025'', cl_max_concurrency = None\<rparr>"

lemma sample_claimed:
  "case claimAsfRun sample_store_env sample_store sample_claim of
     Inr (db, Some (g, takeover)) \<Rightarrow>
       g = 1 \<and> owns db ''r'' ''o'' 1 \<and>
       (case heartbeatAsfRun sample_store_env db ''q'' ''v'' 1 of
          Inr db' \<Rightarrow> map (\<lambda>r. (r_run_id r, r_owner r)) (filter (\<lambda>r. live_owner ''2026'' r \<and>
              \<not> isTerminalRunEventPhase (r_state r) \<and> r_repo r = ''o/n'') (runs db')) =
            [(''r'', Some ''o''), (''q'', Some ''v'')]
        | Inl _ \<Rightarrow> False)
   | _ \<Rightarrow> False"
  by code_simp

lemma getAsfRun_id: "getAsfRun db run = Some r \<Longrightarrow> r_run_id r = run"
  by (auto simp: getAsfRun_def find_Some_iff)

lemma guard_Inr_iff [result_simps]: "(if b then Inl e else k) = Inr y \<longleftrightarrow> \<not> b \<and> k = Inr y"
  by simp

lemma decline_Some_iff: "(if b then Inr (x, None) else k) = Inr (y, Some z) \<longleftrightarrow> \<not> b \<and> k = Inr (y, Some z)"
  by simp

lemma now_iso_Inr_iff [result_simps]: "now_iso env = Inr s \<longleftrightarrow> iso env (clock env) = Some s"
  by (simp add: now_iso_def split: option.splits)

lemma claim_Some:
  assumes "claimAsfRun env db i = Inr (db', Some (gen, takeover))"
  shows "\<exists>row at_time cs. getAsfRun db (cl_run i) = Some row \<and> \<not> isTerminalRunEventPhase (r_state row) \<and>
     \<not> live_owner (cl_stale_before i) row \<and>
     \<not> list_ex (\<lambda>r. js_to_lower (r_repo r) = js_to_lower (r_repo row)) (liveOwners db i) \<and>
     int (length (liveOwners db i)) < (case cl_max_concurrency i of None \<Rightarrow> 1 | Some n \<Rightarrow> n) \<and>
     gen = r_generation row + 1 \<and> iso env (clock env) = Some at_time \<and>
     (case getLatestAsfCheckpoint env db (cl_run i) of Inr (Some c) \<Rightarrow>
        chk_fencing_generation c < gen \<and> takeover | Inr None \<Rightarrow> \<not> takeover | Inl _ \<Rightarrow> False) \<and>
     db' = (update_run db (cl_run i) (\<lambda>r. r\<lparr>r_owner := Some (cl_owner i),
              r_generation := gen, r_heartbeat := Some at_time, r_updated := at_time\<rparr>))\<lparr>checkpoints := cs\<rparr>"
proof (cases "getAsfRun db (cl_run i)")
  case None
  then show ?thesis using assms by (simp add: claimAsfRun_def Let_def split: if_splits)
next
  case (Some row)
  let ?up = "\<lambda>at_time. update_run db (cl_run i) (\<lambda>r. r\<lparr>r_owner := Some (cl_owner i),
     r_generation := r_generation row + 1, r_heartbeat := Some at_time, r_updated := at_time\<rparr>)"
  let ?take = "\<lambda>l. case l of None \<Rightarrow> False | Some c \<Rightarrow> chk_fencing_generation c < r_generation row + 1"
  have same: "x = x\<lparr>checkpoints := checkpoints x\<rparr>" for x :: store by simp
  obtain at_time latest where c: "iso env (clock env) = Some at_time" "\<not> isTerminalRunEventPhase (r_state row)"
    "\<not> live_owner (cl_stale_before i) row"
    "\<not> list_ex (\<lambda>r. js_to_lower (r_repo r) = js_to_lower (r_repo row)) (liveOwners db i)"
    "\<not> int (length (liveOwners db i)) \<ge> (case cl_max_concurrency i of None \<Rightarrow> 1 | Some n \<Rightarrow> n)"
    "getLatestAsfCheckpoint env db (cl_run i) = Inr latest"
    "(case latest of None \<Rightarrow> and_then (admission_checkpoint_of env (?up at_time) row (r_generation row + 1) at_time)
        (\<lambda>db2. Inr (db2, Some (r_generation row + 1, ?take latest)))
      | Some _ \<Rightarrow> Inr (?up at_time, Some (r_generation row + 1, ?take latest)))
     = Inr (db', Some (gen, takeover))"
    "\<not> (case latest of None \<Rightarrow> False | Some c \<Rightarrow> chk_fencing_generation c > r_generation row)"
    using assms unfolding claimAsfRun_def Let_def Some option.case guard_Inr_iff decline_Some_iff
      and_then_Inr_iff now_iso_Inr_iff by blast
  have "gen = r_generation row + 1 \<and> (\<exists>cs. db' = (?up at_time)\<lparr>checkpoints := cs\<rparr>) \<and>
      (case latest of None \<Rightarrow> \<not> takeover | Some c \<Rightarrow> chk_fencing_generation c < gen \<and> takeover)"
  proof (cases latest)
    case None
    with c(7) show ?thesis by (auto simp: and_then_Inr_iff dest!: admission_checkpoint_runs)
  next
    case (Some k)
    with c(7,8) show ?thesis by (auto intro: same)
  qed
  with c Some show ?thesis by (cases latest) auto
qed

text \<open>C9: A run is claimed only when it is not finished, has no live owner, no other live run works on the
  same repository up to the case of its name, and the host has a free place; the claim hands out the
  next generation, makes the claimer the owner, and leaves every other run alone. A checkpoint of
  this or a later generation never precedes the claim.\<close>

theorem claim_is_exclusive:
  assumes "claimAsfRun env db i = Inr (db', Some (gen, takeover))"
  shows "\<exists>row. getAsfRun db (cl_run i) = Some row \<and> \<not> isTerminalRunEventPhase (r_state row) \<and>
     \<not> live_owner (cl_stale_before i) row \<and>
     list_all (\<lambda>r. r_run_id r = cl_run i \<or> isTerminalRunEventPhase (r_state r) \<or>
        \<not> live_owner (cl_stale_before i) r \<or> js_to_lower (r_repo r) \<noteq> js_to_lower (r_repo row)) (runs db) \<and>
     int (length (liveOwners db i)) < (case cl_max_concurrency i of None \<Rightarrow> 1 | Some n \<Rightarrow> n) \<and>
     gen = r_generation row + 1 \<and> owns db' (cl_run i) (cl_owner i) gen \<and>
     (\<forall>other. other = cl_run i \<or> getAsfRun db' other = getAsfRun db other) \<and>
     (case getLatestAsfCheckpoint env db (cl_run i) of
        Inr (Some c) \<Rightarrow> chk_fencing_generation c < gen \<and> takeover
      | Inr None \<Rightarrow> \<not> takeover | Inl _ \<Rightarrow> False)"
proof -
  obtain row at_time cs where c: "getAsfRun db (cl_run i) = Some row"
    "\<not> isTerminalRunEventPhase (r_state row)" "\<not> live_owner (cl_stale_before i) row"
    "\<not> list_ex (\<lambda>r. js_to_lower (r_repo r) = js_to_lower (r_repo row)) (liveOwners db i)"
    "int (length (liveOwners db i)) < (case cl_max_concurrency i of None \<Rightarrow> 1 | Some n \<Rightarrow> n)"
    "gen = r_generation row + 1"
    "case getLatestAsfCheckpoint env db (cl_run i) of Inr (Some c) \<Rightarrow>
        chk_fencing_generation c < gen \<and> takeover | Inr None \<Rightarrow> \<not> takeover | Inl _ \<Rightarrow> False"
    "db' = (update_run db (cl_run i) (\<lambda>r. r\<lparr>r_owner := Some (cl_owner i),
              r_generation := gen, r_heartbeat := Some at_time, r_updated := at_time\<rparr>))\<lparr>checkpoints := cs\<rparr>"
    using claim_Some [OF assms] by blast
  have get: "getAsfRun db' other = map_option (\<lambda>r. if other = cl_run i then r\<lparr>r_owner := Some (cl_owner i),
      r_generation := gen, r_heartbeat := Some at_time, r_updated := at_time\<rparr> else r) (getAsfRun db other)" for other
    unfolding c(8) using getAsfRun_update [of _ db "cl_run i" other] by (simp add: getAsfRun_def)
  have "list_all (\<lambda>r. r_run_id r = cl_run i \<or> isTerminalRunEventPhase (r_state r) \<or>
        \<not> live_owner (cl_stale_before i) r \<or> js_to_lower (r_repo r) \<noteq> js_to_lower (r_repo row)) (runs db)"
    using c(4) by (auto simp: liveOwners_def list_ex_iff list_all_iff)
  moreover have "owns db' (cl_run i) (cl_owner i) gen" by (simp add: owns_def get c(1))
  moreover have "other = cl_run i \<or> getAsfRun db' other = getAsfRun db other" for other
    by (cases "getAsfRun db other") (simp_all add: get)
  ultimately show ?thesis using c by blast
qed

theorem claim_is_exclusive_witness:
  "\<exists>db' g t. claimAsfRun sample_store_env sample_store sample_claim = Inr (db', Some (g, t)) \<and>
     owns db' ''r'' ''o'' g"
proof -
  obtain db' g t where "claimAsfRun sample_store_env sample_store sample_claim = Inr (db', Some (g, t))"
    using sample_claimed by (auto split: sum.splits option.splits prod.splits)
  from this claim_is_exclusive [OF this] show ?thesis by (auto simp: sample_claim_def)
qed


end
