(* ===== verification/Delivery_Intents.thy ===== *)
theory Delivery_Intents
  imports Run_Ownership
begin

text \<open>
  The intents of delivery effects (\<open>src/src/state/store.ts\<close>): their derived identities, the checks a
  stored row passes every time it is read, and the pure parts that the operations on intents and
  provider budgets share. A fencing violation throws \<open>RM-LEASE-001\<close>, everything else \<open>RM-STATE-002\<close>.
\<close>

section \<open>Frozen phases and formats\<close>

definition ASF_EXTERNAL_AUTHORITY_FROZEN_PHASES :: "phase list" where
  "ASF_EXTERNAL_AUTHORITY_FROZEN_PHASES =
     [CANCEL_REQUESTED, CANCELLING, WAITING_APPROVAL, NEEDS_SPEC, BLOCKED_EXTERNAL]"

definition asfPhaseFreezesExternalAuthority :: "phase \<Rightarrow> bool" where
  "asfPhaseFreezesExternalAuthority p \<longleftrightarrow>
     p \<in> set ASF_EXTERNAL_AUTHORITY_FROZEN_PHASES \<or> isTerminalRunEventPhase p"

definition isCanonicalIsoTimestamp :: "store_env \<Rightarrow> string \<Rightarrow> bool" where
  "isCanonicalIsoTimestamp env s \<longleftrightarrow>
     (case parse_time env s of None \<Rightarrow> False | Some t \<Rightarrow> iso env t = Some s)"

definition ASF_DELIVERY_INTENT_STAGES :: "string list" where
  "ASF_DELIVERY_INTENT_STAGES =
     [''repository-lease'', ''identity-leases'', ''workspace'', ''task-packet'', ''implementer-session'',
      ''candidate'', ''local-verification'', ''local-review'', ''candidate-invalidation'', ''branch-push'',
      ''pull-request'', ''ci'', ''pull-request-review'', ''evidence'', ''cleanup'']"

text \<open>\<open>/^[^\u0000-\u001f\u007f]{1,512}$/u\<close>\<close>

definition ASF_DELIVERY_IDENTIFIER :: "string \<Rightarrow> bool" where
  "ASF_DELIVERY_IDENTIFIER s \<longleftrightarrow> s \<noteq> [] \<and> length s \<le> 512 \<and>
     list_all (\<lambda>c. \<not> char_in 0 31 c \<and> \<not> char_in 127 127 c) s"

definition optional_sha :: "string option \<Rightarrow> bool" where
  "optional_sha s \<longleftrightarrow> (case s of None \<Rightarrow> True | Some t \<Rightarrow> is_git_sha t)"

section \<open>Identity of an intent\<close>

definition unsigned_members :: "'a delivery_intent_scheme \<Rightarrow> (string \<times> json) list" where
  "unsigned_members i =
     [(''schema'', JString (i_schema i)), (''intent_id'', JString (i_id i)),
      (''effect_key'', JString (i_effect_key i)), (''stage'', JString (i_stage i)),
      (''run_id'', JString (i_run_id i)), (''work_order_id'', JString (i_work_order i)),
      (''attempt_id'', JString (i_attempt_id i)), (''policy_digest'', JString (i_policy_digest i)),
      (''fencing_generation'', JNumber (of_int (i_generation i))),
      (''candidate_sha'', text_or_null (i_candidate i)), (''event_seq'', JNumber (of_int (i_event_seq i))),
      (''operation_digest'', JString (i_operation_digest i)), (''created_at'', JString (i_created_at i))]"

definition asfDeliveryUnsignedIntent :: "'a delivery_intent_scheme \<Rightarrow> json" where
  "asfDeliveryUnsignedIntent i = JObject (unsigned_members i)"

definition expected_effect_key :: "store_env \<Rightarrow> 'a delivery_intent_scheme \<Rightarrow> string" where
  "expected_effect_key env i = ''delivery_effect_'' @ digest_prefix (digest_of env (JObject
     [(''stage'', JString (i_stage i)), (''run_id'', JString (i_run_id i)),
      (''candidate_sha'', text_or_null (i_candidate i)), (''event_seq'', JNumber (of_int (i_event_seq i))),
      (''operation_digest'', JString (i_operation_digest i))]))"

definition expected_intent_id :: "store_env \<Rightarrow> 'a delivery_intent_scheme \<Rightarrow> string" where
  "expected_intent_id env i = ''delivery_'' @ digest_prefix (digest_of env (JObject
     [(''effect_key'', JString (i_effect_key i)), (''generation'', JNumber (of_int (i_generation i)))]))"

definition intent_well_formed :: "store_env \<Rightarrow> 'a delivery_intent_scheme \<Rightarrow> bool" where
  "intent_well_formed env i \<longleftrightarrow>
     i_schema i = ''asf.delivery-stage-intent/v1'' \<and> i_stage i \<in> set ASF_DELIVERY_INTENT_STAGES \<and>
     ASF_DELIVERY_IDENTIFIER (i_id i) \<and> ASF_DELIVERY_IDENTIFIER (i_effect_key i) \<and>
     ASF_DELIVERY_IDENTIFIER (i_run_id i) \<and> ASF_DELIVERY_IDENTIFIER (i_work_order i) \<and>
     ASF_DELIVERY_IDENTIFIER (i_attempt_id i) \<and> is_digest (i_digest i) \<and> is_digest (i_policy_digest i) \<and>
     is_digest (i_operation_digest i) \<and> optional_sha (i_candidate i) \<and>
     safe_int (i_generation i) \<and> i_generation i \<ge> 1 \<and> safe_int (i_event_seq i) \<and> i_event_seq i \<ge> 1 \<and>
     parse_time env (i_created_at i) \<noteq> None"

text \<open>The keys of the argument are those of the record. The result is the canonical text.\<close>

definition assertValidAsfDeliveryIntent ::
  "store_env \<Rightarrow> 'a delivery_intent_scheme \<Rightarrow> store_error + string" where
  "assertValidAsfDeliveryIntent env i =
     (if \<not> intent_well_formed env i then Inl StateConflict
      else if i_effect_key i \<noteq> expected_effect_key env i then Inl StateConflict
      else if i_id i \<noteq> expected_intent_id env i then Inl StateConflict
      else if digest_of env (asfDeliveryUnsignedIntent i) \<noteq> i_digest i then Inl StateConflict
      else Inr (canonicalJson env (JObject (unsigned_members i @ [(''intent_digest'', JString (i_digest i))]))))"

definition effect_json :: "'a delivery_intent_scheme \<Rightarrow> json" where
  "effect_json i = JObject
     [(''schema'', JString (i_schema i)), (''effect_key'', JString (i_effect_key i)),
      (''stage'', JString (i_stage i)), (''run_id'', JString (i_run_id i)),
      (''work_order_id'', JString (i_work_order i)), (''attempt_id'', JString (i_attempt_id i)),
      (''policy_digest'', JString (i_policy_digest i)), (''candidate_sha'', text_or_null (i_candidate i)),
      (''event_seq'', JNumber (of_int (i_event_seq i))),
      (''operation_digest'', JString (i_operation_digest i)), (''created_at'', JString (i_created_at i))]"

definition sameAsfDeliveryEffect ::
  "store_env \<Rightarrow> 'a delivery_intent_scheme \<Rightarrow> 'b delivery_intent_scheme \<Rightarrow> bool" where
  "sameAsfDeliveryEffect env l r \<longleftrightarrow> canonicalJson env (effect_json l) = canonicalJson env (effect_json r)"

section \<open>Reading a stored intent\<close>

definition absent_or :: "('a \<Rightarrow> bool) \<Rightarrow> 'a option \<Rightarrow> bool" where
  "absent_or ok x \<longleftrightarrow> (case x of None \<Rightarrow> True | Some v \<Rightarrow> ok v)"

definition confirmation_absent :: "'a stored_intent_scheme \<Rightarrow> bool" where
  "confirmation_absent r \<longleftrightarrow> i_observation_digest r = None \<and> i_outcome r = None \<and>
     i_confirmed_generation r = None \<and> i_confirmed_at r = None"

definition confirmation_present :: "'a stored_intent_scheme \<Rightarrow> bool" where
  "confirmation_present r \<longleftrightarrow> i_observation_digest r \<noteq> None \<and> i_outcome r \<noteq> None \<and>
     i_confirmed_generation r \<noteq> None \<and> i_confirmed_at r \<noteq> None"

definition replay_absent :: "'a stored_intent_scheme \<Rightarrow> bool" where
  "replay_absent r \<longleftrightarrow> i_replay_operation r = None \<and> i_replay_generation r = None"

definition replay_present :: "'a stored_intent_scheme \<Rightarrow> bool" where
  "replay_present r \<longleftrightarrow> i_replay_operation r \<noteq> None \<and> i_replay_generation r \<noteq> None"

definition confirmation_consistent :: "store_env \<Rightarrow> int \<Rightarrow> 'a stored_intent_scheme \<Rightarrow> bool" where
  "confirmation_consistent env fence r \<longleftrightarrow>
     safe_int fence \<and> fence \<ge> 1 \<and> isCanonicalIsoTimestamp env (i_created_at r) \<and>
     \<not> js_lt (Some (clock env)) (parse_time env (i_created_at r)) \<and>
     (confirmation_absent r \<or> confirmation_present r) \<and> (replay_absent r \<or> replay_present r) \<and>
     \<not> (confirmation_present r \<and> replay_present r) \<and>
     absent_or is_digest (i_observation_digest r) \<and>
     absent_or (\<lambda>g. safe_int g \<and> i_generation r \<le> g \<and> g \<le> fence) (i_confirmed_generation r) \<and>
     absent_or (\<lambda>t. isCanonicalIsoTimestamp env t \<and>
        \<not> js_lt (parse_time env t) (parse_time env (i_created_at r)) \<and>
        \<not> js_lt (Some (clock env)) (parse_time env t)) (i_confirmed_at r) \<and>
     absent_or ASF_DELIVERY_IDENTIFIER (i_replay_operation r) \<and>
     absent_or (\<lambda>g. safe_int g \<and> i_generation r < g \<and> g \<le> fence \<and>
        absent_or (\<lambda>c. g \<le> c) (i_confirmed_generation r)) (i_replay_generation r)"

definition stored_of :: "intent_row \<Rightarrow> stored_intent" where
  "stored_of r = stored_intent.truncate r"

definition decodeAsfDeliveryIntentRow :: "store_env \<Rightarrow> store \<Rightarrow> intent_row \<Rightarrow> store_error + stored_intent" where
  "decodeAsfDeliveryIntentRow env db r =
     and_then (assertValidAsfDeliveryIntent env r) (\<lambda>canonical.
       if i_canonical r \<noteq> canonical then Inl StateConflict
       else case getAsfRun db (i_run_id r) of
         None \<Rightarrow> Inl StateConflict
       | Some run \<Rightarrow>
           if \<not> confirmation_consistent env (r_generation run) r then Inl StateConflict
           else Inr (stored_of r))"

definition decode_found ::
  "store_env \<Rightarrow> store \<Rightarrow> intent_row option \<Rightarrow> store_error + stored_intent option" where
  "decode_found env db r =
     (case r of None \<Rightarrow> Inr None
      | Some row \<Rightarrow> and_then (decodeAsfDeliveryIntentRow env db row) (\<lambda>s. Inr (Some s)))"

definition getAsfDeliveryIntent ::
  "store_env \<Rightarrow> store \<Rightarrow> string \<Rightarrow> store_error + stored_intent option" where
  "getAsfDeliveryIntent env db key =
     decode_found env db (List.find (\<lambda>r. i_effect_key r = key) (intents db))"

definition getAsfDeliveryIntentById ::
  "store_env \<Rightarrow> store \<Rightarrow> string \<Rightarrow> store_error + stored_intent option" where
  "getAsfDeliveryIntentById env db ident =
     decode_found env db (List.find (\<lambda>r. i_id r = ident) (intents db))"

text \<open>A transaction that appends an observation of an intent.\<close>

definition recordAsfDeliveryIntentObservation ::
  "store \<Rightarrow> string \<Rightarrow> outcome \<Rightarrow> string \<Rightarrow> int \<Rightarrow> observation_source \<Rightarrow> string \<Rightarrow> store" where
  "recordAsfDeliveryIntentObservation db key out digest gen src at_time =
     (let n = foldr max (map io_seq (filter (\<lambda>x. io_effect_key x = key) (intent_observations db))) 0 + 1
      in db\<lparr>intent_observations := intent_observations db @
           [\<lparr>io_effect_key = key, io_seq = n, io_outcome = out, io_digest = digest,
             io_generation = gen, io_source = src, io_observed_at = at_time\<rparr>]\<rparr>)"

section \<open>Lemmas\<close>

lemmas intent_columns = stored_of_def stored_intent.truncate_def

lemma decode_Inr:
  assumes "decodeAsfDeliveryIntentRow env db r = Inr s"
  shows "s = stored_of r \<and> intent_well_formed env r \<and> i_effect_key r = expected_effect_key env r \<and>
     i_id r = expected_intent_id env r \<and>
     (\<exists>run. getAsfRun db (i_run_id r) = Some run \<and> confirmation_consistent env (r_generation run) r)"
  using assms
  unfolding decodeAsfDeliveryIntentRow_def assertValidAsfDeliveryIntent_def and_then_Inr_iff guard_Inr_iff
  by (auto split: option.splits simp: guard_Inr_iff)

lemma find_Some_in: "List.find P xs = Some x \<Longrightarrow> P x \<and> x \<in> set xs"
  by (auto simp: find_Some_iff)

lemma getAsfDeliveryIntent_Some:
  assumes "getAsfDeliveryIntent env db key = Inr (Some s)"
  shows "\<exists>r \<in> set (intents db). i_effect_key r = key \<and> decodeAsfDeliveryIntentRow env db r = Inr s"
  using assms unfolding getAsfDeliveryIntent_def decode_found_def
  by (auto simp: and_then_Inr_iff split: option.splits dest!: find_Some_in)

lemma getAsfDeliveryIntentById_Some:
  assumes "getAsfDeliveryIntentById env db ident = Inr (Some s)"
  shows "\<exists>r \<in> set (intents db). i_id r = ident \<and> decodeAsfDeliveryIntentRow env db r = Inr s"
  using assms unfolding getAsfDeliveryIntentById_def decode_found_def
  by (auto simp: and_then_Inr_iff split: option.splits dest!: find_Some_in)

end
