(* ===== verification/Provider_Budget.thy ===== *)
theory Provider_Budget
  imports Delivery_Intents
begin

text \<open>
  The budget of provider invocations (\<open>src/src/asf/budget.ts\<close> and its transactions in
  \<open>src/src/state/store.ts\<close>): conversion of costs to micro-dollars, the limits of the effective policy,
  the reservation that precedes an invocation, its completion, and the settlement of an invocation
  whose result was lost. The abstract ledger at the end is what these transactions implement.
\<close>

section \<open>Costs\<close>

text \<open>\<open>Number\<close> of the exponents that \<open>toString\<close> writes: an optional sign and digits.\<close>

fun digits_value :: "int \<Rightarrow> string \<Rightarrow> int" where
  "digits_value n [] = n"
| "digits_value n (c # cs) = digits_value (10 * n + (of_char c - 48)) cs"

definition read_nat :: "string \<Rightarrow> int option" where
  "read_nat s = (if s \<noteq> [] \<and> list_all digit_char s then Some (digits_value 0 s) else None)"

definition read_exponent :: "string \<Rightarrow> int option" where
  "read_exponent s =
     (case s of
        [] \<Rightarrow> None
      | c # cs \<Rightarrow> if c = CHR ''-'' then map_option uminus (read_nat cs)
                 else if c = CHR ''+'' then read_nat cs else read_nat s)"

text \<open>Destructuring of the parts before and after a separator, with a default for a missing part.\<close>

definition part :: "string list \<Rightarrow> nat \<Rightarrow> string \<Rightarrow> string" where
  "part ws k d = (if k < length ws then ws ! k else d)"

definition decimal_text :: "string \<Rightarrow> (int \<times> int) option" where
  "decimal_text t =
     (let ws = js_split (CHR ''e'') (js_to_lower t);
          ns = js_split (CHR ''.'') (part ws 0 []);
          fraction = part ns 1 []
      in case (read_exponent (part ws 1 ''0''), read_nat (part ns 0 [] @ fraction)) of
           (Some e, Some c) \<Rightarrow> if safe_int e then Some (c, e - int (length fraction)) else None
         | _ \<Rightarrow> None)"

definition decimalParts :: "store_env \<Rightarrow> rat \<Rightarrow> store_error + (int \<times> int)" where
  "decimalParts env v =
     (if v < 0 then Inl Rejected
      else case decimal_text (number_text env v) of None \<Rightarrow> Inl Rejected | Some p \<Rightarrow> Inr p)"

datatype rounding = Floor | Ceil

definition scaled :: "rounding \<Rightarrow> int \<Rightarrow> int \<Rightarrow> int" where
  "scaled r c e =
     (if e \<ge> 0 then c * 10 ^ nat e
      else let d = 10 ^ nat (- e) in c div d + (if r = Ceil \<and> c mod d \<noteq> 0 then 1 else 0))"

definition scaledUsdMicros :: "store_env \<Rightarrow> rat \<Rightarrow> rounding \<Rightarrow> store_error + int" where
  "scaledUsdMicros env v r =
     and_then (decimalParts env v) (\<lambda>(c, e).
       let micros = scaled r c (e + 6)
       in if micros > 9007199254740991 then Inl Rejected else Inr micros)"

definition asfCostLimitUsdToMicros :: "store_env \<Rightarrow> rat \<Rightarrow> store_error + int" where
  "asfCostLimitUsdToMicros env v = scaledUsdMicros env v Floor"

definition asfObservedCostUsdToMicros :: "store_env \<Rightarrow> rat \<Rightarrow> store_error + int" where
  "asfObservedCostUsdToMicros env v = scaledUsdMicros env v Ceil"

definition asfMicrosToUsd :: "int \<Rightarrow> store_error + rat" where
  "asfMicrosToUsd v = (if \<not> safe_int v \<or> v < 0 then Inl Rejected else Inr (of_int v / 1000000))"

definition asfProviderInvocationId :: "store_env \<Rightarrow> string \<Rightarrow> string \<Rightarrow> string" where
  "asfProviderInvocationId env key role =
     ''agent_'' @ digest_prefix (digest_of env (JObject [(''effect_key'', JString key), (''role'', JString role)]))"

definition asfProviderBudgetReservationId :: "store_env \<Rightarrow> string \<Rightarrow> string \<Rightarrow> string \<Rightarrow> string" where
  "asfProviderBudgetReservationId env key role invocation =
     ''budget_'' @ digest_prefix (digest_of env (JObject
       [(''effect_key'', JString key), (''role'', JString role), (''invocation_id'', JString invocation)]))"

definition ASF_PROVIDER_BUDGET_ROLES :: "string list" where
  "ASF_PROVIDER_BUDGET_ROLES = [''implementer'', ''fixer'', ''local-reviewer'', ''pr-reviewer'']"

section \<open>Limits and bindings\<close>

record budget_limits =
  l_wall :: rat
  l_cost :: rat
  l_invocations :: rat

record budget_policy =
  q_wall :: int
  q_max_cost :: int
  q_max_invocations :: int
  q_accepted :: string
  q_deadline :: string

record delivery_binding =
  d_run :: string
  d_work_order :: string
  d_attempt :: string
  d_policy_digest :: string
  d_generation :: int
  d_candidate :: "string option"

text \<open>\<open>Number.isSafeInteger\<close>\<close>

definition safe_number :: "rat \<Rightarrow> bool" where
  "safe_number q \<longleftrightarrow> q = of_int \<lfloor>q\<rfloor> \<and> safe_int \<lfloor>q\<rfloor>"

definition number_member :: "(string \<times> json) list \<Rightarrow> string \<Rightarrow> rat option" where
  "number_member ms k = (case map_of ms k of Some (JNumber q) \<Rightarrow> Some q | _ \<Rightarrow> None)"

text \<open>The store computes the cost limit again from the text of the policy, rounding down.\<close>

definition policy_micros :: "store_env \<Rightarrow> rat \<Rightarrow> store_error + int" where
  "policy_micros env cost =
     (case decimal_text (number_text env cost) of
        None \<Rightarrow> Inl StateConflict
      | Some (c, e) \<Rightarrow>
          let me = e + 6;
              micros = (if me \<ge> 0 then c * 10 ^ nat me else c div 10 ^ nat (- me))
          in if micros > 9007199254740991 then Inl StateConflict else Inr micros)"

definition policy_deadline :: "store_env \<Rightarrow> string \<Rightarrow> int \<Rightarrow> store_error + string" where
  "policy_deadline env acceptedAt wall =
     (case parse_time env acceptedAt of
        None \<Rightarrow> Inl StateConflict
      | Some t \<Rightarrow>
          if \<not> safe_int (wall * 1000) then Inl StateConflict
          else case iso env (t + of_int (wall * 1000)) of None \<Rightarrow> Inl Rejected | Some s \<Rightarrow> Inr s)"

definition effectiveAsfBudgetPolicy :: "store_env \<Rightarrow> admission \<Rightarrow> store_error + budget_policy" where
  "effectiveAsfBudgetPolicy env a =
     (case json_parse env (a_policy a) of
        Some (JObject policy) \<Rightarrow>
          (case (map_of policy ''digest'', map_of policy ''budgets'') of
             (Some (JString d), Some (JObject budgets)) \<Rightarrow>
               if d \<noteq> a_policy_digest a then Inl StateConflict
               else (case (number_member budgets ''wallSeconds'', number_member budgets ''maxCostUsd'',
                           number_member budgets ''maxAgentInvocations'') of
                  (Some wall, Some cost, Some calls) \<Rightarrow>
                    if \<not> safe_number wall \<or> wall < 1 \<or> cost < 0 \<or> \<not> safe_number calls \<or> calls < 1
                    then Inl StateConflict
                    else and_then (policy_micros env cost) (\<lambda>micros.
                         and_then (policy_deadline env (a_accepted_at a) \<lfloor>wall\<rfloor>) (\<lambda>deadline.
                           Inr \<lparr>q_wall = \<lfloor>wall\<rfloor>, q_max_cost = micros, q_max_invocations = \<lfloor>calls\<rfloor>,
                                q_accepted = a_accepted_at a, q_deadline = deadline\<rparr>))
                | _ \<Rightarrow> Inl StateConflict)
           | _ \<Rightarrow> Inl StateConflict)
      | _ \<Rightarrow> Inl StateConflict)"

definition assertAsfBudgetLimits :: "store_env \<Rightarrow> admission \<Rightarrow> budget_limits \<Rightarrow> store_error + budget_policy" where
  "assertAsfBudgetLimits env a l =
     (if \<not> safe_number (l_wall l) \<or> l_wall l < 1 \<or> \<not> safe_number (l_cost l) \<or> l_cost l < 0 \<or>
         \<not> safe_number (l_invocations l) \<or> l_invocations l < 1
      then Inl StateConflict
      else and_then (effectiveAsfBudgetPolicy env a) (\<lambda>q.
        if l_wall l \<noteq> of_int (q_wall q) \<or> l_cost l \<noteq> of_int (q_max_cost q) \<or>
           l_invocations l \<noteq> of_int (q_max_invocations q)
        then Inl StateConflict else Inr q))"

definition binding_well_formed :: "string \<Rightarrow> delivery_binding \<Rightarrow> bool" where
  "binding_well_formed owner d \<longleftrightarrow>
     ASF_DELIVERY_IDENTIFIER owner \<and> ASF_DELIVERY_IDENTIFIER (d_run d) \<and>
     ASF_DELIVERY_IDENTIFIER (d_work_order d) \<and> ASF_DELIVERY_IDENTIFIER (d_attempt d) \<and>
     is_digest (d_policy_digest d) \<and> safe_int (d_generation d) \<and> d_generation d \<ge> 1 \<and>
     optional_sha (d_candidate d)"

definition assertCurrentAsfBudgetBinding ::
  "store \<Rightarrow> string \<Rightarrow> delivery_binding \<Rightarrow> store_error + (run_row \<times> admission)" where
  "assertCurrentAsfBudgetBinding db owner d =
     (if \<not> binding_well_formed owner d then Inl StateConflict
      else case (getAsfRun db (d_run d), getAsfAdmissionForRun db (d_run d)) of
        (Some run, Some adm) \<Rightarrow>
          if r_owner run \<noteq> Some owner \<or> r_generation run \<noteq> d_generation d then Inl StaleLease
          else if r_work_order run \<noteq> d_work_order d \<or> r_attempt_id run \<noteq> d_attempt d \<or>
                  a_work_order adm \<noteq> d_work_order d \<or> a_attempt_id adm \<noteq> d_attempt d \<or>
                  a_policy_digest adm \<noteq> d_policy_digest d \<or> r_candidate run \<noteq> d_candidate d
               then Inl StateConflict
          else Inr (run, adm)
      | _ \<Rightarrow> Inl StaleLease)"

section \<open>Usage\<close>

record budget_usage =
  u_completed :: int
  u_settled :: int
  u_outstanding :: int
  u_conservative :: int
  u_invocations :: int
  u_denied :: int
  u_settlements :: int

definition reservations_of :: "store \<Rightarrow> string \<Rightarrow> reservation list" where
  "reservations_of db run = filter (\<lambda>b. b_run_id b = run) (reservations db)"

definition actual_cost :: "reservation \<Rightarrow> int" where
  "actual_cost b = (case b_actual b of None \<Rightarrow> 0 | Some n \<Rightarrow> n)"

definition sum_where :: "(reservation \<Rightarrow> bool) \<Rightarrow> (reservation \<Rightarrow> int) \<Rightarrow> reservation list \<Rightarrow> int" where
  "sum_where p f bs = sum_list (map (\<lambda>b. if p b then f b else 0) bs)"

definition usage_of :: "reservation list \<Rightarrow> budget_usage" where
  "usage_of bs =
     (let completed = sum_where (\<lambda>b. b_status b = Completed) actual_cost bs;
          settled = sum_where (\<lambda>b. b_status b = SettledUnknown) actual_cost bs;
          outstanding = sum_where (\<lambda>b. b_status b = Reserved) b_reserved bs
      in \<lparr>u_completed = completed, u_settled = settled, u_outstanding = outstanding,
          u_conservative = completed + settled + outstanding,
          u_invocations = sum_where (\<lambda>b. b_status b \<noteq> Denied) (\<lambda>_. 1) bs,
          u_denied = sum_where (\<lambda>b. b_status b = Denied) (\<lambda>_. 1) bs,
          u_settlements = sum_where (\<lambda>b. b_status b = SettledUnknown) (\<lambda>_. 1) bs\<rparr>)"

definition count_ok :: "int \<Rightarrow> bool" where
  "count_ok n \<longleftrightarrow> safe_int n \<and> n \<ge> 0"

definition asfProviderBudgetUsage :: "store \<Rightarrow> string \<Rightarrow> store_error + budget_usage" where
  "asfProviderBudgetUsage db run =
     (let u = usage_of (reservations_of db run)
      in if \<not> list_all count_ok [u_completed u, u_settled u, u_outstanding u, u_invocations u, u_denied u,
              u_settlements u] then Inl StateConflict
         else if \<not> safe_int (u_conservative u) then Inl StateConflict
         else Inr u)"

definition reason_text :: "exhaustion_reason \<Rightarrow> string" where
  "reason_text r = (case r of WallDeadline \<Rightarrow> ''wall-deadline'' | CostLimit \<Rightarrow> ''cost-limit''
     | InvocationLimit \<Rightarrow> ''invocation-limit'')"

definition budget_check_json ::
  "delivery_binding \<Rightarrow> budget_policy \<Rightarrow> budget_usage \<Rightarrow> string \<Rightarrow> exhaustion_reason \<Rightarrow> json" where
  "budget_check_json d q u checkedAt reason = JObject
     [(''schema'', JString ''asf.provider-budget-check/v1''), (''run_id'', JString (d_run d)),
      (''work_order_id'', JString (d_work_order d)), (''attempt_id'', JString (d_attempt d)),
      (''policy_digest'', JString (d_policy_digest d)),
      (''fencing_generation'', JNumber (of_int (d_generation d))),
      (''candidate_sha'', text_or_null (d_candidate d)), (''checked_at'', JString checkedAt),
      (''reason'', JString (reason_text reason)),
      (''conservative_cost_micros'', JNumber (of_int (u_conservative u))),
      (''max_cost_micros'', JNumber (of_int (q_max_cost q))),
      (''invocation_count'', JNumber (of_int (u_invocations u))),
      (''max_agent_invocations'', JNumber (of_int (q_max_invocations q))),
      (''deadline_at'', JString (q_deadline q))]"

text \<open>\<open>None\<close> is available; otherwise the reason and the digest of the observation.\<close>

definition checkAsfRunBudget ::
  "store_env \<Rightarrow> store \<Rightarrow> string \<Rightarrow> delivery_binding \<Rightarrow> budget_limits \<Rightarrow>
     store_error + (exhaustion_reason \<times> string) option" where
  "checkAsfRunBudget env db owner d l =
     and_then (assertCurrentAsfBudgetBinding db owner d) (\<lambda>(run, adm).
     and_then (assertAsfBudgetLimits env adm l) (\<lambda>q.
     and_then (asfProviderBudgetUsage db (d_run d)) (\<lambda>u.
     and_then (now_iso env) (\<lambda>checkedAt.
       let reason = (if js_le (parse_time env (q_deadline q)) (parse_time env checkedAt) then Some WallDeadline
                     else if u_conservative u > q_max_cost q then Some CostLimit else None)
       in Inr (map_option (\<lambda>r. (r, digest_of env (budget_check_json d q u checkedAt r))) reason)))))"

section \<open>The table of reservations\<close>

text \<open>The \<open>CHECK\<close> of the table: which columns a row of each status has.\<close>

definition settlement_absent :: "reservation \<Rightarrow> bool" where
  "settlement_absent b \<longleftrightarrow> b_settlement b = None \<and> b_settlement_observation b = None \<and>
     b_settlement_digest b = None \<and> b_settlement_generation b = None \<and> b_settlement_at b = None"

definition provider_absent :: "reservation \<Rightarrow> bool" where
  "provider_absent b \<longleftrightarrow> b_result_digest b = None \<and> b_provider b = None \<and> b_model b = None \<and>
     b_principal b = None \<and> b_profile b = None"

definition provider_present :: "reservation \<Rightarrow> bool" where
  "provider_present b \<longleftrightarrow> b_result_digest b \<noteq> None \<and> b_provider b \<noteq> None \<and> b_model b \<noteq> None \<and>
     b_principal b \<noteq> None \<and> b_profile b \<noteq> None"

definition columns_match_status :: "reservation \<Rightarrow> bool" where
  "columns_match_status b \<longleftrightarrow>
     (case b_status b of
        Reserved \<Rightarrow> b_actual b = None \<and> b_completed_generation b = None \<and> b_denial b = None \<and>
          b_denial_digest b = None \<and> provider_absent b \<and> settlement_absent b \<and> b_completed_at b = None
      | Completed \<Rightarrow> b_actual b \<noteq> None \<and> b_completed_generation b \<noteq> None \<and> b_denial b = None \<and>
          b_denial_digest b = None \<and> provider_present b \<and> settlement_absent b \<and> b_completed_at b \<noteq> None
      | Denied \<Rightarrow> b_reserved b = 0 \<and> b_actual b = None \<and> b_completed_generation b = None \<and>
          b_denial b \<noteq> None \<and> b_denial_digest b \<noteq> None \<and> provider_absent b \<and> settlement_absent b \<and>
          b_completed_at b \<noteq> None
      | SettledUnknown \<Rightarrow> b_reserved b > 0 \<and> b_actual b = Some (b_reserved b) \<and>
          b_completed_generation b \<noteq> None \<and> b_denial b = None \<and> b_denial_digest b = None \<and>
          provider_absent b \<and> b_settlement b \<noteq> None \<and> b_settlement_observation b \<noteq> None \<and>
          b_settlement_digest b \<noteq> None \<and> b_settlement_generation b \<noteq> None \<and>
          b_settlement_generation b = b_completed_generation b \<and> b_settlement_at b \<noteq> None \<and>
          b_completed_at b = b_settlement_at b)"

definition reservation_check :: "reservation \<Rightarrow> bool" where
  "reservation_check b \<longleftrightarrow>
     b_generation b > 0 \<and> absent_or (\<lambda>g. g > 0) (b_completed_generation b) \<and>
     b_role b \<in> set ASF_PROVIDER_BUDGET_ROLES \<and> b_reserved b \<ge> 0 \<and> absent_or (\<lambda>n. n \<ge> 0) (b_actual b) \<and>
     b_max_cost b \<ge> 0 \<and> b_max_invocations b > 0 \<and> absent_or (\<lambda>o'. o' \<noteq> Ambiguous) (b_settlement b) \<and>
     absent_or (\<lambda>g. g > 0) (b_settlement_generation b) \<and> columns_match_status b"

text \<open>The unique columns.\<close>

definition reservation_clash :: "reservation \<Rightarrow> reservation \<Rightarrow> bool" where
  "reservation_clash b c \<longleftrightarrow> b_id b = b_id c \<or> b_digest b = b_digest c \<or> b_effect_key b = b_effect_key c \<or>
     b_intent_id b = b_intent_id c \<or>
     (b_settlement_digest b \<noteq> None \<and> b_settlement_digest b = b_settlement_digest c) \<or>
     (b_run_id b = b_run_id c \<and> b_invocation b = b_invocation c)"

definition insert_reservation :: "store \<Rightarrow> reservation \<Rightarrow> store_error + store" where
  "insert_reservation db b =
     (if \<not> reservation_check b \<or> list_ex (reservation_clash b) (reservations db) then Inl Rejected
      else Inr (db\<lparr>reservations := reservations db @ [b]\<rparr>))"

text \<open>An update of the rows that satisfy \<open>p\<close>, which must be exactly one.\<close>

definition update_one :: "store \<Rightarrow> (reservation \<Rightarrow> bool) \<Rightarrow> (reservation \<Rightarrow> reservation) \<Rightarrow> store_error + store" where
  "update_one db p f =
     (if list_ex (\<lambda>b. p b \<and> (\<not> reservation_check (f b) \<or>
           list_ex (\<lambda>c. \<not> p c \<and> reservation_clash (f b) c) (reservations db))) (reservations db)
      then Inl Rejected
      else if length (filter p (reservations db)) \<noteq> 1 then Inl StateConflict
      else Inr (db\<lparr>reservations := map (\<lambda>b. if p b then f b else b) (reservations db)\<rparr>))"

definition asfBudgetReservationMaterial :: "reservation \<Rightarrow> json" where
  "asfBudgetReservationMaterial b = JObject
     [(''schema'', JString ''asf.provider-budget-reservation/v1''), (''reservation_id'', JString (b_id b)),
      (''effect_key'', JString (b_effect_key b)), (''intent_id'', JString (b_intent_id b)),
      (''intent_digest'', JString (b_intent_digest b)), (''run_id'', JString (b_run_id b)),
      (''work_order_id'', JString (b_work_order b)), (''attempt_id'', JString (b_attempt_id b)),
      (''policy_digest'', JString (b_policy_digest b)),
      (''initial_generation'', JNumber (of_int (b_generation b))),
      (''lifecycle_candidate_sha'', text_or_null (b_candidate b)),
      (''provider_candidate_sha'', JString (b_provider_candidate b)), (''role'', JString (b_role b)),
      (''invocation_id'', JString (b_invocation b)),
      (''reserved_cost_micros'', JNumber (of_int (b_reserved b))),
      (''max_cost_micros'', JNumber (of_int (b_max_cost b))),
      (''max_agent_invocations'', JNumber (of_int (b_max_invocations b))),
      (''accepted_at'', JString (b_accepted_at b)), (''deadline_at'', JString (b_deadline_at b)),
      (''created_at'', JString (b_created_at b))]"

definition outcome_text :: "outcome \<Rightarrow> string" where
  "outcome_text x = (case x of Confirmed \<Rightarrow> ''confirmed'' | NotApplied \<Rightarrow> ''not_applied'' | Ambiguous \<Rightarrow> ''ambiguous'')"

definition asfBudgetUnknownSettlementMaterial ::
  "reservation \<Rightarrow> outcome \<Rightarrow> string \<Rightarrow> int \<Rightarrow> string \<Rightarrow> json" where
  "asfBudgetUnknownSettlementMaterial b out observation gen at_time = JObject
     [(''schema'', JString ''asf.provider-budget-unknown-settlement/v1''),
      (''reservation_id'', JString (b_id b)), (''reservation_digest'', JString (b_digest b)),
      (''effect_key'', JString (b_effect_key b)), (''intent_id'', JString (b_intent_id b)),
      (''intent_digest'', JString (b_intent_digest b)), (''run_id'', JString (b_run_id b)),
      (''work_order_id'', JString (b_work_order b)), (''attempt_id'', JString (b_attempt_id b)),
      (''policy_digest'', JString (b_policy_digest b)),
      (''initial_generation'', JNumber (of_int (b_generation b))),
      (''settlement_generation'', JNumber (of_int gen)),
      (''lifecycle_candidate_sha'', text_or_null (b_candidate b)),
      (''provider_candidate_sha'', JString (b_provider_candidate b)), (''role'', JString (b_role b)),
      (''invocation_id'', JString (b_invocation b)), (''reconciliation_outcome'', JString (outcome_text out)),
      (''reconciliation_observation_digest'', JString observation),
      (''settled_cost_micros'', JNumber (of_int (b_reserved b))), (''settled_at'', JString at_time)]"

definition expectedAsfBudgetUnknownSettlementDigest :: "store_env \<Rightarrow> reservation \<Rightarrow> string option" where
  "expectedAsfBudgetUnknownSettlementDigest env b =
     (case (b_settlement b, b_settlement_observation b, b_settlement_generation b, b_settlement_at b) of
        (Some out, Some observation, Some gen, Some at_time) \<Rightarrow>
          Some (digest_of env (asfBudgetUnknownSettlementMaterial b out observation gen at_time))
      | _ \<Rightarrow> None)"

definition reservation_for_effect :: "store \<Rightarrow> string \<Rightarrow> reservation option" where
  "reservation_for_effect db key = List.find (\<lambda>b. b_effect_key b = key) (reservations db)"

definition reservation_by_id :: "store \<Rightarrow> string \<Rightarrow> reservation option" where
  "reservation_by_id db ident = List.find (\<lambda>b. b_id b = ident) (reservations db)"

definition settled :: "outcome \<Rightarrow> string \<Rightarrow> string \<Rightarrow> int \<Rightarrow> string \<Rightarrow> reservation \<Rightarrow> reservation" where
  "settled out observation digest gen at_time b =
     b\<lparr>b_status := SettledUnknown, b_actual := Some (b_reserved b), b_completed_generation := Some gen,
       b_settlement := Some out, b_settlement_observation := Some observation,
       b_settlement_digest := Some digest, b_settlement_generation := Some gen,
       b_settlement_at := Some at_time, b_completed_at := Some at_time\<rparr>"

text \<open>The settlement of an invocation whose outcome is unknown: the whole reservation is charged.\<close>

definition settleUnknownAsfProviderBudgetForIntent ::
  "store_env \<Rightarrow> store \<Rightarrow> 'a delivery_intent_scheme \<Rightarrow> outcome \<Rightarrow> string \<Rightarrow> int \<Rightarrow> string \<Rightarrow>
     store_error + (store \<times> string option)" where
  "settleUnknownAsfProviderBudgetForIntent env db i out observation gen at_time =
     (if \<not> is_digest observation \<or> \<not> safe_int gen \<or> gen < i_generation i \<or>
         \<not> isCanonicalIsoTimestamp env at_time
      then Inl StateConflict
      else case reservation_for_effect db (i_effect_key i) of
        None \<Rightarrow> Inr (db, None)
      | Some b \<Rightarrow>
          if b_id b \<noteq> asfProviderBudgetReservationId env (b_effect_key b) (b_role b) (b_invocation b) \<or>
             b_digest b \<noteq> digest_of env (asfBudgetReservationMaterial b) \<or>
             b_effect_key b \<noteq> i_effect_key i \<or> b_intent_id b \<noteq> i_id i \<or> b_intent_digest b \<noteq> i_digest i \<or>
             b_run_id b \<noteq> i_run_id i \<or> b_work_order b \<noteq> i_work_order i \<or> b_attempt_id b \<noteq> i_attempt_id i \<or>
             b_policy_digest b \<noteq> i_policy_digest i \<or> b_candidate b \<noteq> i_candidate i \<or>
             b_generation b \<noteq> i_generation i \<or> b_generation b > gen
          then Inl StateConflict
          else (case b_status b of
            Completed \<Rightarrow> Inr (db, None)
          | Denied \<Rightarrow> Inr (db, None)
          | SettledUnknown \<Rightarrow>
              if b_actual b \<noteq> Some (b_reserved b) \<or> b_completed_generation b \<noteq> Some gen \<or>
                 b_settlement b \<noteq> Some out \<or> b_settlement_observation b \<noteq> Some observation \<or>
                 b_settlement_generation b \<noteq> Some gen \<or> b_settlement_at b \<noteq> Some at_time \<or>
                 b_completed_at b \<noteq> Some at_time \<or> b_settlement_digest b = None \<or>
                 b_settlement_digest b \<noteq> expectedAsfBudgetUnknownSettlementDigest env b
              then Inl StateConflict else Inr (db, b_settlement_digest b)
          | Reserved \<Rightarrow>
              if b_reserved b \<le> 0 then Inl StateConflict
              else let digest = digest_of env (asfBudgetUnknownSettlementMaterial b out observation gen at_time)
                   in and_then (update_one db (\<lambda>c. b_id c = b_id b \<and> b_digest c = b_digest b \<and>
                            b_effect_key c = i_effect_key i \<and> b_intent_id c = i_id i \<and>
                            b_intent_digest c = i_digest i \<and> b_status c = Reserved)
                          (settled out observation digest gen at_time))
                        (\<lambda>db'. Inr (db', Some digest))))"

definition settleResolvedAsfProviderBudgetForIntent ::
  "store_env \<Rightarrow> store \<Rightarrow> 'a stored_intent_scheme \<Rightarrow> store_error + (store \<times> string option)" where
  "settleResolvedAsfProviderBudgetForIntent env db i =
     (case (i_outcome i, i_observation_digest i, i_confirmed_generation i, i_confirmed_at i) of
        (Some out, Some observation, Some gen, Some at_time) \<Rightarrow>
          if out = Ambiguous then Inr (db, None)
          else settleUnknownAsfProviderBudgetForIntent env db i out observation gen at_time
      | _ \<Rightarrow> Inr (db, None))"

text \<open>\<open>ORDER BY effect_key\<close>; the digests in order without repetition.\<close>

fun settle_keys :: "store_env \<Rightarrow> string \<Rightarrow> store \<Rightarrow> string list \<Rightarrow> store_error + (store \<times> string list)" where
  "settle_keys env run db [] = Inr (db, [])"
| "settle_keys env run db (k # ks) =
     and_then (getAsfDeliveryIntent env db k) (\<lambda>i.
       case i of
         None \<Rightarrow> Inl StateConflict
       | Some s \<Rightarrow>
           if i_run_id s \<noteq> run then Inl StateConflict
           else and_then (settleResolvedAsfProviderBudgetForIntent env db s) (\<lambda>(db', d).
             and_then (settle_keys env run db' ks) (\<lambda>(db'', ds).
               Inr (db'', case d of None \<Rightarrow> ds | Some x \<Rightarrow> x # ds))))"

definition settleResolvedAsfProviderBudgets :: "store_env \<Rightarrow> store \<Rightarrow> string \<Rightarrow> store_error + (store \<times> string list)" where
  "settleResolvedAsfProviderBudgets env db run =
     and_then (settle_keys env run db
         (sort (map b_effect_key (filter (\<lambda>b. b_status b = Reserved) (reservations_of db run)))))
       (\<lambda>(db', ds). Inr (db', sort (remdups ds)))"

section \<open>Reserving\<close>

datatype intent_mode = ObserveBeforeApply | ReconcileOnlyMode

datatype authorization = Invoke | ReconcileOnly

record reserve_input =
  v_owner :: string
  v_binding :: delivery_binding
  v_effect_key :: string
  v_intent_id :: string
  v_intent_digest :: string
  v_intent_generation :: int
  v_mode :: intent_mode
  v_role :: string
  v_invocation :: string
  v_provider_candidate :: string
  v_limits :: budget_limits

record grant =
  g_id :: string
  g_digest :: string
  g_authorization :: authorization
  g_accepted_at :: string
  g_deadline_at :: string
  g_remaining_ms :: "rat option"   \<comment> \<open>\<open>None\<close> is \<open>NaN\<close>\<close>
  g_reserved :: int
  g_ordinal :: int
  g_max_invocations :: int

datatype budget_decision = Granted grant | Exhausted exhaustion_reason string

definition reserve_input_well_formed :: "reserve_input \<Rightarrow> bool" where
  "reserve_input_well_formed v \<longleftrightarrow>
     ASF_DELIVERY_IDENTIFIER (v_effect_key v) \<and> ASF_DELIVERY_IDENTIFIER (v_intent_id v) \<and>
     is_digest (v_intent_digest v) \<and> safe_int (v_intent_generation v) \<and> v_intent_generation v \<ge> 1 \<and>
     v_role v \<in> set ASF_PROVIDER_BUDGET_ROLES \<and> ASF_DELIVERY_IDENTIFIER (v_invocation v) \<and>
     is_git_sha (v_provider_candidate v)"

definition intent_bound :: "reserve_input \<Rightarrow> stored_intent \<Rightarrow> bool" where
  "intent_bound v i \<longleftrightarrow>
     i_effect_key i = v_effect_key v \<and> i_digest i = v_intent_digest v \<and>
     i_run_id i = d_run (v_binding v) \<and> i_work_order i = d_work_order (v_binding v) \<and>
     i_attempt_id i = d_attempt (v_binding v) \<and> i_policy_digest i = d_policy_digest (v_binding v) \<and>
     i_candidate i = d_candidate (v_binding v) \<and> i_generation i = v_intent_generation v \<and>
     i_generation i \<le> d_generation (v_binding v)"

definition expected_role :: "run_row \<Rightarrow> stored_intent \<Rightarrow> string option" where
  "expected_role run i =
     (if i_stage i = ''candidate'' then Some (if r_candidate run = None then ''implementer'' else ''fixer'')
      else if i_stage i = ''local-review'' then Some ''local-reviewer''
      else if i_stage i = ''pull-request-review'' then Some ''pr-reviewer'' else None)"

definition expected_provider_candidate :: "run_row \<Rightarrow> stored_intent \<Rightarrow> string option" where
  "expected_provider_candidate run i =
     (if i_stage i = ''candidate'' then (case r_candidate run of None \<Rightarrow> r_base run | Some c \<Rightarrow> Some c)
      else r_candidate run)"

definition provider_call_bound :: "store_env \<Rightarrow> run_row \<Rightarrow> stored_intent \<Rightarrow> reserve_input \<Rightarrow> bool" where
  "provider_call_bound env run i v \<longleftrightarrow>
     expected_role run i = Some (v_role v) \<and>
     expected_provider_candidate run i = Some (v_provider_candidate v) \<and>
     (i_stage i = ''candidate'' \<longrightarrow>
        v_invocation v = asfProviderInvocationId env (v_effect_key v) (v_role v))"

definition existing_bound :: "store_env \<Rightarrow> reserve_input \<Rightarrow> budget_policy \<Rightarrow> string \<Rightarrow> reservation \<Rightarrow> bool" where
  "existing_bound env v q ident b \<longleftrightarrow>
     b_id b = ident \<and> b_digest b = digest_of env (asfBudgetReservationMaterial b) \<and>
     b_intent_id b = v_intent_id v \<and> b_intent_digest b = v_intent_digest v \<and>
     b_run_id b = d_run (v_binding v) \<and> b_work_order b = d_work_order (v_binding v) \<and>
     b_attempt_id b = d_attempt (v_binding v) \<and> b_policy_digest b = d_policy_digest (v_binding v) \<and>
     b_candidate b = d_candidate (v_binding v) \<and> b_provider_candidate b = v_provider_candidate v \<and>
     b_role b = v_role v \<and> b_invocation b = v_invocation v \<and> b_generation b = v_intent_generation v \<and>
     b_generation b \<le> d_generation (v_binding v) \<and> b_max_cost b = q_max_cost q \<and>
     b_max_invocations b = q_max_invocations q \<and> b_accepted_at b = q_accepted q \<and>
     b_deadline_at b = q_deadline q"

definition remaining_ms :: "store_env \<Rightarrow> budget_policy \<Rightarrow> rat \<Rightarrow> rat option" where
  "remaining_ms env q t = map_option (\<lambda>d. max 0 (d - t)) (parse_time env (q_deadline q))"

definition invocation_ordinal :: "store \<Rightarrow> string \<Rightarrow> reservation \<Rightarrow> string \<Rightarrow> int" where
  "invocation_ordinal db run b ident =
     int (length (filter (\<lambda>c. b_status c \<noteq> Denied \<and> (b_created_at c < b_created_at b \<or>
        (b_created_at c = b_created_at b \<and> b_id c \<le> ident))) (reservations_of db run)))"

text \<open>A reservation that exists is only reconciled.\<close>

definition reserve_existing ::
  "store_env \<Rightarrow> store \<Rightarrow> reserve_input \<Rightarrow> budget_policy \<Rightarrow> string \<Rightarrow> reservation \<Rightarrow> store_error + budget_decision" where
  "reserve_existing env db v q ident b =
     (if \<not> existing_bound env v q ident b then Inl StateConflict
      else if b_status b = Denied then
        (case (b_denial b, b_denial_digest b) of
           (Some reason, Some digest) \<Rightarrow> Inr (Exhausted reason digest) | _ \<Rightarrow> Inl StateConflict)
      else if b_status b = SettledUnknown then
        (case b_settlement_digest b of
           None \<Rightarrow> Inl StateConflict
         | Some digest \<Rightarrow>
             if b_actual b \<noteq> Some (b_reserved b) \<or> b_completed_generation b \<noteq> b_settlement_generation b \<or>
                b_completed_at b \<noteq> b_settlement_at b \<or>
                expectedAsfBudgetUnknownSettlementDigest env b \<noteq> Some digest \<or> \<not> provider_absent b
             then Inl StateConflict else Inr (Exhausted CostLimit digest))
      else and_then (asfProviderBudgetUsage db (d_run (v_binding v))) (\<lambda>u.
        let ordinal = invocation_ordinal db (d_run (v_binding v)) b ident
        in if \<not> safe_int ordinal \<or> ordinal < 1 then Inl StateConflict
           else Inr (Granted \<lparr>g_id = ident, g_digest = b_digest b, g_authorization = ReconcileOnly,
             g_accepted_at = q_accepted q, g_deadline_at = q_deadline q,
             g_remaining_ms = remaining_ms env q (clock env), g_reserved = 0, g_ordinal = ordinal,
             g_max_invocations = q_max_invocations q\<rparr>)))"

definition exhaustion :: "store_env \<Rightarrow> budget_policy \<Rightarrow> budget_usage \<Rightarrow> string \<Rightarrow> exhaustion_reason option" where
  "exhaustion env q u createdAt =
     (if js_le (parse_time env (q_deadline q)) (parse_time env createdAt) then Some WallDeadline
      else if u_invocations u \<ge> q_max_invocations q then Some InvocationLimit
      else if q_max_cost q - u_conservative u \<le> 0 then Some CostLimit else None)"

definition denial_json :: "string \<Rightarrow> exhaustion_reason \<Rightarrow> budget_usage \<Rightarrow> string \<Rightarrow> json" where
  "denial_json digest reason u createdAt = JObject
     [(''schema'', JString ''asf.provider-budget-denial/v1''), (''reservation_digest'', JString digest),
      (''reason'', JString (reason_text reason)),
      (''conservative_cost_micros'', JNumber (of_int (u_conservative u))),
      (''invocation_count'', JNumber (of_int (u_invocations u))), (''denied_at'', JString createdAt)]"

text \<open>The row of a new reservation, still without its digest.\<close>

definition new_reservation ::
  "reserve_input \<Rightarrow> budget_policy \<Rightarrow> string \<Rightarrow> int \<Rightarrow> string \<Rightarrow> reservation" where
  "new_reservation v q ident amount createdAt =
     \<lparr>b_id = ident, b_digest = [], b_effect_key = v_effect_key v, b_intent_id = v_intent_id v,
      b_intent_digest = v_intent_digest v, b_run_id = d_run (v_binding v),
      b_work_order = d_work_order (v_binding v), b_attempt_id = d_attempt (v_binding v),
      b_policy_digest = d_policy_digest (v_binding v), b_generation = v_intent_generation v,
      b_completed_generation = None, b_candidate = d_candidate (v_binding v),
      b_provider_candidate = v_provider_candidate v, b_role = v_role v, b_invocation = v_invocation v,
      b_reserved = amount, b_actual = None, b_max_cost = q_max_cost q,
      b_max_invocations = q_max_invocations q, b_accepted_at = q_accepted q, b_deadline_at = q_deadline q,
      b_status = Reserved, b_denial = None, b_denial_digest = None, b_result_digest = None,
      b_provider = None, b_model = None, b_principal = None, b_profile = None, b_settlement = None,
      b_settlement_observation = None, b_settlement_digest = None, b_settlement_generation = None,
      b_settlement_at = None, b_created_at = createdAt, b_completed_at = None\<rparr>"

definition reserve_new ::
  "store_env \<Rightarrow> store \<Rightarrow> reserve_input \<Rightarrow> budget_policy \<Rightarrow> string \<Rightarrow> store_error + (store \<times> budget_decision)" where
  "reserve_new env db v q ident =
     and_then (asfProviderBudgetUsage db (d_run (v_binding v))) (\<lambda>u.
     and_then (now_iso env) (\<lambda>createdAt.
       let available = q_max_cost q - u_conservative u;
           reason = exhaustion env q u createdAt;
           amount = (if reason = None then max 0 available else 0);
           fresh = new_reservation v q ident amount createdAt;
           digest = digest_of env (asfBudgetReservationMaterial fresh);
           row = fresh\<lparr>b_digest := digest\<rparr>
       in case reason of
            Some r \<Rightarrow>
              (let denial = digest_of env (denial_json digest r u createdAt)
               in and_then (insert_reservation db (row\<lparr>b_status := Denied, b_denial := Some r,
                      b_denial_digest := Some denial, b_completed_at := Some createdAt\<rparr>))
                    (\<lambda>db'. Inr (db', Exhausted r denial)))
          | None \<Rightarrow>
              and_then (insert_reservation db row) (\<lambda>db'.
                Inr (db', Granted \<lparr>g_id = ident, g_digest = digest,
                  g_authorization = (if v_mode v = ObserveBeforeApply then Invoke else ReconcileOnly),
                  g_accepted_at = q_accepted q, g_deadline_at = q_deadline q,
                  g_remaining_ms = Option.bind (parse_time env createdAt) (remaining_ms env q),
                  g_reserved = amount, g_ordinal = u_invocations u + 1,
                  g_max_invocations = q_max_invocations q\<rparr>))))"

definition reserveAsfProviderBudget ::
  "store_env \<Rightarrow> store \<Rightarrow> reserve_input \<Rightarrow> store_error + (store \<times> budget_decision)" where
  "reserveAsfProviderBudget env db v =
     (if \<not> reserve_input_well_formed v then Inl StateConflict
      else and_then (assertCurrentAsfBudgetBinding db (v_owner v) (v_binding v)) (\<lambda>(run, adm).
      and_then (assertAsfBudgetLimits env adm (v_limits v)) (\<lambda>q.
      and_then (getAsfDeliveryIntentById env db (v_intent_id v)) (\<lambda>found.
        case found of
          None \<Rightarrow> Inl StateConflict
        | Some i \<Rightarrow>
            if \<not> intent_bound v i then Inl StateConflict
            else if asfPhaseFreezesExternalAuthority (r_state run) \<and>
                    reservation_for_effect db (v_effect_key v) = None then Inl StateConflict
            else if \<not> provider_call_bound env run i v then Inl StateConflict
            else
              let ident = asfProviderBudgetReservationId env (v_effect_key v) (v_role v) (v_invocation v)
              in (case reservation_for_effect db (v_effect_key v) of
                    Some b \<Rightarrow> and_then (reserve_existing env db v q ident b) (\<lambda>d. Inr (db, d))
                  | None \<Rightarrow>
                      if asfPhaseFreezesExternalAuthority (r_state run) then Inl StateConflict
                      else if getAsfTerminalEvidencePlanRecord db (d_run (v_binding v)) \<noteq> None
                      then Inl StateConflict
                      else reserve_new env db v q ident)))))"

section \<open>Completing\<close>

record complete_input =
  f_owner :: string
  f_binding :: delivery_binding
  f_reservation_id :: string
  f_reservation_digest :: string
  f_effect_key :: string
  f_intent_id :: string
  f_intent_digest :: string
  f_role :: string
  f_invocation :: string
  f_provider_candidate :: string
  f_result_digest :: string
  f_provider :: string
  f_model :: string
  f_principal :: string
  f_profile :: string
  f_actual :: int
  f_limits :: budget_limits

record completion =
  y_actual :: int
  y_conservative :: int
  y_invocations :: int
  y_after_deadline :: bool
  y_exceeded :: bool

definition complete_input_well_formed :: "complete_input \<Rightarrow> bool" where
  "complete_input_well_formed f \<longleftrightarrow>
     ASF_DELIVERY_IDENTIFIER (f_reservation_id f) \<and> is_digest (f_reservation_digest f) \<and>
     ASF_DELIVERY_IDENTIFIER (f_effect_key f) \<and> ASF_DELIVERY_IDENTIFIER (f_intent_id f) \<and>
     is_digest (f_intent_digest f) \<and> f_role f \<in> set ASF_PROVIDER_BUDGET_ROLES \<and>
     ASF_DELIVERY_IDENTIFIER (f_invocation f) \<and> is_git_sha (f_provider_candidate f) \<and>
     is_digest (f_result_digest f) \<and> ASF_DELIVERY_IDENTIFIER (f_provider f) \<and>
     ASF_DELIVERY_IDENTIFIER (f_model f) \<and> ASF_DELIVERY_IDENTIFIER (f_principal f) \<and>
     ASF_DELIVERY_IDENTIFIER (f_profile f) \<and> safe_int (f_actual f) \<and> f_actual f \<ge> 0"

definition completion_bound :: "store_env \<Rightarrow> complete_input \<Rightarrow> budget_policy \<Rightarrow> reservation \<Rightarrow> bool" where
  "completion_bound env f q b \<longleftrightarrow>
     b_digest b = digest_of env (asfBudgetReservationMaterial b) \<and> b_digest b = f_reservation_digest f \<and>
     b_effect_key b = f_effect_key f \<and> b_intent_id b = f_intent_id f \<and>
     b_intent_digest b = f_intent_digest f \<and> b_run_id b = d_run (f_binding f) \<and>
     b_work_order b = d_work_order (f_binding f) \<and> b_attempt_id b = d_attempt (f_binding f) \<and>
     b_policy_digest b = d_policy_digest (f_binding f) \<and> b_candidate b = d_candidate (f_binding f) \<and>
     b_provider_candidate b = f_provider_candidate f \<and> b_role b = f_role f \<and>
     b_invocation b = f_invocation f \<and> b_generation b \<le> d_generation (f_binding f) \<and>
     b_max_cost b = q_max_cost q \<and> b_max_invocations b = q_max_invocations q \<and>
     b_accepted_at b = q_accepted q \<and> b_deadline_at b = q_deadline q \<and> b_status b \<noteq> Denied"

definition completed :: "complete_input \<Rightarrow> string \<Rightarrow> reservation \<Rightarrow> reservation" where
  "completed f at_time b =
     b\<lparr>b_status := Completed, b_actual := Some (f_actual f),
       b_completed_generation := Some (d_generation (f_binding f)),
       b_result_digest := Some (f_result_digest f), b_provider := Some (f_provider f),
       b_model := Some (f_model f), b_principal := Some (f_principal f), b_profile := Some (f_profile f),
       b_completed_at := Some at_time\<rparr>"

definition finish_reservation :: "store_env \<Rightarrow> store \<Rightarrow> complete_input \<Rightarrow> reservation \<Rightarrow> store_error + store" where
  "finish_reservation env db f b =
     (if b_status b = Completed then
        (if b_actual b \<noteq> Some (f_actual f) \<or> b_result_digest b \<noteq> Some (f_result_digest f) \<or>
            b_provider b \<noteq> Some (f_provider f) \<or> b_model b \<noteq> Some (f_model f) \<or>
            b_principal b \<noteq> Some (f_principal f) \<or> b_profile b \<noteq> Some (f_profile f)
         then Inl StateConflict else Inr db)
      else and_then (now_iso env) (\<lambda>at_time.
        update_one db (\<lambda>c. b_id c = f_reservation_id f \<and> b_digest c = f_reservation_digest f \<and>
            b_status c = Reserved) (completed f at_time)))"

definition completeAsfProviderBudget ::
  "store_env \<Rightarrow> store \<Rightarrow> complete_input \<Rightarrow> store_error + (store \<times> completion)" where
  "completeAsfProviderBudget env db f =
     (if \<not> complete_input_well_formed f then Inl StateConflict
      else and_then (assertCurrentAsfBudgetBinding db (f_owner f) (f_binding f)) (\<lambda>(run, adm).
        if asfPhaseFreezesExternalAuthority (r_state run) then Inl StateConflict
        else and_then (assertAsfBudgetLimits env adm (f_limits f)) (\<lambda>q.
          case reservation_by_id db (f_reservation_id f) of
            None \<Rightarrow> Inl StateConflict
          | Some b \<Rightarrow>
              if \<not> completion_bound env f q b then Inl StateConflict
              else and_then (finish_reservation env db f b) (\<lambda>db'.
                   and_then (asfProviderBudgetUsage db' (d_run (f_binding f))) (\<lambda>u.
                     Inr (db', \<lparr>y_actual = f_actual f, y_conservative = u_conservative u,
                       y_invocations = u_invocations u,
                       y_after_deadline = js_le (parse_time env (q_deadline q)) (Some (clock env)),
                       y_exceeded = f_actual f > b_reserved b\<rparr>))))))"

section \<open>The controller\<close>

text \<open>\<open>StateStoreAsfProviderBudgetController\<close>: limits in dollars are converted to micro-dollars, and the
  reserved amount back.\<close>

record usd_limits =
  ul_wall :: rat
  ul_cost_usd :: rat
  ul_invocations :: rat

record allowance =
  al_grant :: grant
  al_max_cost_usd :: rat

datatype controller_decision = Allowed allowance | ControllerExhausted exhaustion_reason string

definition new_controller :: "string \<Rightarrow> store_error + string" where
  "new_controller owner = (if js_trim owner = [] then Inl Rejected else Inr owner)"

definition micro_limits :: "store_env \<Rightarrow> usd_limits \<Rightarrow> store_error + budget_limits" where
  "micro_limits env l =
     and_then (asfCostLimitUsdToMicros env (ul_cost_usd l)) (\<lambda>n.
       Inr \<lparr>l_wall = ul_wall l, l_cost = of_int n, l_invocations = ul_invocations l\<rparr>)"

definition controller_checkRun ::
  "store_env \<Rightarrow> store \<Rightarrow> string \<Rightarrow> delivery_binding \<Rightarrow> usd_limits \<Rightarrow>
     store_error + (exhaustion_reason \<times> string) option" where
  "controller_checkRun env db owner d l =
     and_then (micro_limits env l) (\<lambda>m. checkAsfRunBudget env db owner d m)"

definition controller_reserve ::
  "store_env \<Rightarrow> store \<Rightarrow> string \<Rightarrow> reserve_input \<Rightarrow> usd_limits \<Rightarrow>
     store_error + (store \<times> controller_decision)" where
  "controller_reserve env db owner v l =
     and_then (micro_limits env l) (\<lambda>m.
     and_then (reserveAsfProviderBudget env db (v\<lparr>v_owner := owner, v_limits := m\<rparr>)) (\<lambda>(db', d).
       case d of
         Exhausted r digest \<Rightarrow> Inr (db', ControllerExhausted r digest)
       | Granted g \<Rightarrow> and_then (asfMicrosToUsd (g_reserved g)) (\<lambda>usd.
           Inr (db', Allowed \<lparr>al_grant = g, al_max_cost_usd = usd\<rparr>))))"

definition controller_complete ::
  "store_env \<Rightarrow> store \<Rightarrow> string \<Rightarrow> complete_input \<Rightarrow> rat \<Rightarrow> usd_limits \<Rightarrow>
     store_error + (store \<times> completion)" where
  "controller_complete env db owner f cost l =
     and_then (asfObservedCostUsdToMicros env cost) (\<lambda>n.
     and_then (micro_limits env l) (\<lambda>m.
       completeAsfProviderBudget env db (f\<lparr>f_owner := owner, f_actual := n, f_limits := m\<rparr>)))"

section \<open>The abstract ledger\<close>

text \<open>What a run has spent, what it holds back for the one invocation under way, and how many
  invocations it has been granted.\<close>

record ledger =
  spent :: int
  held :: "int option"
  calls :: int

inductive ledger_step :: "int \<Rightarrow> int \<Rightarrow> ledger \<Rightarrow> ledger \<Rightarrow> bool" for maxCost maxCalls where
  ledger_stutter: "ledger_step maxCost maxCalls l l"
| ledger_hold: "held l = None \<Longrightarrow> spent l < maxCost \<Longrightarrow> calls l < maxCalls \<Longrightarrow>
    ledger_step maxCost maxCalls l (l\<lparr>held := Some (maxCost - spent l), calls := calls l + 1\<rparr>)"
| ledger_charge: "held l = Some a \<Longrightarrow> 0 \<le> n \<Longrightarrow>
    ledger_step maxCost maxCalls l (l\<lparr>spent := spent l + n, held := None\<rparr>)"

definition open_reservations :: "reservation list \<Rightarrow> reservation list" where
  "open_reservations bs = filter (\<lambda>b. b_status b = Reserved) bs"

definition spent_of :: "reservation list \<Rightarrow> int" where
  "spent_of bs = u_completed (usage_of bs) + u_settled (usage_of bs)"

definition ledger_of :: "reservation list \<Rightarrow> ledger" where
  "ledger_of bs = \<lparr>spent = spent_of bs,
     held = (case open_reservations bs of [] \<Rightarrow> None | b # _ \<Rightarrow> Some (b_reserved b)),
     calls = u_invocations (usage_of bs)\<rparr>"

text \<open>At most one reservation is open, it holds all that is left, and the calls are within the limit.\<close>

definition ledger_inv :: "int \<Rightarrow> int \<Rightarrow> reservation list \<Rightarrow> bool" where
  "ledger_inv maxCost maxCalls bs \<longleftrightarrow>
     (case open_reservations bs of [] \<Rightarrow> True
      | [b] \<Rightarrow> b_reserved b = maxCost - spent_of bs \<and> 0 < b_reserved b | _ \<Rightarrow> False) \<and>
     u_invocations (usage_of bs) \<le> maxCalls"

lemma sum_where_simps [simp]:
  "sum_where p f [] = 0" "sum_where p f (b # bs) = (if p b then f b else 0) + sum_where p f bs"
  "sum_where p f (bs @ cs) = sum_where p f bs + sum_where p f cs"
  by (simp_all add: sum_where_def)

lemma open_simps [simp]:
  "open_reservations [] = []"
  "open_reservations (b # bs) = (if b_status b = Reserved then b # open_reservations bs else open_reservations bs)"
  "open_reservations (bs @ cs) = open_reservations bs @ open_reservations cs"
  by (simp_all add: open_reservations_def)

lemma outstanding_open: "u_outstanding (usage_of bs) = sum_list (map b_reserved (open_reservations bs))"
  by (induction bs) (simp_all add: usage_of_def Let_def)

lemma conservative_split: "u_conservative (usage_of bs) = spent_of bs + u_outstanding (usage_of bs)"
  by (simp add: usage_of_def spent_of_def Let_def)

lemmas usage_sums = usage_of_def spent_of_def Let_def

text \<open>The two ways the table changes.\<close>

lemma ledger_append_denied:
  assumes "b_status b = Denied"
  shows "ledger_of (bs @ [b]) = ledger_of bs" "ledger_inv M N (bs @ [b]) = ledger_inv M N bs"
proof -
  have "spent_of (bs @ [b]) = spent_of bs" "u_invocations (usage_of (bs @ [b])) = u_invocations (usage_of bs)"
    using assms by (simp_all add: usage_sums)
  with assms show "ledger_of (bs @ [b]) = ledger_of bs" "ledger_inv M N (bs @ [b]) = ledger_inv M N bs"
    by (simp_all add: ledger_of_def ledger_inv_def split: list.splits)
qed

lemma ledger_append_reserved:
  assumes "ledger_inv M N bs" and "b_status b = Reserved"
    and "b_reserved b = M - u_conservative (usage_of bs)" and "u_conservative (usage_of bs) < M"
    and "u_invocations (usage_of bs) < N"
  shows "ledger_step M N (ledger_of bs) (ledger_of (bs @ [b])) \<and> ledger_inv M N (bs @ [b])"
proof -
  have none: "open_reservations bs = []"
    using assms(1,4) by (auto simp: ledger_inv_def conservative_split outstanding_open split: list.splits)
  then have c: "u_conservative (usage_of bs) = spent_of bs"
    by (simp add: conservative_split outstanding_open)
  have l: "ledger_of bs = \<lparr>spent = spent_of bs, held = None, calls = u_invocations (usage_of bs)\<rparr>"
    by (simp add: ledger_of_def none)
  have s: "spent_of (bs @ [b]) = spent_of bs" "u_invocations (usage_of (bs @ [b])) = u_invocations (usage_of bs) + 1"
    using assms(2) by (simp_all add: usage_sums)
  have "ledger_of (bs @ [b]) =
      (ledger_of bs)\<lparr>held := Some (M - spent (ledger_of bs)), calls := calls (ledger_of bs) + 1\<rparr>"
    using assms(2,3) by (simp add: l ledger_of_def none s c)
  moreover have "ledger_step M N (ledger_of bs)
      ((ledger_of bs)\<lparr>held := Some (M - spent (ledger_of bs)), calls := calls (ledger_of bs) + 1\<rparr>)"
    by (rule ledger_hold) (use assms(4,5) in \<open>simp_all add: l c\<close>)
  moreover have "ledger_inv M N (bs @ [b])"
    using assms(2-5) by (simp add: ledger_inv_def none s c)
  ultimately show ?thesis by metis
qed

text \<open>An open reservation is closed with a charge of \<open>n\<close>.\<close>

lemma ledger_close:
  assumes "ledger_inv M N (us @ b # vs)" and "b_status b = Reserved" and "0 \<le> n"
    and "b_status c = Completed \<or> b_status c = SettledUnknown" and "b_actual c = Some n"
  shows "ledger_step M N (ledger_of (us @ b # vs)) (ledger_of (us @ c # vs)) \<and> ledger_inv M N (us @ c # vs)"
proof -
  have none: "open_reservations us = []" "open_reservations vs = []"
    using assms(1,2) by (auto simp: ledger_inv_def append_eq_Cons_conv split: list.splits)
  have s: "spent_of (us @ c # vs) = spent_of (us @ b # vs) + n"
    "u_invocations (usage_of (us @ c # vs)) = u_invocations (usage_of (us @ b # vs))"
    using assms(2,4,5) by (auto simp: usage_sums actual_cost_def)
  have o: "open_reservations (us @ c # vs) = []" "open_reservations (us @ b # vs) = [b]"
    using assms(2,4) none by auto
  have "ledger_of (us @ c # vs) =
      (ledger_of (us @ b # vs))\<lparr>spent := spent (ledger_of (us @ b # vs)) + n, held := None\<rparr>"
    by (simp add: ledger_of_def o s del: open_simps)
  moreover have "ledger_step M N (ledger_of (us @ b # vs))
      ((ledger_of (us @ b # vs))\<lparr>spent := spent (ledger_of (us @ b # vs)) + n, held := None\<rparr>)"
    by (rule ledger_charge [of _ "b_reserved b"]) (simp_all add: ledger_of_def o assms(3) del: open_simps)
  moreover have "ledger_inv M N (us @ c # vs)"
    using assms(1) by (simp add: ledger_inv_def o s del: open_simps)
  ultimately show ?thesis by metis
qed

section \<open>What the transactions do to the table\<close>

lemma option_Inr_iff: "(case x of None \<Rightarrow> Inl e | Some v \<Rightarrow> k v) = Inr y \<longleftrightarrow> (\<exists>v. x = Some v \<and> k v = Inr y)"
  by (cases x) simp_all

lemma prod_Inr_iff: "(case x of (a, b) \<Rightarrow> k a b) = Inr y \<longleftrightarrow> (\<exists>a b. x = (a, b) \<and> k a b = Inr y)"
  by (cases x) simp

lemmas transaction_iff = guard_Inr_iff option_Inr_iff prod_Inr_iff and_then_Inr_iff now_iso_Inr_iff

lemma binding_current:
  assumes "assertCurrentAsfBudgetBinding db owner d = Inr (run, adm)"
  shows "getAsfRun db (d_run d) = Some run \<and> getAsfAdmissionForRun db (d_run d) = Some adm \<and>
     owns db (d_run d) owner (d_generation d) \<and> r_candidate run = d_candidate d"
  using assms
  by (auto simp: assertCurrentAsfBudgetBinding_def owns_def split: if_splits option.splits)

lemma usage_Inr: "asfProviderBudgetUsage db run = Inr u \<Longrightarrow> u = usage_of (reservations_of db run)"
  by (auto simp: asfProviderBudgetUsage_def Let_def split: if_splits)

lemma limits_policy: "assertAsfBudgetLimits env adm l = Inr q \<Longrightarrow> effectiveAsfBudgetPolicy env adm = Inr q"
  by (auto simp: assertAsfBudgetLimits_def transaction_iff)

lemma insert_reservation_Inr:
  "insert_reservation db b = Inr db' \<longleftrightarrow> reservation_check b \<and>
     \<not> list_ex (reservation_clash b) (reservations db) \<and> db' = db\<lparr>reservations := reservations db @ [b]\<rparr>"
  by (auto simp: insert_reservation_def)

lemma filter_one: "length (filter p xs) = 1 \<Longrightarrow>
    \<exists>us x vs. xs = us @ x # vs \<and> p x \<and> (\<forall>u \<in> set us \<union> set vs. \<not> p u)"
proof (induction xs)
  case (Cons y ys)
  show ?case
  proof (cases "p y")
    case True
    with Cons.prems have "\<forall>u \<in> set ys. \<not> p u" by (auto simp: filter_empty_conv)
    with True show ?thesis by (intro exI [of _ "[]"] exI [of _ y] exI [of _ ys]) simp
  next
    case False
    with Cons obtain us x vs where "ys = us @ x # vs" "p x" "\<forall>u \<in> set us \<union> set vs. \<not> p u" by auto
    with False show ?thesis by (intro exI [of _ "y # us"] exI [of _ x] exI [of _ vs]) simp
  qed
qed simp

lemma update_one_Inr:
  assumes "update_one db p f = Inr db'"
  shows "\<exists>us b vs. reservations db = us @ b # vs \<and> p b \<and> reservation_check (f b) \<and>
     db' = db\<lparr>reservations := us @ f b # vs\<rparr>"
proof -
  have one: "length (filter p (reservations db)) = 1" and
    db': "db' = db\<lparr>reservations := map (\<lambda>b. if p b then f b else b) (reservations db)\<rparr>" and
    ok: "\<forall>b \<in> set (reservations db). p b \<longrightarrow> reservation_check (f b)"
    using assms by (auto simp: update_one_def transaction_iff list_ex_iff split: if_splits)
  obtain us b vs where s: "reservations db = us @ b # vs" "p b" "\<forall>u \<in> set us \<union> set vs. \<not> p u"
    using filter_one [OF one] by blast
  then have "map (\<lambda>b. if p b then f b else b) (reservations db) = us @ f b # vs"
    by (auto intro!: map_idI)
  with s ok db' show ?thesis by auto
qed

text \<open>A new reservation: the row that is appended, and what is granted for it.\<close>

definition reserved_row :: "reservation list \<Rightarrow> budget_policy \<Rightarrow> reservation \<Rightarrow> bool" where
  "reserved_row bs q b \<longleftrightarrow> b_status b = Reserved \<and> b_reserved b = q_max_cost q - u_conservative (usage_of bs) \<and>
     u_conservative (usage_of bs) < q_max_cost q \<and> u_invocations (usage_of bs) < q_max_invocations q"

lemma reserve_new_shape:
  assumes "reserve_new env db v q ident = Inr (db', d)"
  shows "\<exists>b. db' = db\<lparr>reservations := reservations db @ [b]\<rparr> \<and> b_run_id b = d_run (v_binding v) \<and>
     b_effect_key b = v_effect_key v \<and> reservation_check b \<and>
     \<not> list_ex (reservation_clash b) (reservations db) \<and>
     (b_status b = Denied \<and> (\<exists>r dig. d = Exhausted r dig) \<or>
      reserved_row (reservations_of db (d_run (v_binding v))) q b \<and>
      (\<exists>g. d = Granted g \<and> g_reserved g = b_reserved b \<and>
         g_authorization g = (if v_mode v = ObserveBeforeApply then Invoke else ReconcileOnly)))"
proof -
  obtain u t where u: "u = usage_of (reservations_of db (d_run (v_binding v)))"
    and k: "reserve_new env db v q ident = Inr (db', d)" "asfProviderBudgetUsage db (d_run (v_binding v)) = Inr u"
      "now_iso env = Inr t"
    using assms by (auto simp: reserve_new_def and_then_Inr_iff dest: usage_Inr)
  show ?thesis
  proof (cases "exhaustion env q u t")
    case None
    then have "u_invocations u < q_max_invocations q" "u_conservative u < q_max_cost q"
      by (auto simp: exhaustion_def split: if_splits)
    with None k u show ?thesis
      unfolding reserve_new_def Let_def
      by (auto simp: and_then_Inr_iff insert_reservation_Inr reserved_row_def new_reservation_def)
  next
    case (Some r)
    with k show ?thesis
      unfolding reserve_new_def Let_def
      by (auto simp: and_then_Inr_iff insert_reservation_Inr new_reservation_def)
  qed
qed

lemma reserve_existing_no_invoke:
  "reserve_existing env db v q ident b = Inr (Granted g) \<Longrightarrow> g_authorization g = ReconcileOnly"
  by (auto simp: reserve_existing_def Let_def and_then_Inr_iff split: if_splits option.splits)

lemma reserve_shape:
  assumes "reserveAsfProviderBudget env db v = Inr (db', d)"
  shows "\<exists>run adm q. assertCurrentAsfBudgetBinding db (v_owner v) (v_binding v) = Inr (run, adm) \<and>
     effectiveAsfBudgetPolicy env adm = Inr q \<and>
     (db' = db \<and> reservation_for_effect db (v_effect_key v) \<noteq> None \<and>
        (\<forall>g. d = Granted g \<longrightarrow> g_authorization g = ReconcileOnly) \<or>
      reservation_for_effect db (v_effect_key v) = None \<and>
      \<not> asfPhaseFreezesExternalAuthority (r_state run) \<and>
      getAsfTerminalEvidencePlanRecord db (d_run (v_binding v)) = None \<and>
      reserve_new env db v q (asfProviderBudgetReservationId env (v_effect_key v) (v_role v) (v_invocation v))
        = Inr (db', d))"
proof -
  let ?ident = "asfProviderBudgetReservationId env (v_effect_key v) (v_role v) (v_invocation v)"
  obtain run adm q where b: "assertCurrentAsfBudgetBinding db (v_owner v) (v_binding v) = Inr (run, adm)"
    "assertAsfBudgetLimits env adm (v_limits v) = Inr q"
    "(case reservation_for_effect db (v_effect_key v) of
        Some b \<Rightarrow> and_then (reserve_existing env db v q ?ident b) (\<lambda>d. Inr (db, d))
      | None \<Rightarrow> if asfPhaseFreezesExternalAuthority (r_state run) then Inl StateConflict
          else if getAsfTerminalEvidencePlanRecord db (d_run (v_binding v)) \<noteq> None then Inl StateConflict
          else reserve_new env db v q ?ident) = Inr (db', d)"
    using assms unfolding reserveAsfProviderBudget_def Let_def transaction_iff by blast
  then show ?thesis
    using limits_policy [OF b(2)]
    by (cases "reservation_for_effect db (v_effect_key v)")
      (auto simp: transaction_iff dest: reserve_existing_no_invoke)
qed

lemma complete_shape:
  assumes "completeAsfProviderBudget env db f = Inr (db', y)"
  shows "\<exists>run adm. assertCurrentAsfBudgetBinding db (f_owner f) (f_binding f) = Inr (run, adm) \<and>
     \<not> asfPhaseFreezesExternalAuthority (r_state run) \<and> 0 \<le> f_actual f \<and>
     (db' = db \<or> (\<exists>us b vs t. reservations db = us @ b # vs \<and> b_status b = Reserved \<and>
        b_id b = f_reservation_id f \<and> b_digest b = f_reservation_digest f \<and>
        db' = db\<lparr>reservations := us @ completed f t b # vs\<rparr>))"
proof -
  obtain run adm b where c: "assertCurrentAsfBudgetBinding db (f_owner f) (f_binding f) = Inr (run, adm)"
    "\<not> asfPhaseFreezesExternalAuthority (r_state run)" "0 \<le> f_actual f"
    "finish_reservation env db f b = Inr db'"
    using assms
    unfolding completeAsfProviderBudget_def transaction_iff complete_input_well_formed_def
    by blast
  have "db' = db \<or> (\<exists>us b vs t. reservations db = us @ b # vs \<and> b_status b = Reserved \<and>
        b_id b = f_reservation_id f \<and> b_digest b = f_reservation_digest f \<and>
        db' = db\<lparr>reservations := us @ completed f t b # vs\<rparr>)"
  proof (cases "b_status b = Completed")
    case True
    with c(4) show ?thesis by (simp add: finish_reservation_def guard_Inr_iff split: if_splits)
  next
    case False
    with c(4) show ?thesis
      by (auto simp: finish_reservation_def and_then_Inr_iff dest!: update_one_Inr)
  qed
  with c show ?thesis by blast
qed

lemma settle_unknown_shape:
  assumes "settleUnknownAsfProviderBudgetForIntent env db i out obs g t = Inr (db', d)"
  shows "db' = db \<or> (\<exists>us b vs dig. reservations db = us @ b # vs \<and> b_status b = Reserved \<and>
     0 < b_reserved b \<and> b_effect_key b = i_effect_key i \<and>
     db' = db\<lparr>reservations := us @ settled out obs dig g t b # vs\<rparr>)"
proof (cases "reservation_for_effect db (i_effect_key i)")
  case None
  with assms show ?thesis by (simp add: settleUnknownAsfProviderBudgetForIntent_def guard_Inr_iff)
next
  case (Some b)
  show ?thesis
  proof (cases "b_status b = Reserved")
    case True
    let ?dig = "digest_of env (asfBudgetUnknownSettlementMaterial b out obs g t)"
    have "update_one db (\<lambda>c. b_id c = b_id b \<and> b_digest c = b_digest b \<and> b_effect_key c = i_effect_key i \<and>
        b_intent_id c = i_id i \<and> b_intent_digest c = i_digest i \<and> b_status c = Reserved)
        (settled out obs ?dig g t) = Inr db'"
      using assms unfolding settleUnknownAsfProviderBudgetForIntent_def Some option.case guard_Inr_iff True
        reservation_status.case Let_def and_then_Inr_iff sum.inject prod.inject by blast
    from update_one_Inr [OF this] obtain us c vs where c: "reservations db = us @ c # vs"
      "b_effect_key c = i_effect_key i" "b_status c = Reserved"
      "reservation_check (settled out obs ?dig g t c)"
      "db' = db\<lparr>reservations := us @ settled out obs ?dig g t c # vs\<rparr>" by blast
    have "0 < b_reserved c" using c(4) by (simp add: reservation_check_def columns_match_status_def settled_def)
    with c show ?thesis by blast
  next
    case False
    then have "b_status b = Completed \<or> b_status b = Denied \<or> b_status b = SettledUnknown"
      by (cases "b_status b") simp_all
    then show ?thesis
      using assms unfolding settleUnknownAsfProviderBudgetForIntent_def Some option.case guard_Inr_iff
      by (elim disjE) (simp_all only: reservation_status.case guard_Inr_iff sum.inject prod.inject simp_thms)
  qed
qed

lemma settle_shape:
  assumes "settleResolvedAsfProviderBudgetForIntent env db i = Inr (db', d)"
  shows "db' = db \<or> (\<exists>us b vs out obs dig g t. reservations db = us @ b # vs \<and> b_status b = Reserved \<and>
     0 < b_reserved b \<and> b_effect_key b = i_effect_key i \<and>
     db' = db\<lparr>reservations := us @ settled out obs dig g t b # vs\<rparr>)"
proof -
  have "db' = db \<or> (\<exists>out obs g t. settleUnknownAsfProviderBudgetForIntent env db i out obs g t = Inr (db', d))"
    using assms unfolding settleResolvedAsfProviderBudgetForIntent_def
    by (auto split: option.splits if_splits)
  with settle_unknown_shape show ?thesis by metis
qed

section \<open>Sequences of budget transactions\<close>

text \<open>The environment of a sequence changes only in its clock.\<close>

definition at_clock :: "store_env \<Rightarrow> rat \<Rightarrow> store_env" where
  "at_clock env t = env\<lparr>recovery := (recovery env)\<lparr>now := t\<rparr>\<rparr>"

datatype budget_event =
  Reserves rat reserve_input budget_decision
| Completes rat complete_input completion
| Settles rat stored_intent

inductive budget_step :: "store_env \<Rightarrow> store \<Rightarrow> budget_event \<Rightarrow> store \<Rightarrow> bool" for env where
  step_reserve: "reserveAsfProviderBudget (at_clock env t) db v = Inr (db', d) \<Longrightarrow>
    budget_step env db (Reserves t v d) db'"
| step_complete: "completeAsfProviderBudget (at_clock env t) db f = Inr (db', y) \<Longrightarrow>
    budget_step env db (Completes t f y) db'"
| step_settle: "settleResolvedAsfProviderBudgetForIntent (at_clock env t) db i = Inr (db', d) \<Longrightarrow>
    budget_step env db (Settles t i) db'"

text \<open>A provider call is authorised.\<close>

fun authorises :: "string \<Rightarrow> budget_event \<Rightarrow> bool" where
  "authorises key (Reserves t v d) =
     (v_effect_key v = key \<and> (case d of Granted g \<Rightarrow> g_authorization g = Invoke | Exhausted _ _ \<Rightarrow> False))"
| "authorises key (Completes t f y) = False"
| "authorises key (Settles t i) = False"

definition overrun :: "reservation \<Rightarrow> int" where
  "overrun b = (if b_status b = Completed \<and> actual_cost b > b_reserved b then actual_cost b - b_reserved b else 0)"

text \<open>What the provider calls of a run can have cost beyond the limit: one call, at the end.\<close>

definition overrun_inv :: "int \<Rightarrow> reservation list \<Rightarrow> bool" where
  "overrun_inv maxCost bs \<longleftrightarrow>
     u_conservative (usage_of bs) \<le> maxCost + sum_list (map overrun bs) \<and>
     (case filter (\<lambda>b. overrun b > 0) bs of [] \<Rightarrow> True | [_] \<Rightarrow> spent_of bs > maxCost | _ \<Rightarrow> False)"

lemma at_clock_simps [simp]:
  "json_parse (at_clock env t) = json_parse env" "number_text (at_clock env t) = number_text env"
  "iso (at_clock env t) = iso env" "parse_time (at_clock env t) s = parse_time env s"
  "digest_of (at_clock env t) j = digest_of env j" "canonicalJson (at_clock env t) = canonicalJson env"
  "clock (at_clock env t) = t"
  by (simp_all add: at_clock_def parse_time_def digest_of_def clock_def)

lemma policy_at_clock [simp]: "effectiveAsfBudgetPolicy (at_clock env t) adm = effectiveAsfBudgetPolicy env adm"
proof -
  have "policy_micros (at_clock env t) = policy_micros env" "policy_deadline (at_clock env t) = policy_deadline env"
    unfolding fun_eq_iff policy_micros_def policy_deadline_def at_clock_simps by simp_all
  then show ?thesis by (simp only: effectiveAsfBudgetPolicy_def at_clock_simps)
qed

lemma overrun_nonneg: "0 \<le> sum_list (map overrun bs)"
  by (induction bs) (auto simp: overrun_def)

text \<open>The three ways a step changes the reservations of a run.\<close>

lemma step_cases:
  assumes "budget_step env db l db'" and "getAsfAdmissionForRun db run = Some adm"
    and "effectiveAsfBudgetPolicy env adm = Inr q"
  obtains (same) "reservations_of db' run = reservations_of db run"
  | (denied) b where "b_status b = Denied" "reservations_of db' run = reservations_of db run @ [b]"
  | (reserved) b where "reserved_row (reservations_of db run) q b"
      "reservations_of db' run = reservations_of db run @ [b]"
  | (closed) us b vs c n where "reservations_of db run = us @ b # vs" "reservations_of db' run = us @ c # vs"
      "b_status b = Reserved" "b_actual c = Some n" "0 \<le> n" "b_reserved c = b_reserved b"
      "b_status c = Completed \<or> b_status c = SettledUnknown \<and> n = b_reserved b"
  using assms(1)
proof (cases rule: budget_step.cases)
  case (step_reserve t v d)
  from reserve_shape [OF step_reserve(2)] obtain run' adm' q' where
    c: "assertCurrentAsfBudgetBinding db (v_owner v) (v_binding v) = Inr (run', adm')"
    "effectiveAsfBudgetPolicy env adm' = Inr q'" and
    k: "db' = db \<or> (\<exists>ident. reserve_new (at_clock env t) db v q' ident = Inr (db', d))" by auto
  show thesis
  proof (cases "db' = db")
    case True
    then show thesis using same by simp
  next
    case False
    with k obtain ident where "reserve_new (at_clock env t) db v q' ident = Inr (db', d)" by blast
    from reserve_new_shape [OF this] obtain b where b: "db' = db\<lparr>reservations := reservations db @ [b]\<rparr>"
      "b_run_id b = d_run (v_binding v)"
      "b_status b = Denied \<or> reserved_row (reservations_of db (d_run (v_binding v))) q' b" by blast
    show thesis
    proof (cases "d_run (v_binding v) = run")
      case True
      with c assms(2,3) have "q' = q" using binding_current [OF c(1)] by simp
      with b True denied [of b] reserved [of b] show thesis by (auto simp: reservations_of_def)
    next
      case False
      with b show thesis by (intro same) (simp add: reservations_of_def)
    qed
  qed
next
  case (step_complete t f y)
  from complete_shape [OF step_complete(2)] have "db' = db \<or> 0 \<le> f_actual f \<and>
      (\<exists>us b vs t. reservations db = us @ b # vs \<and> b_status b = Reserved \<and>
        db' = db\<lparr>reservations := us @ completed f t b # vs\<rparr>)" by blast
  then consider "db' = db" | us b vs t where "0 \<le> f_actual f" "reservations db = us @ b # vs"
      "b_status b = Reserved" "db' = db\<lparr>reservations := us @ completed f t b # vs\<rparr>" by blast
  then show thesis
  proof cases
    case (2 us b vs t)
    show thesis
    proof (cases "b_run_id b = run")
      case True
      with 2 show thesis
        by (intro closed [of "filter (\<lambda>b. b_run_id b = run) us" b "filter (\<lambda>b. b_run_id b = run) vs"
            "completed f t b"]) (auto simp: reservations_of_def completed_def)
    next
      case False
      with 2 show thesis by (intro same) (simp add: reservations_of_def completed_def)
    qed
  qed (simp add: same)
next
  case (step_settle t i d)
  from settle_shape [OF step_settle(2)] consider "db' = db" | us b vs out obs dig g t where
      "reservations db = us @ b # vs" "b_status b = Reserved" "0 < b_reserved b"
      "db' = db\<lparr>reservations := us @ settled out obs dig g t b # vs\<rparr>" by blast
  then show thesis
  proof cases
    case (2 us b vs out obs dig g t)
    show thesis
    proof (cases "b_run_id b = run")
      case True
      with 2 show thesis
        by (intro closed [of "filter (\<lambda>b. b_run_id b = run) us" b "filter (\<lambda>b. b_run_id b = run) vs"
            "settled out obs dig g t b"]) (auto simp: reservations_of_def settled_def)
    next
      case False
      with 2 show thesis by (intro same) (simp add: reservations_of_def settled_def)
    qed
  qed (simp add: same)
qed

lemma step_ledger:
  assumes "budget_step env db l db'" and "getAsfAdmissionForRun db run = Some adm"
    and "effectiveAsfBudgetPolicy env adm = Inr q"
    and inv: "ledger_inv (q_max_cost q) (q_max_invocations q) (reservations_of db run)"
  shows "ledger_step (q_max_cost q) (q_max_invocations q) (ledger_of (reservations_of db run))
      (ledger_of (reservations_of db' run)) \<and>
    ledger_inv (q_max_cost q) (q_max_invocations q) (reservations_of db' run)"
  using assms(1-3)
proof (cases rule: step_cases)
  case same
  with inv show ?thesis by (simp add: ledger_stutter)
next
  case (denied b)
  with inv show ?thesis by (simp add: ledger_append_denied ledger_stutter)
next
  case (reserved b)
  with ledger_append_reserved [OF inv] show ?thesis by (simp add: reserved_row_def)
next
  case (closed us b vs c n)
  with ledger_close [of "q_max_cost q" "q_max_invocations q" us b vs n c] inv show ?thesis by auto
qed

lemma at_most_one_none: "(case xs of [] \<Rightarrow> True | [_] \<Rightarrow> P | _ \<Rightarrow> False) \<Longrightarrow> \<not> P \<Longrightarrow> xs = []"
  by (auto split: list.splits)

lemma step_overrun:
  assumes "budget_step env db l db'" and "getAsfAdmissionForRun db run = Some adm"
    and "effectiveAsfBudgetPolicy env adm = Inr q"
    and inv: "ledger_inv (q_max_cost q) (q_max_invocations q) (reservations_of db run)"
    and over: "overrun_inv (q_max_cost q) (reservations_of db run)"
  shows "overrun_inv (q_max_cost q) (reservations_of db' run)"
  using assms(1-3)
proof (cases rule: step_cases)
  case same
  with over show ?thesis by simp
next
  case (denied b)
  let ?bs = "reservations_of db run"
  have "overrun b = 0" "u_conservative (usage_of (?bs @ [b])) = u_conservative (usage_of ?bs)"
    "spent_of (?bs @ [b]) = spent_of ?bs"
    using denied(1) by (simp_all add: overrun_def usage_sums)
  with denied(2) over show ?thesis by (simp add: overrun_inv_def split: list.splits)
next
  case (reserved b)
  let ?bs = "reservations_of db run"
  have o: "overrun b = 0" using reserved(1) by (simp add: overrun_def reserved_row_def)
  have none: "open_reservations ?bs = []"
    using reserved(1) inv
    by (auto simp: reserved_row_def ledger_inv_def conservative_split outstanding_open split: list.splits)
  have c: "u_conservative (usage_of ?bs) = spent_of ?bs"
    by (simp add: conservative_split outstanding_open none)
  then have s: "spent_of ?bs < q_max_cost q" "spent_of (?bs @ [b]) = spent_of ?bs"
    using reserved(1) by (simp_all add: reserved_row_def usage_sums)
  moreover have "u_outstanding (usage_of (?bs @ [b])) = q_max_cost q - spent_of ?bs"
    using reserved(1) none c by (simp add: reserved_row_def outstanding_open)
  ultimately have s: "spent_of ?bs < q_max_cost q" "spent_of (?bs @ [b]) = spent_of ?bs"
    "u_conservative (usage_of (?bs @ [b])) = q_max_cost q"
    by (simp_all add: conservative_split)
  have "filter (\<lambda>b. overrun b > 0) ?bs = []"
    using over s(1) by (auto simp: overrun_inv_def split: list.splits)
  then show ?thesis
    using reserved(2) o s overrun_nonneg [of ?bs] by (simp add: overrun_inv_def)
next
  case (closed us b vs c n)
  have none: "open_reservations us = []" "open_reservations vs = []"
    "b_reserved b = q_max_cost q - spent_of (us @ b # vs)" "0 < b_reserved b"
    using inv closed by (auto simp: ledger_inv_def append_eq_Cons_conv split: list.splits)
  have zero: "filter (\<lambda>b. overrun b > 0) us = []" "filter (\<lambda>b. overrun b > 0) vs = []"
  proof -
    have "\<not> spent_of (us @ b # vs) > q_max_cost q" using none(3,4) by simp
    with over have "filter (\<lambda>b. overrun b > 0) (us @ b # vs) = []"
      unfolding closed(1) overrun_inv_def by (blast intro: at_most_one_none)
    then show "filter (\<lambda>b. overrun b > 0) us = []" "filter (\<lambda>b. overrun b > 0) vs = []"
      by (simp_all split: if_splits)
  qed
  have s: "spent_of (us @ c # vs) = q_max_cost q - b_reserved b + n"
  proof -
    have "spent_of (us @ c # vs) = spent_of (us @ b # vs) + n"
      using closed(3,4,7) by (auto simp: usage_sums actual_cost_def)
    with none(3) show ?thesis by linarith
  qed
  have o: "open_reservations (us @ c # vs) = []" using none closed(7) by auto
  have cons: "u_conservative (usage_of (us @ c # vs)) = q_max_cost q - b_reserved b + n"
    by (simp add: conservative_split outstanding_open s o del: open_simps)
  have oc: "overrun c = (if b_status c = Completed \<and> n > b_reserved b then n - b_reserved b else 0)"
    using closed by (simp add: overrun_def actual_cost_def)
  have "n - b_reserved b \<le> overrun c" using closed(7) by (auto simp: oc)
  then have "n - b_reserved b \<le> sum_list (map overrun (us @ c # vs))"
    using overrun_nonneg [of us] overrun_nonneg [of vs] by simp
  then show ?thesis
    using closed(2) cons zero s oc by (auto simp: overrun_inv_def)
qed

definition budget_safe :: "store_env \<Rightarrow> string \<Rightarrow> admission \<Rightarrow> budget_policy \<Rightarrow> store \<Rightarrow> bool" where
  "budget_safe env run adm q db \<longleftrightarrow>
     effectiveAsfBudgetPolicy env adm = Inr q \<and> getAsfAdmissionForRun db run = Some adm \<and>
     ledger_inv (q_max_cost q) (q_max_invocations q) (reservations_of db run) \<and>
     overrun_inv (q_max_cost q) (reservations_of db run)"

lemma budget_step_shape:
  assumes "budget_step env db l db'"
  shows "(\<exists>bs. db' = db\<lparr>reservations := bs\<rparr>) \<and>
     b_effect_key ` set (reservations db) \<subseteq> b_effect_key ` set (reservations db')"
  using assms
proof (cases rule: budget_step.cases)
  case (step_reserve t v d)
  from reserve_shape [OF step_reserve(2)] reserve_new_shape
  have "db' = db \<or> (\<exists>b. db' = db\<lparr>reservations := reservations db @ [b]\<rparr>)" by metis
  then show ?thesis by (auto intro: exI [of _ "reservations db"])
next
  case (step_complete t f y)
  from complete_shape [OF step_complete(2)] consider "db' = db" | us b vs t where
      "reservations db = us @ b # vs" "db' = db\<lparr>reservations := us @ completed f t b # vs\<rparr>" by blast
  then show ?thesis by cases (auto intro: exI [of _ "reservations db"] simp: completed_def)
next
  case (step_settle t i d)
  from settle_shape [OF step_settle(2)] consider "db' = db" | us b vs out obs dig g t where
      "reservations db = us @ b # vs" "db' = db\<lparr>reservations := us @ settled out obs dig g t b # vs\<rparr>" by blast
  then show ?thesis by cases (auto intro: exI [of _ "reservations db"] simp: settled_def)
qed

interpretation budget: preserved "budget_step env" "budget_safe env run adm q" for env run adm q
proof
  fix db l db' assume "budget_safe env run adm q db" "budget_step env db l db'"
  then show "budget_safe env run adm q db'"
    using step_ledger step_overrun budget_step_shape [of env db l db']
    by (auto simp: budget_safe_def getAsfAdmissionForRun_def)
qed

definition effect_reserved :: "string \<Rightarrow> store \<Rightarrow> bool" where
  "effect_reserved key db \<longleftrightarrow> key \<in> b_effect_key ` set (reservations db)"

interpretation authorised: preserved "budget_step env" "effect_reserved key" for env key
proof
  fix db l db' assume "effect_reserved key db" "budget_step env db l db'"
  then show "effect_reserved key db'" using budget_step_shape [of env db l db'] by (auto simp: effect_reserved_def)
qed

lemma reservation_for_effect_iff: "reservation_for_effect db key = None \<longleftrightarrow> \<not> effect_reserved key db"
  by (auto simp: reservation_for_effect_def effect_reserved_def find_None_iff)

lemma authorises_step:
  assumes "budget_step env db l db'" and "authorises key l"
  shows "\<not> effect_reserved key db \<and> effect_reserved key db'"
  using assms
proof (cases rule: budget_step.cases)
  case (step_reserve t v d)
  with assms(2) obtain g where g: "d = Granted g" "g_authorization g = Invoke" "v_effect_key v = key"
    by (cases d) auto
  from reserve_shape [OF step_reserve(2)] g obtain q ident where
    n: "reservation_for_effect db key = None" "reserve_new (at_clock env t) db v q ident = Inr (db', d)" by auto
  from reserve_new_shape [OF n(2)] g(3) n(1) show ?thesis
    by (auto simp: reservation_for_effect_iff effect_reserved_def)
qed auto

section \<open>Properties\<close>

lemma digits_value_nonneg: "0 \<le> n \<Longrightarrow> list_all digit_char s \<Longrightarrow> 0 \<le> digits_value n s"
proof (induction n s rule: digits_value.induct)
  case (2 n c cs)
  have "(of_char c :: int) = int (of_char c)" by (metis of_nat_of_char)
  with 2 show ?case by (simp add: digit_char_def char_in_def)
qed simp

lemma decimal_text_nonneg: "decimal_text t = Some (c, e) \<Longrightarrow> 0 \<le> c"
  by (auto simp: decimal_text_def Let_def read_nat_def digits_value_nonneg split: option.splits if_splits)

lemma scaled_rounds:
  fixes e c :: int
  assumes "0 \<le> c"
  defines "v \<equiv> (of_int c :: rat) * 10 powi e"
  shows "scaled Floor c e = \<lfloor>v\<rfloor> \<and> scaled Ceil c e = \<lceil>v\<rceil> \<and> 0 \<le> scaled Floor c e"
proof (cases "e \<ge> 0")
  case True
  then have "v = of_int (c * 10 ^ nat e)" by (simp add: v_def power_int_def)
  then have "\<lfloor>v\<rfloor> = c * 10 ^ nat e" "\<lceil>v\<rceil> = c * 10 ^ nat e" by (metis floor_of_int, metis ceiling_of_int)
  with True assms(1) show ?thesis by (simp add: scaled_def)
next
  case False
  define d where "d = (10::int) ^ nat (- e)"
  have d0: "d > 0" by (simp add: d_def)
  have v: "v = of_int c / of_int d" using False by (simp add: v_def d_def power_int_def field_simps)
  have f: "\<lfloor>v\<rfloor> = c div d" unfolding v by (rule floor_divide_of_int_eq)
  have "(of_int c :: rat) = of_int (c div d) * of_int d + of_int (c mod d)"
    by (metis div_mult_mod_eq of_int_add of_int_mult)
  then have split: "v = of_int (c div d) + of_int (c mod d) / of_int d"
    using d0 by (simp add: v field_simps)
  have "\<lceil>v\<rceil> = c div d + (if c mod d \<noteq> 0 then 1 else 0)"
  proof (cases "c mod d = 0")
    case True
    then have "v = of_int (c div d)" using split by simp
    then have "\<lceil>v\<rceil> = c div d" by (metis ceiling_of_int)
    with True show ?thesis by simp
  next
    case False
    have "(of_int (c mod d) :: rat) / of_int d > 0" "(of_int (c mod d) :: rat) / of_int d \<le> 1"
      using False d0 pos_mod_sign [OF d0, of c] pos_mod_bound [OF d0, of c] by (simp_all add: field_simps)
    then have "\<lceil>v\<rceil> = c div d + 1" using split by (intro ceiling_unique) simp_all
    with False show ?thesis by simp
  qed
  with f False assms(1) d0 show ?thesis by (simp add: scaled_def Let_def d_def pos_imp_zdiv_nonneg_iff)
qed



text \<open>A run whose candidate is about to be written by the implementer.\<close>

definition sample_budget_env :: store_env where
  "sample_budget_env = sample_store_env\<lparr>
     recovery := digest_env\<lparr>date_parse := (\<lambda>s. if s = ''late'' then Some 1000 else Some 0)\<rparr>,
     json_parse := (\<lambda>_. Some (JObject [(''digest'', JString sample_digest), (''budgets'', JObject
       [(''wallSeconds'', JNumber 1), (''maxCostUsd'', JNumber 1), (''maxAgentInvocations'', JNumber 2)])])),
     iso := (\<lambda>t. if t \<ge> 1000 then Some ''late'' else Some ''2026'')\<rparr>"

definition sample_intent :: intent_row where
  "sample_intent = \<lparr>i_schema = ''asf.delivery-stage-intent/v1'',
     i_id = ''delivery_'' @ replicate 32 (CHR ''0''), i_digest = sample_digest,
     i_effect_key = ''delivery_effect_'' @ replicate 32 (CHR ''0''), i_stage = ''candidate'', i_run_id = ''r'',
     i_work_order = ''w'', i_attempt_id = ''a'', i_policy_digest = sample_digest, i_generation = 1,
     i_candidate = None, i_event_seq = 1, i_operation_digest = sample_digest, i_created_at = ''2026'',
     i_observation_digest = None, i_outcome = None, i_confirmed_generation = None, i_confirmed_at = None,
     i_replay_operation = None, i_replay_generation = None, i_canonical = ''doc''\<rparr>"

definition owned_run :: run_row where
  "owned_run = (sample_run ''r'')\<lparr>r_owner := Some ''o'', r_generation := 1, r_base := Some sample_sha\<rparr>"

definition sample_budget_store :: store where
  "sample_budget_store = empty_store\<lparr>runs := [owned_run], admissions := [sample_admission ''r''],
     intents := [sample_intent]\<rparr>"

definition sample_binding :: delivery_binding where
  "sample_binding = \<lparr>d_run = ''r'', d_work_order = ''w'', d_attempt = ''a'', d_policy_digest = sample_digest,
     d_generation = 1, d_candidate = None\<rparr>"

definition sample_reserve :: reserve_input where
  "sample_reserve = \<lparr>v_owner = ''o'', v_binding = sample_binding, v_effect_key = i_effect_key sample_intent,
     v_intent_id = i_id sample_intent, v_intent_digest = sample_digest, v_intent_generation = 1,
     v_mode = ObserveBeforeApply, v_role = ''implementer'', v_invocation = ''agent_'' @ replicate 32 (CHR ''0''),
     v_provider_candidate = sample_sha, v_limits = \<lparr>l_wall = 1, l_cost = 1000000, l_invocations = 2\<rparr>\<rparr>"

lemma sample_reserved:
  "case reserveAsfProviderBudget sample_budget_env sample_budget_store sample_reserve of
     Inl _ \<Rightarrow> False
   | Inr (db, Exhausted _ _) \<Rightarrow> False
   | Inr (db, Granted g) \<Rightarrow> g_authorization g = Invoke \<and> g_reserved g = 1000000 \<and>
       (case reserveAsfProviderBudget sample_budget_env db sample_reserve of
          Inr (db', Granted g') \<Rightarrow> g_authorization g' = ReconcileOnly | _ \<Rightarrow> False)"
  by code_simp

lemma sample_policy:
  "case effectiveAsfBudgetPolicy sample_budget_env (sample_admission ''r'') of
     Inl _ \<Rightarrow> False | Inr q \<Rightarrow> q_max_cost q = 1000000 \<and> q_max_invocations q = 2"
  by code_simp

lemma sample_budget_steps:
  obtains db db' g g' q where
    "reserveAsfProviderBudget sample_budget_env sample_budget_store sample_reserve = Inr (db, Granted g)"
    "budget_step sample_budget_env sample_budget_store (Reserves 5 sample_reserve (Granted g)) db"
    "budget_step sample_budget_env db (Reserves 5 sample_reserve (Granted g')) db'"
    "g_authorization g = Invoke" "g_authorization g' = ReconcileOnly"
    "getAsfAdmissionForRun sample_budget_store ''r'' = Some (sample_admission ''r'')"
    "reservations_of sample_budget_store ''r'' = []"
    "effectiveAsfBudgetPolicy sample_budget_env (sample_admission ''r'') = Inr q"
    "q_max_cost q = 1000000" "q_max_invocations q = 2"
proof -
  have same: "at_clock sample_budget_env 5 = sample_budget_env"
    by (simp add: at_clock_def sample_budget_env_def digest_env_def sample_env_def)
  let ?res = "reserveAsfProviderBudget sample_budget_env"
  obtain db d where r1: "?res sample_budget_store sample_reserve = Inr (db, d)"
    using sample_reserved by (cases "?res sample_budget_store sample_reserve") auto
  obtain g where d: "d = Granted g" using sample_reserved r1 by (cases d) auto
  obtain db' d' where r2: "?res db sample_reserve = Inr (db', d')"
    using sample_reserved r1 d by (cases "?res db sample_reserve") auto
  obtain g' where d': "d' = Granted g'" using sample_reserved r1 d r2 by (cases d') auto
  have r: "?res sample_budget_store sample_reserve = Inr (db, Granted g)"
    "?res db sample_reserve = Inr (db', Granted g')"
    "g_authorization g = Invoke" "g_authorization g' = ReconcileOnly"
    using sample_reserved r1 r2 d d' by simp_all
  have a: "getAsfAdmissionForRun sample_budget_store ''r'' = Some (sample_admission ''r'')"
    "reservations_of sample_budget_store ''r'' = []"
    by (simp_all add: getAsfAdmissionForRun_def sample_budget_store_def sample_admission_def
        reservations_of_def empty_store_def)
  show thesis
    using sample_policy that [OF r(1) step_reserve [of sample_budget_env 5, unfolded same, OF r(1)]
        step_reserve [of sample_budget_env 5, unfolded same, OF r(2)] r(3,4) a]
    by (auto split: sum.splits)
qed

text \<open>C6: Every budget transaction implements the abstract ledger: seen from any run it does nothing, or
  holds back all that is left for one invocation when nothing is held back, or turns what is held
  back into a charge. The concrete table keeps the invariant that makes the abstraction exact.\<close>

theorem budget_refines_ledger:
  assumes "budget_step env db l db'" and "getAsfAdmissionForRun db run = Some adm"
    and "effectiveAsfBudgetPolicy env adm = Inr q"
    and "ledger_inv (q_max_cost q) (q_max_invocations q) (reservations_of db run)"
  shows "ledger_step (q_max_cost q) (q_max_invocations q) (ledger_of (reservations_of db run))
      (ledger_of (reservations_of db' run)) \<and>
    ledger_inv (q_max_cost q) (q_max_invocations q) (reservations_of db' run)"
  by (rule step_ledger [OF assms])

theorem budget_refines_ledger_witness:
  "\<exists>l db. budget_step sample_budget_env sample_budget_store l db \<and>
     ledger_step 1000000 2 (ledger_of []) (ledger_of (reservations_of db ''r''))"
proof -
  obtain db db' g g' q where s: "budget_step sample_budget_env sample_budget_store (Reserves 5 sample_reserve (Granted g)) db"
    "getAsfAdmissionForRun sample_budget_store ''r'' = Some (sample_admission ''r'')"
    "reservations_of sample_budget_store ''r'' = []"
    "effectiveAsfBudgetPolicy sample_budget_env (sample_admission ''r'') = Inr q"
    "q_max_cost q = 1000000" "q_max_invocations q = 2"
    by (rule sample_budget_steps)
  have "ledger_inv (q_max_cost q) (q_max_invocations q) (reservations_of sample_budget_store ''r'')"
    by (simp add: s ledger_inv_def usage_sums)
  from budget_refines_ledger [OF s(1,2,4) this] s show ?thesis by auto
qed

lemma policy_micros_nonneg: "policy_micros env c = Inr n \<Longrightarrow> 0 \<le> n"
proof (cases "decimal_text (number_text env c)")
  case (Some p)
  assume "policy_micros env c = Inr n"
  with Some decimal_text_nonneg [of "number_text env c" "fst p" "snd p"] show ?thesis
    by (cases p) (auto simp: policy_micros_def Let_def pos_imp_zdiv_nonneg_iff split: if_splits)
qed (simp add: policy_micros_def)

lemma policy_limits:
  "effectiveAsfBudgetPolicy env adm = Inr q \<Longrightarrow> 0 < q_max_invocations q \<and> 0 \<le> q_max_cost q"
  by (auto simp: effectiveAsfBudgetPolicy_def and_then_Inr_iff le_floor_iff dest: policy_micros_nonneg
      split: option.splits json.splits if_splits prod.splits)

text \<open>C8: From an empty table on, whatever transactions run in whatever order and at whatever times: the
  invocations of a run never exceed its limit, at most one is under way, what is spent and reserved
  exceeds the cost limit by at most what providers charged beyond their reservation, and at most one
  provider ever did.\<close>

theorem budget_never_exceeded:
  assumes "steps (budget_step env) db ls db'" and "reservations_of db run = []"
    and "getAsfAdmissionForRun db run = Some adm" and "effectiveAsfBudgetPolicy env adm = Inr q"
  shows "u_invocations (usage_of (reservations_of db' run)) \<le> q_max_invocations q \<and>
     length (open_reservations (reservations_of db' run)) \<le> 1 \<and>
     u_conservative (usage_of (reservations_of db' run)) \<le>
       q_max_cost q + sum_list (map overrun (reservations_of db' run)) \<and>
     length (filter (\<lambda>b. overrun b > 0) (reservations_of db' run)) \<le> 1"
proof -
  have calls: "0 < q_max_invocations q" "0 \<le> q_max_cost q"
    using policy_limits [OF assms(4)] by simp_all
  then have "budget_safe env run adm q db"
    using assms by (simp add: budget_safe_def ledger_inv_def overrun_inv_def usage_sums)
  with budget.steps_inv [OF assms(1)] have "budget_safe env run adm q db'" by blast
  then show ?thesis
    by (auto simp: budget_safe_def ledger_inv_def overrun_inv_def split: list.splits)
qed

theorem budget_never_exceeded_witness:
  "\<exists>ls db. steps (budget_step sample_budget_env) sample_budget_store ls db \<and> length ls = 2 \<and>
     u_invocations (usage_of (reservations_of db ''r'')) \<le> 2"
proof -
  obtain db db' g g' q where s: "budget_step sample_budget_env sample_budget_store (Reserves 5 sample_reserve (Granted g)) db"
    "budget_step sample_budget_env db (Reserves 5 sample_reserve (Granted g')) db'"
    "getAsfAdmissionForRun sample_budget_store ''r'' = Some (sample_admission ''r'')"
    "reservations_of sample_budget_store ''r'' = []"
    "effectiveAsfBudgetPolicy sample_budget_env (sample_admission ''r'') = Inr q"
    "q_max_cost q = 1000000" "q_max_invocations q = 2"
    by (rule sample_budget_steps)
  then have t: "steps (budget_step sample_budget_env) sample_budget_store
      [Reserves 5 sample_reserve (Granted g), Reserves 5 sample_reserve (Granted g')] db'"
    by (auto simp: steps_Cons_iff)
  from budget_never_exceeded [OF t s(4,3,5)] s(7) t show ?thesis by (intro exI conjI) auto
qed

text \<open>C7: An effect is authorised to invoke a provider at most once, ever: in a sequence of transactions
  no second reservation of the effect is granted with the authority to invoke, whoever asks and in
  whatever generation; it may only reconcile.\<close>

theorem invoked_at_most_once:
  assumes "steps (budget_step env) db (l # ls) db'" and "authorises key l"
  shows "\<not> list_ex (authorises key) ls"
proof
  assume "list_ex (authorises key) ls"
  then obtain us m vs where ls: "ls = us @ m # vs" "authorises key m"
    by (auto simp: list_ex_iff dest: split_list)
  with assms obtain db1 db2 db3 where s: "budget_step env db l db1" "steps (budget_step env) db1 us db2"
    "budget_step env db2 m db3" by (auto simp: steps_Cons_iff steps_append)
  from authorised.steps_inv [OF s(2)] authorises_step [OF s(1) assms(2)] have "effect_reserved key db2" by blast
  with authorises_step [OF s(3) ls(2)] show False by blast
qed

theorem invoked_at_most_once_witness:
  "\<exists>l m db. steps (budget_step sample_budget_env) sample_budget_store [l, m] db \<and>
     authorises (v_effect_key sample_reserve) l \<and> \<not> authorises (v_effect_key sample_reserve) m"
proof -
  obtain db db' g g' where s: "budget_step sample_budget_env sample_budget_store (Reserves 5 sample_reserve (Granted g)) db"
    "budget_step sample_budget_env db (Reserves 5 sample_reserve (Granted g')) db'" "g_authorization g = Invoke"
    by (rule sample_budget_steps)
  then have t: "steps (budget_step sample_budget_env) sample_budget_store
      [Reserves 5 sample_reserve (Granted g), Reserves 5 sample_reserve (Granted g')] db'"
    and a: "authorises (v_effect_key sample_reserve) (Reserves 5 sample_reserve (Granted g))"
    by (auto simp: steps_Cons_iff)
  from invoked_at_most_once [OF t a] t a show ?thesis by (auto simp del: authorises.simps)
qed

text \<open>The authority to invoke a provider needs the current owner and generation, a phase that does not
  freeze external effects, no terminal plan, an intent without an earlier reservation, time before the
  deadline, and it hands out exactly what the run has left.\<close>

theorem invoke_needs_authority:
  assumes "reserveAsfProviderBudget env db v = Inr (db', Granted g)" and "g_authorization g = Invoke"
  shows "\<exists>run adm q t. getAsfRun db (d_run (v_binding v)) = Some run \<and>
     owns db (d_run (v_binding v)) (v_owner v) (d_generation (v_binding v)) \<and>
     \<not> asfPhaseFreezesExternalAuthority (r_state run) \<and>
     getAsfTerminalEvidencePlanRecord db (d_run (v_binding v)) = None \<and>
     \<not> effect_reserved (v_effect_key v) db \<and> v_mode v = ObserveBeforeApply \<and>
     getAsfAdmissionForRun db (d_run (v_binding v)) = Some adm \<and>
     effectiveAsfBudgetPolicy env adm = Inr q \<and> iso env (clock env) = Some t \<and>
     \<not> js_le (parse_time env (q_deadline q)) (parse_time env t) \<and>
     g_reserved g = q_max_cost q - u_conservative (usage_of (reservations_of db (d_run (v_binding v)))) \<and>
     0 < g_reserved g"
proof -
  from reserve_shape [OF assms(1)] assms(2) obtain run adm q ident where
    c: "assertCurrentAsfBudgetBinding db (v_owner v) (v_binding v) = Inr (run, adm)"
    "effectiveAsfBudgetPolicy env adm = Inr q" "reservation_for_effect db (v_effect_key v) = None"
    "\<not> asfPhaseFreezesExternalAuthority (r_state run)"
    "getAsfTerminalEvidencePlanRecord db (d_run (v_binding v)) = None"
    "reserve_new env db v q ident = Inr (db', Granted g)" by auto
  from c(6) obtain t where t: "iso env (clock env) = Some t"
    "\<not> js_le (parse_time env (q_deadline q)) (parse_time env t)"
    by (auto simp: reserve_new_def and_then_Inr_iff now_iso_Inr_iff exhaustion_def Let_def split: if_splits)
  from reserve_new_shape [OF c(6)] assms(2) c t binding_current [OF c(1)] show ?thesis
    by (auto simp: reserved_row_def reservation_for_effect_iff split: if_splits)
qed
theorem invoke_needs_authority_witness:
  "\<exists>db g. reserveAsfProviderBudget sample_budget_env sample_budget_store sample_reserve = Inr (db, Granted g) \<and>
     0 < g_reserved g \<and> owns sample_budget_store ''r'' ''o'' 1"
proof -
  obtain db g where s: "reserveAsfProviderBudget sample_budget_env sample_budget_store sample_reserve = Inr (db, Granted g)"
    "g_authorization g = Invoke"
    by (rule sample_budget_steps)
  from invoke_needs_authority [OF this] s(1) show ?thesis
    by (auto simp: sample_reserve_def sample_binding_def)
qed

end
