(* ===== verification/Intent_Log.thy ===== *)
theory Intent_Log
  imports Provider_Budget
begin

text \<open>
  The operations on delivery intents (\<open>src/src/state/store.ts\<close>): an intent is recorded before its effect
  may be applied, confirmed by the owner that observed the effect, or resolved by a reconciliation;
  a not-applied resolution can be consumed once as the authority to apply the effect again.
\<close>

section \<open>The authority of a reconciliation\<close>

text \<open>\<open>===\<close> on members of parsed JSON: objects and arrays are never identical.\<close>

fun js_identical :: "json option \<Rightarrow> json option \<Rightarrow> bool" where
  "js_identical None None = True"
| "js_identical (Some (JString a)) (Some (JString b)) = (a = b)"
| "js_identical (Some (JNumber a)) (Some (JNumber b)) = (a = b)"
| "js_identical (Some (JBool a)) (Some (JBool b)) = (a = b)"
| "js_identical (Some JNull) (Some JNull) = True"
| "js_identical _ _ = False"

definition getAsfReconciliation :: "store \<Rightarrow> string \<Rightarrow> reconciliation_row option" where
  "getAsfReconciliation db op = List.find (\<lambda>k. k_operation k = op) (reconciliations db)"

definition event_json :: "admission \<Rightarrow> string \<Rightarrow> int \<Rightarrow> event_row \<Rightarrow> json \<Rightarrow> json" where
  "event_json adm run n w pl = JObject
     [(''schema'', JString (w_schema w)), (''event_id'', JString (w_event_id w)), (''run_id'', JString run),
      (''work_order_id'', JString (a_work_order adm)), (''attempt_id'', JString (a_attempt_id adm)),
      (''seq'', JNumber (of_int n)), (''occurred_at'', JString (w_at w)), (''type'', JString (w_type w)),
      (''phase'', JString (w_phase w)), (''payload'', pl), (''policy_digest'', JString (w_policy_digest w))]"

datatype continuation_action = ContinueConfirmed | ReplayNotApplied

definition action_of :: "(string \<times> json) list \<Rightarrow> continuation_action option" where
  "action_of ms =
     (if map_of ms ''action'' = Some (JString ''continue-confirmed'') then Some ContinueConfirmed
      else if map_of ms ''action'' = Some (JString ''replay-not-applied'') then Some ReplayNotApplied
      else None)"

text \<open>The members of the \<open>reconciliation\<close> of the run's last event, when that resumed the run.\<close>

definition resumed_binding ::
  "store_env \<Rightarrow> store \<Rightarrow> run_row \<Rightarrow> admission \<Rightarrow> (string \<times> json) list option" where
  "resumed_binding env db run adm =
     (case event_at db (r_run_id run) (r_version run) of
        None \<Rightarrow> None
      | Some w \<Rightarrow>
          (case json_parse env (w_payload w) of
             None \<Rightarrow> None
           | Some pl \<Rightarrow>
               (case parseRunEvent (safe_parse (recovery env)) (formats_of (recovery env))
                       (event_json adm (r_run_id run) (r_version run) w pl) of
                  Inl _ \<Rightarrow> None
                | Inr e \<Rightarrow>
                    if event_type e \<noteq> ''run.resumed'' \<or> event_phase e \<noteq> r_state run then None
                    else object_field (payload e) ''reconciliation'')))"

text \<open>The loop over the observations of a result: the outcome of the effect, and how many effects were
  not applied; \<open>None\<close> is its early \<open>return null\<close>.\<close>

definition observation_outcome :: "(string \<times> json) list \<Rightarrow> outcome option" where
  "observation_outcome ms =
     (if map_of ms ''outcome'' = Some (JString ''confirmed'') then Some Confirmed
      else if map_of ms ''outcome'' = Some (JString ''not_applied'') then Some NotApplied else None)"

definition observation_well_formed :: "(string \<times> json) list \<Rightarrow> bool" where
  "observation_well_formed ms \<longleftrightarrow>
     js_join [CHR 0x00] (sort (map fst ms)) =
       js_join [CHR 0x00] (sort [''effect_class'', ''effect_key'', ''outcome'']) \<and>
     (map_of ms ''effect_class'' = Some (JString ''github-effect'') \<or>
      map_of ms ''effect_class'' = Some (JString ''delivery-intent''))"

fun scan_observations :: "string \<Rightarrow> json list \<Rightarrow> outcome option \<Rightarrow> nat \<Rightarrow> (outcome option \<times> nat) option" where
  "scan_observations key [] matched n = Some (matched, n)"
| "scan_observations key (j # js) matched n =
     (case j of
        JObject ms \<Rightarrow>
          (case observation_outcome ms of
             None \<Rightarrow> None
           | Some out \<Rightarrow>
               if \<not> observation_well_formed ms then None
               else
                 let n' = (if out = NotApplied then n + 1 else n)
                 in if map_of ms ''effect_class'' = Some (JString ''delivery-intent'') \<and>
                       map_of ms ''effect_key'' = Some (JString key)
                    then (if matched \<noteq> None then None else scan_observations key js (Some out) n')
                    else scan_observations key js matched n')
      | _ \<Rightarrow> None)"

text \<open>The verified result of a completed reconciliation.\<close>

definition reconciliation_result ::
  "store_env \<Rightarrow> run_row \<Rightarrow> reconciliation_row \<Rightarrow> (string \<times> json) list \<Rightarrow> json list option" where
  "reconciliation_result env run k binding =
     (case k_result k of
        None \<Rightarrow> None
      | Some text \<Rightarrow>
          if k_run_id k \<noteq> r_run_id run \<or> k_status k \<noteq> ReconCompleted \<or>
             map_option JString (k_result_digest k) \<noteq> map_of binding ''result_digest'' \<or>
             k_resumed_seq k \<noteq> Some (r_version run)
          then None
          else (case json_parse env text of
             Some (JObject result) \<Rightarrow>
               if canonicalJson env (JObject result) \<noteq> text \<or>
                  k_result_digest k \<noteq> Some (digest_of env (JObject result)) \<or>
                  map_of result ''schema'' \<noteq> Some (JString ''asf.reconciliation-result/v1'') \<or>
                  map_of result ''operation_id'' \<noteq> Some (JString (k_operation k)) \<or>
                  map_of result ''run_id'' \<noteq> Some (JString (r_run_id run)) \<or>
                  \<not> js_identical (map_of result ''pending_set_digest'') (map_of binding ''pending_set_digest'')
               then None
               else (case map_of result ''observations'' of Some (JArray js) \<Rightarrow> Some js | _ \<Rightarrow> None)
           | _ \<Rightarrow> None))"

definition authorizedReconciliationIntentCursor ::
  "store_env \<Rightarrow> store \<Rightarrow> run_row \<Rightarrow> int \<Rightarrow> string \<Rightarrow> (string \<times> continuation_action \<times> outcome) option" where
  "authorizedReconciliationIntentCursor env db run eventSeq key =
     (if eventSeq \<ge> r_version run then None
      else case getAsfAdmissionForRun db (r_run_id run) of
        None \<Rightarrow> None
      | Some adm \<Rightarrow>
          (case resumed_binding env db run adm of
             None \<Rightarrow> None
           | Some binding \<Rightarrow>
               if map_of binding ''schema'' \<noteq> Some (JString ''asf.reconciliation-continuation-result/v1'') \<or>
                  map_of binding ''interrupted_event_seq'' \<noteq> Some (JNumber (of_int eventSeq))
               then None
               else (case (action_of binding, text_member binding ''operation_id'',
                           text_member binding ''result_digest'') of
                  (Some action, Some op, Some _) \<Rightarrow>
                    (case getAsfReconciliation db op of
                       None \<Rightarrow> None
                     | Some k \<Rightarrow>
                         (case reconciliation_result env run k binding of
                            None \<Rightarrow> None
                          | Some js \<Rightarrow>
                              (case scan_observations key js None 0 of
                                 Some (Some out, n) \<Rightarrow>
                                   if (action = ContinueConfirmed \<and> n \<noteq> 0) \<or> (action = ReplayNotApplied \<and> n = 0)
                                   then None else Some (k_operation k, action, out)
                               | _ \<Rightarrow> None)))
                | _ \<Rightarrow> None)))"

section \<open>Recording an intent\<close>

datatype disposition =
  Created | ExistingCurrent | ExistingPriorGeneration | ExistingPriorGenerationReplayAuthorized

definition intent_fence ::
  "store \<Rightarrow> string \<Rightarrow> string \<Rightarrow> int \<Rightarrow> store_error + (run_row \<times> admission)" where
  "intent_fence db owner run gen =
     (case (getAsfRun db run, getAsfAdmissionForRun db run) of
        (Some r, Some adm) \<Rightarrow>
          if r_owner r \<noteq> Some owner \<or> r_generation r \<noteq> gen then Inl StaleLease else Inr (r, adm)
      | _ \<Rightarrow> Inl StaleLease)"

definition pending_row :: "delivery_intent \<Rightarrow> string \<Rightarrow> intent_row" where
  "pending_row i canonical =
     \<lparr>i_schema = i_schema i, i_id = i_id i, i_digest = i_digest i, i_effect_key = i_effect_key i,
      i_stage = i_stage i, i_run_id = i_run_id i, i_work_order = i_work_order i,
      i_attempt_id = i_attempt_id i, i_policy_digest = i_policy_digest i, i_generation = i_generation i,
      i_candidate = i_candidate i, i_event_seq = i_event_seq i, i_operation_digest = i_operation_digest i,
      i_created_at = i_created_at i, i_observation_digest = None, i_outcome = None,
      i_confirmed_generation = None, i_confirmed_at = None, i_replay_operation = None,
      i_replay_generation = None, i_canonical = canonical\<rparr>"

text \<open>The unique columns of the table are the effect key, the intent id and the intent digest.\<close>

definition insert_intent :: "store \<Rightarrow> intent_row \<Rightarrow> store_error + store" where
  "insert_intent db r =
     (if list_ex (\<lambda>s. i_effect_key s = i_effect_key r \<or> i_id s = i_id r \<or> i_digest s = i_digest r) (intents db)
      then Inl Rejected else Inr (db\<lparr>intents := intents db @ [r]\<rparr>))"

definition update_intent ::
  "store \<Rightarrow> (intent_row \<Rightarrow> bool) \<Rightarrow> (intent_row \<Rightarrow> intent_row) \<Rightarrow> store_error + store" where
  "update_intent db p f =
     (if length (filter p (intents db)) \<noteq> 1 then Inl StateConflict
      else Inr (db\<lparr>intents := map (\<lambda>r. if p r then f r else r) (intents db)\<rparr>))"

definition replaying_row :: "string \<Rightarrow> int \<Rightarrow> intent_row \<Rightarrow> intent_row" where
  "replaying_row op gen r =
     r\<lparr>i_observation_digest := None, i_outcome := None, i_confirmed_generation := None,
       i_confirmed_at := None, i_replay_operation := Some op, i_replay_generation := Some gen\<rparr>"

text \<open>An effect that was not applied is taken up again: the observation is consumed.\<close>

definition consume_not_applied ::
  "store_env \<Rightarrow> store \<Rightarrow> delivery_intent \<Rightarrow> stored_intent \<Rightarrow> string \<Rightarrow>
     store_error + (store \<times> stored_intent \<times> disposition)" where
  "consume_not_applied env db i existing op =
     (if i_outcome existing = None \<and> i_replay_operation existing = Some op \<and> i_replay_generation existing \<noteq> None
      then Inr (db, existing, ExistingPriorGeneration)
      else if i_outcome existing \<noteq> Some NotApplied \<or> i_observation_digest existing = None \<or>
              i_confirmed_generation existing = None \<or> i_confirmed_at existing = None
      then Inl StateConflict
      else and_then (settleResolvedAsfProviderBudgetForIntent env db existing) (\<lambda>(db1, _).
           and_then (update_intent db1 (\<lambda>r. i_effect_key r = i_effect_key i \<and> i_outcome r = Some NotApplied \<and>
               i_observation_digest r = i_observation_digest existing \<and>
               i_confirmed_generation r = i_confirmed_generation existing)
             (replaying_row op (i_generation i))) (\<lambda>db2.
           and_then (getAsfDeliveryIntent env db2 (i_effect_key i)) (\<lambda>found.
             case found of
               None \<Rightarrow> Inl Rejected
             | Some s \<Rightarrow> Inr (db2, s, ExistingPriorGenerationReplayAuthorized)))))"

definition record_existing ::
  "store_env \<Rightarrow> store \<Rightarrow> delivery_intent \<Rightarrow> stored_intent \<Rightarrow>
     (string \<times> continuation_action \<times> outcome) option \<Rightarrow>
     store_error + (store \<times> stored_intent \<times> disposition)" where
  "record_existing env db i existing grant =
     (if \<not> sameAsfDeliveryEffect env existing i then Inl StateConflict
      else if i_generation existing = i_generation i then
        (if canonicalJson env (asfDeliveryUnsignedIntent existing) \<noteq>
              canonicalJson env (asfDeliveryUnsignedIntent i) \<or> i_digest existing \<noteq> i_digest i
         then Inl StateConflict else Inr (db, existing, ExistingCurrent))
      else if i_generation existing \<ge> i_generation i then Inl StateConflict
      else case grant of
        Some (op, _, NotApplied) \<Rightarrow> consume_not_applied env db i existing op
      | Some (_, _, Confirmed) \<Rightarrow>
          (if i_outcome existing \<noteq> Some Confirmed then Inl StateConflict
           else Inr (db, existing, ExistingPriorGeneration))
      | _ \<Rightarrow> Inr (db, existing, ExistingPriorGeneration))"

definition record_new ::
  "store_env \<Rightarrow> store \<Rightarrow> delivery_intent \<Rightarrow> string \<Rightarrow> store_error + (store \<times> stored_intent \<times> disposition)" where
  "record_new env db i canonical =
     and_then (now_iso env) (\<lambda>_.
     and_then (insert_intent db (pending_row i canonical)) (\<lambda>db'.
     and_then (getAsfDeliveryIntent env db' (i_effect_key i)) (\<lambda>found.
       case found of None \<Rightarrow> Inl StateConflict | Some s \<Rightarrow> Inr (db', s, Created))))"

text \<open>\<open>plan_intact\<close> is the validation of the stored terminal plan in \<open>getAsfTerminalEvidencePlan\<close>.\<close>

definition cleanup_exempt :: "run_row \<Rightarrow> bool \<Rightarrow> delivery_intent \<Rightarrow> bool" where
  "cleanup_exempt run terminalCleanup i \<longleftrightarrow>
     r_state run = CANCELLING \<and> terminalCleanup \<and> i_stage i = ''cleanup''"

definition intent_bound_to_run ::
  "run_row \<Rightarrow> admission \<Rightarrow> delivery_intent \<Rightarrow> (string \<times> continuation_action \<times> outcome) option \<Rightarrow> bool" where
  "intent_bound_to_run run adm i grant \<longleftrightarrow>
     r_work_order run = i_work_order i \<and> r_attempt_id run = i_attempt_id i \<and>
     a_work_order adm = i_work_order i \<and> a_attempt_id adm = i_attempt_id i \<and>
     r_candidate run = i_candidate i \<and> a_policy_digest adm = i_policy_digest i \<and>
     (r_version run = i_event_seq i \<or> grant \<noteq> None)"

definition event_bound :: "store \<Rightarrow> delivery_intent \<Rightarrow> bool" where
  "event_bound db i \<longleftrightarrow>
     (case event_at db (i_run_id i) (i_event_seq i) of
        None \<Rightarrow> False | Some w \<Rightarrow> w_at w = i_created_at i \<and> w_policy_digest w = i_policy_digest i)"

definition record_under_plan ::
  "store_env \<Rightarrow> store \<Rightarrow> delivery_intent \<Rightarrow> stored_intent option \<Rightarrow> terminal_plan \<Rightarrow>
     store_error + (store \<times> stored_intent \<times> disposition)" where
  "record_under_plan env db i existing plan =
     (case existing of
        None \<Rightarrow> Inl StateConflict
      | Some s \<Rightarrow>
          if i_id s \<noteq> p_cleanup_intent plan \<or> \<not> sameAsfDeliveryEffect env s i then Inl StateConflict
          else Inr (db, s, if i_generation s = i_generation i then ExistingCurrent else ExistingPriorGeneration))"

definition record_at_cursor ::
  "store_env \<Rightarrow> store \<Rightarrow> run_row \<Rightarrow> admission \<Rightarrow> delivery_intent \<Rightarrow> string \<Rightarrow> stored_intent option \<Rightarrow>
     store_error + (store \<times> stored_intent \<times> disposition)" where
  "record_at_cursor env db run adm i canonical existing =
     (let grant = (if r_version run = i_event_seq i then None
                   else authorizedReconciliationIntentCursor env db run (i_event_seq i) (i_effect_key i))
      in if \<not> intent_bound_to_run run adm i grant then Inl StateConflict
         else if \<not> event_bound db i then Inl StateConflict
         else and_then (getAsfDeliveryIntentById env db (i_id i)) (\<lambda>sameId.
           if (case sameId of None \<Rightarrow> False | Some s \<Rightarrow> i_effect_key s \<noteq> i_effect_key i) then Inl StateConflict
           else case existing of
             Some s \<Rightarrow> record_existing env db i s grant
           | None \<Rightarrow>
               if sameId \<noteq> None then Inl StateConflict
               else if grant \<noteq> None then Inl StateConflict
               else record_new env db i canonical))"

definition recordAsfDeliveryIntent ::
  "store_env \<Rightarrow> (store \<Rightarrow> string \<Rightarrow> bool) \<Rightarrow> store \<Rightarrow> string \<Rightarrow> delivery_intent \<Rightarrow> bool \<Rightarrow>
     store_error + (store \<times> stored_intent \<times> disposition)" where
  "recordAsfDeliveryIntent env plan_intact db owner i terminalCleanup =
     (if \<not> ASF_DELIVERY_IDENTIFIER owner then Inl StateConflict
      else and_then (assertValidAsfDeliveryIntent env i) (\<lambda>canonical.
      and_then (intent_fence db owner (i_run_id i) (i_generation i)) (\<lambda>(run, adm).
        if asfPhaseFreezesExternalAuthority (r_state run) \<and> \<not> cleanup_exempt run terminalCleanup i
        then Inl StateConflict
        else and_then (getAsfDeliveryIntent env db (i_effect_key i)) (\<lambda>existing.
          case getAsfTerminalEvidencePlanRecord db (i_run_id i) of
            Some plan \<Rightarrow>
              if \<not> plan_intact db (i_run_id i) then Inl Rejected
              else record_under_plan env db i existing plan
          | None \<Rightarrow> record_at_cursor env db run adm i canonical existing))))"

text \<open>What the runner does with the disposition: only a created or replayed intent may be applied.\<close>

definition intent_mode_of :: "disposition \<Rightarrow> intent_mode" where
  "intent_mode_of d =
     (if d = Created \<or> d = ExistingPriorGenerationReplayAuthorized then ObserveBeforeApply else ReconcileOnlyMode)"

section \<open>Confirming and resolving\<close>

record confirm_input =
  h_owner :: string
  h_intent_id :: string
  h_intent_digest :: string
  h_observation :: string
  h_binding :: delivery_binding
  h_confirmed_at :: "string option"

definition confirm_input_well_formed :: "confirm_input \<Rightarrow> bool" where
  "confirm_input_well_formed h \<longleftrightarrow>
     binding_well_formed (h_owner h) (h_binding h) \<and> ASF_DELIVERY_IDENTIFIER (h_intent_id h) \<and>
     is_digest (h_intent_digest h) \<and> is_digest (h_observation h)"

definition binding_matches :: "run_row \<Rightarrow> admission \<Rightarrow> delivery_binding \<Rightarrow> bool" where
  "binding_matches run adm d \<longleftrightarrow>
     r_work_order run = d_work_order d \<and> r_attempt_id run = d_attempt d \<and>
     a_work_order adm = d_work_order d \<and> a_attempt_id adm = d_attempt d \<and>
     r_candidate run = d_candidate d \<and> a_policy_digest adm = d_policy_digest d"

definition stored_matches :: "run_row \<Rightarrow> confirm_input \<Rightarrow> stored_intent \<Rightarrow> bool" where
  "stored_matches run h s \<longleftrightarrow>
     i_digest s = h_intent_digest h \<and> i_run_id s = d_run (h_binding h) \<and>
     i_work_order s = d_work_order (h_binding h) \<and> i_attempt_id s = d_attempt (h_binding h) \<and>
     i_policy_digest s = d_policy_digest (h_binding h) \<and> i_candidate s = d_candidate (h_binding h) \<and>
     i_generation s \<le> d_generation (h_binding h) \<and> i_event_seq s \<le> r_version run"

definition resolved_row :: "outcome \<Rightarrow> string \<Rightarrow> int \<Rightarrow> string \<Rightarrow> intent_row \<Rightarrow> intent_row" where
  "resolved_row out observation gen at_time r =
     r\<lparr>i_observation_digest := Some observation, i_outcome := Some out, i_confirmed_generation := Some gen,
       i_confirmed_at := Some at_time, i_replay_operation := None, i_replay_generation := None\<rparr>"

definition confirm_stored ::
  "store_env \<Rightarrow> store \<Rightarrow> confirm_input \<Rightarrow> stored_intent \<Rightarrow> store_error + store" where
  "confirm_stored env db h s =
     (case i_observation_digest s of
        Some obs \<Rightarrow>
          if i_outcome s \<noteq> Some Confirmed \<or> obs \<noteq> h_observation h then Inl StateConflict else Inr db
      | None \<Rightarrow>
          and_then (case h_confirmed_at h of Some t \<Rightarrow> Inr t | None \<Rightarrow> now_iso env) (\<lambda>confirmedAt.
            if \<not> isCanonicalIsoTimestamp env confirmedAt \<or>
               js_lt (Some (clock env)) (parse_time env confirmedAt)
            then Inl StateConflict
            else update_intent
              (recordAsfDeliveryIntentObservation db (i_effect_key s) Confirmed (h_observation h)
                 (d_generation (h_binding h)) FromConfirmation confirmedAt)
              (\<lambda>r. i_id r = h_intent_id h \<and> i_digest r = h_intent_digest h \<and> i_observation_digest r = None)
              (resolved_row Confirmed (h_observation h) (d_generation (h_binding h)) confirmedAt)))"

text \<open>\<open>terminalSeal\<close> is set when the terminal evidence is sealed in the same transaction.\<close>

definition confirmAsfDeliveryIntent ::
  "store_env \<Rightarrow> store \<Rightarrow> confirm_input \<Rightarrow> bool \<Rightarrow> store_error + store" where
  "confirmAsfDeliveryIntent env db h terminalSeal =
     (if \<not> confirm_input_well_formed h then Inl StateConflict
      else and_then (intent_fence db (h_owner h) (d_run (h_binding h)) (d_generation (h_binding h)))
        (\<lambda>(run, adm).
          if \<not> binding_matches run adm (h_binding h) then Inl StateConflict
          else if \<not> terminalSeal \<and> asfPhaseFreezesExternalAuthority (r_state run) then Inl StateConflict
          else and_then (getAsfDeliveryIntentById env db (h_intent_id h)) (\<lambda>found.
            case found of
              None \<Rightarrow> Inl StateConflict
            | Some s \<Rightarrow>
                if \<not> stored_matches run h s then Inl StateConflict
                else if \<not> terminalSeal \<and>
                        (case getAsfTerminalEvidencePlanRecord db (d_run (h_binding h)) of
                           None \<Rightarrow> False | Some plan \<Rightarrow> p_cleanup_intent plan = h_intent_id h)
                then Inl StateConflict
                else confirm_stored env db h s)))"

record resolve_input =
  o_effect_key :: string
  o_owner :: string
  o_generation :: int
  o_confirmed :: bool
  o_observation :: string

text \<open>The outcome is one of the two definite ones.\<close>

definition o_outcome :: "resolve_input \<Rightarrow> outcome" where
  "o_outcome r = (if o_confirmed r then Confirmed else NotApplied)"

definition resolve_input_well_formed :: "resolve_input \<Rightarrow> bool" where
  "resolve_input_well_formed r \<longleftrightarrow>
     ASF_DELIVERY_IDENTIFIER (o_effect_key r) \<and> ASF_DELIVERY_IDENTIFIER (o_owner r) \<and>
     safe_int (o_generation r) \<and> o_generation r \<ge> 1 \<and> is_digest (o_observation r)"

definition resolve_pending ::
  "store_env \<Rightarrow> store \<Rightarrow> resolve_input \<Rightarrow> store_error + (store \<times> stored_intent)" where
  "resolve_pending env db r =
     and_then (now_iso env) (\<lambda>at_time.
     and_then (update_intent
         (recordAsfDeliveryIntentObservation db (o_effect_key r) (o_outcome r) (o_observation r)
            (o_generation r) FromReconciliation at_time)
         (\<lambda>s. i_effect_key s = o_effect_key r \<and> i_outcome s = None)
         (resolved_row (o_outcome r) (o_observation r) (o_generation r) at_time)) (\<lambda>db1.
     and_then (getAsfDeliveryIntent env db1 (o_effect_key r)) (\<lambda>found.
       case found of
         None \<Rightarrow> Inl Rejected
       | Some s \<Rightarrow> and_then (settleResolvedAsfProviderBudgetForIntent env db1 s) (\<lambda>(db2, _). Inr (db2, s)))))"

definition resolveAsfDeliveryIntentReconciliation ::
  "store_env \<Rightarrow> store \<Rightarrow> resolve_input \<Rightarrow> store_error + (store \<times> stored_intent)" where
  "resolveAsfDeliveryIntentReconciliation env db r =
     (if \<not> resolve_input_well_formed r then Inl StateConflict
      else and_then (getAsfDeliveryIntent env db (o_effect_key r)) (\<lambda>found.
        case found of
          None \<Rightarrow> Inl StateConflict
        | Some s \<Rightarrow>
            if getAsfTerminalEvidencePlanRecord db (i_run_id s) \<noteq> None then Inl StateConflict
            else and_then (intent_fence db (o_owner r) (i_run_id s) (o_generation r)) (\<lambda>(run, adm).
              if r_work_order run \<noteq> i_work_order s \<or> r_attempt_id run \<noteq> i_attempt_id s \<or>
                 a_policy_digest adm \<noteq> i_policy_digest s \<or> r_candidate run \<noteq> i_candidate s \<or>
                 i_generation s > o_generation r
              then Inl StateConflict
              else case i_outcome s of
                Some out \<Rightarrow>
                  if out \<noteq> o_outcome r \<or> i_observation_digest s \<noteq> Some (o_observation r)
                  then Inl StateConflict
                  else and_then (settleResolvedAsfProviderBudgetForIntent env db s) (\<lambda>(db', _). Inr (db', s))
              | None \<Rightarrow> resolve_pending env db r)))"

section \<open>What the transactions do to the tables\<close>

lemma fence_owned: "intent_fence db owner run gen = Inr (r, adm) \<Longrightarrow>
    owns db run owner gen \<and> getAsfRun db run = Some r \<and> getAsfAdmissionForRun db run = Some adm"
  by (auto simp: intent_fence_def owns_def split: option.splits if_splits)

lemma update_intent_Inr:
  assumes "update_intent db p f = Inr db'"
  shows "\<exists>us r vs. intents db = us @ r # vs \<and> p r \<and> db' = db\<lparr>intents := us @ f r # vs\<rparr>"
proof -
  have one: "length (filter p (intents db)) = 1"
    and db': "db' = db\<lparr>intents := map (\<lambda>r. if p r then f r else r) (intents db)\<rparr>"
    using assms by (auto simp: update_intent_def split: if_splits)
  obtain us r vs where s: "intents db = us @ r # vs" "p r" "\<forall>u \<in> set us \<union> set vs. \<not> p u"
    using filter_one [OF one] by blast
  then have "map (\<lambda>r. if p r then f r else r) (intents db) = us @ f r # vs" by (auto intro!: map_idI)
  with s db' show ?thesis by auto
qed

lemma settle_tables:
  "settleResolvedAsfProviderBudgetForIntent env db i = Inr (db', d) \<Longrightarrow> \<exists>bs. db' = db\<lparr>reservations := bs\<rparr>"
  by (drule settle_shape, elim disjE exE conjE) (auto intro: exI [of _ "reservations db"])

lemma observation_tables [simp]:
  "intents (recordAsfDeliveryIntentObservation db k out d g s t) = intents db"
  "\<exists>xs. recordAsfDeliveryIntentObservation db k out d g s t = db\<lparr>intent_observations := xs\<rparr>"
  by (auto simp: recordAsfDeliveryIntentObservation_def Let_def)

text \<open>Recording: nothing changes, or a new pending row, or a not-applied row becomes pending again under
  the grant of a reconciliation.\<close>

lemma consume_shape:
  assumes "consume_not_applied env db i existing op = Inr (db', s, disp)"
  shows "disp = ExistingPriorGeneration \<and> db' = db \<or>
     disp = ExistingPriorGenerationReplayAuthorized \<and>
     (\<exists>db1 d us r vs. settleResolvedAsfProviderBudgetForIntent env db existing = Inr (db1, d) \<and>
        intents db1 = us @ r # vs \<and> i_effect_key r = i_effect_key i \<and> i_outcome r = Some NotApplied \<and>
        db' = db1\<lparr>intents := us @ replaying_row op (i_generation i) r # vs\<rparr>)"
proof (cases "i_outcome existing = None \<and> i_replay_operation existing = Some op \<and> i_replay_generation existing \<noteq> None")
  case True
  with assms show ?thesis by (simp add: consume_not_applied_def)
next
  case False
  then obtain db1 d db2 where c: "settleResolvedAsfProviderBudgetForIntent env db existing = Inr (db1, d)"
    "update_intent db1 (\<lambda>r. i_effect_key r = i_effect_key i \<and> i_outcome r = Some NotApplied \<and>
         i_observation_digest r = i_observation_digest existing \<and>
         i_confirmed_generation r = i_confirmed_generation existing)
       (replaying_row op (i_generation i)) = Inr db2"
    "db' = db2" "disp = ExistingPriorGenerationReplayAuthorized"
    using assms unfolding consume_not_applied_def if_not_P [OF False]
    by (auto simp: transaction_iff split: option.splits)
  from update_intent_Inr [OF c(2)] c show ?thesis by blast
qed

lemma record_existing_shape:
  assumes "record_existing env db i existing grant = Inr (db', s, disp)"
  shows "(disp = ExistingCurrent \<or> disp = ExistingPriorGeneration) \<and> db' = db \<or>
     (\<exists>op action. grant = Some (op, action, NotApplied) \<and> i_generation existing < i_generation i \<and>
        consume_not_applied env db i existing op = Inr (db', s, disp))"
proof (cases "i_generation existing = i_generation i")
  case True
  with assms show ?thesis by (auto simp: record_existing_def guard_Inr_iff)
next
  case False
  with assms show ?thesis
    unfolding record_existing_def
    by (auto simp: guard_Inr_iff split: option.splits prod.splits outcome.splits if_splits)
qed

definition record_effect ::
  "store_env \<Rightarrow> store \<Rightarrow> delivery_intent \<Rightarrow> store \<Rightarrow> disposition \<Rightarrow> bool" where
  "record_effect env db i db' disp \<longleftrightarrow>
     (disp = ExistingCurrent \<or> disp = ExistingPriorGeneration) \<and> db' = db \<or>
     disp = Created \<and> (\<forall>r \<in> set (intents db). i_effect_key r \<noteq> i_effect_key i) \<and>
       (\<exists>canonical. db' = db\<lparr>intents := intents db @ [pending_row i canonical]\<rparr>) \<or>
     disp = ExistingPriorGenerationReplayAuthorized \<and>
       (\<exists>(existing :: stored_intent) db1 d us r vs op action run. getAsfRun db (i_run_id i) = Some run \<and>
          authorizedReconciliationIntentCursor env db run (i_event_seq i) (i_effect_key i) =
            Some (op, action, NotApplied) \<and>
          settleResolvedAsfProviderBudgetForIntent env db existing = Inr (db1, d) \<and>
          intents db1 = us @ r # vs \<and> i_effect_key r = i_effect_key i \<and> i_outcome r = Some NotApplied \<and>
          db' = db1\<lparr>intents := us @ replaying_row op (i_generation i) r # vs\<rparr>)"

lemma record_at_cursor_shape:
  assumes "record_at_cursor env db run adm i canonical existing = Inr (db', s, disp)"
    and "getAsfRun db (i_run_id i) = Some run"
  shows "record_effect env db i db' disp"
proof -
  let ?grant = "if r_version run = i_event_seq i then None
     else authorizedReconciliationIntentCursor env db run (i_event_seq i) (i_effect_key i)"
  show ?thesis
  proof (cases existing)
    case None
    with assms(1) have "record_new env db i canonical = Inr (db', s, disp)"
      unfolding record_at_cursor_def Let_def transaction_iff by (auto simp: guard_Inr_iff)
    then show ?thesis
      by (auto simp: record_new_def transaction_iff insert_intent_def list_ex_iff record_effect_def)
        (simp add: pending_row_def)
  next
    case (Some x)
    with assms(1) have "record_existing env db i x ?grant = Inr (db', s, disp)"
      unfolding record_at_cursor_def Let_def transaction_iff by (auto simp: guard_Inr_iff)
    from record_existing_shape [OF this] show ?thesis
    proof (elim disjE exE conjE)
      fix op action assume g: "?grant = Some (op, action, NotApplied)"
        "consume_not_applied env db i x op = Inr (db', s, disp)"
      then have "authorizedReconciliationIntentCursor env db run (i_event_seq i) (i_effect_key i) =
          Some (op, action, NotApplied)" by (simp split: if_splits)
      with consume_shape [OF g(2)] assms(2) show ?thesis unfolding record_effect_def by blast
    qed (simp_all add: record_effect_def)
  qed
qed

lemma record_shape:
  assumes "recordAsfDeliveryIntent env intact db owner i cleanup = Inr (db', s, disp)"
  shows "owns db (i_run_id i) owner (i_generation i) \<and> record_effect env db i db' disp"
proof -
  obtain canonical run adm existing where c: "intent_fence db owner (i_run_id i) (i_generation i) = Inr (run, adm)"
    "(case getAsfTerminalEvidencePlanRecord db (i_run_id i) of
            Some plan \<Rightarrow>
              if \<not> intact db (i_run_id i) then Inl Rejected
              else record_under_plan env db i existing plan
          | None \<Rightarrow> record_at_cursor env db run adm i canonical existing) = Inr (db', s, disp)"
    using assms unfolding recordAsfDeliveryIntent_def transaction_iff by blast
  note f = fence_owned [OF c(1)]
  show ?thesis
  proof (cases "getAsfTerminalEvidencePlanRecord db (i_run_id i)")
    case None
    with c(2) f record_at_cursor_shape show ?thesis by auto
  next
    case (Some plan)
    with c(2) f show ?thesis
      by (auto simp: guard_Inr_iff record_under_plan_def record_effect_def split: option.splits if_splits)
  qed
qed

lemma confirm_stored_shape:
  assumes "confirm_stored env db h s = Inr db'"
  shows "db' = db \<or> (\<exists>us r vs t xs. intents db = us @ r # vs \<and> i_observation_digest r = None \<and>
     i_id r = h_intent_id h \<and>
     db' = db\<lparr>intent_observations := xs,
       intents := us @ resolved_row Confirmed (h_observation h) (d_generation (h_binding h)) t r # vs\<rparr>)"
proof (cases "i_observation_digest s")
  case (Some obs)
  with assms show ?thesis by (simp add: confirm_stored_def guard_Inr_iff)
next
  case None
  then obtain t where "update_intent
      (recordAsfDeliveryIntentObservation db (i_effect_key s) Confirmed (h_observation h)
         (d_generation (h_binding h)) FromConfirmation t)
      (\<lambda>r. i_id r = h_intent_id h \<and> i_digest r = h_intent_digest h \<and> i_observation_digest r = None)
      (resolved_row Confirmed (h_observation h) (d_generation (h_binding h)) t) = Inr db'"
    using assms by (auto simp: confirm_stored_def and_then_Inr_iff guard_Inr_iff)
  from update_intent_Inr [OF this] observation_tables(2) [of db] show ?thesis
    unfolding observation_tables(1) by (metis store.update_convs(5,6))
qed

lemma confirm_shape:
  assumes "confirmAsfDeliveryIntent env db h terminalSeal = Inr db'"
  shows "owns db (d_run (h_binding h)) (h_owner h) (d_generation (h_binding h)) \<and>
     (db' = db \<or> (\<exists>us r vs t xs. intents db = us @ r # vs \<and> i_observation_digest r = None \<and>
        i_id r = h_intent_id h \<and>
        db' = db\<lparr>intent_observations := xs,
          intents := us @ resolved_row Confirmed (h_observation h) (d_generation (h_binding h)) t r # vs\<rparr>))"
proof -
  obtain run adm s where "intent_fence db (h_owner h) (d_run (h_binding h)) (d_generation (h_binding h)) = Inr (run, adm)"
    "confirm_stored env db h s = Inr db'"
    using assms unfolding confirmAsfDeliveryIntent_def transaction_iff by (auto simp: guard_Inr_iff transaction_iff)
  with fence_owned confirm_stored_shape show ?thesis by blast
qed

lemma resolve_pending_shape:
  assumes "resolve_pending env db r = Inr (db', s)"
  shows "\<exists>us x vs t xs db1 d. intents db = us @ x # vs \<and> i_effect_key x = o_effect_key r \<and> i_outcome x = None \<and>
     db1 = db\<lparr>intent_observations := xs,
       intents := us @ resolved_row (o_outcome r) (o_observation r) (o_generation r) t x # vs\<rparr> \<and>
     settleResolvedAsfProviderBudgetForIntent env db1 s = Inr (db', d)"
proof -
  obtain t db1 d where c: "update_intent
         (recordAsfDeliveryIntentObservation db (o_effect_key r) (o_outcome r) (o_observation r)
            (o_generation r) FromReconciliation t)
         (\<lambda>s. i_effect_key s = o_effect_key r \<and> i_outcome s = None)
         (resolved_row (o_outcome r) (o_observation r) (o_generation r) t) = Inr db1"
    "settleResolvedAsfProviderBudgetForIntent env db1 s = Inr (db', d)"
    using assms by (auto simp: resolve_pending_def transaction_iff)
  from update_intent_Inr [OF c(1)] observation_tables(2) [of db] have
    "\<exists>us x vs xs. intents db = us @ x # vs \<and> i_effect_key x = o_effect_key r \<and> i_outcome x = None \<and>
     db1 = db\<lparr>intent_observations := xs,
       intents := us @ resolved_row (o_outcome r) (o_observation r) (o_generation r) t x # vs\<rparr>"
    unfolding observation_tables(1) by (metis store.update_convs(5,6))
  with c(2) show ?thesis by blast
qed

lemma resolve_shape:
  assumes "resolveAsfDeliveryIntentReconciliation env db r = Inr (db', s)"
  shows "\<exists>run. owns db run (o_owner r) (o_generation r) \<and>
     ((\<exists>d. settleResolvedAsfProviderBudgetForIntent env db s = Inr (db', d)) \<or>
      resolve_pending env db r = Inr (db', s))"
proof -
  obtain x run adm where c: "intent_fence db (o_owner r) (i_run_id x) (o_generation r) = Inr (run, adm)"
    "(case i_outcome x of
        Some out \<Rightarrow>
          if out \<noteq> o_outcome r \<or> i_observation_digest x \<noteq> Some (o_observation r)
          then Inl StateConflict
          else and_then (settleResolvedAsfProviderBudgetForIntent env db x) (\<lambda>(db', _). Inr (db', x))
      | None \<Rightarrow> resolve_pending env db r) = Inr (db', s)"
    using assms unfolding resolveAsfDeliveryIntentReconciliation_def transaction_iff by blast
  have "(\<exists>d. settleResolvedAsfProviderBudgetForIntent env db s = Inr (db', d)) \<or>
      resolve_pending env db r = Inr (db', s)"
    using c(2) by (cases "i_outcome x") (auto simp: transaction_iff)
  with fence_owned [OF c(1)] show ?thesis by blast
qed

end
