(* ===== verification/Effect_Ledger.thy ===== *)
theory Effect_Ledger
  imports Intent_Log
begin

text \<open>
  The outbox of GitHub effects (\<open>src/src/state/store.ts\<close>): an effect is intended under the fence before
  any remote call, begun when it is fresh or was observed as not applied, and observed by the owner;
  and the set of effects that a reconciliation still has to observe.
\<close>

section \<open>Intending\<close>

record effect_input =
  x_run :: string
  x_owner :: string
  x_generation :: int
  x_operation :: string
  x_target :: string
  x_marker :: string
  x_candidate :: string
  x_expected_remote :: "string option"
  x_policy_digest :: string

definition asfEffectKey :: "store_env \<Rightarrow> string \<Rightarrow> string \<Rightarrow> string \<Rightarrow> string \<Rightarrow> string" where
  "asfEffectKey env run op target candidate = ''effect_'' @ digest_prefix (digest_of env (JObject
     [(''run_id'', JString run), (''system'', JString ''github''), (''operation'', JString op),
      (''target'', JString target), (''candidate_sha'', JString candidate)]))"

definition control_free :: "string \<Rightarrow> bool" where
  "control_free s \<longleftrightarrow> list_all (\<lambda>c. \<not> char_in 0 31 c \<and> \<not> char_in 127 127 c) s"

definition effect_input_well_formed :: "effect_input \<Rightarrow> bool" where
  "effect_input_well_formed x \<longleftrightarrow>
     is_git_sha (x_candidate x) \<and> optional_sha (x_expected_remote x) \<and> is_digest (x_policy_digest x) \<and>
     js_trim (x_target x) \<noteq> [] \<and> length (x_target x) \<le> 2048 \<and>
     js_trim (x_marker x) \<noteq> [] \<and> length (x_marker x) \<le> 1024 \<and> control_free (x_target x @ x_marker x)"

definition effect_intent_json :: "effect_input \<Rightarrow> string \<Rightarrow> json" where
  "effect_intent_json x key = JObject
     [(''schema'', JString ''runmill.asf-effect-intent/v1''), (''effect_key'', JString key),
      (''run_id'', JString (x_run x)), (''system'', JString ''github''),
      (''operation'', JString (x_operation x)), (''target'', JString (x_target x)),
      (''correlation_marker'', JString (x_marker x)), (''candidate_sha'', JString (x_candidate x)),
      (''expected_remote_sha'', text_or_null (x_expected_remote x)),
      (''policy_digest'', JString (x_policy_digest x))]"

definition getAsfEffect :: "store \<Rightarrow> string \<Rightarrow> effect_row option" where
  "getAsfEffect db key = List.find (\<lambda>e. e_key e = key) (effects db)"

definition new_effect :: "effect_input \<Rightarrow> string \<Rightarrow> string \<Rightarrow> string \<Rightarrow> effect_row" where
  "new_effect x key digest at_time =
     \<lparr>e_key = key, e_run_id = x_run x, e_generation = x_generation x, e_operation = x_operation x,
      e_target = x_target x, e_marker = x_marker x, e_candidate = x_candidate x,
      e_expected_remote = x_expected_remote x, e_policy_digest = x_policy_digest x,
      e_intent_digest = digest, e_status = Intended, e_remote_id = None, e_observation_digest = None,
      e_retry_prohibited = False, e_intended_at = at_time, e_updated_at = at_time\<rparr>"

text \<open>The primary key, and the unique combination of run, operation, target and candidate.\<close>

definition insert_effect :: "store \<Rightarrow> effect_row \<Rightarrow> store_error + store" where
  "insert_effect db e =
     (if list_ex (\<lambda>f. e_key f = e_key e \<or> (e_run_id f = e_run_id e \<and> e_operation f = e_operation e \<and>
           e_target f = e_target e \<and> e_candidate f = e_candidate e)) (effects db)
      then Inl Rejected else Inr (db\<lparr>effects := effects db @ [e]\<rparr>))"

definition intendAsfEffect :: "store_env \<Rightarrow> store \<Rightarrow> effect_input \<Rightarrow> store_error + (store \<times> effect_row)" where
  "intendAsfEffect env db x =
     (if \<not> effect_input_well_formed x then Inl Rejected
      else and_then (intent_fence db (x_owner x) (x_run x) (x_generation x)) (\<lambda>(run, adm).
        if asfPhaseFreezesExternalAuthority (r_state run) then Inl StateConflict
        else if r_candidate run \<noteq> Some (x_candidate x) \<or> a_policy_digest adm \<noteq> x_policy_digest x
        then Inl StateConflict
        else
          let key = asfEffectKey env (x_run x) (x_operation x) (x_target x) (x_candidate x);
              digest = digest_of env (effect_intent_json x key)
          in (case getAsfEffect db key of
                Some e \<Rightarrow>
                  if e_intent_digest e \<noteq> digest \<or> e_marker e \<noteq> x_marker x then Inl StateConflict
                  else Inr (db, e)
              | None \<Rightarrow>
                  if getAsfTerminalEvidencePlanRecord db (x_run x) \<noteq> None then Inl EvidenceConflict
                  else and_then (now_iso env) (\<lambda>at_time.
                       and_then (insert_effect db (new_effect x key digest at_time)) (\<lambda>db'.
                         Inr (db', new_effect x key digest at_time))))))"

section \<open>Beginning and observing\<close>

definition run_fence :: "store \<Rightarrow> string \<Rightarrow> string \<Rightarrow> int \<Rightarrow> store_error + run_row" where
  "run_fence db owner run gen =
     (case getAsfRun db run of
        None \<Rightarrow> Inl StaleLease
      | Some r \<Rightarrow> if r_owner r \<noteq> Some owner \<or> r_generation r \<noteq> gen then Inl StaleLease else Inr r)"

definition update_effects :: "store \<Rightarrow> (effect_row \<Rightarrow> bool) \<Rightarrow> (effect_row \<Rightarrow> effect_row) \<Rightarrow> store" where
  "update_effects db p f = db\<lparr>effects := map (\<lambda>e. if p e then f e else e) (effects db)\<rparr>"

definition beginAsfEffect ::
  "store_env \<Rightarrow> store \<Rightarrow> string \<Rightarrow> string \<Rightarrow> int \<Rightarrow> store_error + (store \<times> effect_row)" where
  "beginAsfEffect env db key owner gen =
     (case getAsfEffect db key of
        None \<Rightarrow> Inl Rejected
      | Some e \<Rightarrow>
          and_then (run_fence db owner (e_run_id e) gen) (\<lambda>run.
            if asfPhaseFreezesExternalAuthority (r_state run) then Inl StateConflict
            else if getAsfTerminalEvidencePlanRecord db (e_run_id e) \<noteq> None then Inl EvidenceConflict
            else if e_status e \<noteq> Intended \<and> e_status e \<noteq> Observed NotApplied then Inl StateConflict
            else and_then (now_iso env) (\<lambda>at_time.
              let db' = update_effects db (\<lambda>f. e_key f = key \<and> e_status f = e_status e)
                    (\<lambda>f. f\<lparr>e_status := InFlight, e_generation := gen, e_updated_at := at_time\<rparr>)
              in (case getAsfEffect db' key of None \<Rightarrow> Inl Rejected | Some f \<Rightarrow> Inr (db', f)))))"

record observe_input =
  z_key :: string
  z_owner :: string
  z_generation :: int
  z_outcome :: outcome
  z_candidate :: string
  z_details :: string
  z_observer :: string
  z_remote_id :: "string option"

definition observed_effect :: "observe_input \<Rightarrow> string \<Rightarrow> effect_row \<Rightarrow> effect_row" where
  "observed_effect z at_time e =
     e\<lparr>e_status := Observed (z_outcome z), e_generation := z_generation z,
       e_remote_id := (case z_remote_id z of Some r \<Rightarrow> Some r | None \<Rightarrow> e_remote_id e),
       e_observation_digest := Some (z_details z), e_retry_prohibited := (z_outcome z = Ambiguous),
       e_updated_at := at_time\<rparr>"

definition effect_observation_of :: "observe_input \<Rightarrow> nat \<Rightarrow> string \<Rightarrow> effect_observation" where
  "effect_observation_of z n at_time =
     \<lparr>eo_key = z_key z, eo_seq = n, eo_outcome = z_outcome z, eo_candidate = z_candidate z,
      eo_details = z_details z, eo_observer = z_observer z, eo_observed_at = at_time\<rparr>"

definition recordAsfEffectObservation ::
  "store_env \<Rightarrow> store \<Rightarrow> observe_input \<Rightarrow> store_error + (store \<times> effect_observation)" where
  "recordAsfEffectObservation env db z =
     (if \<not> is_digest (z_details z) then Inl Rejected
      else case getAsfEffect db (z_key z) of
        None \<Rightarrow> Inl Rejected
      | Some e \<Rightarrow>
          and_then (run_fence db (z_owner z) (e_run_id e) (z_generation z)) (\<lambda>run.
            if z_candidate z \<noteq> e_candidate e then Inl StateConflict
            else and_then (now_iso env) (\<lambda>at_time.
              let n = foldr max (map eo_seq (filter (\<lambda>x. eo_key x = z_key z) (effect_observations db))) 0 + 1;
                  observation = effect_observation_of z n at_time;
                  db1 = (update_effects db (\<lambda>f. e_key f = z_key z) (observed_effect z at_time))
                    \<lparr>effect_observations := effect_observations db @ [observation]\<rparr>;
                  db2 = (if z_outcome z = Ambiguous
                         then update_run db1 (e_run_id e) (\<lambda>r. r\<lparr>r_reconcile := True, r_updated := at_time\<rparr>)
                         else db1)
              in Inr (db2, observation))))"

definition asfEffectObservations :: "store \<Rightarrow> string \<Rightarrow> effect_observation list" where
  "asfEffectObservations db key = sort_key eo_seq (filter (\<lambda>x. eo_key x = key) (effect_observations db))"

section \<open>Pending effects\<close>

definition effect_pending :: "effect_row \<Rightarrow> bool" where
  "effect_pending e \<longleftrightarrow> e_status e = Intended \<or> e_status e = InFlight \<or> e_status e = Observed Ambiguous"

definition listPendingAsfEffects :: "store \<Rightarrow> string option \<Rightarrow> effect_row list" where
  "listPendingAsfEffects db run =
     sort_key (\<lambda>e. (e_updated_at e, e_key e))
       (filter (\<lambda>e. effect_pending e \<and> (case run of None \<Rightarrow> True | Some r \<Rightarrow> e_run_id e = r)) (effects db))"

record pending_counts =
  githubEffects :: nat
  deliveryIntents :: nat
  total_pending :: nat

definition asfPendingReconciliationCounts :: "store \<Rightarrow> string \<Rightarrow> pending_counts" where
  "asfPendingReconciliationCounts db run =
     (let g = length (filter (\<lambda>e. e_run_id e = run \<and> effect_pending e) (effects db));
          d = length (filter (\<lambda>i. i_run_id i = run \<and> i_outcome i = None) (intents db))
      in \<lparr>githubEffects = g, deliveryIntents = d, total_pending = g + d\<rparr>)"

record pending_effect =
  pe_class :: string
  pe_key :: string
  pe_candidate :: "string option"
  pe_policy_digest :: string
  pe_intent_digest :: string
  pe_operation :: string
  pe_event_seq :: "int option"

definition github_pending :: "store \<Rightarrow> string \<Rightarrow> pending_effect list" where
  "github_pending db run =
     map (\<lambda>e. \<lparr>pe_class = ''github-effect'', pe_key = e_key e, pe_candidate = Some (e_candidate e),
                pe_policy_digest = e_policy_digest e, pe_intent_digest = e_intent_digest e,
                pe_operation = e_operation e, pe_event_seq = None\<rparr>)
       (sort_key e_key (filter (\<lambda>e. e_run_id e = run \<and> effect_pending e) (effects db)))"

definition delivery_pending :: "store \<Rightarrow> string \<Rightarrow> pending_effect list" where
  "delivery_pending db run =
     map (\<lambda>i. \<lparr>pe_class = ''delivery-intent'', pe_key = i_effect_key i, pe_candidate = i_candidate i,
                pe_policy_digest = i_policy_digest i, pe_intent_digest = i_digest i,
                pe_operation = i_stage i, pe_event_seq = Some (i_event_seq i)\<rparr>)
       (sort_key i_effect_key (filter (\<lambda>i. i_run_id i = run \<and> i_outcome i = None) (intents db)))"

text \<open>\<open>collate\<close> is \<open>localeCompare\<close>; a result of 0 is falsy, so the key decides.\<close>

definition pending_cmp :: "(string \<Rightarrow> string \<Rightarrow> int) \<Rightarrow> pending_effect \<Rightarrow> pending_effect \<Rightarrow> int" where
  "pending_cmp collate l r =
     (let c = collate (pe_class l) (pe_class r) in if c \<noteq> 0 then c else collate (pe_key l) (pe_key r))"

definition pending_json :: "pending_effect \<Rightarrow> json" where
  "pending_json p = JObject
     [(''effect_class'', JString (pe_class p)), (''effect_key'', JString (pe_key p)),
      (''candidate_sha'', text_or_null (pe_candidate p)), (''policy_digest'', JString (pe_policy_digest p)),
      (''intent_digest'', JString (pe_intent_digest p)), (''operation'', JString (pe_operation p)),
      (''event_seq'', (case pe_event_seq p of None \<Rightarrow> JNull | Some n \<Rightarrow> JNumber (of_int n)))]"

record pending_set =
  ps_value :: json
  ps_canonical :: string
  ps_digest :: string
  ps_github :: nat
  ps_delivery :: nat

definition canonicalAsfPendingSet ::
  "store_env \<Rightarrow> store \<Rightarrow> string \<Rightarrow> store_error + pending_set" where
  "canonicalAsfPendingSet env db run =
     (let found = js_sort (pending_cmp (localeCompare env)) (github_pending db run @ delivery_pending db run)
      in if length found > 100000 then Inl ReconciliationConflict
         else
           let v = JObject [(''schema'', JString ''asf.pending-reconciliation-set/v2''), (''run_id'', JString run),
                            (''effects'', JArray (map pending_json found))]
           in Inr \<lparr>ps_value = v, ps_canonical = canonicalJson env v, ps_digest = digest_of env v,
                ps_github = length (github_pending db run), ps_delivery = length (delivery_pending db run)\<rparr>)"

end
