(* ===== verification/Event_Store.thy ===== *)
theory Event_Store
  imports Effect_Ledger
begin

text \<open>
  The lifecycle events of a run in the durable store (\<open>src/src/state/store.ts\<close>): admission of a work
  order with the run's first event, the events as they are read back, the snapshot of a run and the
  pages of its events. Every change of a run's phase appends one transition and one event.
\<close>

section \<open>Events as they are stored\<close>

definition parse_event :: "store_env \<Rightarrow> json \<Rightarrow> store_error + run_event" where
  "parse_event env raw =
     (case parseRunEvent (safe_parse (recovery env)) (formats_of (recovery env)) raw of
        Inl _ \<Rightarrow> Inl Rejected | Inr e \<Rightarrow> Inr e)"

definition stored_event :: "store_env \<Rightarrow> admission \<Rightarrow> event_row \<Rightarrow> store_error + run_event" where
  "stored_event env adm w =
     (case json_parse env (w_payload w) of
        None \<Rightarrow> Inl Rejected
      | Some pl \<Rightarrow> parse_event env (event_json adm (w_run_id w) (w_seq w) w pl))"

definition event_id_of :: "store_env \<Rightarrow> string \<Rightarrow> int \<Rightarrow> string \<Rightarrow> string" where
  "event_id_of env run n type =
     ''evt_'' @ take 26 (sha_hex env (run @ '':'' @ number_text env (of_int n) @ '':'' @ type))"

definition new_event_json ::
  "store_env \<Rightarrow> admission \<Rightarrow> string \<Rightarrow> int \<Rightarrow> string \<Rightarrow> string \<Rightarrow> phase \<Rightarrow> (string \<times> json) list \<Rightarrow> json" where
  "new_event_json env adm run n at_time type ph pl = JObject
     [(''schema'', JString ''asf.run-event/v1''), (''event_id'', JString (event_id_of env run n type)),
      (''run_id'', JString run), (''work_order_id'', JString (a_work_order adm)),
      (''attempt_id'', JString (a_attempt_id adm)), (''seq'', JNumber (of_int n)),
      (''occurred_at'', JString at_time), (''type'', JString type), (''phase'', JString (phase_text ph)),
      (''payload'', JObject pl), (''policy_digest'', JString (a_policy_digest adm))]"

definition event_row_of :: "store_env \<Rightarrow> string \<Rightarrow> int \<Rightarrow> string \<Rightarrow> run_event \<Rightarrow> event_row" where
  "event_row_of env run n type e =
     \<lparr>w_run_id = run, w_seq = n, w_type = type,
      w_payload = stringify env (JObject (payload e)), w_at = occurred_at e, w_event_id = event_id e,
      w_schema = ''asf.run-event/v1'', w_phase = phase_text (event_phase e),
      w_policy_digest = policy_digest e\<rparr>"

text \<open>The keys of the two tables: run and sequence number, and the event id.\<close>

definition insert_event :: "store \<Rightarrow> event_row \<Rightarrow> store_error + store" where
  "insert_event db w =
     (if list_ex (\<lambda>v. (w_run_id v = w_run_id w \<and> w_seq v = w_seq w) \<or> w_event_id v = w_event_id w) (events db)
      then Inl Rejected else Inr (db\<lparr>events := events db @ [w]\<rparr>))"

definition insert_transition :: "store \<Rightarrow> transition_row \<Rightarrow> store_error + store" where
  "insert_transition db t =
     (if list_ex (\<lambda>s. st_run s = st_run t \<and> st_seq s = st_seq t) (transitions db)
      then Inl Rejected else Inr (db\<lparr>transitions := transitions db @ [t]\<rparr>))"

text \<open>An \<open>UPDATE\<close> of one run under conditions; no changed row is an error.\<close>

definition change_run ::
  "store \<Rightarrow> string \<Rightarrow> (run_row \<Rightarrow> bool) \<Rightarrow> (run_row \<Rightarrow> run_row) \<Rightarrow> store_error + store" where
  "change_run db run p f =
     (case getAsfRun db run of
        None \<Rightarrow> Inl Rejected
      | Some r \<Rightarrow> if \<not> p r then Inl Rejected else Inr (update_run db run f))"

text \<open>The transition and the event of a phase change, in the order of the code.\<close>

definition append_history ::
  "store_env \<Rightarrow> store \<Rightarrow> string \<Rightarrow> int \<Rightarrow> phase \<Rightarrow> phase \<Rightarrow> string \<Rightarrow> run_event \<Rightarrow> string option \<Rightarrow>
     string \<Rightarrow> string \<Rightarrow> store_error + store" where
  "append_history env db run n from to type e reason actor at_time =
     and_then (insert_transition db
         \<lparr>st_run = run, st_seq = n, st_from = from, st_to = to, st_reason = reason,
          st_actor = actor, st_at = at_time\<rparr>) (\<lambda>db1.
       insert_event db1 (event_row_of env run n type e))"

section \<open>Reading a run\<close>

definition latest_seq :: "store \<Rightarrow> string \<Rightarrow> int" where
  "latest_seq db run = foldr max (map w_seq (filter (\<lambda>w. w_run_id w = run) (events db))) 0"

definition getAsfRunSnapshot ::
  "store \<Rightarrow> string \<Rightarrow> store_error + (run_row \<times> admission \<times> int) option" where
  "getAsfRunSnapshot db run =
     (case getAsfRun db run of
        None \<Rightarrow> Inr None
      | Some r \<Rightarrow>
          (case getAsfAdmissionForRun db run of
             None \<Rightarrow> Inl Rejected
           | Some adm \<Rightarrow>
               if latest_seq db run \<noteq> r_version r then Inl Rejected
               else Inr (Some (r, adm, latest_seq db run))))"

definition listAsfRuns :: "store \<Rightarrow> int \<Rightarrow> store_error + run_row list" where
  "listAsfRuns db limit =
     (if \<not> safe_int limit \<or> limit < 1 \<or> limit > 10000 then Inl Rejected
      else Inr (take (nat limit) (sort_key r_created (runs db))))"

definition listRecoverableAsfRuns :: "store \<Rightarrow> run_row list" where
  "listRecoverableAsfRuns db =
     sort_key (\<lambda>r. (r_created r, r_run_id r)) (filter (\<lambda>r. \<not> isTerminalRunEventPhase (r_state r)) (runs db))"

record event_page =
  pg_events :: "run_event list"
  pg_next :: int
  pg_more :: bool
  pg_gap :: bool
  pg_compacted :: "int option"
  pg_run :: run_row
  pg_latest :: int

fun stored_events :: "store_env \<Rightarrow> admission \<Rightarrow> event_row list \<Rightarrow> store_error + run_event list" where
  "stored_events env adm [] = Inr []"
| "stored_events env adm (w # ws) =
     and_then (stored_event env adm w) (\<lambda>e. and_then (stored_events env adm ws) (\<lambda>es. Inr (e # es)))"

definition events_after :: "store \<Rightarrow> string \<Rightarrow> int \<Rightarrow> event_row list" where
  "events_after db run after = sort_key w_seq (filter (\<lambda>w. w_run_id w = run \<and> after < w_seq w) (events db))"

definition listAsfRunEvents :: "store_env \<Rightarrow> store \<Rightarrow> string \<Rightarrow> int \<Rightarrow> int \<Rightarrow> store_error + event_page" where
  "listAsfRunEvents env db run after limit =
     (if \<not> safe_int after \<or> after < 0 then Inl Rejected
      else if \<not> safe_int limit \<or> limit < 1 \<or> limit > 1000 then Inl Rejected
      else case getAsfRun db run of
        None \<Rightarrow> Inl Rejected
      | Some r \<Rightarrow>
          (case getAsfAdmissionForRun db run of
             None \<Rightarrow> Inl Rejected
           | Some adm \<Rightarrow>
               and_then (stored_events env adm (take (nat limit) (events_after db run after))) (\<lambda>es.
                 if latest_seq db run \<noteq> r_version r then Inl Rejected
                 else Inr \<lparr>pg_events = es,
                   pg_next = (if es = [] then max after (a_compacted adm) else seq (last es)),
                   pg_more = nat limit < length (events_after db run after),
                   pg_gap = after < a_compacted adm,
                   pg_compacted = (if after < a_compacted adm then Some (a_compacted adm) else None),
                   pg_run = r, pg_latest = latest_seq db run\<rparr>)))"

section \<open>Admission\<close>

record admit_input =
  ad_run :: string
  ad_key :: string
  ad_work_item :: string
  ad_repository :: string
  ad_implementer :: string
  ad_base :: string
  ad_work_order :: string
  ad_attempt :: string
  ad_tenant :: string
  ad_signer :: string
  ad_algorithm :: string
  ad_envelope :: string
  ad_envelope_digest :: string
  ad_payload_digest :: string
  ad_policy :: json
  ad_policy_digest :: string

definition admitted_run :: "admit_input \<Rightarrow> string \<Rightarrow> run_row" where
  "admitted_run i at_time =
     \<lparr>r_run_id = ad_run i, r_issue_id = ad_work_item i, r_repo = ad_repository i, r_provider = ad_implementer i,
      r_state = ADMITTED, r_version = 1, r_attempt = 1, r_base = Some (js_to_lower (ad_base i)),
      r_candidate = None, r_branch = None, r_work_order = ad_work_order i, r_attempt_id = ad_attempt i,
      r_generation = 0, r_owner = None, r_heartbeat = None, r_resume_phase = None, r_reconcile = False,
      r_updated = at_time, r_created = at_time\<rparr>"

definition admission_of :: "store_env \<Rightarrow> admit_input \<Rightarrow> string \<Rightarrow> admission" where
  "admission_of env i at_time =
     \<lparr>a_idempotency_key = ad_key i, a_payload_digest = ad_payload_digest i,
      a_envelope_digest = ad_envelope_digest i, a_envelope = ad_envelope i, a_work_order = ad_work_order i,
      a_attempt_id = ad_attempt i, a_tenant = ad_tenant i, a_run_id = ad_run i,
      a_policy = canonicalJson env (ad_policy i), a_policy_digest = ad_policy_digest i, a_key_id = ad_signer i,
      a_algorithm = ad_algorithm i, a_accepted_at = at_time, a_compacted = 0\<rparr>"

definition admitted_payload :: "admit_input \<Rightarrow> json" where
  "admitted_payload i = JObject
     [(''work_order_id'', JString (ad_work_order i)), (''attempt_id'', JString (ad_attempt i)),
      (''tenant_id'', JString (ad_tenant i)), (''payload_digest'', JString (ad_payload_digest i)),
      (''envelope_digest'', JString (ad_envelope_digest i)),
      (''signature'', JObject [(''verified'', JBool True), (''key_id'', JString (ad_signer i)),
         (''algorithm'', JString (ad_algorithm i))])]"

definition admitted_event :: "store_env \<Rightarrow> admit_input \<Rightarrow> string \<Rightarrow> event_row" where
  "admitted_event env i at_time =
     \<lparr>w_run_id = ad_run i, w_seq = 1, w_type = ''work_order.admitted'',
      w_payload = stringify env (admitted_payload i), w_at = at_time,
      w_event_id = ''evt_'' @ take 26 (sha_hex env (ad_run i @ '':1:work_order.admitted'')),
      w_schema = ''asf.run-event/v1'', w_phase = ''ADMITTED'', w_policy_digest = ad_policy_digest i\<rparr>"

definition insert_run :: "store \<Rightarrow> run_row \<Rightarrow> store_error + store" where
  "insert_run db r =
     (if list_ex (\<lambda>q. r_run_id q = r_run_id r \<or>
           (r_work_order q = r_work_order r \<and> r_attempt_id q = r_attempt_id r)) (runs db)
      then Inl Rejected else Inr (db\<lparr>runs := runs db @ [r]\<rparr>))"

definition insert_admission :: "store \<Rightarrow> admission \<Rightarrow> store_error + store" where
  "insert_admission db a =
     (if list_ex (\<lambda>b. a_idempotency_key b = a_idempotency_key a \<or> a_run_id b = a_run_id a \<or>
           (a_work_order b = a_work_order a \<and> a_attempt_id b = a_attempt_id a)) (admissions db)
      then Inl Rejected else Inr (db\<lparr>admissions := admissions db @ [a]\<rparr>))"

definition admitAsfWorkOrder ::
  "store_env \<Rightarrow> store \<Rightarrow> admit_input \<Rightarrow> store_error + (store \<times> string \<times> bool)" where
  "admitAsfWorkOrder env db i =
     (case getAsfAdmission db (ad_key i) of
        Some a \<Rightarrow>
          if a_payload_digest a \<noteq> ad_payload_digest i then Inl WorkOrderConflict
          else Inr (db, a_run_id a, False)
      | None \<Rightarrow>
          if List.find (\<lambda>a. a_work_order a = ad_work_order i \<and> a_attempt_id a = ad_attempt i) (admissions db) \<noteq> None
          then Inl WorkOrderConflict
          else
            and_then (now_iso env) (\<lambda>at_time.
            and_then (insert_run db (admitted_run i at_time)) (\<lambda>db1.
            and_then (insert_admission db1 (admission_of env i at_time)) (\<lambda>db2.
            and_then (insert_transition db2
                \<lparr>st_run = ad_run i, st_seq = 1, st_from = RECEIVED, st_to = ADMITTED,
                 st_reason = Some ''signed Work Order accepted'', st_actor = ''orchestrator'', st_at = at_time\<rparr>) (\<lambda>db3.
            and_then (insert_event db3 (admitted_event env i at_time)) (\<lambda>db4.
              Inr (db4, ad_run i, True)))))))"

section \<open>Peeling transactions\<close>

lemma update_run_more_tables [simp]:
  "transitions (update_run db run f) = transitions db" "approvals (update_run db run f) = approvals db"
  "gate_results (update_run db run f) = gate_results db"
  "evidence_bundles (update_run db run f) = evidence_bundles db"
  "reconciliations (update_run db run f) = reconciliations db"
  "cancellations (update_run db run f) = cancellations db"
  "effect_observations (update_run db run f) = effect_observations db"
  "intent_observations (update_run db run f) = intent_observations db"
  by (simp_all add: update_run_def)

text \<open>Reading a run does not depend on the other tables.\<close>

lemma getAsfRun_cong: "runs db = runs db' \<Longrightarrow> getAsfRun db = getAsfRun db'"
  by (simp add: getAsfRun_def fun_eq_iff)

lemma owns_cong: "runs db = runs db' \<Longrightarrow> owns db = owns db'"
  by (simp add: owns_def fun_eq_iff getAsfRun_cong [of db db'])

lemma ok_Inr_iff: "(case x of Inl _ \<Rightarrow> Inl e | Inr _ \<Rightarrow> k) = Inr y \<longleftrightarrow> (\<exists>u. x = Inr u \<and> k = Inr y)"
  by (cases x) simp_all

lemmas step_iff = transaction_iff ok_Inr_iff

section \<open>Sample events\<close>

text \<open>With a validator as documented, an event whose payload meets its contract is read back member by
  member.\<close>

lemma conforming_event:
  assumes "safe_parse (recovery env) = sample_parse" "formats_of (recovery env) = sample_formats"
    and "eid \<noteq> []" "run \<noteq> []" "wo \<noteq> []" "att \<noteq> []" "0 < n" "safe_int n" "is_digest pd"
    and ty: "conforms eventTypeSchema (JString ty)"
    and contract: "map_of (RUN_EVENT_CONTRACTS sample_formats) ty = Some (cp, s)"
      "\<forall>p'. cp = Fixed p' \<longrightarrow> p' = p" "conforms s (JObject pl)" "check_payload cp p pl = Inr ()"
  shows "parse_event env (JObject
     [(''schema'', JString ''asf.run-event/v1''), (''event_id'', JString eid), (''run_id'', JString run),
      (''work_order_id'', JString wo), (''attempt_id'', JString att), (''seq'', JNumber (of_int n)),
      (''occurred_at'', JString at_time), (''type'', JString ty), (''phase'', JString (phase_text p)),
      (''payload'', JObject pl), (''policy_digest'', JString pd)]) =
     Inr \<lparr>event_id = eid, run_id = run, work_order_id = wo, attempt_id = att, seq = n, occurred_at = at_time,
        event_type = ty, event_phase = p, payload = pl, policy_digest = pd\<rparr>"
proof -
  obtain name where ph: "map_of RUN_EVENT_PHASES p = Some name" "name \<in> set (map snd RUN_EVENT_PHASES)"
      "phase_of_name name = Some p" "phase_text p = name"
    using phase_named [of p] by (auto simp: phase_text_def)
  let ?ms = "[(''schema'', JString ''asf.run-event/v1''), (''event_id'', JString eid), (''run_id'', JString run),
      (''work_order_id'', JString wo), (''attempt_id'', JString att), (''seq'', JNumber (of_int n)),
      (''occurred_at'', JString at_time), (''type'', JString ty), (''phase'', JString name),
      (''payload'', JObject pl), (''policy_digest'', JString pd)]"
  let ?e = "\<lparr>event_id = eid, run_id = run, work_order_id = wo, attempt_id = att, seq = n, occurred_at = at_time,
        event_type = ty, event_phase = p, payload = pl, policy_digest = pd\<rparr>"
  have "conforms (runEventSchema sample_formats) (JObject ?ms)"
    using ty ph assms(3-9)
    by (simp add: runEventSchema_def required_def identifierSchema_def positive_int_def
        digestSchema_def sample_formats_def runEventPhaseSchema_def)
  moreover have "typed_event (JObject ?ms) = Some ?e"
    using ph by (simp add: typed_event_def text_field_def int_field_def object_field_def)
  ultimately have read: "Option.bind (sample_parse (runEventSchema sample_formats) (JObject ?ms)) typed_event = Some ?e"
    by (simp add: sample_parse_def)
  have head: "map_of ?ms ''schema'' = Some (JString ''asf.run-event/v1'')"
      "Option.bind (text_field ?ms ''phase'') phase_of_name \<noteq> None"
    using ph by (simp_all add: text_field_def)
  have "parseRunEvent sample_parse sample_formats (JObject ?ms) = Inr ?e"
    unfolding parseRunEvent_def json.case read using head contract
    by (cases cp) (simp_all add: sample_parse_def)
  then show ?thesis by (simp add: parse_event_def assms(1,2) ph(4))
qed

end
