(* ===== verification/Approval.thy ===== *)
theory Approval
  imports Event_Store
begin

text \<open>
  Signed approvals (\<open>src/src/asf/approval.ts\<close> and the approval transactions of
  \<open>src/src/state/store.ts\<close>): parsing of an envelope, validation against the trusted signers, the clock and
  the exact binding, recording with the atomic resume of a waiting run, and the requirement of a
  current approval.
\<close>

section \<open>Envelopes\<close>

datatype approval_error =
  UnsupportedApproval   \<comment> \<open>RM-APPROVAL-001\<close>
| InvalidApproval       \<comment> \<open>RM-APPROVAL-002\<close>
| UnboundApproval       \<comment> \<open>RM-APPROVAL-003\<close>
| UnauthorisedApproval  \<comment> \<open>RM-APPROVAL-004\<close>
| ApprovalStore store_error

text \<open>\<open>/^[A-Za-z0-9][A-Za-z0-9._:-]*$/u\<close> of at most 256 characters.\<close>

definition identifier_char :: "char \<Rightarrow> bool" where
  "identifier_char c \<longleftrightarrow> lower_alpha c \<or> upper_alpha c \<or> digit_char c \<or> c \<in> set ''._:-''"

definition approval_identifier :: "string \<Rightarrow> bool" where
  "approval_identifier s \<longleftrightarrow>
     (case s of
        [] \<Rightarrow> False
      | c # cs \<Rightarrow> (lower_alpha c \<or> upper_alpha c \<or> digit_char c) \<and> list_all identifier_char cs) \<and>
     length s \<le> 256"

definition base64url_char :: "char \<Rightarrow> bool" where
  "base64url_char c \<longleftrightarrow> lower_alpha c \<or> upper_alpha c \<or> digit_char c \<or> c = CHR ''_'' \<or> c = CHR ''-''"

definition signature_text :: "string \<Rightarrow> bool" where
  "signature_text s \<longleftrightarrow>
     js_starts_with ''base64url:'' s \<and> drop 10 s \<noteq> [] \<and> list_all base64url_char (drop 10 s)"

definition approvalPayloadSchema :: "formats \<Rightarrow> zschema" where
  "approvalPayloadSchema f = ZObject
     [required ''schema'' (ZLiteral ''asf.approval/v1''),
      required ''approval_id'' (ZString approval_identifier),
      required ''work_order_id'' (ZString approval_identifier),
      required ''work_order_digest'' digestSchema,
      required ''run_id'' (ZString approval_identifier),
      required ''attempt_id'' (ZString approval_identifier),
      required ''candidate_sha'' gitShaSchema,
      required ''decision'' (ZEnum [''approved'', ''denied'']),
      required ''decision_type'' (ZString approval_identifier),
      required ''requested_effect'' (ZString approval_identifier),
      required ''policy_digest'' digestSchema,
      required ''approver'' (ZObject [required ''subject'' (ZString approval_identifier),
                                      required ''authority'' (ZString approval_identifier)]),
      required ''issued_at'' (timestampSchema f),
      required ''expires_at'' (timestampSchema f)]"

definition approvalEnvelopeSchema :: "formats \<Rightarrow> zschema" where
  "approvalEnvelopeSchema f = ZObject
     [required ''schema'' (ZLiteral ''asf.approval-envelope/v1''),
      required ''key_id'' (ZString approval_identifier),
      required ''algorithm'' (ZLiteral ''EdDSA''),
      required ''payload'' (approvalPayloadSchema f),
      required ''signature'' (ZString signature_text)]"

record approval_payload =
  y_id :: string
  y_work_order :: string
  y_work_order_digest :: string
  y_run :: string
  y_attempt :: string
  y_candidate :: string
  y_decision :: approval_decision
  y_decision_type :: string
  y_effect :: string
  y_policy_digest :: string
  y_subject :: string
  y_authority :: string
  y_issued :: string
  y_expires :: string

text \<open>The parsed envelope with its members, over which signature and digest are taken.\<close>

record approval_envelope =
  en_key :: string
  en_algorithm :: string
  en_payload :: approval_payload
  en_signature :: string
  en_members :: "(string \<times> json) list"

definition decision_of :: "string \<Rightarrow> approval_decision option" where
  "decision_of s = (if s = ''approved'' then Some Approved else if s = ''denied'' then Some ApprovalDenied else None)"

definition read_approval_payload :: "(string \<times> json) list \<Rightarrow> approval_payload option" where
  "read_approval_payload ms =
     (case (object_field ms ''approver'', Option.bind (text_field ms ''decision'') decision_of) of
        (Some ap, Some decision) \<Rightarrow>
          (case (text_field ms ''approval_id'', text_field ms ''work_order_id'', text_field ms ''work_order_digest'',
                 text_field ms ''run_id'', text_field ms ''attempt_id'', text_field ms ''candidate_sha'') of
             (Some id', Some wo, Some wod, Some run, Some att, Some cand) \<Rightarrow>
               (case (text_field ms ''decision_type'', text_field ms ''requested_effect'',
                      text_field ms ''policy_digest'', text_field ap ''subject'', text_field ap ''authority'',
                      text_field ms ''issued_at'', text_field ms ''expires_at'') of
                  (Some dt, Some eff, Some pd, Some sub, Some auth, Some iss, Some expi) \<Rightarrow>
                    Some \<lparr>y_id = id', y_work_order = wo, y_work_order_digest = wod, y_run = run,
                      y_attempt = att, y_candidate = cand, y_decision = decision, y_decision_type = dt,
                      y_effect = eff, y_policy_digest = pd, y_subject = sub, y_authority = auth,
                      y_issued = iss, y_expires = expi\<rparr>
                | _ \<Rightarrow> None)
           | _ \<Rightarrow> None)
      | _ \<Rightarrow> None)"

definition read_approval :: "json \<Rightarrow> approval_envelope option" where
  "read_approval j =
     (case j of
        JObject ms \<Rightarrow>
          (case (text_field ms ''key_id'', text_field ms ''algorithm'',
                 Option.bind (object_field ms ''payload'') read_approval_payload, text_field ms ''signature'') of
             (Some key, Some alg, Some pl, Some sig) \<Rightarrow>
               Some \<lparr>en_key = key, en_algorithm = alg, en_payload = pl, en_signature = sig, en_members = ms\<rparr>
           | _ \<Rightarrow> None)
      | _ \<Rightarrow> None)"

text \<open>Unknown schema versions are refused before the envelope is validated.\<close>

definition schema_of :: "(string \<times> json) list option \<Rightarrow> json option" where
  "schema_of r = (case r of None \<Rightarrow> None | Some ms \<Rightarrow> map_of ms ''schema'')"

definition asRecord :: "json option \<Rightarrow> (string \<times> json) list option" where
  "asRecord j = (case j of Some (JObject ms) \<Rightarrow> Some ms | _ \<Rightarrow> None)"

definition parseApprovalEnvelope :: "store_env \<Rightarrow> json \<Rightarrow> approval_error + approval_envelope" where
  "parseApprovalEnvelope env raw =
     (let envelope = asRecord (Some raw);
          body = asRecord (case envelope of None \<Rightarrow> None | Some ms \<Rightarrow> map_of ms ''payload'')
      in if schema_of envelope \<noteq> Some (JString ''asf.approval-envelope/v1'') \<or>
            schema_of body \<noteq> Some (JString ''asf.approval/v1'')
         then Inl UnsupportedApproval
         else (case Option.bind (safe_parse (recovery env)
                     (approvalEnvelopeSchema (formats_of (recovery env))) raw) read_approval of
                 None \<Rightarrow> Inl InvalidApproval
               | Some e \<Rightarrow> Inr e))"

section \<open>Signatures\<close>

text \<open>\<open>Buffer.from(s, "base64url")\<close> and its inverse: six bits a character, eight bits a byte, the
  left-over bits dropped when decoding and filled up with zeros when encoding.\<close>

definition base64_digit :: "char \<Rightarrow> nat" where
  "base64_digit c =
     (let n = of_char c :: nat
      in if upper_alpha c then n - 65 else if lower_alpha c then n - 71
         else if digit_char c then n + 4 else if c = CHR ''-'' then 62 else 63)"

definition base64_alphabet :: string where
  "base64_alphabet = ''ABCDEFGHIJKLMNOPQRSTUVWXYZabcdefghijklmnopqrstuvwxyz0123456789-_''"

fun bits_of :: "nat \<Rightarrow> nat \<Rightarrow> bool list" where
  "bits_of 0 n = []"
| "bits_of (Suc w) n = bits_of w (n div 2) @ [n mod 2 = 1]"

fun number_of_bits :: "bool list \<Rightarrow> nat" where
  "number_of_bits bs = foldl (\<lambda>n b. 2 * n + (if b then 1 else 0)) 0 bs"

function bytes_of_bits :: "bool list \<Rightarrow> nat list" where
  "bytes_of_bits bs = (if length bs < 8 then [] else number_of_bits (take 8 bs) # bytes_of_bits (drop 8 bs))"
  by pat_completeness auto
termination by (relation "measure length") auto

function digits_of_bits :: "bool list \<Rightarrow> nat list" where
  "digits_of_bits bs =
     (if bs = [] then []
      else number_of_bits (take 6 bs @ replicate (6 - length bs) False) # digits_of_bits (drop 6 bs))"
  by pat_completeness auto
termination by (relation "measure length") auto

declare bytes_of_bits.simps [simp del] digits_of_bits.simps [simp del]

definition base64url_decode :: "string \<Rightarrow> nat list" where
  "base64url_decode s = bytes_of_bits (concat (map (\<lambda>c. bits_of 6 (base64_digit c)) s))"

definition base64url_encode :: "nat list \<Rightarrow> string" where
  "base64url_encode bs = map (\<lambda>d. base64_alphabet ! d) (digits_of_bits (concat (map (bits_of 8) bs)))"

text \<open>A signer as the operator registers it. \<open>eddsa key text signature\<close> is the library's verification of
  a signature over the UTF-8 bytes of a text; it is false where the library throws or the key is not a
  public EdDSA key.\<close>

record trusted_signer =
  sg_key_id :: string
  sg_public :: string
  sg_subjects :: "string list"
  sg_authorities :: "string list"
  sg_decisions :: "string list"
  sg_effects :: "string list"
  sg_from :: "string option"
  sg_until :: "string option"
  sg_revoked :: "string option"

type_synonym eddsa = "string \<Rightarrow> string \<Rightarrow> nat list \<Rightarrow> bool"

definition approvalSigningPayload :: "store_env \<Rightarrow> approval_envelope \<Rightarrow> string" where
  "approvalSigningPayload env e = canonicalJson env (JObject (filter (\<lambda>m. fst m \<noteq> ''signature'') (en_members e)))"

definition assertSignature :: "eddsa \<Rightarrow> store_env \<Rightarrow> approval_envelope \<Rightarrow> trusted_signer \<Rightarrow> approval_error + unit" where
  "assertSignature verify env e s =
     (let encoded = drop 10 (en_signature e); sig = base64url_decode encoded
      in if length sig = 0 \<or> base64url_encode sig \<noteq> encoded then Inl InvalidApproval
         else if \<not> verify (sg_public s) (approvalSigningPayload env e) sig then Inl InvalidApproval
         else Inr ())"

section \<open>Validation\<close>

definition parseInstant :: "store_env \<Rightarrow> string \<Rightarrow> approval_error + rat" where
  "parseInstant env s = (case parse_time env s of None \<Rightarrow> Inl InvalidApproval | Some t \<Rightarrow> Inr t)"

text \<open>An optional bound of the key's life: absent, or parsed and compared.\<close>

definition key_bound ::
  "store_env \<Rightarrow> string option \<Rightarrow> (rat \<Rightarrow> bool) \<Rightarrow> approval_error + unit" where
  "key_bound env bound broken =
     (case bound of
        None \<Rightarrow> Inr ()
      | Some s \<Rightarrow> and_then (parseInstant env s) (\<lambda>t. if broken t then Inl UnauthorisedApproval else Inr ()))"

definition assertSignerLifecycle ::
  "store_env \<Rightarrow> trusted_signer \<Rightarrow> approval_payload \<Rightarrow> rat \<Rightarrow> approval_error + unit" where
  "assertSignerLifecycle env s p now_ms =
     and_then (parseInstant env (y_issued p)) (\<lambda>issuedAt.
     and_then (parseInstant env (y_expires p)) (\<lambda>expiresAt.
       if issuedAt \<ge> expiresAt \<or> issuedAt > now_ms \<or> now_ms \<ge> expiresAt then Inl InvalidApproval
       else and_then (key_bound env (sg_from s) (\<lambda>t. issuedAt < t)) (\<lambda>_.
            and_then (key_bound env (sg_until s) (\<lambda>t. now_ms \<ge> t)) (\<lambda>_.
              key_bound env (sg_revoked s) (\<lambda>t. now_ms \<ge> t)))))"

definition assertMember :: "string \<Rightarrow> string list \<Rightarrow> approval_error + unit" where
  "assertMember v allowed = (if v \<notin> set allowed then Inl UnauthorisedApproval else Inr ())"

record approval_binding =
  ab_work_order :: string
  ab_work_order_digest :: string
  ab_run :: string
  ab_attempt :: string
  ab_candidate :: string
  ab_policy_digest :: string
  ab_decision_type :: string
  ab_effect :: string

definition actual_binding :: "approval_payload \<Rightarrow> approval_binding" where
  "actual_binding p =
     \<lparr>ab_work_order = y_work_order p, ab_work_order_digest = y_work_order_digest p, ab_run = y_run p,
      ab_attempt = y_attempt p, ab_candidate = y_candidate p, ab_policy_digest = y_policy_digest p,
      ab_decision_type = y_decision_type p, ab_effect = y_effect p\<rparr>"

definition approvalBindingDigest :: "store_env \<Rightarrow> approval_payload \<Rightarrow> string" where
  "approvalBindingDigest env p = digest_of env (JObject
     [(''work_order_id'', JString (y_work_order p)), (''work_order_digest'', JString (y_work_order_digest p)),
      (''run_id'', JString (y_run p)), (''attempt_id'', JString (y_attempt p)),
      (''candidate_sha'', JString (y_candidate p)), (''decision_type'', JString (y_decision_type p)),
      (''requested_effect'', JString (y_effect p)), (''policy_digest'', JString (y_policy_digest p)),
      (''approver'', JObject [(''subject'', JString (y_subject p)), (''authority'', JString (y_authority p))])])"

record validated_approval =
  va_envelope :: approval_envelope
  va_canonical :: string
  va_digest :: string
  va_binding_digest :: string
  va_key :: string
  va_algorithm :: string

definition validateApproval ::
  "eddsa \<Rightarrow> store_env \<Rightarrow> trusted_signer list \<Rightarrow> approval_binding \<Rightarrow> json \<Rightarrow>
     approval_error + validated_approval" where
  "validateApproval verify env signers expected raw =
     and_then (parseApprovalEnvelope env raw) (\<lambda>e.
       case List.find (\<lambda>s. sg_key_id s = en_key e) signers of
         None \<Rightarrow> Inl UnauthorisedApproval
       | Some s \<Rightarrow>
           and_then (assertSignerLifecycle env s (en_payload e) (clock env)) (\<lambda>_.
           and_then (assertSignature verify env e s) (\<lambda>_.
             if actual_binding (en_payload e) \<noteq> expected then Inl UnboundApproval
             else
               and_then (assertMember (y_subject (en_payload e)) (sg_subjects s)) (\<lambda>_.
               and_then (assertMember (y_authority (en_payload e)) (sg_authorities s)) (\<lambda>_.
               and_then (assertMember (y_decision_type (en_payload e)) (sg_decisions s)) (\<lambda>_.
               and_then (assertMember (y_effect (en_payload e)) (sg_effects s)) (\<lambda>_.
                 Inr \<lparr>va_envelope = e, va_canonical = canonicalJson env (JObject (en_members e)),
                      va_digest = digest_of env (JObject (en_members e)),
                      va_binding_digest = approvalBindingDigest env (en_payload e),
                      va_key = en_key e, va_algorithm = ''EdDSA''\<rparr>)))))))"

section \<open>Approvals in the durable store\<close>

definition getAsfApproval :: "store \<Rightarrow> string \<Rightarrow> approval_row option" where
  "getAsfApproval db id' = List.find (\<lambda>a. ap_id a = id') (approvals db)"

definition listAsfApprovals ::
  "store \<Rightarrow> string \<Rightarrow> string \<Rightarrow> string \<Rightarrow> string \<Rightarrow> string \<Rightarrow> approval_row list" where
  "listAsfApprovals db run candidate policy decision_type effect =
     sort_key (\<lambda>a. (ap_issued_at a, ap_id a))
       (filter (\<lambda>a. ap_run_id a = run \<and> ap_candidate a = candidate \<and> ap_policy_digest a = policy \<and>
                    ap_decision_type a = decision_type \<and> ap_effect a = effect) (approvals db))"

definition approval_row_of :: "validated_approval \<Rightarrow> string \<Rightarrow> approval_row" where
  "approval_row_of v at_time =
     (let p = en_payload (va_envelope v)
      in \<lparr>ap_id = y_id p, ap_run_id = y_run p, ap_work_order = y_work_order p, ap_attempt_id = y_attempt p,
          ap_work_order_digest = y_work_order_digest p, ap_candidate = y_candidate p,
          ap_decision = y_decision p, ap_decision_type = y_decision_type p, ap_effect = y_effect p,
          ap_policy_digest = y_policy_digest p, ap_subject = y_subject p, ap_authority = y_authority p,
          ap_issued_at = y_issued p, ap_expires_at = y_expires p, ap_key_id = en_key (va_envelope v),
          ap_envelope = va_canonical v, ap_envelope_digest = va_digest v,
          ap_binding_digest = va_binding_digest v, ap_recorded_at = at_time\<rparr>)"

definition insert_approval :: "store \<Rightarrow> approval_row \<Rightarrow> store_error + store" where
  "insert_approval db a =
     (if list_ex (\<lambda>b. ap_id b = ap_id a \<or> ap_envelope_digest b = ap_envelope_digest a) (approvals db)
      then Inl Rejected else Inr (db\<lparr>approvals := approvals db @ [a]\<rparr>))"

text \<open>The phase a waiting run returns to under an approval; \<open>None\<close> when the approval is not the one the
  interruption asks for.\<close>

definition approvalResumeTarget ::
  "store_env \<Rightarrow> store \<Rightarrow> run_row \<Rightarrow> admission \<Rightarrow> approval_payload \<Rightarrow> string \<Rightarrow> store_error + phase option" where
  "approvalResumeTarget env db r adm p at_time =
     (if r_state r \<noteq> WAITING_APPROVAL then Inr None
      else case r_resume_phase r of
        None \<Rightarrow> Inl Rejected
      | Some target \<Rightarrow>
          (case event_at db (r_run_id r) (r_version r) of
             None \<Rightarrow> Inl Rejected
           | Some w \<Rightarrow>
               and_then (stored_event env adm w) (\<lambda>e.
                 if event_type e \<noteq> ''run.waiting_approval'' \<or> event_phase e \<noteq> WAITING_APPROVAL \<or>
                    policy_digest e \<noteq> a_policy_digest adm \<or>
                    \<not> js_identical (map_of (payload e) ''candidate_sha'') (Some (text_or_null (r_candidate r)))
                 then Inl Rejected
                 else if y_decision p \<noteq> Approved \<or>
                    text_field (payload e) ''decision_type'' \<noteq> Some (y_decision_type p) \<or>
                    text_field (payload e) ''requested_effect'' \<noteq> Some (y_effect p)
                 then Inr None
                 else if Some (y_candidate p) \<noteq> r_candidate r \<or> y_policy_digest p \<noteq> a_policy_digest adm \<or>
                    js_lt (parse_time env at_time) (parse_time env (y_issued p)) \<or>
                    js_le (parse_time env (y_expires p)) (parse_time env at_time)
                 then Inl ApprovalConflict
                 else (case assertRunPhaseTransition WAITING_APPROVAL target of
                         Inl _ \<Rightarrow> Inl Rejected | Inr _ \<Rightarrow> Inr (Some target)))))"

definition metadata_consistent :: "store_env \<Rightarrow> validated_approval \<Rightarrow> bool" where
  "metadata_consistent env v \<longleftrightarrow>
     va_canonical v = canonicalJson env (JObject (en_members (va_envelope v))) \<and>
     va_digest v = digest_of env (JObject (en_members (va_envelope v))) \<and>
     va_binding_digest v = approvalBindingDigest env (en_payload (va_envelope v)) \<and>
     va_key v = en_key (va_envelope v) \<and> va_algorithm v = en_algorithm (va_envelope v)"

definition approval_bound :: "run_row \<Rightarrow> admission \<Rightarrow> approval_payload \<Rightarrow> bool" where
  "approval_bound r adm p \<longleftrightarrow>
     y_work_order p = a_work_order adm \<and> y_work_order_digest p = a_payload_digest adm \<and>
     y_attempt p = a_attempt_id adm \<and> Some (y_candidate p) = r_candidate r \<and>
     y_policy_digest p = a_policy_digest adm"

definition resumed_payload :: "phase \<Rightarrow> approval_row \<Rightarrow> string \<Rightarrow> (string \<times> json) list" where
  "resumed_payload target a candidate =
     [(''interrupted_phase'', JString ''WAITING_APPROVAL''), (''resume_phase'', JString (phase_text target)),
      (''approval_id'', JString (ap_id a)), (''evidence_digest'', JString (ap_envelope_digest a)),
      (''candidate_sha'', JString candidate)]"

definition resumed_run :: "phase \<Rightarrow> string \<Rightarrow> run_row \<Rightarrow> run_row" where
  "resumed_run target at_time r =
     r\<lparr>r_state := target, r_version := r_version r + 1, r_resume_phase := None, r_owner := None,
       r_heartbeat := None,
       r_generation := (if r_owner r = None then r_generation r else r_generation r + 1),
       r_updated := at_time\<rparr>"

definition resume_waiting_run ::
  "store_env \<Rightarrow> store \<Rightarrow> run_row \<Rightarrow> admission \<Rightarrow> approval_payload \<Rightarrow> approval_row \<Rightarrow> phase \<Rightarrow> string \<Rightarrow>
     store_error + store" where
  "resume_waiting_run env db r adm p a target at_time =
     and_then (parse_event env (new_event_json env adm (r_run_id r) (r_version r + 1) at_time ''run.resumed''
         target (resumed_payload target a (y_candidate p)))) (\<lambda>e.
       case assertRunEventTransition WAITING_APPROVAL e of
         Inl _ \<Rightarrow> Inl Rejected
       | Inr _ \<Rightarrow>
           and_then (change_run db (r_run_id r)
               (\<lambda>q. r_state q = WAITING_APPROVAL \<and> r_version q = r_version r \<and> r_candidate q = Some (y_candidate p))
               (resumed_run target at_time)) (\<lambda>db1.
             append_history env db1 (r_run_id r) (r_version r + 1) WAITING_APPROVAL target ''run.resumed'' e
               (Some ''current signed approval recorded'')
               ''approval-control'' at_time))"

record recorded_approval =
  ra_row :: approval_row
  ra_created :: bool
  ra_resume :: "phase option"

definition recordAsfApproval ::
  "store_env \<Rightarrow> store \<Rightarrow> validated_approval \<Rightarrow> store_error + (store \<times> recorded_approval)" where
  "recordAsfApproval env db v =
     (let p = en_payload (va_envelope v)
      in if \<not> metadata_consistent env v then Inl Rejected
         else let existing = getAsfApproval db (y_id p)
         in if (case existing of None \<Rightarrow> False | Some a \<Rightarrow> ap_envelope_digest a \<noteq> va_digest v)
            then Inl ApprovalConflict
            else (case (getAsfRun db (y_run p), getAsfAdmissionForRun db (y_run p)) of
               (Some r, Some adm) \<Rightarrow>
                 if \<not> isTerminalRunEventPhase (r_state r) \<and> getAsfTerminalEvidencePlanRecord db (y_run p) \<noteq> None
                 then Inl ApprovalConflict
                 else if \<not> approval_bound r adm p then Inl ApprovalConflict
                 else and_then (now_iso env) (\<lambda>at_time.
                   if js_lt (parse_time env at_time) (parse_time env (y_issued p)) \<or>
                      js_le (parse_time env (y_expires p)) (parse_time env at_time)
                   then Inl ApprovalConflict
                   else and_then (if existing = None then insert_approval db (approval_row_of v at_time) else Inr db)
                     (\<lambda>db1. case getAsfApproval db1 (y_id p) of
                        None \<Rightarrow> Inl Rejected
                      | Some a \<Rightarrow>
                          and_then (approvalResumeTarget env db1 r adm p at_time) (\<lambda>target.
                            case target of
                              None \<Rightarrow> Inr (db1, \<lparr>ra_row = a, ra_created = (existing = None), ra_resume = None\<rparr>)
                            | Some ph \<Rightarrow>
                                and_then (resume_waiting_run env db1 r adm p a ph at_time) (\<lambda>db2.
                                  Inr (db2, \<lparr>ra_row = a, ra_created = (existing = None), ra_resume = Some ph\<rparr>)))))
             | _ \<Rightarrow> Inl ApprovalConflict))"

section \<open>The approval service\<close>

definition from_store :: "store_error + 'a \<Rightarrow> approval_error + 'a" where
  "from_store r = (case r of Inl e \<Rightarrow> Inl (ApprovalStore e) | Inr x \<Rightarrow> Inr x)"

text \<open>The binding that the durable snapshot of a run demands.\<close>

definition expected_binding :: "run_row \<Rightarrow> admission \<Rightarrow> string \<Rightarrow> string \<Rightarrow> string \<Rightarrow> approval_binding" where
  "expected_binding r adm candidate decision_type effect =
     \<lparr>ab_work_order = r_work_order r, ab_work_order_digest = a_payload_digest adm, ab_run = r_run_id r,
      ab_attempt = r_attempt_id r, ab_candidate = candidate, ab_policy_digest = a_policy_digest adm,
      ab_decision_type = decision_type, ab_effect = effect\<rparr>"

text \<open>The snapshot with its candidate; a run without one has nothing to approve.\<close>

definition approval_snapshot ::
  "store \<Rightarrow> string \<Rightarrow> approval_error + (run_row \<times> admission \<times> string)" where
  "approval_snapshot db run =
     and_then (from_store (getAsfRunSnapshot db run)) (\<lambda>snapshot.
       case snapshot of
         None \<Rightarrow> Inl UnboundApproval
       | Some (r, adm, _) \<Rightarrow>
           (case r_candidate r of None \<Rightarrow> Inl UnboundApproval | Some c \<Rightarrow> Inr (r, adm, c)))"

text \<open>\<open>record\<close>: the validation and the transaction read the clock in \<open>env\<close> and in \<open>env2\<close>.\<close>

definition record_approval ::
  "eddsa \<Rightarrow> store_env \<Rightarrow> store_env \<Rightarrow> trusted_signer list \<Rightarrow> store \<Rightarrow> json \<Rightarrow>
     approval_error + (store \<times> recorded_approval)" where
  "record_approval verify env env2 signers db raw =
     and_then (parseApprovalEnvelope env raw) (\<lambda>e.
     and_then (approval_snapshot db (y_run (en_payload e))) (\<lambda>(r, adm, c).
     and_then (validateApproval verify env signers
         (expected_binding r adm c (y_decision_type (en_payload e)) (y_effect (en_payload e)))
         (JObject (en_members e))) (\<lambda>v.
       from_store (recordAsfApproval env2 db v))))"

fun scan_approvals ::
  "eddsa \<Rightarrow> store_env \<Rightarrow> trusted_signer list \<Rightarrow> approval_binding \<Rightarrow> approval_row list \<Rightarrow>
     approval_row option \<Rightarrow> approval_error + approval_row option" where
  "scan_approvals verify env signers expected [] approved = Inr approved"
| "scan_approvals verify env signers expected (a # as) approved =
     (case json_parse env (ap_envelope a) of
        None \<Rightarrow> Inl InvalidApproval
      | Some raw \<Rightarrow>
          and_then (validateApproval verify env signers expected raw) (\<lambda>v.
            if va_digest v \<noteq> ap_envelope_digest a then Inl InvalidApproval
            else if y_decision (en_payload (va_envelope v)) = ApprovalDenied then Inl UnauthorisedApproval
            else scan_approvals verify env signers expected as (Some a)))"

definition requireCurrent ::
  "eddsa \<Rightarrow> store_env \<Rightarrow> trusted_signer list \<Rightarrow> store \<Rightarrow> string \<Rightarrow> string \<Rightarrow> string \<Rightarrow>
     approval_error + approval_row" where
  "requireCurrent verify env signers db run decision_type effect =
     and_then (approval_snapshot db run) (\<lambda>(r, adm, c).
     and_then (scan_approvals verify env signers (expected_binding r adm c decision_type effect)
         (listAsfApprovals db run c (a_policy_digest adm) decision_type effect) None) (\<lambda>approved.
       case approved of None \<Rightarrow> Inl UnboundApproval | Some a \<Rightarrow> Inr a))"

section \<open>What an accepted approval satisfies\<close>

definition approval_valid ::
  "eddsa \<Rightarrow> store_env \<Rightarrow> trusted_signer list \<Rightarrow> approval_binding \<Rightarrow> approval_envelope \<Rightarrow> bool" where
  "approval_valid verify env signers expected e \<longleftrightarrow>
     (\<exists>s. s \<in> set signers \<and> sg_key_id s = en_key e \<and>
        js_le (parse_time env (y_issued (en_payload e))) (Some (clock env)) \<and>
        js_lt (Some (clock env)) (parse_time env (y_expires (en_payload e))) \<and>
        absent_or (\<lambda>t. js_le (parse_time env t) (parse_time env (y_issued (en_payload e)))) (sg_from s) \<and>
        absent_or (\<lambda>t. js_lt (Some (clock env)) (parse_time env t)) (sg_until s) \<and>
        absent_or (\<lambda>t. js_lt (Some (clock env)) (parse_time env t)) (sg_revoked s) \<and>
        verify (sg_public s) (approvalSigningPayload env e) (base64url_decode (drop 10 (en_signature e))) \<and>
        base64url_encode (base64url_decode (drop 10 (en_signature e))) = drop 10 (en_signature e) \<and>
        actual_binding (en_payload e) = expected \<and>
        y_subject (en_payload e) \<in> set (sg_subjects s) \<and> y_authority (en_payload e) \<in> set (sg_authorities s) \<and>
        y_decision_type (en_payload e) \<in> set (sg_decisions s) \<and> y_effect (en_payload e) \<in> set (sg_effects s))"

lemma instant_Inr [result_simps]: "parseInstant env s = Inr t \<longleftrightarrow> parse_time env s = Some t"
  by (simp add: parseInstant_def split: option.splits)

lemma key_bound_Inr [result_simps]:
  "key_bound env b broken = Inr u \<longleftrightarrow> absent_or (\<lambda>s. \<exists>t. parse_time env s = Some t \<and> \<not> broken t) b"
  by (cases b) (auto simp: key_bound_def absent_or_def result_simps)

lemma member_Inr [result_simps]: "assertMember v vs = Inr u \<longleftrightarrow> v \<in> set vs"
  by (simp add: assertMember_def)

lemma signature_Inr:
  "assertSignature verify env e s = Inr u \<longleftrightarrow>
     base64url_decode (drop 10 (en_signature e)) \<noteq> [] \<and>
     base64url_encode (base64url_decode (drop 10 (en_signature e))) = drop 10 (en_signature e) \<and>
     verify (sg_public s) (approvalSigningPayload env e) (base64url_decode (drop 10 (en_signature e)))"
  by (auto simp: assertSignature_def Let_def)

lemma lifecycle_Inr:
  assumes "assertSignerLifecycle env s p t = Inr u"
  shows "js_le (parse_time env (y_issued p)) (Some t) \<and> js_lt (Some t) (parse_time env (y_expires p)) \<and>
     absent_or (\<lambda>f. js_le (parse_time env f) (parse_time env (y_issued p))) (sg_from s) \<and>
     absent_or (\<lambda>f. js_lt (Some t) (parse_time env f)) (sg_until s) \<and>
     absent_or (\<lambda>f. js_lt (Some t) (parse_time env f)) (sg_revoked s)"
proof -
  obtain i x where c: "parse_time env (y_issued p) = Some i" "parse_time env (y_expires p) = Some x"
    "i \<le> t" "t < x"
    "absent_or (\<lambda>s. \<exists>t'. parse_time env s = Some t' \<and> \<not> i < t') (sg_from s)"
    "absent_or (\<lambda>s. \<exists>t'. parse_time env s = Some t' \<and> \<not> t \<ge> t') (sg_until s)"
    "absent_or (\<lambda>s. \<exists>t'. parse_time env s = Some t' \<and> \<not> t \<ge> t') (sg_revoked s)"
    using assms unfolding assertSignerLifecycle_def result_simps guard_Inr_iff
    by (auto simp: not_le not_less)
  then show ?thesis
    by (auto simp: absent_or_def js_le_def js_lt_def split: option.splits)
qed

lemma find_key: "List.find (\<lambda>s. sg_key_id s = k) ss = Some s \<Longrightarrow> s \<in> set ss \<and> sg_key_id s = k"
  by (auto simp: find_Some_iff)

lemma validate_Inr:
  assumes "validateApproval verify env signers expected raw = Inr v"
  shows "parseApprovalEnvelope env raw = Inr (va_envelope v) \<and>
     approval_valid verify env signers expected (va_envelope v)"
proof -
  obtain e s where c: "parseApprovalEnvelope env raw = Inr e"
    "List.find (\<lambda>s. sg_key_id s = en_key e) signers = Some s"
    "assertSignerLifecycle env s (en_payload e) (clock env) = Inr ()" "assertSignature verify env e s = Inr ()"
    "actual_binding (en_payload e) = expected"
    "y_subject (en_payload e) \<in> set (sg_subjects s)" "y_authority (en_payload e) \<in> set (sg_authorities s)"
    "y_decision_type (en_payload e) \<in> set (sg_decisions s)" "y_effect (en_payload e) \<in> set (sg_effects s)"
    "va_envelope v = e"
    using assms unfolding validateApproval_def transaction_iff member_Inr
    by (elim exE conjE) (auto dest: sym)
  have "approval_valid verify env signers expected e"
    unfolding approval_valid_def
    using find_key [OF c(2)] lifecycle_Inr [OF c(3)] c(4) [unfolded signature_Inr] c(5-9)
    by (intro exI [of _ s]) simp
  with c(1,10) show ?thesis by simp
qed

lemma scan_Inr:
  assumes "scan_approvals verify env signers expected as approved = Inr r"
  shows "(r = approved \<and> as = [] \<or> (\<exists>a \<in> set as. r = Some a)) \<and>
     list_all (\<lambda>a. \<exists>raw v. json_parse env (ap_envelope a) = Some raw \<and>
        validateApproval verify env signers expected raw = Inr v \<and> va_digest v = ap_envelope_digest a \<and>
        y_decision (en_payload (va_envelope v)) = Approved) as"
  using assms
proof (induction as arbitrary: approved)
  case Nil
  then show ?case by simp
next
  case (Cons a as)
  then obtain raw v where c: "json_parse env (ap_envelope a) = Some raw"
    "validateApproval verify env signers expected raw = Inr v" "va_digest v = ap_envelope_digest a"
    "y_decision (en_payload (va_envelope v)) \<noteq> ApprovalDenied"
    "scan_approvals verify env signers expected as (Some a) = Inr r"
    by (auto simp: and_then_Inr_iff guard_Inr_iff split: option.splits)
  from c(4) have "y_decision (en_payload (va_envelope v)) = Approved"
    by (cases "y_decision (en_payload (va_envelope v))") auto
  with c Cons.IH [OF c(5)] show ?case by auto
qed

lemma from_store_Inr: "from_store x = Inr y \<longleftrightarrow> x = Inr y"
  by (cases x) (simp_all add: from_store_def)

lemma snapshot_Inr:
  assumes "approval_snapshot db run = Inr (r, adm, c)"
  shows "getAsfRun db run = Some r \<and> getAsfAdmissionForRun db run = Some adm \<and>
     latest_seq db run = r_version r \<and> r_candidate r = Some c"
proof -
  obtain k where "getAsfRunSnapshot db run = Inr (Some (r, adm, k))" "r_candidate r = Some c"
    using assms unfolding approval_snapshot_def step_iff from_store_Inr by blast
  then show ?thesis by (auto simp: getAsfRunSnapshot_def split: option.splits if_splits)
qed

text \<open>A change of one run.\<close>

lemma change_run_Inr:
  assumes "change_run db run p f = Inr db'"
  shows "\<exists>r. getAsfRun db run = Some r \<and> p r \<and> db' = update_run db run f"
  using assms by (auto simp: change_run_def split: option.splits if_splits)

lemma append_history_Inr:
  assumes "append_history env db run n from to ty e reason actor t = Inr db'"
  shows "db' = db\<lparr>transitions := transitions db @ [\<lparr>st_run = run, st_seq = n, st_from = from,
            st_to = to, st_reason = reason, st_actor = actor, st_at = t\<rparr>],
          events := events db @ [event_row_of env run n ty e]\<rparr> \<and>
     list_all (\<lambda>w. w_run_id w \<noteq> run \<or> w_seq w \<noteq> n) (events db)"
  using assms
  by (auto simp: append_history_def and_then_Inr_iff insert_transition_def insert_event_def event_row_of_def
      list_ex_iff list_all_iff split: if_splits)

lemma resume_shape:
  assumes "resume_waiting_run env db r adm p a target t = Inr db'" and "getAsfRun db (r_run_id r) = Some r"
  shows "\<exists>e. parse_event env (new_event_json env adm (r_run_id r) (r_version r + 1) t ''run.resumed'' target
        (resumed_payload target a (y_candidate p))) = Inr e \<and>
      r_state r = WAITING_APPROVAL \<and> r_candidate r = Some (y_candidate p) \<and>
      db' = (update_run db (r_run_id r) (resumed_run target t))
        \<lparr>transitions := transitions db @ [\<lparr>st_run = r_run_id r, st_seq = r_version r + 1,
            st_from = WAITING_APPROVAL, st_to = target, st_reason = Some ''current signed approval recorded'',
            st_actor = ''approval-control'', st_at = t\<rparr>],
         events := events db @ [event_row_of env (r_run_id r) (r_version r + 1) ''run.resumed'' e]\<rparr>"
proof -
  obtain e u db1 where c: "parse_event env (new_event_json env adm (r_run_id r) (r_version r + 1) t ''run.resumed'' target
        (resumed_payload target a (y_candidate p))) = Inr e"
      "assertRunEventTransition WAITING_APPROVAL e = Inr u"
      "change_run db (r_run_id r)
               (\<lambda>q. r_state q = WAITING_APPROVAL \<and> r_version q = r_version r \<and> r_candidate q = Some (y_candidate p))
               (resumed_run target t) = Inr db1"
      "append_history env db1 (r_run_id r) (r_version r + 1) WAITING_APPROVAL target ''run.resumed'' e
               (Some ''current signed approval recorded'')
               ''approval-control'' t = Inr db'"
    using assms(1) unfolding resume_waiting_run_def step_iff by blast
  from append_history_Inr [OF c(4)] change_run_Inr [OF c(3)] c(1) assms(2) show ?thesis by auto
qed

lemma resume_target_Inr:
  assumes "approvalResumeTarget env db r adm p t = Inr (Some target)"
  shows "r_state r = WAITING_APPROVAL \<and> r_resume_phase r = Some target \<and>
     (\<exists>w e. event_at db (r_run_id r) (r_version r) = Some w \<and> stored_event env adm w = Inr e \<and>
        event_type e = ''run.waiting_approval'' \<and> policy_digest e = a_policy_digest adm \<and>
        text_field (payload e) ''decision_type'' = Some (y_decision_type p) \<and>
        text_field (payload e) ''requested_effect'' = Some (y_effect p)) \<and>
     y_decision p = Approved \<and> Some (y_candidate p) = r_candidate r \<and> y_policy_digest p = a_policy_digest adm \<and>
     assertRunPhaseTransition WAITING_APPROVAL target = Inr ()"
proof -
  obtain w e u where "r_state r = WAITING_APPROVAL" "r_resume_phase r = Some target"
    "event_at db (r_run_id r) (r_version r) = Some w" "stored_event env adm w = Inr e"
    "event_type e = ''run.waiting_approval''" "policy_digest e = a_policy_digest adm"
    "\<not> (y_decision p \<noteq> Approved \<or>
                    text_field (payload e) ''decision_type'' \<noteq> Some (y_decision_type p) \<or>
                    text_field (payload e) ''requested_effect'' \<noteq> Some (y_effect p))"
    "Some (y_candidate p) = r_candidate r" "y_policy_digest p = a_policy_digest adm"
    "assertRunPhaseTransition WAITING_APPROVAL target = Inr u"
    using assms unfolding approvalResumeTarget_def
    by (auto simp: and_then_Inr_iff split: if_splits option.splits sum.splits)
  then show ?thesis by auto
qed

lemma record_approval_shape:
  assumes "recordAsfApproval env db v = Inr (db', res)"
  shows "\<exists>r adm t db1. getAsfRun db (y_run (en_payload (va_envelope v))) = Some r \<and>
     getAsfAdmissionForRun db (y_run (en_payload (va_envelope v))) = Some adm \<and>
     metadata_consistent env v \<and> approval_bound r adm (en_payload (va_envelope v)) \<and>
     (isTerminalRunEventPhase (r_state r) \<or>
        getAsfTerminalEvidencePlanRecord db (y_run (en_payload (va_envelope v))) = None) \<and>
     iso env (clock env) = Some t \<and>
     \<not> js_lt (parse_time env t) (parse_time env (y_issued (en_payload (va_envelope v)))) \<and>
     \<not> js_le (parse_time env (y_expires (en_payload (va_envelope v)))) (parse_time env t) \<and>
     (\<exists>as. db1 = db\<lparr>approvals := as\<rparr>) \<and> getAsfApproval db1 (y_id (en_payload (va_envelope v))) = Some (ra_row res) \<and>
     approvalResumeTarget env db1 r adm (en_payload (va_envelope v)) t = Inr (ra_resume res) \<and>
     (case ra_resume res of
        None \<Rightarrow> db' = db1
      | Some ph \<Rightarrow> resume_waiting_run env db1 r adm (en_payload (va_envelope v)) (ra_row res) ph t = Inr db')"
proof -
  let ?p = "en_payload (va_envelope v)"
  have ins: "(if x then insert_approval db y else Inr db) = Inr db1 \<Longrightarrow> \<exists>as. db1 = db\<lparr>approvals := as\<rparr>" for x y db1
    by (cases x) (auto simp: insert_approval_def split: if_splits intro: exI [of _ "approvals db"])
  obtain r adm where r: "getAsfRun db (y_run ?p) = Some r" "getAsfAdmissionForRun db (y_run ?p) = Some adm"
    using assms by (auto simp: recordAsfApproval_def Let_def split: if_splits option.splits)
  obtain t db1 a target where c: "metadata_consistent env v"
    "\<not> (\<not> isTerminalRunEventPhase (r_state r) \<and> getAsfTerminalEvidencePlanRecord db (y_run ?p) \<noteq> None)"
    "approval_bound r adm ?p" "iso env (clock env) = Some t"
    "\<not> (js_lt (parse_time env t) (parse_time env (y_issued ?p)) \<or>
        js_le (parse_time env (y_expires ?p)) (parse_time env t))"
    "(if getAsfApproval db (y_id ?p) = None then insert_approval db (approval_row_of v t) else Inr db) = Inr db1"
    "getAsfApproval db1 (y_id ?p) = Some a" "approvalResumeTarget env db1 r adm ?p t = Inr target"
    "(case target of
        None \<Rightarrow> Inr (db1, \<lparr>ra_row = a, ra_created = (getAsfApproval db (y_id ?p) = None), ra_resume = None\<rparr>)
      | Some ph \<Rightarrow> and_then (resume_waiting_run env db1 r adm ?p a ph t) (\<lambda>db2.
          Inr (db2, \<lparr>ra_row = a, ra_created = (getAsfApproval db (y_id ?p) = None), ra_resume = Some ph\<rparr>)))
       = Inr (db', res)"
    using assms unfolding recordAsfApproval_def Let_def r prod.case option.case transaction_iff by blast
  have "ra_row res = a \<and> ra_resume res = target \<and>
     (case target of None \<Rightarrow> db' = db1 | Some ph \<Rightarrow> resume_waiting_run env db1 r adm ?p a ph t = Inr db')"
    using c(9) by (cases target) (auto simp: and_then_Inr_iff)
  then show ?thesis using r c(1-5,7,8) ins [OF c(6)]
    by (intro exI [of _ r] exI [of _ adm] exI [of _ t] exI [of _ db1]) (auto split: option.splits)
qed

section \<open>Properties\<close>

text \<open>Sample input: a run that waits for an approval of \<open>merge\<close>, the approval, and its signer. The stored
  texts stand for the values they are parsed to.\<close>

definition waiting_payload :: "(string \<times> json) list" where
  "waiting_payload = pause_payload @
     [(''candidate_sha'', JString sample_sha), (''decision_type'', JString ''merge''),
      (''requested_effect'', JString ''effect'')]"

definition sample_approval :: "(string \<times> json) list" where
  "sample_approval =
     [(''schema'', JString ''asf.approval-envelope/v1''), (''key_id'', JString ''key''),
      (''algorithm'', JString ''EdDSA''),
      (''payload'', JObject [(''schema'', JString ''asf.approval/v1''), (''approval_id'', JString ''ap''),
         (''work_order_id'', JString ''w''), (''work_order_digest'', JString sample_digest),
         (''run_id'', JString ''r''), (''attempt_id'', JString ''a''), (''candidate_sha'', JString sample_sha),
         (''decision'', JString ''approved''), (''decision_type'', JString ''merge''),
         (''requested_effect'', JString ''effect''), (''policy_digest'', JString sample_digest),
         (''approver'', JObject [(''subject'', JString ''s''), (''authority'', JString ''u'')]),
         (''issued_at'', JString ''2026''), (''expires_at'', JString ''later'')]),
      (''signature'', JString ''base64url:QQ'')]"

definition sample_approval_env :: store_env where
  "sample_approval_env = sample_store_env\<lparr>
     recovery := digest_env\<lparr>date_parse := (\<lambda>s. if s = ''later'' then Some 1000 else Some 0)\<rparr>,
     json_parse := (\<lambda>s. if s = ''doc'' then Some (JObject sample_approval)
                         else if s = ''waiting'' then Some (JObject waiting_payload) else None)\<rparr>"

definition sample_signer :: trusted_signer where
  "sample_signer = \<lparr>sg_key_id = ''key'', sg_public = ''public'', sg_subjects = [''s''], sg_authorities = [''u''],
     sg_decisions = [''merge''], sg_effects = [''effect''], sg_from = None, sg_until = Some ''later'',
     sg_revoked = None\<rparr>"

definition waiting_event :: event_row where
  "waiting_event = \<lparr>w_run_id = ''r'', w_seq = 1, w_type = ''run.waiting_approval'', w_payload = ''waiting'',
     w_at = ''2026'', w_event_id = ''e'', w_schema = ''asf.run-event/v1'', w_phase = ''WAITING_APPROVAL'',
     w_policy_digest = sample_digest\<rparr>"

definition waiting_run :: run_row where
  "waiting_run = (sample_run ''r'')\<lparr>r_state := WAITING_APPROVAL, r_candidate := Some sample_sha,
     r_generation := 2, r_owner := Some ''o'', r_heartbeat := Some ''2025'', r_resume_phase := Some LOCAL_REVIEW\<rparr>"

definition waiting_store :: store where
  "waiting_store = empty_store\<lparr>runs := [waiting_run], admissions := [sample_admission ''r''], events := [waiting_event]\<rparr>"

definition sample_verify :: eddsa where
  "sample_verify key text sig \<longleftrightarrow> key = ''public'' \<and> text = ''doc'' \<and> sig = [65]"

definition sample_validated :: validated_approval where
  "sample_validated = \<lparr>va_envelope = the (read_approval (JObject sample_approval)), va_canonical = ''doc'',
     va_digest = sample_digest, va_binding_digest = sample_digest, va_key = ''key'', va_algorithm = ''EdDSA''\<rparr>"

definition approved_store :: store where
  "approved_store = waiting_store\<lparr>approvals := [approval_row_of sample_validated ''2026'']\<rparr>"

lemma waiting_parsed:
  "stored_event sample_approval_env (sample_admission ''r'') waiting_event = Inr
     \<lparr>event_id = ''e'', run_id = ''r'', work_order_id = ''w'', attempt_id = ''a'', seq = 1, occurred_at = ''2026'',
      event_type = ''run.waiting_approval'', event_phase = WAITING_APPROVAL, payload = waiting_payload,
      policy_digest = sample_digest\<rparr>"
proof -
  note q = conforming_event [of sample_approval_env "''e''" "''r''" "''w''" "''a''" 1 sample_digest "''run.waiting_approval''"
      "Fixed WAITING_APPROVAL" approvalStopPayloadSchema WAITING_APPROVAL waiting_payload "''2026''"]
  have "conforms approvalStopPayloadSchema (JObject waiting_payload)"
    by (simp add: approvalStopPayloadSchema_def stop_fields_def waiting_payload_def pause_payload_def payload_defs
      upper_alpha_def char_in_def evidenceRefsSchema_def)
  moreover have "check_payload (Fixed WAITING_APPROVAL) WAITING_APPROVAL waiting_payload = Inr ()"
    by (simp add: check_payload_def observation_mismatch_def text_field_def waiting_payload_def pause_payload_def)
  moreover have "phase_text WAITING_APPROVAL = ''WAITING_APPROVAL''" by code_simp
  ultimately show ?thesis using q
    by (simp add: stored_event_def waiting_event_def sample_approval_env_def sample_store_env_def digest_env_def
        sample_env_def event_json_def sample_admission_def sample_digest_ok word_defs contract_defs safe_int_def)
qed

definition sample_resumed :: run_event where
  "sample_resumed =
     \<lparr>event_id = ''evt_'' @ take 26 ''r:1:run.resumed'', run_id = ''r'', work_order_id = ''w'', attempt_id = ''a'',
      seq = 2, occurred_at = ''2026'', event_type = ''run.resumed'', event_phase = LOCAL_REVIEW,
      payload = resumed_payload LOCAL_REVIEW (approval_row_of sample_validated ''2026'') sample_sha,
      policy_digest = sample_digest\<rparr>"

lemma sample_payload:
  "ap_id (approval_row_of sample_validated ''2026'') = ''ap''"
  "ap_envelope_digest (approval_row_of sample_validated ''2026'') = sample_digest"
  by code_simp+

lemma resumed_parsed:
  "parse_event sample_approval_env (new_event_json sample_approval_env (sample_admission ''r'') ''r'' 2 ''2026''
       ''run.resumed'' LOCAL_REVIEW
       (resumed_payload LOCAL_REVIEW (approval_row_of sample_validated ''2026'') sample_sha)) = Inr sample_resumed"
proof -
  let ?pl = "resumed_payload LOCAL_REVIEW (approval_row_of sample_validated ''2026'') sample_sha"
  note q = conforming_event [of sample_approval_env "''evt_'' @ take 26 ''r:1:run.resumed''" "''r''" "''w''" "''a''"
      2 sample_digest "''run.resumed''" ResumePhaseFromPayload _ LOCAL_REVIEW ?pl "''2026''"]
  have "check_payload ResumePhaseFromPayload LOCAL_REVIEW ?pl = Inr ()"
    by (simp add: resumed_payload_def check_payload_def observation_mismatch_def text_field_def phase_text_def
      phase_of_name_def RUN_EVENT_PHASES_def)
  then show ?thesis using q
    by (simp add: new_event_json_def event_id_of_def sample_approval_env_def sample_store_env_def digest_env_def
        sample_env_def sample_admission_def sample_digest_ok word_defs contract_defs safe_int_def
        resumed_payload_def sample_payload payload_defs phase_text_def sample_resumed_def)
qed

lemma resumed_allowed: "assertRunEventTransition WAITING_APPROVAL sample_resumed = Inr ()"
  by (simp add: sample_resumed_def) code_simp

lemma sample_approved:
  "\<exists>db' res. recordAsfApproval sample_approval_env waiting_store sample_validated = Inr (db', res) \<and>
     ra_resume res = Some LOCAL_REVIEW"
proof -
  have p: "en_payload (va_envelope sample_validated) = \<lparr>y_id = ''ap'', y_work_order = ''w'',
      y_work_order_digest = sample_digest, y_run = ''r'', y_attempt = ''a'', y_candidate = sample_sha,
      y_decision = Approved, y_decision_type = ''merge'', y_effect = ''effect'', y_policy_digest = sample_digest,
      y_subject = ''s'', y_authority = ''u'', y_issued = ''2026'', y_expires = ''later''\<rparr>"
    by code_simp
  have fields: "r_run_id waiting_run = ''r''" "r_state waiting_run = WAITING_APPROVAL" "r_version waiting_run = 1"
      "r_candidate waiting_run = Some sample_sha" "r_resume_phase waiting_run = Some LOCAL_REVIEW"
      "a_policy_digest (sample_admission ''r'') = sample_digest"
    by (simp_all add: waiting_run_def sample_run_def sample_admission_def)
  have tables: "getAsfRun waiting_store ''r'' = Some waiting_run"
      "getAsfAdmissionForRun waiting_store ''r'' = Some (sample_admission ''r'')"
      "getAsfTerminalEvidencePlanRecord waiting_store ''r'' = None"
      "getAsfApproval waiting_store ''ap'' = None"
      "event_at approved_store ''r'' 1 = Some waiting_event" "getAsfRun approved_store ''r'' = Some waiting_run"
      "getAsfApproval approved_store ''ap'' = Some (approval_row_of sample_validated ''2026'')"
      "insert_approval waiting_store (approval_row_of sample_validated ''2026'') = Inr approved_store"
      "transitions approved_store = []" "events approved_store = [waiting_event]"
    by code_simp+
  have checks: "metadata_consistent sample_approval_env sample_validated"
      "approval_bound waiting_run (sample_admission ''r'') (en_payload (va_envelope sample_validated))"
      "now_iso sample_approval_env = Inr ''2026''"
      "\<not> js_lt (parse_time sample_approval_env ''2026'') (parse_time sample_approval_env ''2026'')"
      "\<not> js_le (parse_time sample_approval_env ''later'') (parse_time sample_approval_env ''2026'')"
      "assertRunPhaseTransition WAITING_APPROVAL LOCAL_REVIEW = Inr ()"
    by code_simp+
  have target: "approvalResumeTarget sample_approval_env approved_store waiting_run (sample_admission ''r'')
      (en_payload (va_envelope sample_validated)) ''2026'' = Inr (Some LOCAL_REVIEW)"
    unfolding approvalResumeTarget_def fields tables p using waiting_parsed checks
    by (simp add: result_simps waiting_payload_def pause_payload_def text_field_def text_or_null_def)
  have resume: "\<exists>db'. resume_waiting_run sample_approval_env approved_store waiting_run (sample_admission ''r'')
      (en_payload (va_envelope sample_validated)) (approval_row_of sample_validated ''2026'') LOCAL_REVIEW ''2026'' = Inr db'"
    unfolding resume_waiting_run_def fields p using resumed_parsed resumed_allowed fields tables
    by (simp add: result_simps change_run_def append_history_def insert_transition_def insert_event_def
        event_row_of_def sample_resumed_def waiting_event_def)
  then obtain db' where "resume_waiting_run sample_approval_env approved_store waiting_run (sample_admission ''r'')
      (en_payload (va_envelope sample_validated)) (approval_row_of sample_validated ''2026'') LOCAL_REVIEW ''2026'' = Inr db'"
    by blast
  then have "recordAsfApproval sample_approval_env waiting_store sample_validated = Inr (db',
      \<lparr>ra_row = approval_row_of sample_validated ''2026'', ra_created = True, ra_resume = Some LOCAL_REVIEW\<rparr>)"
    using checks target unfolding recordAsfApproval_def Let_def p
    by (simp add: tables result_simps)
  then show ?thesis by auto
qed

text \<open>C35: An approval resumes a run only when the run waits for an approval, the approval is an approval, is
  bound to the run's work order, attempt, candidate and policy, is current, and is of the decision and
  effect that the durable interruption event asks for; no terminal outcome is pending. The run then
  stands at the phase it was interrupted in, without an owner, and whoever owned it is fenced out.
  Without a resume every run stays as it was.\<close>

theorem approval_resumes_exactly:
  assumes "recordAsfApproval env db v = Inr (db', res)"
  shows "case ra_resume res of
     None \<Rightarrow> runs db' = runs db \<and> events db' = events db
   | Some ph \<Rightarrow> (\<exists>r adm w e t. let p = en_payload (va_envelope v) in
       getAsfRun db (y_run p) = Some r \<and> getAsfAdmissionForRun db (y_run p) = Some adm \<and>
       r_state r = WAITING_APPROVAL \<and> r_resume_phase r = Some ph \<and>
       y_decision p = Approved \<and> approval_bound r adm p \<and> iso env (clock env) = Some t \<and>
       \<not> js_lt (parse_time env t) (parse_time env (y_issued p)) \<and>
       \<not> js_le (parse_time env (y_expires p)) (parse_time env t) \<and>
       getAsfTerminalEvidencePlanRecord db (y_run p) = None \<and>
       event_at db (r_run_id r) (r_version r) = Some w \<and> stored_event env adm w = Inr e \<and>
       event_type e = ''run.waiting_approval'' \<and>
       text_field (payload e) ''decision_type'' = Some (y_decision_type p) \<and>
       text_field (payload e) ''requested_effect'' = Some (y_effect p) \<and>
       getAsfRun db' (y_run p) = Some (resumed_run ph t r) \<and>
       (\<forall>owner gen. \<not> owns db' (y_run p) owner gen) \<and>
       (\<forall>other. other = y_run p \<or> getAsfRun db' other = getAsfRun db other))"
proof -
  let ?p = "en_payload (va_envelope v)"
  obtain r adm t db1 as where c: "getAsfRun db (y_run ?p) = Some r"
    "getAsfAdmissionForRun db (y_run ?p) = Some adm" "approval_bound r adm ?p"
    "isTerminalRunEventPhase (r_state r) \<or> getAsfTerminalEvidencePlanRecord db (y_run ?p) = None"
    "iso env (clock env) = Some t" "\<not> js_lt (parse_time env t) (parse_time env (y_issued ?p))"
    "\<not> js_le (parse_time env (y_expires ?p)) (parse_time env t)" "db1 = db\<lparr>approvals := as\<rparr>"
    "approvalResumeTarget env db1 r adm ?p t = Inr (ra_resume res)"
    "case ra_resume res of None \<Rightarrow> db' = db1
      | Some ph \<Rightarrow> resume_waiting_run env db1 r adm ?p (ra_row res) ph t = Inr db'"
    using record_approval_shape [OF assms] by blast
  show ?thesis
  proof (cases "ra_resume res")
    case None
    with c(8,10) show ?thesis by simp
  next
    case (Some ph)
    note id = getAsfRun_id [OF c(1)]
    have same: "getAsfRun db1 = getAsfRun db" by (rule getAsfRun_cong) (simp add: c(8))
    have res: "resume_waiting_run env db1 r adm ?p (ra_row res) ph t = Inr db'" using c(10) Some by simp
    from resume_shape [OF this] c(1) same id obtain ts ws where
      db': "db' = (update_run db1 (y_run ?p) (resumed_run ph t))\<lparr>transitions := ts, events := ws\<rparr>" by auto
    have "getAsfRun db' k = map_option (\<lambda>r. if k = y_run ?p then resumed_run ph t r else r) (getAsfRun db k)" for k
      using getAsfRun_update [of "resumed_run ph t" db1 "y_run ?p" k] same
      by (simp add: db' getAsfRun_def resumed_run_def)
    then have get: "getAsfRun db' (y_run ?p) = Some (resumed_run ph t r)"
        "other = y_run ?p \<or> getAsfRun db' other = getAsfRun db other" for other
      using c(1) by (simp, cases "getAsfRun db other") simp_all
    from c(9) Some have "approvalResumeTarget env db1 r adm ?p t = Inr (Some ph)" by simp
    note tgt = resume_target_Inr [OF this]
    have "getAsfTerminalEvidencePlanRecord db (y_run ?p) = None"
      using c(4) tgt by (auto simp: isTerminalRunEventPhase_def TERMINAL_RUN_EVENT_PHASES_def)
    moreover have "\<not> owns db' (y_run ?p) owner gen" for owner gen
      by (simp add: owns_def get(1) resumed_run_def)
    moreover have "event_at db1 = event_at db" by (simp add: event_at_def fun_eq_iff c(8))
    ultimately show ?thesis using tgt c(1-3,5-7) get Some by (auto simp: Let_def)
  qed
qed

theorem approval_resumes_exactly_witness:
  "\<exists>db' res. recordAsfApproval sample_approval_env waiting_store sample_validated = Inr (db', res) \<and>
     getAsfRun db' ''r'' \<noteq> None \<and> (\<forall>owner gen. \<not> owns db' ''r'' owner gen)"
proof -
  obtain db' res where s: "recordAsfApproval sample_approval_env waiting_store sample_validated = Inr (db', res)"
    "ra_resume res = Some LOCAL_REVIEW" using sample_approved by blast
  have "y_run (en_payload (va_envelope sample_validated)) = ''r''" by code_simp
  with approval_resumes_exactly [OF s(1)] s show ?thesis by (auto simp: Let_def)
qed

text \<open>C36: An effect that needs an approval goes ahead only under a recorded approval of the exact run, work
  order, attempt, candidate, policy, decision and effect, and only when every recorded assertion for
  that binding still validates: its signer is trusted, not yet expired or revoked and allowed that
  subject, authority, decision and effect, the canonical signature verifies, the assertion is within its
  time, unchanged since it was recorded, and no denial.\<close>

theorem required_approval_is_current:
  assumes "requireCurrent verify env signers db run decision_type effect = Inr a"
  shows "\<exists>r adm c. getAsfRun db run = Some r \<and> getAsfAdmissionForRun db run = Some adm \<and>
     r_candidate r = Some c \<and> latest_seq db run = r_version r \<and>
     (let listed = listAsfApprovals db run c (a_policy_digest adm) decision_type effect
      in a \<in> set listed \<and>
         list_all (\<lambda>b. \<exists>raw e. json_parse env (ap_envelope b) = Some raw \<and>
            parseApprovalEnvelope env raw = Inr e \<and> y_decision (en_payload e) = Approved \<and>
            digest_of env (JObject (en_members e)) = ap_envelope_digest b \<and>
            approval_valid verify env signers (expected_binding r adm c decision_type effect) e) listed)"
proof -
  obtain r adm c where s: "approval_snapshot db run = Inr (r, adm, c)"
    "scan_approvals verify env signers (expected_binding r adm c decision_type effect)
         (listAsfApprovals db run c (a_policy_digest adm) decision_type effect) None = Inr (Some a)"
    using assms unfolding requireCurrent_def step_iff by blast
  have digest: "va_digest v = digest_of env (JObject (en_members (va_envelope v)))"
    if "validateApproval verify env signers expected raw = Inr v" for expected raw v
    using that unfolding validateApproval_def step_iff by auto
  let ?listed = "listAsfApprovals db run c (a_policy_digest adm) decision_type effect"
  let ?exact = "expected_binding r adm c decision_type effect"
  note scan = scan_Inr [OF s(2)]
  have "list_all (\<lambda>b. \<exists>raw e. json_parse env (ap_envelope b) = Some raw \<and>
      parseApprovalEnvelope env raw = Inr e \<and> y_decision (en_payload e) = Approved \<and>
      digest_of env (JObject (en_members e)) = ap_envelope_digest b \<and>
      approval_valid verify env signers ?exact e) ?listed"
    by (rule list.pred_mono_strong [OF scan [THEN conjunct2]]) (metis validate_Inr digest)
  moreover have "a \<in> set ?listed" using scan by auto
  ultimately show ?thesis using snapshot_Inr [OF s(1)] by (auto simp: Let_def)
qed

theorem required_approval_is_current_witness:
  "requireCurrent sample_verify sample_approval_env [sample_signer] approved_store ''r'' ''merge'' ''effect'' =
       Inr (approval_row_of sample_validated ''2026'') \<and>
   approval_row_of sample_validated ''2026'' \<in>
     set (listAsfApprovals approved_store ''r'' sample_sha sample_digest ''merge'' ''effect'')"
proof -
  have r: "requireCurrent sample_verify sample_approval_env [sample_signer] approved_store ''r'' ''merge'' ''effect'' =
       Inr (approval_row_of sample_validated ''2026'')" by code_simp
  have fixed: "getAsfRun approved_store ''r'' = Some waiting_run" "r_candidate waiting_run = Some sample_sha"
    "getAsfAdmissionForRun approved_store ''r'' = Some (sample_admission ''r'')"
    "a_policy_digest (sample_admission ''r'') = sample_digest" by code_simp+
  from r required_approval_is_current [OF r] fixed show ?thesis by (auto simp: Let_def)
qed

end
