(* ===== verification/Run_Gates.thy ===== *)
theory Run_Gates
  imports Approval
begin

text \<open>
  The gates of a run (\<open>src/src/state/store.ts\<close>): the effective gate policy of its admission, the gate
  results that its events state for a candidate, and what each lifecycle event requires of them.
\<close>

section \<open>The effective gate policy\<close>

record gate_policy =
  gp_local :: "string list"
  gp_remote :: "string list"
  gp_local_reviewer :: string
  gp_pr_reviewer :: string

text \<open>An array of non-empty strings.\<close>

definition text_items :: "json list \<Rightarrow> string list option" where
  "text_items js = those (map (\<lambda>j. case j of JString s \<Rightarrow> if s = [] then None else Some s | _ \<Rightarrow> None) js)"

definition text_array :: "(string \<times> json) list \<Rightarrow> string \<Rightarrow> string list option" where
  "text_array ms k = (case map_of ms k of Some (JArray js) \<Rightarrow> text_items js | _ \<Rightarrow> None)"

definition effectiveGatePolicy :: "store_env \<Rightarrow> admission \<Rightarrow> store_error + gate_policy" where
  "effectiveGatePolicy env adm =
     (case json_parse env (a_policy adm) of
        Some (JObject ms) \<Rightarrow>
          (case (text_array ms ''requiredLocalCheckIds'', text_array ms ''requiredRemoteChecks'',
                 object_field ms ''identities'') of
             (Some local, Some remote, Some ids) \<Rightarrow>
               if map_of ms ''digest'' \<noteq> Some (JString (a_policy_digest adm)) then Inl Rejected
               else (case (text_field ids ''localReviewer'', text_field ids ''prReviewer'') of
                  (Some lr, Some pr) \<Rightarrow>
                    Inr \<lparr>gp_local = sort (remdups local), gp_remote = sort (remdups remote),
                         gp_local_reviewer = lr, gp_pr_reviewer = pr\<rparr>
                | _ \<Rightarrow> Inl Rejected)
           | _ \<Rightarrow> Inl Rejected)
      | _ \<Rightarrow> Inl Rejected)"

section \<open>Gate results\<close>

definition gateResults :: "store \<Rightarrow> string \<Rightarrow> string \<Rightarrow> string \<Rightarrow> (string \<times> string) list" where
  "gateResults db run candidate kind =
     map (\<lambda>g. (gr_id g, gr_outcome g))
       (filter (\<lambda>g. gr_run g = run \<and> gr_candidate g = candidate \<and> gr_kind g = kind) (gate_results db))"

definition requirePassedGates :: "store \<Rightarrow> string \<Rightarrow> string \<Rightarrow> string \<Rightarrow> string list \<Rightarrow> bool" where
  "requirePassedGates db run candidate kind req \<longleftrightarrow>
     list_all (\<lambda>k. map_of (gateResults db run candidate kind) k = Some ''passed'') req"

definition approved_review :: "store \<Rightarrow> string \<Rightarrow> string \<Rightarrow> string \<Rightarrow> bool" where
  "approved_review db run candidate kind \<longleftrightarrow>
     map_of (gateResults db run candidate kind) ''decision'' = Some ''approved''"

text \<open>\<open>INSERT \<dots> ON CONFLICT DO UPDATE\<close> by run, candidate, kind and id.\<close>

definition upsert_gate :: "gate_result \<Rightarrow> store \<Rightarrow> store" where
  "upsert_gate g db =
     (let same = (\<lambda>h. gr_run h = gr_run g \<and> gr_candidate h = gr_candidate g \<and> gr_kind h = gr_kind g \<and>
                      gr_id h = gr_id g)
      in if list_ex same (gate_results db)
         then db\<lparr>gate_results := map (\<lambda>h. if same h then g else h) (gate_results db)\<rparr>
         else db\<lparr>gate_results := gate_results db @ [g]\<rparr>)"

definition json_text :: "json option \<Rightarrow> string" where
  "json_text j = (case j of Some (JString s) \<Rightarrow> s | _ \<Rightarrow> [])"

definition gate_of :: "string \<Rightarrow> run_event \<Rightarrow> string \<Rightarrow> string \<Rightarrow> (string \<times> json) list \<Rightarrow> string \<Rightarrow> string \<Rightarrow> gate_result" where
  "gate_of run e candidate kind ms id' evidence =
     \<lparr>gr_run = run, gr_candidate = candidate, gr_kind = kind, gr_id = id',
      gr_outcome = json_text (map_of ms ''outcome''), gr_digest = json_text (map_of ms evidence), gr_seq = seq e\<rparr>"

definition ci_event :: "string \<Rightarrow> bool" where
  "ci_event ty \<longleftrightarrow> ty = ''ci.completed'' \<or> ty = ''ci.recheck_completed'' \<or> ty = ''ci.revalidated''"

definition payload_checks :: "run_event \<Rightarrow> json list option" where
  "payload_checks e = (case map_of (payload e) ''checks'' of Some (JArray js) \<Rightarrow> Some js | _ \<Rightarrow> None)"

definition check_members :: "json \<Rightarrow> (string \<times> json) list" where
  "check_members j = (case j of JObject ms \<Rightarrow> ms | _ \<Rightarrow> [])"

text \<open>The gate results that an event states; the contract of its payload makes the members texts.\<close>

definition stated_gates :: "string \<Rightarrow> run_event \<Rightarrow> gate_result list" where
  "stated_gates run e =
     (case text_field (payload e) ''candidate_sha'' of
        None \<Rightarrow> []
      | Some c \<Rightarrow>
          if event_type e = ''verification.completed''
          then [gate_of run e c ''local-check'' (payload e) (json_text (map_of (payload e) ''check_id'')) ''evidence_digest'']
          else if event_type e = ''review.completed''
          then [gate_of run e c ''local-review'' (payload e) ''decision'' ''findings_digest'']
          else if ci_event (event_type e)
          then map (\<lambda>j. gate_of run e c ''remote-check'' (check_members j)
                 (json_text (map_of (check_members j) ''context'')) ''evidence_digest'')
               (case payload_checks e of Some js \<Rightarrow> js | None \<Rightarrow> [])
          else if event_type e = ''pr_review.completed''
          then [gate_of run e c ''pr-review'' (payload e) ''decision'' ''findings_digest'']
          else [])"

definition recordAsfGateResults :: "store \<Rightarrow> string \<Rightarrow> run_event \<Rightarrow> store" where
  "recordAsfGateResults db run e = fold upsert_gate (stated_gates run e) db"

section \<open>Prerequisites\<close>

definition verification_start_ok :: "gate_policy \<Rightarrow> run_event \<Rightarrow> bool" where
  "verification_start_ok gp e \<longleftrightarrow>
     event_type e \<noteq> ''verification.started'' \<or>
     map_option sort (text_array (payload e) ''required_check_ids'') = Some (gp_local gp)"

definition local_review_ok :: "store \<Rightarrow> gate_policy \<Rightarrow> run_row \<Rightarrow> run_event \<Rightarrow> string \<Rightarrow> bool" where
  "local_review_ok db gp r e c \<longleftrightarrow>
     (event_type e \<noteq> ''review.started'' \<or>
        requirePassedGates db (r_run_id r) c ''local-check'' (gp_local gp) \<and>
        map_of (payload e) ''reviewer_attribution'' = Some (JString (gp_local_reviewer gp))) \<and>
     (event_type e \<noteq> ''review.completed'' \<or>
        map_of (payload e) ''reviewer_attribution'' = Some (JString (gp_local_reviewer gp)))"

definition delivery_ready_ok :: "store \<Rightarrow> gate_policy \<Rightarrow> run_row \<Rightarrow> run_event \<Rightarrow> string \<Rightarrow> bool" where
  "delivery_ready_ok db gp r e c \<longleftrightarrow>
     event_type e \<noteq> ''delivery.ready'' \<or>
     approved_review db (r_run_id r) c ''local-review'' \<and>
     map_option sort (text_array (payload e) ''required_remote_checks'') = Some (gp_remote gp)"

definition push_ok :: "run_row \<Rightarrow> run_event \<Rightarrow> string \<Rightarrow> bool" where
  "push_ok r e c \<longleftrightarrow>
     (event_type e \<noteq> ''branch.pushed'' \<or> map_of (payload e) ''observed_remote_sha'' = Some (JString c)) \<and>
     (event_type e \<noteq> ''pull_request.opened'' \<or>
        map_of (payload e) ''observed_head_sha'' = Some (JString c) \<and>
        js_identical (map_of (payload e) ''base_sha'') (Some (text_or_null (r_base r))))"

text \<open>A snapshot of remote checks: the digest, the exact set of contexts and the aggregate outcome.\<close>

definition aggregate_outcome :: "string option list \<Rightarrow> string" where
  "aggregate_outcome os =
     (if list_all (\<lambda>x. x = Some ''passed'') os then ''passed''
      else if list_ex (\<lambda>x. x = Some ''failed'') os then ''failed''
      else if list_ex (\<lambda>x. x = Some ''not-scheduled'') os then ''not-scheduled''
      else ''pending'')"

definition ci_snapshot_ok :: "store_env \<Rightarrow> gate_policy \<Rightarrow> run_event \<Rightarrow> bool" where
  "ci_snapshot_ok env gp e \<longleftrightarrow>
     \<not> ci_event (event_type e) \<or>
     (case payload_checks e of
        None \<Rightarrow> False
      | Some js \<Rightarrow>
          let contexts = map (\<lambda>j. text_field (check_members j) ''context'') js;
              outcomes = map (\<lambda>j. text_field (check_members j) ''outcome'') js
          in map_of (payload e) ''checks_digest'' = Some (JString (digest_of env (JArray js))) \<and>
             list_all (\<lambda>c. c \<noteq> None) contexts \<and> distinct contexts \<and>
             length contexts = length (gp_remote gp) \<and>
             list_all (\<lambda>c. Some c \<in> set contexts) (gp_remote gp) \<and>
             map_of (payload e) ''outcome'' = Some (JString (aggregate_outcome outcomes)))"

definition pr_review_ok :: "store \<Rightarrow> gate_policy \<Rightarrow> run_row \<Rightarrow> run_event \<Rightarrow> string \<Rightarrow> bool" where
  "pr_review_ok db gp r e c \<longleftrightarrow>
     (event_type e \<noteq> ''pr_review.started'' \<or>
        requirePassedGates db (r_run_id r) c ''remote-check'' (gp_remote gp) \<and>
        map_of (payload e) ''reviewer_attribution'' = Some (JString (gp_pr_reviewer gp))) \<and>
     (event_type e \<noteq> ''pr_review.completed'' \<or>
        map_of (payload e) ''reviewer_attribution'' = Some (JString (gp_pr_reviewer gp)))"

definition prior_binds :: "store_env \<Rightarrow> run_event \<Rightarrow> run_event \<Rightarrow> string \<Rightarrow> bool" where
  "prior_binds env prior e c \<longleftrightarrow>
     event_type prior = ''ci.revalidated'' \<and> seq prior = seq e - 1 \<and>
     map_of (payload prior) ''candidate_sha'' = Some (JString c) \<and>
     list_all (\<lambda>(k, final). js_identical (map_of (payload prior) k) (map_of (payload e) final))
       [(''observation_intent_digest'', ''final_ci_observation_intent_digest''),
        (''observation_digest'', ''final_ci_observation_digest''),
        (''observation_fencing_generation'', ''final_ci_observation_fencing_generation''),
        (''checks_digest'', ''final_ci_checks_digest''),
        (''observed_at'', ''final_ci_observed_at'')] \<and>
     (case (map_of (payload prior) ''checks'', map_of (payload e) ''final_ci_checks'') of
        (Some a, Some b) \<Rightarrow> canonicalJson env a = canonicalJson env b | _ \<Rightarrow> False)"

definition delivered_ok ::
  "store_env \<Rightarrow> store \<Rightarrow> gate_policy \<Rightarrow> run_row \<Rightarrow> run_event \<Rightarrow> string \<Rightarrow> bool" where
  "delivered_ok env db gp r e c \<longleftrightarrow>
     event_type e \<noteq> ''pull_request.delivered'' \<or>
     map_of (payload e) ''observed_head_sha'' = Some (JString c) \<and>
     approved_review db (r_run_id r) c ''pr-review'' \<and>
     requirePassedGates db (r_run_id r) c ''remote-check'' (gp_remote gp) \<and>
     (case listAsfRunEvents env db (r_run_id r) (max 0 (seq e - 2)) 1 of
        Inl _ \<Rightarrow> False
      | Inr page \<Rightarrow> (case pg_events page of [] \<Rightarrow> False | prior # _ \<Rightarrow> prior_binds env prior e c))"

definition getAsfEvidenceBundleRecord :: "store \<Rightarrow> string \<Rightarrow> evidence_row option" where
  "getAsfEvidenceBundleRecord db run = List.find (\<lambda>b. eb_run b = run) (evidence_bundles db)"

definition evidence_ok :: "store \<Rightarrow> run_row \<Rightarrow> admission \<Rightarrow> run_event \<Rightarrow> string \<Rightarrow> bool" where
  "evidence_ok db r adm e c \<longleftrightarrow>
     (event_type e \<noteq> ''evidence.finalized'' \<and> event_type e \<noteq> ''run.completed'') \<or>
     (case getAsfEvidenceBundleRecord db (r_run_id r) of
        None \<Rightarrow> False
      | Some b \<Rightarrow>
          map_of (payload e) (if event_type e = ''evidence.finalized'' then ''bundle_digest''
             else ''evidence_bundle_digest'') = Some (JString (eb_bundle_digest b)) \<and>
          eb_candidate b = c \<and> eb_policy_digest b = a_policy_digest adm)"

definition closure_ok :: "store_env \<Rightarrow> admission \<Rightarrow> run_event \<Rightarrow> bool" where
  "closure_ok env adm e \<longleftrightarrow>
     event_type e \<noteq> ''run.completed'' \<or>
     (case json_parse env (a_policy adm) of
        Some (JObject ms) \<Rightarrow>
          (case Option.bind (object_field ms ''delivery'') (\<lambda>d. text_field d ''closureTarget'') of
             Some t \<Rightarrow> (t = ''pr'' \<or> t = ''merge'') \<and> map_of (payload e) ''closure_target'' = Some (JString t)
           | None \<Rightarrow> False)
      | _ \<Rightarrow> False)"

definition fixing_gate :: "phase \<Rightarrow> string" where
  "fixing_gate p =
     (if p = LOCAL_REVIEW then ''local-review'' else if p = PR_REVIEW then ''pr-review''
      else if p = LOCAL_VERIFY then ''local-check'' else ''remote-check'')"

definition fixing_ok :: "store \<Rightarrow> run_row \<Rightarrow> run_event \<Rightarrow> string \<Rightarrow> bool" where
  "fixing_ok db r e c \<longleftrightarrow>
     event_type e \<noteq> ''fixing.started'' \<or>
     list_ex (\<lambda>(_, out). out = ''failed'' \<or> out = ''changes-requested'')
       (gateResults db (r_run_id r) c (fixing_gate (r_state r)))"

definition assertAsfGatePrerequisites ::
  "store_env \<Rightarrow> store \<Rightarrow> run_row \<Rightarrow> run_event \<Rightarrow> admission \<Rightarrow> store_error + unit" where
  "assertAsfGatePrerequisites env db r e adm =
     and_then (effectiveGatePolicy env adm) (\<lambda>gp.
       if \<not> verification_start_ok gp e then Inl Rejected
       else case text_field (payload e) ''candidate_sha'' of
         None \<Rightarrow> Inr ()
       | Some c \<Rightarrow>
           if \<not> local_review_ok db gp r e c then Inl Rejected
           else if \<not> delivery_ready_ok db gp r e c then Inl Rejected
           else if \<not> push_ok r e c then Inl Rejected
           else if \<not> ci_snapshot_ok env gp e then Inl Rejected
           else if \<not> pr_review_ok db gp r e c then Inl Rejected
           else if \<not> delivered_ok env db gp r e c then Inl Rejected
           else if \<not> evidence_ok db r adm e c then Inl EvidenceConflict
           else if \<not> closure_ok env adm e then Inl Rejected
           else if \<not> fixing_ok db r e c then Inl Rejected
           else Inr ())"

definition verificationCompletesRequiredCoverage ::
  "store_env \<Rightarrow> store \<Rightarrow> string \<Rightarrow> string option \<Rightarrow> run_event \<Rightarrow> admission \<Rightarrow> store_error + bool" where
  "verificationCompletesRequiredCoverage env db run candidate e adm =
     (case (candidate, text_field (payload e) ''check_id'') of
        (Some c, Some check) \<Rightarrow>
          if event_type e \<noteq> ''verification.completed'' then Inr False
          else and_then (effectiveGatePolicy env adm) (\<lambda>gp.
            let outcomes = (check, json_text (map_of (payload e) ''outcome'')) # gateResults db run c ''local-check''
            in Inr (gp_local gp \<noteq> [] \<and> length (remdups (map fst outcomes)) = length (gp_local gp) \<and>
                    list_all (\<lambda>k. map_of outcomes k = Some ''passed'') (gp_local gp)))
      | _ \<Rightarrow> Inr False)"

end
