(* ===== verification/Run_Transition.thy ===== *)
theory Run_Transition
  imports Run_Gates
begin

text \<open>
  The transition of a run (\<open>transitionAsfRun\<close> of \<open>src/src/state/store.ts\<close>): fence and cursor, the derived
  continuation of a run that is blocked with unresolved effects, the gates, the checkpoint a transition
  needs, the terminal evidence, and the append of state, event, gate results and checkpoint in one
  transaction.
\<close>

section \<open>Input\<close>

record transition_input =
  t_run :: string
  t_owner :: string
  t_generation :: int
  t_from :: phase
  t_to :: phase
  t_version :: int
  t_type :: string
  t_payload :: "(string \<times> json) list"
  t_checkpoint :: "checkpoint_material option"
  t_reason :: "string option"
  t_actor :: "string option"

definition ASF_EVENT_CHECKPOINT_REQUIREMENTS :: "(string \<times> checkpoint_kind) list" where
  "ASF_EVENT_CHECKPOINT_REQUIREMENTS = [
     (''repository.lease_acquired'', RepositoryLeaseAcquisition),
     (''identity.leases_acquired'', IdentityLeaseAcquisition),
     (''workspace.prepared'', WorkspaceSandboxProof),
     (''task_packet.created'', TaskPacketCreation),
     (''implementation.started'', ImplementerSessionMarker),
     (''candidate.created'', CandidateCommitCreation),
     (''review.completed'', LocalReviewFixerIteration),
     (''branch.pushed'', BranchPushIntentObservation),
     (''pull_request.opened'', PullRequestIntentObservation),
     (''ci.completed'', CiReconciliationSnapshot),
     (''ci.recheck_completed'', CiReconciliationSnapshot),
     (''pr_review.completed'', PrReviewFixerIteration),
     (''ci.revalidated'', PrReviewFixerIteration),
     (''evidence.finalized'', EvidenceFinalizationAcknowledgement)]"

text \<open>The stored terminal evidence of a run as it is read back: whether the plan is intact, the sealed intent
  and the signed bundle.\<close>

record terminal_access =
  plan_reads :: "store \<Rightarrow> string \<Rightarrow> bool"
  intent_reads :: "store \<Rightarrow> string \<Rightarrow> store_error + json option"
  bundle_reads :: "store \<Rightarrow> string \<Rightarrow> store_error + json option"

fun json_at :: "json \<Rightarrow> string list \<Rightarrow> json option" where
  "json_at j [] = Some j"
| "json_at (JObject ms) (k # ks) = (case map_of ms k of None \<Rightarrow> None | Some j \<Rightarrow> json_at j ks)"
| "json_at _ (k # ks) = None"

section \<open>The continuation of a blocked run\<close>

text \<open>The loop that collects the first \<open>v\<close> events; the flag is \<open>lifecycleGap\<close>.\<close>

function lifecycle_events ::
  "store_env \<Rightarrow> store \<Rightarrow> string \<Rightarrow> int \<Rightarrow> int \<Rightarrow> run_event list \<Rightarrow> bool \<Rightarrow>
     store_error + (run_event list \<times> bool)" where
  "lifecycle_events env db run v after es gap =
     (if \<not> int (length es) < v then Inr (es, gap)
      else case listAsfRunEvents env db run after (min 1000 (v - int (length es))) of
        Inl x \<Rightarrow> Inl x
      | Inr page \<Rightarrow>
          if \<not> pg_more page then Inr (es @ pg_events page, gap \<or> pg_gap page)
          else if pg_next page \<le> after then Inr (es @ pg_events page, True)
          else lifecycle_events env db run v (pg_next page) (es @ pg_events page) (gap \<or> pg_gap page))"
  by pat_completeness auto

lemma stored_events_length: "stored_events env adm ws = Inr es \<Longrightarrow> length es = length ws"
  by (induction ws arbitrary: es) (auto simp: and_then_Inr_iff)

lemma more_events:
  assumes "listAsfRunEvents env db run after limit = Inr page" "pg_more page"
  shows "int (length (pg_events page)) = limit \<and> 0 < limit"
proof -
  obtain adm es r where "stored_events env adm (take (nat limit) (events_after db run after)) = Inr es"
    "pg_events page = es" "pg_more page = (nat limit < length (events_after db run after))" "\<not> limit < 1"
    using assms(1) unfolding listAsfRunEvents_def
    by (auto simp: and_then_Inr_iff split: if_splits option.splits)
  with assms(2) stored_events_length [OF this(1)] show ?thesis by simp
qed

termination lifecycle_events
proof (relation "measure (\<lambda>(_, _, _, v, _, es, _). nat (v - int (length es)))", goal_cases)
  case 1
  show ?case by simp
next
  case (2 env db run v after es gap page)
  then show ?case
    using more_events [of env db run after "min 1000 (v - int (length es))" page] by auto
qed

declare lifecycle_events.simps [simp del]

definition run_event_json :: "run_event \<Rightarrow> json" where
  "run_event_json e = JObject
     [(''schema'', JString ''asf.run-event/v1''), (''event_id'', JString (event_id e)),
      (''run_id'', JString (run_id e)), (''work_order_id'', JString (work_order_id e)),
      (''attempt_id'', JString (attempt_id e)), (''seq'', JNumber (of_int (seq e))),
      (''occurred_at'', JString (occurred_at e)), (''type'', JString (event_type e)),
      (''phase'', JString (phase_text (event_phase e))), (''payload'', JObject (payload e)),
      (''policy_digest'', JString (policy_digest e))]"

definition cancellation_event :: "run_event \<Rightarrow> bool" where
  "cancellation_event e \<longleftrightarrow>
     event_type e = ''cancellation.requested'' \<or> event_type e = ''cancellation.escalated''"

definition last_of :: "'a list \<Rightarrow> 'a option" where
  "last_of xs = (if xs = [] then None else Some (last xs))"

text \<open>The cancellation that a blocked cleanup serves: the whole history, ending in the start of the
  cancellation that the last request or escalation asked for.\<close>

definition cancellation_binding ::
  "store_env \<Rightarrow> store \<Rightarrow> string \<Rightarrow> int \<Rightarrow> store_error + (int \<times> (string \<times> json) list)" where
  "cancellation_binding env db run v =
     and_then (lifecycle_events env db run v 0 [] False) (\<lambda>(es, gap).
       case (last_of es, last_of (filter cancellation_event es)) of
         (Some started, Some c) \<Rightarrow>
           (case text_field (payload c) ''request_id'' of
              None \<Rightarrow> Inl ReconciliationConflict
            | Some request \<Rightarrow>
                if gap \<or> int (length es) \<noteq> v \<or> seq started \<noteq> v \<or>
                   event_type started \<noteq> ''cancellation.started'' \<or> event_phase started \<noteq> CANCELLING \<or>
                   map_of (payload started) ''request_id'' \<noteq> Some (JString request)
                then Inl ReconciliationConflict
                else Inr (seq started,
                  [(''cancellation_event_id'', JString (event_id c)),
                   (''cancellation_event_digest'', JString (digest_of env (run_event_json c))),
                   (''cancellation_request_id'', JString request)]))
       | _ \<Rightarrow> Inl ReconciliationConflict)"

text \<open>The distinct event cursors of the pending delivery effects.\<close>

definition interrupted_cursors :: "json \<Rightarrow> int list" where
  "interrupted_cursors pending =
     (case json_at pending [''effects''] of
        Some (JArray js) \<Rightarrow>
          remdups (concat (map (\<lambda>j. case j of
             JObject ms \<Rightarrow>
               if map_of ms ''effect_class'' = Some (JString ''delivery-intent'')
               then (case int_field ms ''event_seq'' of None \<Rightarrow> [] | Some n \<Rightarrow> [n]) else []
           | _ \<Rightarrow> []) js))
      | _ \<Rightarrow> [])"

definition cleanup_code :: "transition_input \<Rightarrow> bool" where
  "cleanup_code i \<longleftrightarrow> text_field (t_payload i) ''code'' = Some ''CLEANUP_RECONCILIATION_REQUIRED''"

definition auto_eligible :: "transition_input \<Rightarrow> bool" where
  "auto_eligible i \<longleftrightarrow> text_field (t_payload i) ''code'' \<in>
     {Some ''INTERNAL_DELIVERY_FAILURE'', Some ''INTERNAL_WORKER_RECONCILIATION_REQUIRED'',
      Some ''CLEANUP_RECONCILIATION_REQUIRED''}"

definition continuation_json ::
  "transition_input \<Rightarrow> int \<Rightarrow> durable_checkpoint \<Rightarrow> pending_set \<Rightarrow> (string \<times> json) list \<Rightarrow> json" where
  "continuation_json i n c pending binding = JObject (
     [(''schema'', JString ''asf.reconciliation-continuation/v1''),
      (''disposition'', JString (if cleanup_code i then ''finish-cancellation'' else ''retry-interrupted-phase'')),
      (''interrupted_event_seq'', JNumber (of_int n)), (''resume_phase'', JString (phase_text (t_from i))),
      (''checkpoint_digest'', JString (chk_digest c)),
      (''pending_set_digest'', JString (ps_digest pending))] @ binding)"

definition blocked_continuation ::
  "store_env \<Rightarrow> store \<Rightarrow> run_row \<Rightarrow> admission \<Rightarrow> transition_input \<Rightarrow> store_error + json option" where
  "blocked_continuation env db r adm i =
     and_then (canonicalAsfPendingSet env db (t_run i)) (\<lambda>pending.
     and_then
       (if cleanup_code i
        then and_then (cancellation_binding env db (t_run i) (t_version i)) (\<lambda>(n, b). Inr (Some n, b))
        else Inr (case interrupted_cursors (ps_value pending) of [] \<Rightarrow> None | n # _ \<Rightarrow> Some n, []))
       (\<lambda>(interrupted, binding).
     and_then (getLatestAsfCheckpoint env db (t_run i)) (\<lambda>latest.
       case (interrupted, latest) of
         (Some n, Some c) \<Rightarrow>
           if ps_github pending + ps_delivery pending > 0 \<and>
              (cleanup_code i \<or> length (interrupted_cursors (ps_value pending)) = 1) \<and> n \<le> t_version i \<and>
              chk_run_id c = t_run i \<and> chk_work_order_id c = a_work_order adm \<and>
              chk_attempt_id c = a_attempt_id adm \<and> chk_policy_digest c = a_policy_digest adm \<and>
              chk_candidate_sha c = r_candidate r \<and> chk_event_seq c \<le> n
           then Inr (Some (continuation_json i n c pending binding)) else Inr None
       | _ \<Rightarrow> Inr None)))"

text \<open>The payload of the event, and whether a continuation was derived for it.\<close>

definition derived_payload ::
  "store_env \<Rightarrow> store \<Rightarrow> run_row \<Rightarrow> admission \<Rightarrow> transition_input \<Rightarrow>
     store_error + ((string \<times> json) list \<times> bool)" where
  "derived_payload env db r adm i =
     (if t_type i \<noteq> ''run.blocked_external'' then Inr (t_payload i, False)
      else if ''continuation'' \<in> set (map fst (t_payload i)) then Inl Rejected
      else if \<not> auto_eligible i then Inr (t_payload i, False)
      else and_then (blocked_continuation env db r adm i) (\<lambda>c.
        case c of None \<Rightarrow> Inr (t_payload i, False)
        | Some j \<Rightarrow> Inr (t_payload i @ [(''continuation'', j)], True)))"

section \<open>Resumption, candidate and checkpoint\<close>

definition stored_approval :: "store_env \<Rightarrow> approval_row \<Rightarrow> approval_envelope option" where
  "stored_approval env a =
     (case json_parse env (ap_envelope a) of
        None \<Rightarrow> None
      | Some raw \<Rightarrow> (case parseApprovalEnvelope env raw of Inl _ \<Rightarrow> None | Inr e \<Rightarrow> Some e))"

definition approval_current ::
  "store_env \<Rightarrow> run_row \<Rightarrow> admission \<Rightarrow> approval_row \<Rightarrow> string \<Rightarrow> bool" where
  "approval_current env r adm a at_time \<longleftrightarrow>
     ap_run_id a = r_run_id r \<and> ap_decision a = Approved \<and> ap_work_order a = a_work_order adm \<and>
     ap_attempt_id a = a_attempt_id adm \<and> Some (ap_candidate a) = r_candidate r \<and>
     ap_policy_digest a = a_policy_digest adm \<and>
     \<not> js_le (parse_time env (ap_expires_at a)) (parse_time env at_time)"

definition resume_check ::
  "store_env \<Rightarrow> store \<Rightarrow> run_row \<Rightarrow> admission \<Rightarrow> transition_input \<Rightarrow> run_event \<Rightarrow> string \<Rightarrow> store_error + unit" where
  "resume_check env db r adm i e at_time =
     (if t_type i \<noteq> ''run.resumed'' then Inr ()
      else if t_from i \<noteq> WAITING_APPROVAL then Inl Rejected
      else if r_resume_phase r \<noteq> Some (t_to i) then Inl Rejected
      else case text_field (payload e) ''approval_id'' of
        None \<Rightarrow> Inl Rejected
      | Some id' \<Rightarrow>
          (case getAsfApproval db id' of
             None \<Rightarrow> Inl ApprovalConflict
           | Some a \<Rightarrow>
               (case stored_approval env a of
                  None \<Rightarrow> Inl ApprovalConflict
                | Some env_a \<Rightarrow>
                    if \<not> approval_current env r adm a at_time then Inl ApprovalConflict
                    else and_then (approvalResumeTarget env db r adm (en_payload env_a) at_time) (\<lambda>target.
                      if target \<noteq> Some (t_to i) \<or>
                         map_of (payload e) ''evidence_digest'' \<noteq> Some (JString (ap_envelope_digest a)) \<or>
                         map_of (payload e) ''interrupted_phase'' \<noteq> Some (JString ''WAITING_APPROVAL'') \<or>
                         map_of (payload e) ''resume_phase'' \<noteq> Some (JString (phase_text (t_to i)))
                      then Inl ApprovalConflict else Inr ()))))"

definition event_candidate :: "run_event \<Rightarrow> string option" where
  "event_candidate e = text_field (payload e) ''candidate_sha''"

definition candidate_bound :: "run_row \<Rightarrow> transition_input \<Rightarrow> run_event \<Rightarrow> bool" where
  "candidate_bound r i e \<longleftrightarrow>
     event_candidate e = None \<or> t_type i = ''candidate.created'' \<or> event_candidate e = r_candidate r"

definition next_candidate :: "run_row \<Rightarrow> transition_input \<Rightarrow> run_event \<Rightarrow> string option" where
  "next_candidate r i e =
     (if t_type i = ''candidate.created'' \<and> event_candidate e \<noteq> None then event_candidate e else r_candidate r)"

text \<open>A new candidate is a proper child of the current one, or of the admitted base.\<close>

definition lineage_ok :: "run_row \<Rightarrow> transition_input \<Rightarrow> run_event \<Rightarrow> bool" where
  "lineage_ok r i e \<longleftrightarrow>
     t_type i \<noteq> ''candidate.created'' \<or>
     (let parent = (case r_candidate r of None \<Rightarrow> r_base r | c \<Rightarrow> c)
      in parent \<noteq> None \<and> map_of (payload e) ''parent_sha'' = map_option JString parent \<and>
         map_of (payload e) ''candidate_sha'' \<noteq> map_of (payload e) ''parent_sha'')"

definition checkpoint_kind_of :: "transition_input \<Rightarrow> checkpoint_kind option" where
  "checkpoint_kind_of i = map_option m_kind (t_checkpoint i)"

definition checkpoint_kind_ok :: "transition_input \<Rightarrow> bool \<Rightarrow> bool" where
  "checkpoint_kind_ok i covered \<longleftrightarrow>
     (checkpoint_kind_of i = Some LocalVerificationPass \<longrightarrow> covered) \<and>
     (case map_of ASF_EVENT_CHECKPOINT_REQUIREMENTS (t_type i) of
        Some k \<Rightarrow> checkpoint_kind_of i = Some k
      | None \<Rightarrow> covered \<longrightarrow> checkpoint_kind_of i = Some LocalVerificationPass) \<and>
     (isTerminalRunEventPhase (t_to i) \<longrightarrow> checkpoint_kind_of i = Some LeaseReleaseWorkspaceCleanup)"

section \<open>Terminal transitions\<close>

text \<open>Members of the signed predicate compared with the values they must have.\<close>

definition agrees :: "json \<Rightarrow> (string list \<times> json option) list \<Rightarrow> bool" where
  "agrees j bs \<longleftrightarrow> list_all (\<lambda>(path, v). js_identical (json_at j path) v) bs"

definition jtext :: "string \<Rightarrow> json option" where "jtext s = Some (JString s)"

definition jint :: "int \<Rightarrow> json option" where "jint n = Some (JNumber (of_int n))"

definition jnull_or :: "string option \<Rightarrow> json option" where "jnull_or s = Some (text_or_null s)"

definition stop_payload_matches ::
  "store_env \<Rightarrow> transition_input \<Rightarrow> run_event \<Rightarrow> string option \<Rightarrow> json \<Rightarrow> bool" where
  "stop_payload_matches env i e cand p =
     (let v = map_of (payload e)
      in if t_to i = COMPLETED
         then js_identical (v ''candidate_sha'') (jnull_or cand) \<and>
              v ''closure_target'' = jtext ''pr'' \<and> v ''satisfied'' = Some (JBool True) \<and>
              js_identical (v ''evidence_bundle_digest'') (json_at p [''evidence'', ''delivery_bundle_digest''])
         else js_identical (v ''code'') (json_at p [''stop'', ''code'']) \<and>
              js_identical (v ''summary'') (json_at p [''stop'', ''summary'']) \<and>
              js_identical (v ''checkpoint'') (json_at p [''stop'', ''interrupted_phase'']) \<and>
              js_identical (v ''retry_disposition'') (json_at p [''stop'', ''retry_disposition'']) \<and>
              js_identical (v ''required_actor'') (json_at p [''stop'', ''required_actor'']) \<and>
              js_identical (v ''required_action'') (json_at p [''stop'', ''required_action'']) \<and>
              Some (canonicalJson env (case v ''evidence_refs'' of None \<Rightarrow> JNull | Some j \<Rightarrow> j)) =
                map_option (canonicalJson env) (json_at p [''stop'', ''evidence_refs'']))"

definition cancellation_payload_matches :: "transition_input \<Rightarrow> run_event \<Rightarrow> json \<Rightarrow> bool" where
  "cancellation_payload_matches i e p \<longleftrightarrow>
     t_to i \<noteq> CANCELLED \<or>
     (let v = map_of (payload e); c = (\<lambda>k. json_at p [''cancellation'', k])
      in json_at p [''cancellation''] \<notin> {None, Some JNull} \<and>
         js_identical (v ''request_id'') (c ''request_id'') \<and>
         js_identical (v ''requester'') (c ''requester_subject'') \<and>
         (case c ''reason_digest'' of
            Some (JString d) \<Rightarrow> v ''reason'' = jtext (''protected:'' @ d) | _ \<Rightarrow> False) \<and>
         js_identical (v ''mode'') (c ''mode'') \<and> js_identical (v ''grace_seconds'') (c ''grace_seconds''))"

definition terminal_intent_matches :: "transition_input \<Rightarrow> int \<Rightarrow> terminal_plan \<Rightarrow> json \<Rightarrow> bool" where
  "terminal_intent_matches i n plan j \<longleftrightarrow> agrees j
     [([''run'', ''terminal_phase''], jtext (phase_text (t_to i))),
      ([''run'', ''terminal_event_seq''], jint n),
      ([''plan_digest''], jtext (p_digest plan))]"

definition terminal_record_matches ::
  "transition_input \<Rightarrow> int \<Rightarrow> string option \<Rightarrow> admission \<Rightarrow> terminal_bundle \<Rightarrow> bool" where
  "terminal_record_matches i n cand adm tb \<longleftrightarrow>
     tb_phase tb = t_to i \<and> tb_event_seq tb = n \<and> tb_candidate tb = cand \<and>
     tb_policy_digest tb = a_policy_digest adm"

definition predicate_matches ::
  "transition_input \<Rightarrow> int \<Rightarrow> string option \<Rightarrow> run_row \<Rightarrow> admission \<Rightarrow> terminal_bundle \<Rightarrow> json \<Rightarrow> bool" where
  "predicate_matches i n cand r adm tb p \<longleftrightarrow> agrees p
     [([''run'', ''run_id''], jtext (t_run i)), ([''run'', ''work_order_id''], jtext (a_work_order adm)),
      ([''run'', ''attempt_id''], jtext (a_attempt_id adm)),
      ([''run'', ''terminal_phase''], jtext (phase_text (t_to i))),
      ([''run'', ''terminal_event_seq''], jint n),
      ([''admission'', ''work_order_envelope_digest''], jtext (a_envelope_digest adm)),
      ([''admission'', ''work_order_payload_digest''], jtext (a_payload_digest adm)),
      ([''admission'', ''effective_policy_digest''], jtext (a_policy_digest adm)),
      ([''source'', ''repository''], jtext (js_to_lower (r_repo r))),
      ([''source'', ''base_sha''], jnull_or (r_base r)), ([''source'', ''candidate_sha''], jnull_or cand),
      ([''cleanup'', ''intent_id''], jtext (tb_cleanup_intent tb)),
      ([''cleanup'', ''intent_digest''], jtext (tb_cleanup_intent_digest tb)),
      ([''cleanup'', ''observation_digest''], jtext (tb_cleanup_digest tb)),
      ([''evidence'', ''delivery_bundle_digest''], jnull_or (tb_delivery_digest tb))]"

text \<open>The delivery evidence that the terminal evidence chains, and that completion needs.\<close>

definition delivery_chain_ok :: "transition_input \<Rightarrow> json \<Rightarrow> evidence_row option \<Rightarrow> bool" where
  "delivery_chain_ok i p delivery \<longleftrightarrow>
     (let d = json_at p [''evidence'', ''delivery_bundle_digest'']
      in (d = Some JNull \<or> js_identical d (map_option (\<lambda>b. JString (eb_bundle_digest b)) delivery)) \<and>
         (t_to i = COMPLETED \<longrightarrow> delivery \<noteq> None))"

definition outputs_match :: "transition_input \<Rightarrow> run_event \<Rightarrow> terminal_bundle \<Rightarrow> bool" where
  "outputs_match i e tb \<longleftrightarrow>
     map_of (payload e) ''terminal_evidence_bundle_digest'' = jtext (tb_bundle_digest tb) \<and>
     (case t_checkpoint i of
        None \<Rightarrow> False
      | Some m \<Rightarrow>
          m_marker m = Some (tb_cleanup_intent tb) \<and>
          json_at (m_outputs m) [''terminal_evidence_bundle_digest''] = jtext (tb_bundle_digest tb) \<and>
          json_at (m_outputs m) [''cleanup_evidence_digest''] = jtext (tb_cleanup_digest tb))"

definition cleanup_confirmed ::
  "transition_input \<Rightarrow> string option \<Rightarrow> admission \<Rightarrow> terminal_bundle \<Rightarrow> stored_intent \<Rightarrow> bool" where
  "cleanup_confirmed i cand adm tb c \<longleftrightarrow>
     i_stage c = ''cleanup'' \<and> i_run_id c = t_run i \<and> i_work_order c = a_work_order adm \<and>
     i_attempt_id c = a_attempt_id adm \<and> i_policy_digest c = a_policy_digest adm \<and> i_candidate c = cand \<and>
     i_digest c = tb_cleanup_intent_digest tb \<and> i_outcome c = Some Confirmed \<and>
     i_observation_digest c = Some (tb_cleanup_digest tb)"

definition getAsfTerminalEvidenceBundleRecord :: "store \<Rightarrow> string \<Rightarrow> terminal_bundle option" where
  "getAsfTerminalEvidenceBundleRecord db run = List.find (\<lambda>b. tb_run b = run) (terminal_bundles db)"

definition terminal_check ::
  "terminal_access \<Rightarrow> store_env \<Rightarrow> store \<Rightarrow> run_row \<Rightarrow> admission \<Rightarrow> transition_input \<Rightarrow> run_event \<Rightarrow>
     string option \<Rightarrow> store_error + unit" where
  "terminal_check ta env db r adm i e cand =
     (if \<not> isTerminalRunEventPhase (t_to i) then Inr ()
      else
        and_then (case getAsfTerminalEvidencePlanRecord db (t_run i) of
            None \<Rightarrow> Inr None
          | Some plan \<Rightarrow> and_then (intent_reads ta db (t_run i)) (\<lambda>j. Inr (map_option (Pair plan) j)))
        (\<lambda>sealed. case getAsfTerminalEvidenceBundleRecord db (t_run i) of
            None \<Rightarrow> Inl EvidenceConflict
          | Some tb \<Rightarrow>
              and_then (bundle_reads ta db (t_run i)) (\<lambda>bundle.
              and_then (getAsfDeliveryIntentById env db (tb_cleanup_intent tb)) (\<lambda>cleanup.
                case (sealed, Option.bind bundle (\<lambda>b. json_at b [''statement'', ''predicate'']), cleanup) of
                  (Some (plan, j), Some p, Some c) \<Rightarrow>
                    if terminal_intent_matches i (r_version r + 1) plan j \<and>
                       terminal_record_matches i (r_version r + 1) cand adm tb \<and>
                       predicate_matches i (r_version r + 1) cand r adm tb p \<and>
                       delivery_chain_ok i p (getAsfEvidenceBundleRecord db (t_run i)) \<and>
                       stop_payload_matches env i e cand p \<and> cancellation_payload_matches i e p \<and>
                       outputs_match i e tb \<and> cleanup_confirmed i cand adm tb c
                    then (if total_pending (asfPendingReconciliationCounts db (t_run i)) > 0
                          then Inl Rejected else Inr ())
                    else Inl EvidenceConflict
                | _ \<Rightarrow> Inl EvidenceConflict))))"

section \<open>The transition\<close>

definition pausing_phase :: "phase \<Rightarrow> bool" where
  "pausing_phase p \<longleftrightarrow> p = WAITING_APPROVAL \<or> p = NEEDS_SPEC \<or> p = BLOCKED_EXTERNAL"

definition moved_run :: "transition_input \<Rightarrow> string option \<Rightarrow> string \<Rightarrow> run_row \<Rightarrow> run_row" where
  "moved_run i cand at_time r =
     r\<lparr>r_state := t_to i, r_version := r_version r + 1, r_updated := at_time, r_heartbeat := Some at_time,
       r_candidate := cand,
       r_resume_phase :=
         (if pausing_phase (t_to i)
          then (case r_resume_phase r of None \<Rightarrow> Some (t_from i) | Some p \<Rightarrow> Some p)
          else if t_type i = ''run.resumed'' then None else r_resume_phase r)\<rparr>"

definition continued_run :: "transition_input \<Rightarrow> int \<Rightarrow> run_row \<Rightarrow> run_row" where
  "continued_run i n r =
     (if r_state r = BLOCKED_EXTERNAL \<and> r_version r = n \<and> r_owner r = Some (t_owner i) \<and>
         r_generation r = t_generation i
      then r\<lparr>r_reconcile := True, r_resume_phase := (if cleanup_code i then Some CANCELLING else r_resume_phase r)\<rparr>
      else r)"

definition transition_binding ::
  "transition_input \<Rightarrow> admission \<Rightarrow> run_event \<Rightarrow> string option \<Rightarrow> string \<Rightarrow> checkpoint_binding" where
  "transition_binding i adm e cand at_time =
     \<lparr>n_run = t_run i, n_work_order = a_work_order adm, n_attempt = a_attempt_id adm,
      n_policy_digest = a_policy_digest adm, n_phase = t_to i, n_seq = t_version i + 1, n_generation = t_generation i,
      n_candidate = cand, n_event_type = event_type e, n_payload = payload e, n_at = at_time\<rparr>"

definition transition_checkpoint ::
  "store_env \<Rightarrow> store \<Rightarrow> transition_input \<Rightarrow> checkpoint_binding \<Rightarrow>
     store_error + (json \<times> durable_checkpoint) option" where
  "transition_checkpoint env db i n =
     (case t_checkpoint i of
        None \<Rightarrow> Inr None
      | Some m \<Rightarrow> and_then (createAsfBoundCheckpoint env db n m) (\<lambda>c. Inr (Some c)))"

definition store_checkpoint ::
  "store_env \<Rightarrow> store \<Rightarrow> (json \<times> durable_checkpoint) option \<Rightarrow> string \<Rightarrow> store_error + store" where
  "store_checkpoint env db c at_time =
     (case c of
        None \<Rightarrow> Inr db
      | Some (value, k) \<Rightarrow>
          and_then (insertAsfCheckpoint db k (canonicalJson env value) at_time) (\<lambda>(db', _, _). Inr db'))"

definition superseded_intent :: "store \<Rightarrow> transition_input \<Rightarrow> bool" where
  "superseded_intent db i \<longleftrightarrow>
     (case getAsfTerminalEvidencePlanRecord db (t_run i) of
        None \<Rightarrow> False
      | Some p \<Rightarrow> \<not> isTerminalRunEventPhase (t_to i) \<or> t_to i \<noteq> p_phase p \<or> t_version i + 1 \<noteq> p_event_seq p)"

text \<open>The checks of a transition under its fence: the event, the next candidate and the checkpoint.\<close>

definition transition_event ::
  "store_env \<Rightarrow> store \<Rightarrow> run_row \<Rightarrow> admission \<Rightarrow> transition_input \<Rightarrow> string \<Rightarrow>
     store_error + (run_event \<times> bool)" where
  "transition_event env db r adm i at_time =
     and_then (derived_payload env db r adm i) (\<lambda>(pl, continues).
     and_then (parse_event env (new_event_json env adm (t_run i) (r_version r + 1) at_time (t_type i) (t_to i) pl))
       (\<lambda>e. case assertRunEventTransition (t_from i) e of
              Inl _ \<Rightarrow> Inl Rejected
            | Inr _ \<Rightarrow> Inr (e, continues)))"

definition transition_checks ::
  "terminal_access \<Rightarrow> store_env \<Rightarrow> store \<Rightarrow> run_row \<Rightarrow> admission \<Rightarrow> transition_input \<Rightarrow> run_event \<Rightarrow> string \<Rightarrow>
     store_error + unit" where
  "transition_checks ta env db r adm i e at_time =
     and_then (resume_check env db r adm i e at_time) (\<lambda>_.
       if \<not> candidate_bound r i e then Inl Rejected
       else if \<not> lineage_ok r i e then Inl Rejected
       else and_then (assertAsfGatePrerequisites env db r e adm) (\<lambda>_.
            and_then (verificationCompletesRequiredCoverage env db (t_run i) (next_candidate r i e) e adm) (\<lambda>covered.
              if \<not> checkpoint_kind_ok i covered then Inl Rejected
              else terminal_check ta env db r adm i e (next_candidate r i e))))"

definition commit_transition ::
  "store_env \<Rightarrow> store \<Rightarrow> transition_input \<Rightarrow> run_event \<Rightarrow> bool \<Rightarrow> string option \<Rightarrow>
     (json \<times> durable_checkpoint) option \<Rightarrow> string \<Rightarrow> store_error + store" where
  "commit_transition env db i e continues cand checkpoint at_time =
     and_then (change_run db (t_run i)
         (\<lambda>q. r_state q = t_from i \<and> r_version q = t_version i \<and> r_owner q = Some (t_owner i) \<and>
              r_generation q = t_generation i)
         (moved_run i cand at_time)) (\<lambda>db1.
     and_then (append_history env (if continues then update_run db1 (t_run i) (continued_run i (t_version i + 1)) else db1)
         (t_run i) (t_version i + 1) (t_from i) (t_to i) (event_type e) e (t_reason i) (case t_actor i of None \<Rightarrow> ''orchestrator'' | Some a \<Rightarrow> a) at_time) (\<lambda>db2.
       store_checkpoint env (recordAsfGateResults db2 (t_run i) e) checkpoint at_time))"

definition transitionAsfRun ::
  "terminal_access \<Rightarrow> store_env \<Rightarrow> store \<Rightarrow> transition_input \<Rightarrow> store_error + (store \<times> run_event)" where
  "transitionAsfRun ta env db i =
     (case getAsfRun db (t_run i) of
        None \<Rightarrow> Inl Rejected
      | Some r \<Rightarrow>
          if r_owner r \<noteq> Some (t_owner i) \<or> r_generation r \<noteq> t_generation i then Inl StaleLease
          else if r_state r \<noteq> t_from i \<or> r_version r \<noteq> t_version i then Inl Rejected
          else if superseded_intent db i
          then (if plan_reads ta db (t_run i) then Inl EvidenceConflict else Inl Rejected)
          else (case assertRunPhaseTransition (t_from i) (t_to i) of
             Inl _ \<Rightarrow> Inl Rejected
           | Inr _ \<Rightarrow>
               and_then (now_iso env) (\<lambda>at_time.
                 case getAsfAdmissionForRun db (t_run i) of
                   None \<Rightarrow> Inl Rejected
                 | Some adm \<Rightarrow>
                     and_then (transition_event env db r adm i at_time) (\<lambda>(e, continues).
                     and_then (transition_checks ta env db r adm i e at_time) (\<lambda>_.
                     and_then (transition_checkpoint env db i
                         (transition_binding i adm e (next_candidate r i e) at_time)) (\<lambda>checkpoint.
                     and_then (commit_transition env db i e continues (next_candidate r i e) checkpoint at_time)
                       (\<lambda>db'. Inr (db', e))))))))"

section \<open>Lemmas\<close>

lemma upsert_gate_tables [simp]:
  "runs (upsert_gate g db) = runs db" "events (upsert_gate g db) = events db"
  "transitions (upsert_gate g db) = transitions db" "checkpoints (upsert_gate g db) = checkpoints db"
  "admissions (upsert_gate g db) = admissions db" "terminal_plans (upsert_gate g db) = terminal_plans db"
  by (simp_all add: upsert_gate_def Let_def)

lemma record_gates_tables [simp]:
  "runs (recordAsfGateResults db run e) = runs db" "events (recordAsfGateResults db run e) = events db"
  "transitions (recordAsfGateResults db run e) = transitions db"
  "checkpoints (recordAsfGateResults db run e) = checkpoints db"
  "admissions (recordAsfGateResults db run e) = admissions db"
  "terminal_plans (recordAsfGateResults db run e) = terminal_plans db"
proof -
  have "runs (fold upsert_gate gs db) = runs db \<and> events (fold upsert_gate gs db) = events db \<and>
    transitions (fold upsert_gate gs db) = transitions db \<and> checkpoints (fold upsert_gate gs db) = checkpoints db \<and>
    admissions (fold upsert_gate gs db) = admissions db \<and> terminal_plans (fold upsert_gate gs db) = terminal_plans db"
    for gs by (induction gs arbitrary: db) simp_all
  then show "runs (recordAsfGateResults db run e) = runs db" "events (recordAsfGateResults db run e) = events db"
    "transitions (recordAsfGateResults db run e) = transitions db"
    "checkpoints (recordAsfGateResults db run e) = checkpoints db"
    "admissions (recordAsfGateResults db run e) = admissions db"
    "terminal_plans (recordAsfGateResults db run e) = terminal_plans db"
    by (simp_all add: recordAsfGateResults_def)
qed

lemma store_checkpoint_Inr:
  "store_checkpoint env db c t = Inr db' \<Longrightarrow> \<exists>cs. db' = db\<lparr>checkpoints := cs\<rparr>"
  by (cases c) (auto simp: store_checkpoint_def and_then_Inr_iff dest: insertAsfCheckpoint_runs
      intro: exI [of _ "checkpoints db"])

text \<open>The row after the update and, for a derived continuation, the second one.\<close>

definition advanced_run ::
  "transition_input \<Rightarrow> int \<Rightarrow> bool \<Rightarrow> string option \<Rightarrow> string \<Rightarrow> run_row \<Rightarrow> run_row" where
  "advanced_run i n continues cand at_time r =
     (if continues then continued_run i n (moved_run i cand at_time r) else moved_run i cand at_time r)"

lemma update_run_update:
  "(\<And>r. r_run_id (f r) = r_run_id r) \<Longrightarrow> update_run (update_run db run f) run g = update_run db run (g \<circ> f)"
  by (simp add: update_run_def)


lemma commit_shape:
  assumes "commit_transition env db i e continues cand checkpoint t = Inr db'"
  shows "\<exists>r. getAsfRun db (t_run i) = Some r \<and>
     runs db' = runs (update_run db (t_run i) (advanced_run i (t_version i + 1) continues cand t)) \<and>
     transitions db' = transitions db @ [\<lparr>st_run = t_run i, st_seq = t_version i + 1, st_from = t_from i,
        st_to = t_to i, st_reason = t_reason i,
        st_actor = (case t_actor i of None \<Rightarrow> ''orchestrator'' | Some a \<Rightarrow> a), st_at = t\<rparr>] \<and>
     events db' = events db @ [event_row_of env (t_run i) (t_version i + 1) (event_type e) e] \<and>
     list_all (\<lambda>w. w_run_id w \<noteq> t_run i \<or> w_seq w \<noteq> t_version i + 1) (events db) \<and>
     admissions db' = admissions db \<and> terminal_plans db' = terminal_plans db"
proof -
  obtain db1 db2 where c: "change_run db (t_run i)
         (\<lambda>q. r_state q = t_from i \<and> r_version q = t_version i \<and> r_owner q = Some (t_owner i) \<and>
              r_generation q = t_generation i) (moved_run i cand t) = Inr db1"
    "append_history env (if continues then update_run db1 (t_run i) (continued_run i (t_version i + 1)) else db1)
         (t_run i) (t_version i + 1) (t_from i) (t_to i) (event_type e) e (t_reason i)
         (case t_actor i of None \<Rightarrow> ''orchestrator'' | Some a \<Rightarrow> a) t = Inr db2"
    "store_checkpoint env (recordAsfGateResults db2 (t_run i) e) checkpoint t = Inr db'"
    using assms unfolding commit_transition_def transaction_iff by blast
  obtain r where r: "getAsfRun db (t_run i) = Some r" "db1 = update_run db (t_run i) (moved_run i cand t)"
    using change_run_Inr [OF c(1)] by blast
  have both: "(if continues then update_run db1 (t_run i) (continued_run i (t_version i + 1)) else db1) =
      update_run db (t_run i) (advanced_run i (t_version i + 1) continues cand t)"
    unfolding r(2) by (simp add: advanced_run_def [abs_def] update_run_def moved_run_def)
  from store_checkpoint_Inr [OF c(3)] obtain cs where
    "db' = (recordAsfGateResults db2 (t_run i) e)\<lparr>checkpoints := cs\<rparr>" by blast
  with append_history_Inr [OF c(2)] r(1) show ?thesis unfolding both by simp
qed

lemma transition_shape:
  assumes "transitionAsfRun ta env db i = Inr (db', e)"
  shows "\<exists>r adm t continues checkpoint. getAsfRun db (t_run i) = Some r \<and>
     getAsfAdmissionForRun db (t_run i) = Some adm \<and>
     r_owner r = Some (t_owner i) \<and> r_generation r = t_generation i \<and> r_state r = t_from i \<and>
     r_version r = t_version i \<and> \<not> superseded_intent db i \<and>
     assertRunPhaseTransition (t_from i) (t_to i) = Inr () \<and> now_iso env = Inr t \<and>
     transition_event env db r adm i t = Inr (e, continues) \<and>
     transition_checks ta env db r adm i e t = Inr () \<and>
     transition_checkpoint env db i (transition_binding i adm e (next_candidate r i e) t) = Inr checkpoint \<and>
     commit_transition env db i e continues (next_candidate r i e) checkpoint t = Inr db'"
proof -
  obtain r where r: "getAsfRun db (t_run i) = Some r"
    using assms by (auto simp: transitionAsfRun_def split: option.splits)
  obtain u adm t continues checkpoint where c: "\<not> (r_owner r \<noteq> Some (t_owner i) \<or> r_generation r \<noteq> t_generation i)"
    "\<not> (r_state r \<noteq> t_from i \<or> r_version r \<noteq> t_version i)" "\<not> superseded_intent db i"
    "assertRunPhaseTransition (t_from i) (t_to i) = Inr u" "now_iso env = Inr t"
    "getAsfAdmissionForRun db (t_run i) = Some adm"
    "transition_event env db r adm i t = Inr (e, continues)"
    "transition_checks ta env db r adm i e t = Inr ()"
    "transition_checkpoint env db i (transition_binding i adm e (next_candidate r i e) t) = Inr checkpoint"
    "commit_transition env db i e continues (next_candidate r i e) checkpoint t = Inr db'"
    using assms unfolding transitionAsfRun_def r
    by (auto simp: and_then_Inr_iff split: if_splits option.splits sum.splits prod.splits)
  then show ?thesis using r by auto
qed

lemma moved_run_id: "r_run_id (advanced_run i n continues cand t r) = r_run_id r"
  by (simp add: advanced_run_def continued_run_def moved_run_def)

text \<open>The row of the run after its transition; every other row is as it was.\<close>

lemma transition_runs:
  assumes "transitionAsfRun ta env db i = Inr (db', e)"
  shows "\<exists>r cand continues t. getAsfRun db (t_run i) = Some r \<and>
     r_owner r = Some (t_owner i) \<and> r_generation r = t_generation i \<and> r_state r = t_from i \<and>
     r_version r = t_version i \<and> cand = next_candidate r i e \<and>
     (\<forall>k. getAsfRun db' k =
       map_option (\<lambda>q. if k = t_run i then advanced_run i (t_version i + 1) continues cand t q else q) (getAsfRun db k))"
proof -
  obtain r adm t continues checkpoint where s: "getAsfRun db (t_run i) = Some r"
    "r_owner r = Some (t_owner i)" "r_generation r = t_generation i" "r_state r = t_from i"
    "r_version r = t_version i"
    "commit_transition env db i e continues (next_candidate r i e) checkpoint t = Inr db'"
    using transition_shape [OF assms] by blast
  have "runs db' = runs (update_run db (t_run i)
      (advanced_run i (t_version i + 1) continues (next_candidate r i e) t))"
    using commit_shape [OF s(6)] by blast
  from getAsfRun_cong [OF this] have "getAsfRun db' k = map_option (\<lambda>q. if k = t_run i
      then advanced_run i (t_version i + 1) continues (next_candidate r i e) t q else q) (getAsfRun db k)" for k
    by (simp add: getAsfRun_update moved_run_id)
  with s(1-5) show ?thesis by blast
qed

lemma advanced_run_fields [simp]:
  "r_state (advanced_run i n continues cand t r) = t_to i"
  "r_version (advanced_run i n continues cand t r) = r_version r + 1"
  "r_owner (advanced_run i n continues cand t r) = r_owner r"
  "r_generation (advanced_run i n continues cand t r) = r_generation r"
  "r_candidate (advanced_run i n continues cand t r) = cand"
  "r_repo (advanced_run i n continues cand t r) = r_repo r"
  "r_reconcile r \<Longrightarrow> r_reconcile (advanced_run i n continues cand t r)"
  by (simp_all add: advanced_run_def continued_run_def moved_run_def)

section \<open>Properties\<close>

text \<open>A transition is accepted only from the run's owner of the current generation, at the phase and the
  event cursor it names, along an edge of the lifecycle, and never against a pending terminal outcome.
  It advances the cursor by exactly one, appends exactly one transition and one event at that cursor, keeps
  owner and generation, never drops a reconciliation flag, and leaves every other run as it was.\<close>

theorem transition_is_fenced:
  assumes "transitionAsfRun ta env db i = Inr (db', e)"
  shows "\<exists>r r' tr w. getAsfRun db (t_run i) = Some r \<and> owns db (t_run i) (t_owner i) (t_generation i) \<and>
     r_state r = t_from i \<and> r_version r = t_version i \<and>
     assertRunPhaseTransition (t_from i) (t_to i) = Inr () \<and> \<not> superseded_intent db i \<and>
     getAsfRun db' (t_run i) = Some r' \<and> r_state r' = t_to i \<and> r_version r' = t_version i + 1 \<and>
     owns db' (t_run i) (t_owner i) (t_generation i) \<and> (r_reconcile r \<longrightarrow> r_reconcile r') \<and>
     transitions db' = transitions db @ [tr] \<and> events db' = events db @ [w] \<and>
     st_run tr = t_run i \<and> st_seq tr = t_version i + 1 \<and> st_from tr = t_from i \<and> st_to tr = t_to i \<and>
     w_run_id w = t_run i \<and> w_seq w = t_version i + 1 \<and> w_type w = event_type e \<and>
     (\<forall>other. other = t_run i \<or> getAsfRun db' other = getAsfRun db other)"
proof -
  obtain r adm t continues checkpoint where s: "getAsfRun db (t_run i) = Some r"
    "r_owner r = Some (t_owner i)" "r_generation r = t_generation i" "r_state r = t_from i"
    "r_version r = t_version i" "\<not> superseded_intent db i"
    "assertRunPhaseTransition (t_from i) (t_to i) = Inr ()"
    "commit_transition env db i e continues (next_candidate r i e) checkpoint t = Inr db'"
    using transition_shape [OF assms] by blast
  obtain cand c t' where k: "\<And>k. getAsfRun db' k =
       map_option (\<lambda>q. if k = t_run i then advanced_run i (t_version i + 1) c cand t' q else q) (getAsfRun db k)"
    using transition_runs [OF assms] by blast
  have get: "getAsfRun db' (t_run i) = Some (advanced_run i (t_version i + 1) c cand t' r)"
    "other = t_run i \<or> getAsfRun db' other = getAsfRun db other" for other
    using k s(1) by (simp, cases "getAsfRun db other") simp_all
  have "transitions db' = transitions db @ [\<lparr>st_run = t_run i, st_seq = t_version i + 1, st_from = t_from i,
        st_to = t_to i, st_reason = t_reason i,
        st_actor = (case t_actor i of None \<Rightarrow> ''orchestrator'' | Some a \<Rightarrow> a), st_at = t\<rparr>]"
    "events db' = events db @ [event_row_of env (t_run i) (t_version i + 1) (event_type e) e]"
    using commit_shape [OF s(8)] by blast+
  with s(1-7) get show ?thesis by (auto simp: owns_def event_row_of_def)
qed

lemma transition_gates:
  assumes "transitionAsfRun ta env db i = Inr (db', e)"
  shows "\<exists>r adm t continues. getAsfRun db (t_run i) = Some r \<and> getAsfAdmissionForRun db (t_run i) = Some adm \<and>
     transition_event env db r adm i t = Inr (e, continues) \<and> candidate_bound r i e \<and> lineage_ok r i e \<and>
     assertAsfGatePrerequisites env db r e adm = Inr () \<and>
     terminal_check ta env db r adm i e (next_candidate r i e) = Inr ()"
proof -
  obtain r adm t continues where s: "getAsfRun db (t_run i) = Some r"
    "getAsfAdmissionForRun db (t_run i) = Some adm" "transition_event env db r adm i t = Inr (e, continues)"
    "transition_checks ta env db r adm i e t = Inr ()"
    using transition_shape [OF assms] by blast
  from s(4) have "candidate_bound r i e" "lineage_ok r i e"
    "assertAsfGatePrerequisites env db r e adm = Inr ()"
    "terminal_check ta env db r adm i e (next_candidate r i e) = Inr ()"
    unfolding transition_checks_def transaction_iff by auto
  with s show ?thesis by blast
qed

lemma gates_Inr:
  assumes "assertAsfGatePrerequisites env db r e adm = Inr u" "event_candidate e = Some c"
  shows "\<exists>gp. effectiveGatePolicy env adm = Inr gp \<and> verification_start_ok gp e \<and> local_review_ok db gp r e c \<and>
     delivery_ready_ok db gp r e c \<and> push_ok r e c \<and> ci_snapshot_ok env gp e \<and> pr_review_ok db gp r e c \<and>
     delivered_ok env db gp r e c \<and> evidence_ok db r adm e c \<and> closure_ok env adm e \<and> fixing_ok db r e c"
proof -
  obtain gp where "effectiveGatePolicy env adm = Inr gp"
    using assms(1) unfolding assertAsfGatePrerequisites_def transaction_iff by blast
  then show ?thesis
    using assms unfolding assertAsfGatePrerequisites_def event_candidate_def by (auto split: if_splits)
qed



text \<open>Sample input: a candidate whose only local check has passed is given to the local reviewer.\<close>

definition sample_policy :: json where
  "sample_policy = JObject
     [(''digest'', JString sample_digest), (''requiredLocalCheckIds'', JArray [JString ''unit'']),
      (''requiredRemoteChecks'', JArray [JString ''ci'']),
      (''identities'', JObject [(''localReviewer'', JString ''lr''), (''prReviewer'', JString ''pr'')])]"

definition transition_env :: store_env where
  "transition_env = sample_store_env\<lparr>json_parse := (\<lambda>s. if s = ''p'' then Some sample_policy else None)\<rparr>"

definition verified_store :: store where
  "verified_store = empty_store\<lparr>runs := [(sample_run ''r'')\<lparr>r_state := LOCAL_VERIFY, r_version := 7,
       r_candidate := Some sample_sha, r_generation := 2, r_owner := Some ''o''\<rparr>],
     admissions := [sample_admission ''r''],
     gate_results := [\<lparr>gr_run = ''r'', gr_candidate = sample_sha, gr_kind = ''local-check'', gr_id = ''unit'',
       gr_outcome = ''passed'', gr_digest = sample_digest, gr_seq = 7\<rparr>]\<rparr>"

definition review_payload :: "(string \<times> json) list" where
  "review_payload = [(''candidate_sha'', JString sample_sha), (''reviewer_attribution'', JString ''lr'')]"

definition review_transition :: transition_input where
  "review_transition = \<lparr>t_run = ''r'', t_owner = ''o'', t_generation = 2, t_from = LOCAL_VERIFY, t_to = LOCAL_REVIEW,
     t_version = 7, t_type = ''review.started'', t_payload = review_payload, t_checkpoint = None,
     t_reason = None, t_actor = None\<rparr>"

definition review_event :: run_event where
  "review_event = \<lparr>event_id = ''evt_'' @ take 26 ''r:1:review.started'', run_id = ''r'', work_order_id = ''w'',
     attempt_id = ''a'', seq = 8, occurred_at = ''2026'', event_type = ''review.started'',
     event_phase = LOCAL_REVIEW, payload = review_payload, policy_digest = sample_digest\<rparr>"

definition no_terminal :: terminal_access where
  "no_terminal = \<lparr>plan_reads = (\<lambda>_ _. True), intent_reads = (\<lambda>_ _. Inr None), bundle_reads = (\<lambda>_ _. Inr None)\<rparr>"

lemma review_parsed:
  "parse_event transition_env (new_event_json transition_env (sample_admission ''r'') ''r'' 8 ''2026''
       ''review.started'' LOCAL_REVIEW review_payload) = Inr review_event"
proof -
  note q = conforming_event [of transition_env "''evt_'' @ take 26 ''r:1:review.started''" "''r''" "''w''" "''a''"
      8 sample_digest "''review.started''" "Fixed LOCAL_REVIEW" _ LOCAL_REVIEW review_payload "''2026''"]
  have "check_payload (Fixed LOCAL_REVIEW) LOCAL_REVIEW review_payload = Inr ()"
    by (simp add: review_payload_def check_payload_def observation_mismatch_def text_field_def)
  then show ?thesis using q
    by (simp add: new_event_json_def event_id_of_def transition_env_def sample_store_env_def digest_env_def
        sample_env_def sample_admission_def sample_digest_ok word_defs contract_defs safe_int_def
        payload_defs phase_text_def review_event_def review_payload_def candidatePayload_def)
qed

lemma review_accepted:
  "\<exists>db'. transitionAsfRun no_terminal transition_env verified_store review_transition = Inr (db', review_event)"
proof -
  let ?r = "(sample_run ''r'')\<lparr>r_state := LOCAL_VERIFY, r_version := 7,
       r_candidate := Some sample_sha, r_generation := 2, r_owner := Some ''o''\<rparr>"
  have tables: "getAsfRun verified_store ''r'' = Some ?r"
    "getAsfAdmissionForRun verified_store ''r'' = Some (sample_admission ''r'')"
    "\<not> superseded_intent verified_store review_transition" "now_iso transition_env = Inr ''2026''"
    "assertRunPhaseTransition LOCAL_VERIFY LOCAL_REVIEW = Inr ()"
    by code_simp+
  have "assertRunEventTransition LOCAL_VERIFY review_event = Inr ()"
    by (simp add: review_event_def) code_simp
  then have event: "transition_event transition_env verified_store ?r (sample_admission ''r'') review_transition ''2026'' =
      Inr (review_event, False)"
    using review_parsed by (simp add: transition_event_def derived_payload_def review_transition_def sample_run_def)
  have checks: "transition_checks no_terminal transition_env verified_store ?r (sample_admission ''r'')
      review_transition review_event ''2026'' = Inr ()"
    by code_simp
  have commit: "\<exists>db'. commit_transition transition_env verified_store review_transition review_event False
      (next_candidate ?r review_transition review_event) None ''2026'' = Inr db'"
    by (simp add: commit_transition_def change_run_def tables append_history_def insert_transition_def
        insert_event_def store_checkpoint_def review_transition_def verified_store_def empty_store_def update_run_def
        getAsfRun_def sample_run_def event_row_of_def)
  have fields: "t_run review_transition = ''r''" "r_owner ?r = Some (t_owner review_transition)"
    "r_generation ?r = t_generation review_transition" "r_state ?r = t_from review_transition"
    "r_version ?r = t_version review_transition" "t_from review_transition = LOCAL_VERIFY"
    "t_to review_transition = LOCAL_REVIEW" "t_checkpoint review_transition = None"
    by (simp_all add: review_transition_def sample_run_def)
  show ?thesis
    using tables event checks commit fields
    by (auto simp: transitionAsfRun_def transition_checkpoint_def)
qed

theorem transition_is_fenced_witness:
  "\<exists>db'. transitionAsfRun no_terminal transition_env verified_store review_transition = Inr (db', review_event) \<and>
     owns verified_store ''r'' ''o'' 2 \<and> length (events db') = Suc (length (events verified_store))"
proof -
  obtain db' where a: "transitionAsfRun no_terminal transition_env verified_store review_transition = Inr (db', review_event)"
    using review_accepted by blast
  have "t_run review_transition = ''r'' \<and> t_owner review_transition = ''o'' \<and> t_generation review_transition = 2"
    by (simp add: review_transition_def)
  with a transition_is_fenced [OF a] show ?thesis by auto
qed


text \<open>Sample input: a run that fails after its cleanup was confirmed and its terminal evidence signed.\<close>

definition failed_payload :: "(string \<times> json) list" where
  "failed_payload = pause_payload @ [(''terminal_evidence_bundle_digest'', JString sample_digest)]"

definition cleanup_intent :: intent_row where
  "cleanup_intent = sample_intent\<lparr>i_stage := ''cleanup'', i_observation_digest := Some sample_digest,
     i_outcome := Some Confirmed, i_confirmed_generation := Some 2, i_confirmed_at := Some ''2026''\<rparr>"

definition sample_plan :: terminal_plan where
  "sample_plan = \<lparr>p_run_id = ''r'', p_phase = FAILED, p_event_seq = 8, p_candidate = None,
     p_policy_digest = sample_digest, p_cleanup_intent = i_id cleanup_intent, p_cleanup_digest = sample_digest,
     p_bundle_digest = None, p_digest = sample_digest, p_canonical = ''plan'', p_created_at = ''2026'',
     p_seal = None\<rparr>"

definition sample_terminal_bundle :: terminal_bundle where
  "sample_terminal_bundle = \<lparr>tb_run = ''r'', tb_phase = FAILED, tb_event_seq = 8, tb_candidate = None,
     tb_policy_digest = sample_digest, tb_cleanup_intent = i_id cleanup_intent,
     tb_cleanup_intent_digest = sample_digest, tb_cleanup_digest = sample_digest, tb_delivery_digest = None,
     tb_bundle_digest = sample_digest, tb_envelope_digest = sample_digest, tb_envelope = ''bundle'',
     tb_finalized_at = ''2026''\<rparr>"

definition cleaned_run :: run_row where
  "cleaned_run = (sample_run ''r'')\<lparr>r_state := IMPLEMENTING, r_version := 7, r_generation := 2, r_owner := Some ''o''\<rparr>"

definition cleaned_store :: store where
  "cleaned_store = empty_store\<lparr>runs := [cleaned_run], admissions := [sample_admission ''r''],
     intents := [cleanup_intent], terminal_plans := [sample_plan], terminal_bundles := [sample_terminal_bundle]\<rparr>"

definition sample_predicate :: json where
  "sample_predicate = JObject
     [(''run'', JObject [(''run_id'', JString ''r''), (''work_order_id'', JString ''w''), (''attempt_id'', JString ''a''),
        (''terminal_phase'', JString ''FAILED''), (''terminal_event_seq'', JNumber 8)]),
      (''admission'', JObject [(''work_order_envelope_digest'', JString sample_digest),
        (''work_order_payload_digest'', JString sample_digest), (''effective_policy_digest'', JString sample_digest)]),
      (''source'', JObject [(''repository'', JString ''o/n''), (''base_sha'', JNull), (''candidate_sha'', JNull)]),
      (''stop'', JObject [(''code'', JString ''WAIT''), (''summary'', JString ''s''),
        (''interrupted_phase'', JString ''RECEIVED''), (''retry_disposition'', JString ''safe''),
        (''required_actor'', JString ''asf''), (''required_action'', JString ''a''), (''evidence_refs'', JArray [])]),
      (''cancellation'', JNull),
      (''cleanup'', JObject [(''intent_id'', JString (i_id cleanup_intent)), (''intent_digest'', JString sample_digest),
        (''observation_digest'', JString sample_digest)]),
      (''evidence'', JObject [(''delivery_bundle_digest'', JNull)])]"

definition sealed_terminal :: terminal_access where
  "sealed_terminal = \<lparr>plan_reads = (\<lambda>_ _. True),
     intent_reads = (\<lambda>_ _. Inr (Some (JObject [(''run'', JObject [(''terminal_phase'', JString ''FAILED''),
        (''terminal_event_seq'', JNumber 8)]), (''plan_digest'', JString sample_digest)]))),
     bundle_reads = (\<lambda>_ _. Inr (Some (JObject [(''statement'', JObject [(''predicate'', sample_predicate)])])))\<rparr>"

definition failed_transition :: transition_input where
  "failed_transition = \<lparr>t_run = ''r'', t_owner = ''o'', t_generation = 2, t_from = IMPLEMENTING, t_to = FAILED,
     t_version = 7, t_type = ''run.failed'', t_payload = failed_payload,
     t_checkpoint = Some \<lparr>m_kind = LeaseReleaseWorkspaceCleanup, m_inputs = JNull,
       m_outputs = JObject [(''terminal_evidence_bundle_digest'', JString sample_digest),
         (''cleanup_evidence_digest'', JString sample_digest)],
       m_marker = Some (i_id cleanup_intent), m_resume = None\<rparr>,
     t_reason = None, t_actor = None\<rparr>"

definition failed_event :: run_event where
  "failed_event = \<lparr>event_id = ''evt_'' @ take 26 ''r:1:run.failed'', run_id = ''r'', work_order_id = ''w'',
     attempt_id = ''a'', seq = 8, occurred_at = ''2026'', event_type = ''run.failed'',
     event_phase = FAILED, payload = failed_payload, policy_digest = sample_digest\<rparr>"

lemma failed_parsed:
  "parse_event transition_env (new_event_json transition_env (sample_admission ''r'') ''r'' 8 ''2026''
       ''run.failed'' FAILED failed_payload) = Inr failed_event"
proof -
  note q = conforming_event [of transition_env "''evt_'' @ take 26 ''r:1:run.failed''" "''r''" "''w''" "''a''"
      8 sample_digest "''run.failed''" "Fixed FAILED" _ FAILED failed_payload "''2026''"]
  have "check_payload (Fixed FAILED) FAILED failed_payload = Inr ()"
    by (simp add: failed_payload_def pause_payload_def check_payload_def observation_mismatch_def text_field_def)
  then show ?thesis using q
    by (simp add: new_event_json_def event_id_of_def transition_env_def sample_store_env_def digest_env_def
        sample_env_def sample_admission_def sample_digest_ok word_defs contract_defs safe_int_def
        payload_defs phase_text_def failed_event_def failed_payload_def pause_payload_def
        terminalStopPayloadSchema_def stop_fields_def upper_alpha_def evidenceRefsSchema_def)
qed

lemma failed_checks:
  "transition_checks sealed_terminal transition_env cleaned_store cleaned_run (sample_admission ''r'')
      failed_transition failed_event ''2026'' = Inr ()"
  by code_simp

lemma failed_checkpoint:
  "case transition_checkpoint transition_env cleaned_store failed_transition
      (transition_binding failed_transition (sample_admission ''r'') failed_event None ''2026'') of
     Inr (Some (v, k)) \<Rightarrow> insertAsfCheckpoint empty_store k ''doc'' ''2026'' \<noteq> Inl Rejected
   | _ \<Rightarrow> False"
  by code_simp

lemma first_checkpoint: "checkpoints db = [] \<Longrightarrow> \<exists>db' x. insertAsfCheckpoint db k c t = Inr (db', x)"
  by (auto simp: insertAsfCheckpoint_def getAsfCheckpointRecord_def Let_def)

lemma failed_accepted:
  "\<exists>db'. transitionAsfRun sealed_terminal transition_env cleaned_store failed_transition = Inr (db', failed_event)"
proof -
  have tables: "getAsfRun cleaned_store ''r'' = Some cleaned_run"
    "getAsfAdmissionForRun cleaned_store ''r'' = Some (sample_admission ''r'')"
    "\<not> superseded_intent cleaned_store failed_transition" "now_iso transition_env = Inr ''2026''"
    "assertRunPhaseTransition IMPLEMENTING FAILED = Inr ()" "checkpoints cleaned_store = []"
    "next_candidate cleaned_run failed_transition failed_event = None"
    by code_simp+
  have "assertRunEventTransition IMPLEMENTING failed_event = Inr ()"
    by (simp add: failed_event_def) code_simp
  then have event: "transition_event transition_env cleaned_store cleaned_run (sample_admission ''r'')
      failed_transition ''2026'' = Inr (failed_event, False)"
    using failed_parsed
    by (simp add: transition_event_def derived_payload_def failed_transition_def cleaned_run_def sample_run_def)
  obtain v k where k: "transition_checkpoint transition_env cleaned_store failed_transition
      (transition_binding failed_transition (sample_admission ''r'') failed_event None ''2026'') = Inr (Some (v, k))"
    using failed_checkpoint by (auto split: sum.splits option.splits prod.splits)
  have "\<exists>db1. change_run cleaned_store ''r''
      (\<lambda>q. r_state q = IMPLEMENTING \<and> r_version q = 7 \<and> r_owner q = Some ''o'' \<and> r_generation q = 2)
      (moved_run failed_transition None ''2026'') = Inr db1 \<and>
      transitions db1 = [] \<and> events db1 = [] \<and> checkpoints db1 = []"
    by (simp add: change_run_def tables) (simp add: cleaned_run_def sample_run_def cleaned_store_def empty_store_def)
  then obtain db1 where db1: "change_run cleaned_store ''r''
      (\<lambda>q. r_state q = IMPLEMENTING \<and> r_version q = 7 \<and> r_owner q = Some ''o'' \<and> r_generation q = 2)
      (moved_run failed_transition None ''2026'') = Inr db1"
      "transitions db1 = []" "events db1 = []" "checkpoints db1 = []" by blast
  let ?db2 = "db1\<lparr>transitions := [\<lparr>st_run = ''r'', st_seq = 8, st_from = IMPLEMENTING, st_to = FAILED,
     st_reason = None, st_actor = ''orchestrator'', st_at = ''2026''\<rparr>],
     events := [event_row_of transition_env ''r'' 8 ''run.failed'' failed_event]\<rparr>"
  have history: "append_history transition_env db1 ''r'' 8 IMPLEMENTING FAILED ''run.failed'' failed_event None
      ''orchestrator'' ''2026'' = Inr ?db2"
    by (simp add: append_history_def insert_transition_def insert_event_def db1)
  obtain db3 x where "insertAsfCheckpoint (recordAsfGateResults ?db2 ''r'' failed_event) k
      (canonicalJson transition_env v) ''2026'' = Inr (db3, x)"
    using first_checkpoint [of "recordAsfGateResults ?db2 ''r'' failed_event" k "canonicalJson transition_env v" "''2026''"]
    by (auto simp: db1)
  with db1(1) history have commit: "\<exists>db'. commit_transition transition_env cleaned_store failed_transition
      failed_event False None (Some (v, k)) ''2026'' = Inr db'"
    by (simp add: commit_transition_def failed_transition_def failed_event_def store_checkpoint_def split: prod.splits)
  have fields: "t_run failed_transition = ''r''" "r_owner cleaned_run = Some (t_owner failed_transition)"
    "r_generation cleaned_run = t_generation failed_transition" "r_state cleaned_run = t_from failed_transition"
    "r_version cleaned_run = t_version failed_transition" "t_from failed_transition = IMPLEMENTING"
    "t_to failed_transition = FAILED"
    by (simp_all add: failed_transition_def cleaned_run_def sample_run_def)
  show ?thesis
    using tables event failed_checks k commit fields by (auto simp: transitionAsfRun_def)
qed


end
