(* ===== verification/Run_Cancellation.thy ===== *)
theory Run_Cancellation
  imports Run_Transition
begin

text \<open>
  Cancellation of a run (\<open>src/src/asf/cancellation.ts\<close> and its transaction in \<open>src/src/state/store.ts\<close>): the
  request as it is parsed, the applied policy, and the transaction that records the request and revokes
  the current fencing generation, with one escalation from a graceful to a forced cancellation.
\<close>

section \<open>Requests\<close>

text \<open>The reason is trimmed before it is checked; the reading below returns it trimmed.\<close>

definition reasonSchema :: zschema where
  "reasonSchema = ZString (\<lambda>s. js_trim s \<noteq> [] \<and> length (js_trim s) \<le> 2048)"

definition grace_consistent :: "json \<Rightarrow> bool" where
  "grace_consistent j =
     (case j of
        JObject ms \<Rightarrow>
          (case int_field ms ''grace_seconds'' of
             None \<Rightarrow> False
           | Some n \<Rightarrow>
               (text_field ms ''mode'' = Some ''graceful'' \<longrightarrow> n \<ge> 1) \<and>
               (text_field ms ''mode'' = Some ''forced'' \<longrightarrow> n = 0))
      | _ \<Rightarrow> False)"

definition cancellationRequestSchema :: zschema where
  "cancellationRequestSchema = ZRefine (ZObject
     [required ''schema'' (ZLiteral ''asf.cancellation-request/v1''),
      required ''request_id'' (ZString approval_identifier),
      required ''run_id'' (ZString approval_identifier),
      required ''requester'' (ZObject [required ''subject'' (ZString approval_identifier),
                                       required ''authority'' (ZLiteral ''asf:cancel'')]),
      required ''reason'' reasonSchema,
      required ''mode'' (ZEnum [''graceful'', ''forced'']),
      required ''grace_seconds'' (ZInt (\<lambda>n. 0 \<le> n \<and> n \<le> 300))]) grace_consistent"

record cancellation_request =
  cq_id :: string
  cq_run :: string
  cq_subject :: string
  cq_authority :: string
  cq_reason :: string
  cq_forced :: bool
  cq_grace :: int

definition mode_text :: "bool \<Rightarrow> string" where
  "mode_text forced = (if forced then ''forced'' else ''graceful'')"

definition mode_of :: "string \<Rightarrow> bool option" where
  "mode_of s = (if s = ''forced'' then Some True else if s = ''graceful'' then Some False else None)"

definition read_cancellation :: "json \<Rightarrow> cancellation_request option" where
  "read_cancellation j =
     (case j of
        JObject ms \<Rightarrow>
          (case (text_field ms ''request_id'', text_field ms ''run_id'', object_field ms ''requester'',
                 text_field ms ''reason'', Option.bind (text_field ms ''mode'') mode_of,
                 int_field ms ''grace_seconds'') of
             (Some id', Some run, Some who, Some reason, Some forced, Some grace) \<Rightarrow>
               (case (text_field who ''subject'', text_field who ''authority'') of
                  (Some sub, Some auth) \<Rightarrow>
                    Some \<lparr>cq_id = id', cq_run = run, cq_subject = sub, cq_authority = auth,
                      cq_reason = js_trim reason, cq_forced = forced, cq_grace = grace\<rparr>
                | _ \<Rightarrow> None)
           | _ \<Rightarrow> None)
      | _ \<Rightarrow> None)"

definition parseCancellationRequest :: "store_env \<Rightarrow> json \<Rightarrow> store_error + cancellation_request" where
  "parseCancellationRequest env raw =
     (case Option.bind (safe_parse (recovery env) cancellationRequestSchema raw) read_cancellation of
        None \<Rightarrow> Inl CancellationConflict
      | Some r \<Rightarrow> Inr r)"

definition cancellation_json :: "cancellation_request \<Rightarrow> json" where
  "cancellation_json q = JObject
     [(''schema'', JString ''asf.cancellation-request/v1''), (''request_id'', JString (cq_id q)),
      (''run_id'', JString (cq_run q)),
      (''requester'', JObject [(''subject'', JString (cq_subject q)), (''authority'', JString (cq_authority q))]),
      (''reason'', JString (cq_reason q)), (''mode'', JString (mode_text (cq_forced q))),
      (''grace_seconds'', JNumber (of_int (cq_grace q)))]"

text \<open>The policy that the service attaches to its result, read back with the checks of the reader.\<close>

record applied_policy =
  po_forced :: bool
  po_grace :: int

definition appliedCancellationPolicy :: "applied_policy option \<Rightarrow> applied_policy option" where
  "appliedCancellationPolicy p =
     (case p of
        None \<Rightarrow> None
      | Some q \<Rightarrow>
          if \<not> safe_int (po_grace q) \<or> po_grace q < 0 \<or> (\<not> po_forced q \<and> po_grace q < 1) \<or>
             (po_forced q \<and> po_grace q \<noteq> 0)
          then None else Some q)"

section \<open>The transaction\<close>

datatype cancel_disposition = CancelRequested | CancelExisting | AlreadyTerminal

record cancellation_result =
  cr_request :: string
  cr_run :: string
  cr_disposition :: cancel_disposition
  cr_state :: phase
  cr_generation :: int
  cr_digest :: string
  cr_reconcile :: bool

definition getAsfCancellationRequest :: "store \<Rightarrow> string \<Rightarrow> cancellation_row option" where
  "getAsfCancellationRequest db id' = List.find (\<lambda>c. ca_id c = id') (cancellations db)"

definition cancelling :: "phase \<Rightarrow> bool" where
  "cancelling p \<longleftrightarrow> p = CANCEL_REQUESTED \<or> p = CANCELLING"

text \<open>The mode of the latest cancellation event; \<open>None\<close> when its text does not give one.\<close>

definition prior_mode :: "store_env \<Rightarrow> store \<Rightarrow> string \<Rightarrow> bool option" where
  "prior_mode env db run =
     (case latest_event (filter (\<lambda>w. w_run_id w = run \<and>
          (w_type w = ''cancellation.requested'' \<or> w_type w = ''cancellation.escalated'')) (events db)) of
        None \<Rightarrow> None
      | Some w \<Rightarrow>
          (case json_parse env (w_payload w) of
             Some (JObject ms) \<Rightarrow> Option.bind (text_field ms ''mode'') mode_of
           | _ \<Rightarrow> None))"

definition escalation_refused :: "store_env \<Rightarrow> store \<Rightarrow> run_row \<Rightarrow> cancellation_request \<Rightarrow> bool" where
  "escalation_refused env db r q \<longleftrightarrow>
     cancelling (r_state r) \<and> (prior_mode env db (cq_run q) \<noteq> Some False \<or> \<not> cq_forced q)"

definition cancellation_row_of :: "cancellation_request \<Rightarrow> string \<Rightarrow> string \<Rightarrow> cancellation_row" where
  "cancellation_row_of q digest at_time =
     \<lparr>ca_id = cq_id q, ca_run_id = cq_run q, ca_digest = digest, ca_requester = cq_subject q,
      ca_authority = cq_authority q, ca_reason = cq_reason q, ca_forced = cq_forced q, ca_grace = cq_grace q,
      ca_requested_at = at_time, ca_recorded_at = at_time\<rparr>"

definition insert_cancellation :: "store \<Rightarrow> cancellation_row \<Rightarrow> store_error + store" where
  "insert_cancellation db c =
     (if list_ex (\<lambda>d. ca_id d = ca_id c) (cancellations db) then Inl Rejected
      else Inr (db\<lparr>cancellations := cancellations db @ [c]\<rparr>))"

datatype reconciliation_origin = Preexisting | DurableEffects | ForcedCleanup | NoOrigin

fun origin_text :: "reconciliation_origin \<Rightarrow> string" where
  "origin_text Preexisting = ''preexisting''"
| "origin_text DurableEffects = ''durable-effects''"
| "origin_text ForcedCleanup = ''forced-cancellation-cleanup''"
| "origin_text NoOrigin = ''none''"

definition origin_of :: "store \<Rightarrow> run_row \<Rightarrow> cancellation_request \<Rightarrow> reconciliation_origin" where
  "origin_of db r q =
     (if r_reconcile r then Preexisting
      else if total_pending (asfPendingReconciliationCounts db (cq_run q)) > 0 then DurableEffects
      else if cq_forced q then ForcedCleanup else NoOrigin)"

definition cancellation_payload ::
  "store_env \<Rightarrow> run_row \<Rightarrow> cancellation_request \<Rightarrow> reconciliation_origin \<Rightarrow> (string \<times> json) list" where
  "cancellation_payload env r q origin =
     (let reasonDigest = digest_of env (JObject [(''reason'', JString (cq_reason q))])
      in [(''code'', JString ''CANCELLED''),
          (''summary'', JString ''an authorized controller requested cancellation''),
          (''checkpoint'', JString (phase_text (r_state r))),
          (''retry_disposition'', JString (if origin \<noteq> NoOrigin then ''reconcile-first'' else ''safe'')),
          (''required_actor'', JString ''asf''),
          (''required_action'', JString
             (if origin = ForcedCleanup
              then ''reconcile forced cancellation process state and complete resource cleanup before retry''
              else if origin \<noteq> NoOrigin
              then ''reconcile every unresolved external effect before starting a new attempt''
              else ''wait for the worker to revoke identities and complete cancellation'')),
          (''evidence_refs'', JArray [JString (''cancellation:'' @ cq_id q), JString reasonDigest])] @
         (case r_candidate r of None \<Rightarrow> [] | Some c \<Rightarrow> [(''candidate_sha'', JString c)]) @
         [(''request_id'', JString (cq_id q)), (''requester'', JString (cq_subject q)),
          (''reason'', JString (''protected:'' @ reasonDigest)), (''mode'', JString (mode_text (cq_forced q))),
          (''grace_seconds'', JNumber (of_int (cq_grace q))),
          (''reconciliation_origin'', JString (origin_text origin))])"

definition cancelled_run :: "bool \<Rightarrow> string \<Rightarrow> run_row \<Rightarrow> run_row" where
  "cancelled_run reconcile at_time r =
     r\<lparr>r_state := CANCEL_REQUESTED, r_version := r_version r + 1, r_generation := r_generation r + 1,
       r_owner := None, r_heartbeat := None,
       r_resume_phase := (case r_resume_phase r of None \<Rightarrow> Some (r_state r) | Some p \<Rightarrow> Some p),
       r_reconcile := r_reconcile r \<or> reconcile, r_updated := at_time\<rparr>"

definition result_of :: "cancellation_request \<Rightarrow> string \<Rightarrow> cancel_disposition \<Rightarrow> run_row \<Rightarrow> cancellation_result" where
  "result_of q digest d r =
     \<lparr>cr_request = cq_id q, cr_run = cq_run q, cr_disposition = d, cr_state = r_state r,
      cr_generation = r_generation r, cr_digest = digest, cr_reconcile = r_reconcile r\<rparr>"

definition cancellation_type :: "run_row \<Rightarrow> string" where
  "cancellation_type r = (if cancelling (r_state r) then ''cancellation.escalated'' else ''cancellation.requested'')"

text \<open>The part of the transaction that fences the run, after the request is recorded.\<close>

definition fence_cancelled ::
  "store_env \<Rightarrow> store \<Rightarrow> run_row \<Rightarrow> cancellation_request \<Rightarrow> string \<Rightarrow> store_error + store" where
  "fence_cancelled env db r q at_time =
     (case getAsfAdmissionForRun db (cq_run q) of
        None \<Rightarrow> Inl Rejected
      | Some adm \<Rightarrow>
          and_then (parse_event env (new_event_json env adm (cq_run q) (r_version r + 1) at_time
              (cancellation_type r) CANCEL_REQUESTED (cancellation_payload env r q (origin_of db r q)))) (\<lambda>e.
            case assertRunEventTransition (r_state r) e of
              Inl _ \<Rightarrow> Inl Rejected
            | Inr _ \<Rightarrow>
                and_then (change_run db (cq_run q)
                    (\<lambda>s. r_state s = r_state r \<and> r_version s = r_version r \<and> r_generation s = r_generation r)
                    (cancelled_run (origin_of db r q \<noteq> NoOrigin) at_time)) (\<lambda>db1.
                  append_history env db1 (cq_run q) (r_version r + 1) (r_state r) CANCEL_REQUESTED (event_type e) e
                    (Some ''authorized cancellation request'') (cq_subject q) at_time)))"

definition requestAsfCancellation ::
  "terminal_access \<Rightarrow> store_env \<Rightarrow> store \<Rightarrow> cancellation_request \<Rightarrow> string \<Rightarrow>
     store_error + (store \<times> cancellation_result)" where
  "requestAsfCancellation ta env db q digest =
     (if digest \<noteq> digest_of env (cancellation_json q) then Inl CancellationConflict
      else case getAsfCancellationRequest db (cq_id q) of
        Some c \<Rightarrow>
          if ca_digest c \<noteq> digest \<or> ca_run_id c \<noteq> cq_run q then Inl CancellationConflict
          else (case getAsfRun db (ca_run_id c) of
             None \<Rightarrow> Inl Rejected
           | Some r \<Rightarrow> Inr (db, result_of q digest
                 (if isTerminalRunEventPhase (r_state r) then AlreadyTerminal else CancelExisting) r))
      | None \<Rightarrow>
          (case getAsfRun db (cq_run q) of
             None \<Rightarrow> Inl CancellationConflict
           | Some r \<Rightarrow>
               if \<not> isTerminalRunEventPhase (r_state r) \<and> getAsfTerminalEvidencePlanRecord db (cq_run q) \<noteq> None
               then (if plan_reads ta db (cq_run q) then Inl CancellationConflict else Inl Rejected)
               else if escalation_refused env db r q then Inl CancellationConflict
               else
                 and_then (now_iso env) (\<lambda>at_time.
                 and_then (insert_cancellation db (cancellation_row_of q digest at_time)) (\<lambda>db1.
                   if isTerminalRunEventPhase (r_state r) then Inr (db1, result_of q digest AlreadyTerminal r)
                   else and_then (fence_cancelled env db1 r q at_time) (\<lambda>db2.
                     Inr (db2, result_of q digest CancelRequested
                       (cancelled_run (origin_of db1 r q \<noteq> NoOrigin) at_time r)))))))"

text \<open>The service: the request is parsed, digested and handed to the store; the result carries the policy.\<close>

definition request_cancellation ::
  "terminal_access \<Rightarrow> store_env \<Rightarrow> store \<Rightarrow> json \<Rightarrow>
     store_error + (store \<times> cancellation_result \<times> applied_policy)" where
  "request_cancellation ta env db raw =
     and_then (parseCancellationRequest env raw) (\<lambda>q.
     and_then (requestAsfCancellation ta env db q (digest_of env (cancellation_json q))) (\<lambda>(db', res).
       Inr (db', res, \<lparr>po_forced = cq_forced q, po_grace = cq_grace q\<rparr>)))"

section \<open>Lemmas\<close>

lemma fence_shape:
  assumes "fence_cancelled env db r q t = Inr db'" and "getAsfRun db (cq_run q) = Some r"
  shows "\<exists>e. db' = (update_run db (cq_run q) (cancelled_run (origin_of db r q \<noteq> NoOrigin) t))
      \<lparr>transitions := transitions db @ [\<lparr>st_run = cq_run q, st_seq = r_version r + 1, st_from = r_state r,
          st_to = CANCEL_REQUESTED, st_reason = Some ''authorized cancellation request'', st_actor = cq_subject q,
          st_at = t\<rparr>],
       events := events db @ [event_row_of env (cq_run q) (r_version r + 1) (event_type e) e]\<rparr> \<and>
     list_all (\<lambda>w. w_run_id w \<noteq> cq_run q \<or> w_seq w \<noteq> r_version r + 1) (events db) \<and>
     assertRunEventTransition (r_state r) e = Inr ()"
proof -
  obtain adm e u db1 where c: "assertRunEventTransition (r_state r) e = Inr u"
    "change_run db (cq_run q)
        (\<lambda>s. r_state s = r_state r \<and> r_version s = r_version r \<and> r_generation s = r_generation r)
        (cancelled_run (origin_of db r q \<noteq> NoOrigin) t) = Inr db1"
    "append_history env db1 (cq_run q) (r_version r + 1) (r_state r) CANCEL_REQUESTED (event_type e) e
                    (Some ''authorized cancellation request'') (cq_subject q) t = Inr db'"
    using assms(1) unfolding fence_cancelled_def step_iff by blast
  from append_history_Inr [OF c(3)] change_run_Inr [OF c(2)] c(1) show ?thesis by auto
qed

lemma cancel_shape:
  assumes "requestAsfCancellation ta env db q digest = Inr (db', res)"
  shows "\<exists>r. getAsfRun db (cq_run q) = Some r \<and> cr_run res = cq_run q \<and>
     (cr_disposition res \<noteq> CancelRequested \<and> (\<exists>cs. db' = db\<lparr>cancellations := cs\<rparr>) \<or>
      cr_disposition res = CancelRequested \<and> getAsfCancellationRequest db (cq_id q) = None \<and>
      \<not> isTerminalRunEventPhase (r_state r) \<and>
      getAsfTerminalEvidencePlanRecord db (cq_run q) = None \<and> \<not> escalation_refused env db r q \<and>
      (\<exists>t cs. fence_cancelled env (db\<lparr>cancellations := cs\<rparr>) r q t = Inr db' \<and>
         res = result_of q digest CancelRequested (cancelled_run (origin_of (db\<lparr>cancellations := cs\<rparr>) r q \<noteq> NoOrigin) t r)))"
proof (cases "getAsfCancellationRequest db (cq_id q)")
  case (Some c)
  then have m: "(if ca_digest c \<noteq> digest \<or> ca_run_id c \<noteq> cq_run q then Inl CancellationConflict
          else (case getAsfRun db (ca_run_id c) of
             None \<Rightarrow> Inl Rejected
           | Some r \<Rightarrow> Inr (db, result_of q digest
                 (if isTerminalRunEventPhase (r_state r) then AlreadyTerminal else CancelExisting) r))) = Inr (db', res)"
    using assms by (simp add: requestAsfCancellation_def Some split: if_split_asm)
  then obtain r where "getAsfRun db (cq_run q) = Some r" "db' = db"
    "res = result_of q digest (if isTerminalRunEventPhase (r_state r) then AlreadyTerminal else CancelExisting) r"
    by (auto split: if_splits option.splits)
  then show ?thesis by (auto simp: result_of_def intro!: exI [of _ "cancellations db"])
next
  case None
  obtain r where r: "getAsfRun db (cq_run q) = Some r"
    using assms None unfolding requestAsfCancellation_def guard_Inr_iff by (auto split: option.splits)
  have body: "(if \<not> isTerminalRunEventPhase (r_state r) \<and> getAsfTerminalEvidencePlanRecord db (cq_run q) \<noteq> None
               then (if plan_reads ta db (cq_run q) then Inl CancellationConflict else Inl Rejected)
               else if escalation_refused env db r q then Inl CancellationConflict
               else
                 and_then (now_iso env) (\<lambda>at_time.
                 and_then (insert_cancellation db (cancellation_row_of q digest at_time)) (\<lambda>db1.
                   if isTerminalRunEventPhase (r_state r) then Inr (db1, result_of q digest AlreadyTerminal r)
                   else and_then (fence_cancelled env db1 r q at_time) (\<lambda>db2.
                     Inr (db2, result_of q digest CancelRequested
                       (cancelled_run (origin_of db1 r q \<noteq> NoOrigin) at_time r)))))) = Inr (db', res)"
    using assms unfolding requestAsfCancellation_def guard_Inr_iff None option.case r by blast
  then obtain t db1 where c: "isTerminalRunEventPhase (r_state r) \<or> getAsfTerminalEvidencePlanRecord db (cq_run q) = None"
    "\<not> escalation_refused env db r q"
    "insert_cancellation db (cancellation_row_of q digest t) = Inr db1"
    "(if isTerminalRunEventPhase (r_state r) then Inr (db1, result_of q digest AlreadyTerminal r)
      else and_then (fence_cancelled env db1 r q t) (\<lambda>db2.
        Inr (db2, result_of q digest CancelRequested
          (cancelled_run (origin_of db1 r q \<noteq> NoOrigin) t r)))) = Inr (db', res)"
    by (auto simp: and_then_Inr_iff split: if_splits)
  obtain cs where cs: "db1 = db\<lparr>cancellations := cs\<rparr>"
    using c(3) by (auto simp: insert_cancellation_def split: if_splits)
  show ?thesis
  proof (cases "isTerminalRunEventPhase (r_state r)")
    case True
    with c(4) r show ?thesis by (auto simp: result_of_def cs)
  next
    case False
    with c r None show ?thesis by (auto simp: and_then_Inr_iff cs result_of_def)
  qed
qed

lemma cancelled_run_id: "r_run_id (cancelled_run b t r) = r_run_id r"
  by (simp add: cancelled_run_def)


definition sample_cancellation :: cancellation_request where
  "sample_cancellation = \<lparr>cq_id = ''q'', cq_run = ''r'', cq_subject = ''ops'', cq_authority = ''asf:cancel'',
     cq_reason = ''stop'', cq_forced = True, cq_grace = 0\<rparr>"

definition verified_run :: run_row where
  "verified_run = (sample_run ''r'')\<lparr>r_state := LOCAL_VERIFY, r_version := 7, r_candidate := Some sample_sha,
     r_generation := 2, r_owner := Some ''o''\<rparr>"

definition cancelled_event :: run_event where
  "cancelled_event = \<lparr>event_id = ''evt_'' @ take 26 ''r:1:cancellation.requested'', run_id = ''r'',
     work_order_id = ''w'', attempt_id = ''a'', seq = 8, occurred_at = ''2026'',
     event_type = ''cancellation.requested'', event_phase = CANCEL_REQUESTED,
     payload = cancellation_payload transition_env verified_run sample_cancellation ForcedCleanup,
     policy_digest = sample_digest\<rparr>"

lemma sample_reason_digest:
  "digest_of transition_env (JObject [(''reason'', JString ''stop'')]) = sample_digest"
  by (simp add: digest_of_def transition_env_def sample_store_env_def digest_env_def)

lemma sample_cancellation_payload:
  "cancellation_payload transition_env verified_run sample_cancellation ForcedCleanup =
     [(''code'', JString ''CANCELLED''), (''summary'', JString ''an authorized controller requested cancellation''),
      (''checkpoint'', JString ''LOCAL_VERIFY''), (''retry_disposition'', JString ''reconcile-first''),
      (''required_actor'', JString ''asf''),
      (''required_action'', JString
        ''reconcile forced cancellation process state and complete resource cleanup before retry''),
      (''evidence_refs'', JArray [JString ''cancellation:q'', JString sample_digest]),
      (''candidate_sha'', JString sample_sha), (''request_id'', JString ''q''), (''requester'', JString ''ops''),
      (''reason'', JString (''protected:'' @ sample_digest)), (''mode'', JString ''forced''),
      (''grace_seconds'', JNumber 0), (''reconciliation_origin'', JString ''forced-cancellation-cleanup'')]"
  by (simp add: cancellation_payload_def sample_cancellation_def sample_reason_digest verified_run_def
      phase_text_def RUN_EVENT_PHASES_def mode_text_def)

lemma cancelled_parsed:
  "parse_event transition_env (new_event_json transition_env (sample_admission ''r'') ''r'' 8 ''2026''
       ''cancellation.requested'' CANCEL_REQUESTED
       (cancellation_payload transition_env verified_run sample_cancellation ForcedCleanup)) = Inr cancelled_event"
proof -
  let ?pl = "cancellation_payload transition_env verified_run sample_cancellation ForcedCleanup"
  note q = conforming_event [of transition_env "''evt_'' @ take 26 ''r:1:cancellation.requested''" "''r''" "''w''" "''a''"
      8 sample_digest "''cancellation.requested''" "Fixed CANCEL_REQUESTED" cancellationPayloadSchema CANCEL_REQUESTED ?pl
      "''2026''"]
  have "check_payload (Fixed CANCEL_REQUESTED) CANCEL_REQUESTED ?pl = Inr ()"
    by (simp add: sample_cancellation_payload check_payload_def observation_mismatch_def text_field_def)
  moreover have "conforms cancellationPayloadSchema (JObject ?pl)"
    by (simp add: sample_cancellation_payload cancellationPayloadSchema_def cancellation_fields_def stop_fields_def
        payload_defs upper_alpha_def char_in_def evidenceRefsSchema_def sample_digest_def safe_int_def)
  moreover have "map_of (RUN_EVENT_CONTRACTS sample_formats) ''cancellation.requested'' =
      Some (Fixed CANCEL_REQUESTED, cancellationPayloadSchema)" by (simp add: contract_defs)
  ultimately show ?thesis using q
    by (simp add: new_event_json_def event_id_of_def transition_env_def sample_store_env_def digest_env_def
        sample_env_def sample_admission_def sample_digest_ok word_defs safe_int_def cancelled_event_def)
qed

lemma cancellation_accepted:
  "\<exists>db' res. requestAsfCancellation no_terminal transition_env verified_store sample_cancellation sample_digest =
     Inr (db', res) \<and> cr_disposition res = CancelRequested"
proof -
  let ?db1 = "verified_store\<lparr>cancellations := [cancellation_row_of sample_cancellation sample_digest ''2026'']\<rparr>"
  have tables: "getAsfRun verified_store ''r'' = Some verified_run" "getAsfRun ?db1 ''r'' = Some verified_run"
    "getAsfAdmissionForRun ?db1 ''r'' = Some (sample_admission ''r'')"
    "getAsfTerminalEvidencePlanRecord verified_store ''r'' = None"
    "getAsfCancellationRequest verified_store ''q'' = None" "now_iso transition_env = Inr ''2026''"
    "insert_cancellation verified_store (cancellation_row_of sample_cancellation sample_digest ''2026'') = Inr ?db1"
    "origin_of ?db1 verified_run sample_cancellation = ForcedCleanup"
    "cancellation_type verified_run = ''cancellation.requested''" "\<not> isTerminalRunEventPhase LOCAL_VERIFY"
    "escalation_refused transition_env verified_store verified_run sample_cancellation = False"
    "digest_of transition_env (cancellation_json sample_cancellation) = sample_digest"
    "transitions ?db1 = []" "events ?db1 = []"
    by code_simp+
  have fields: "cq_run sample_cancellation = ''r''" "cq_id sample_cancellation = ''q''"
    "r_state verified_run = LOCAL_VERIFY" "r_version verified_run = 7"
    by (simp_all add: sample_cancellation_def verified_run_def)
  have "assertRunEventTransition LOCAL_VERIFY cancelled_event = Inr ()"
    by (simp add: cancelled_event_def sample_cancellation_payload) code_simp
  then have "\<exists>db'. fence_cancelled transition_env ?db1 verified_run sample_cancellation ''2026'' = Inr db'"
    using cancelled_parsed tables
    by (simp add: fence_cancelled_def fields change_run_def append_history_def insert_transition_def insert_event_def)
  then show ?thesis using tables
    by (auto simp: requestAsfCancellation_def fields result_of_def)
qed


end
