(* ===== verification/Reconciliation.thy ===== *)
theory Reconciliation
  imports Run_Cancellation
begin

text \<open>
  Reconciliation of unresolved effects (\<open>src/src/state/store.ts\<close>, types in \<open>src/src/asf/reconciliation.ts\<close>):
  discovery, the durable request with its snapshot of the pending set, the claim under the run's fence, the
  validation of a result against the snapshot and the ledgers, the result rebuilt from the ledgers, and the
  completion, which resumes a blocked run to its durable interrupted phase or leaves it blocked.
\<close>

section \<open>Discovery\<close>

record pending_run =
  pr_run :: string
  pr_digest :: string
  pr_github :: nat
  pr_delivery :: nat

definition pending_run_of :: "string \<Rightarrow> pending_set \<Rightarrow> pending_run" where
  "pending_run_of run p = \<lparr>pr_run = run, pr_digest = ps_digest p, pr_github = ps_github p, pr_delivery = ps_delivery p\<rparr>"

definition bounded_int :: "int \<Rightarrow> int \<Rightarrow> int \<Rightarrow> bool" where
  "bounded_int lo hi n \<longleftrightarrow> safe_int n \<and> lo \<le> n \<and> n \<le> hi"

definition getPendingAsfReconciliationRun ::
  "store_env \<Rightarrow> store \<Rightarrow> string \<Rightarrow> int \<Rightarrow> store_error + pending_run option" where
  "getPendingAsfReconciliationRun env db run limit =
     (if \<not> ASF_DELIVERY_IDENTIFIER run \<or> \<not> bounded_int 1 100000 limit then Inl ReconciliationConflict
      else if getAsfRun db run = None then Inr None
      else and_then (canonicalAsfPendingSet env db run) (\<lambda>p.
        if ps_github p + ps_delivery p = 0 then Inr None
        else if int (ps_github p + ps_delivery p) > limit then Inl ReconciliationConflict
        else Inr (Some (pending_run_of run p))))"

fun found_intents :: "store_env \<Rightarrow> store \<Rightarrow> string list \<Rightarrow> store_error + stored_intent list" where
  "found_intents env db [] = Inr []"
| "found_intents env db (k # ks) =
     and_then (getAsfDeliveryIntent env db k) (\<lambda>found.
       case found of
         None \<Rightarrow> Inl ReconciliationConflict
       | Some i \<Rightarrow> and_then (found_intents env db ks) (\<lambda>js. Inr (i # js)))"

definition listPendingAsfDeliveryIntents ::
  "store_env \<Rightarrow> store \<Rightarrow> string \<Rightarrow> int \<Rightarrow> store_error + stored_intent list" where
  "listPendingAsfDeliveryIntents env db run limit =
     (if \<not> ASF_DELIVERY_IDENTIFIER run \<or> \<not> bounded_int 1 100000 limit then Inl ReconciliationConflict
      else let keys = take (nat limit + 1)
                 (sort (map i_effect_key (filter (\<lambda>i. i_run_id i = run \<and> i_outcome i = None) (intents db))))
           in if int (length keys) > limit then Inl ReconciliationConflict else found_intents env db keys)"

definition has_pending :: "store \<Rightarrow> string \<Rightarrow> bool" where
  "has_pending db run \<longleftrightarrow>
     list_ex (\<lambda>e. e_run_id e = run \<and> effect_pending e) (effects db) \<or>
     list_ex (\<lambda>i. i_run_id i = run \<and> i_outcome i = None) (intents db)"

fun pending_runs :: "store_env \<Rightarrow> store \<Rightarrow> int \<Rightarrow> string list \<Rightarrow> store_error + pending_run list" where
  "pending_runs env db limit [] = Inr []"
| "pending_runs env db limit (run # rs) =
     and_then (canonicalAsfPendingSet env db run) (\<lambda>p.
       if int (ps_github p + ps_delivery p) > limit then Inl ReconciliationConflict
       else if ps_github p + ps_delivery p = 0 then Inl ReconciliationConflict
       else if \<not> ASF_DELIVERY_IDENTIFIER run then Inl ReconciliationConflict
       else and_then (pending_runs env db limit rs) (\<lambda>ps. Inr (pending_run_of run p # ps)))"

definition discoverPendingAsfReconciliationRuns ::
  "store_env \<Rightarrow> store \<Rightarrow> string option \<Rightarrow> int \<Rightarrow> int \<Rightarrow>
     store_error + (pending_run list \<times> string option)" where
  "discoverPendingAsfReconciliationRuns env db after limit perRun =
     (if \<not> absent_or ASF_DELIVERY_IDENTIFIER after \<or> \<not> bounded_int 1 1000 limit \<or> \<not> bounded_int 1 100000 perRun
      then Inl ReconciliationConflict
      else let found = take (nat limit) (sort (map r_run_id
                 (filter (\<lambda>r. absent_or (\<lambda>a. r_run_id r > a) after \<and> has_pending db (r_run_id r)) (runs db))))
           in and_then (pending_runs env db perRun found) (\<lambda>ps.
                Inr (ps, if int (length found) = limit then last_of found else None)))"

section \<open>Requests\<close>

record reconciliation_request =
  rq_operation :: string
  rq_run :: string
  rq_subject :: string
  rq_authority :: string
  rq_scope :: string

definition reconciliationRequestSchema :: zschema where
  "reconciliationRequestSchema = ZObject
     [required ''schema'' (ZLiteral ''asf.reconciliation-request/v1''),
      required ''operation_id'' (ZString approval_identifier),
      required ''run_id'' (ZString approval_identifier),
      required ''requested_by'' (ZObject [required ''subject'' (ZString approval_identifier),
                                          required ''authority'' (ZLiteral ''asf:reconcile'')]),
      required ''scope'' (ZLiteral ''pending-effects'')]"

definition reconciliation_request_json :: "reconciliation_request \<Rightarrow> json" where
  "reconciliation_request_json q = JObject
     [(''schema'', JString ''asf.reconciliation-request/v1''), (''operation_id'', JString (rq_operation q)),
      (''run_id'', JString (rq_run q)),
      (''requested_by'', JObject [(''subject'', JString (rq_subject q)), (''authority'', JString (rq_authority q))]),
      (''scope'', JString (rq_scope q))]"

datatype request_disposition = RequestQueued | RequestExisting | NothingToReconcile

record request_result =
  rr_operation :: string
  rr_run :: string
  rr_disposition :: request_disposition
  rr_status :: reconciliation_status
  rr_digest :: string
  rr_requested_at :: string

definition request_result_of :: "request_disposition \<Rightarrow> reconciliation_row \<Rightarrow> request_result" where
  "request_result_of d k = \<lparr>rr_operation = k_operation k, rr_run = k_run_id k, rr_disposition = d,
     rr_status = k_status k, rr_digest = k_request_digest k, rr_requested_at = k_requested_at k\<rparr>"

definition active_operation :: "store \<Rightarrow> string \<Rightarrow> reconciliation_row option" where
  "active_operation db run =
     List.find (\<lambda>k. k_run_id k = run \<and> (k_status k = ReconQueued \<or> k_status k = ReconRunning)) (reconciliations db)"

record observation_item =
  ob_class :: string
  ob_key :: string
  ob_outcome :: outcome

definition item_json :: "observation_item \<Rightarrow> json" where
  "item_json b = JObject [(''effect_class'', JString (ob_class b)), (''effect_key'', JString (ob_key b)),
     (''outcome'', JString (outcome_text (ob_outcome b)))]"

definition result_json :: "string \<Rightarrow> string \<Rightarrow> string \<Rightarrow> observation_item list \<Rightarrow> json" where
  "result_json op run pending bs = JObject
     [(''schema'', JString ''asf.reconciliation-result/v1''), (''operation_id'', JString op),
      (''run_id'', JString run), (''pending_set_digest'', JString pending),
      (''observations'', JArray (map item_json bs))]"

definition new_operation ::
  "store_env \<Rightarrow> reconciliation_request \<Rightarrow> string \<Rightarrow> pending_set \<Rightarrow> string \<Rightarrow> reconciliation_row" where
  "new_operation env q digest p at_time =
     (let none = (ps_github p + ps_delivery p = 0);
          result = result_json (rq_operation q) (rq_run q) (ps_digest p) []
      in \<lparr>k_operation = rq_operation q, k_run_id = rq_run q, k_request_digest = digest,
          k_requested_by = rq_subject q, k_authority = rq_authority q, k_scope = rq_scope q,
          k_status = (if none then ReconCompleted else ReconQueued), k_generation = None, k_owner = None,
          k_requested_at = at_time, k_started_at = None, k_completed_at = (if none then Some at_time else None),
          k_result_digest = (if none then Some (digest_of env result) else None),
          k_pending_digest = Some (ps_digest p), k_pending_github = Some (ps_github p),
          k_pending_delivery = Some (ps_delivery p), k_canonical_pending = Some (ps_canonical p),
          k_result = (if none then Some (canonicalJson env result) else None), k_resumed_seq = None\<rparr>)"

text \<open>The primary key, the unique request digest and at most one active operation of a run.\<close>

definition insert_operation :: "store \<Rightarrow> reconciliation_row \<Rightarrow> store_error + store" where
  "insert_operation db k =
     (if list_ex (\<lambda>l. k_operation l = k_operation k \<or> k_request_digest l = k_request_digest k) (reconciliations db)
      then Inl Rejected
      else if (k_status k = ReconQueued \<or> k_status k = ReconRunning) \<and> active_operation db (k_run_id k) \<noteq> None
      then Inl Rejected
      else Inr (db\<lparr>reconciliations := reconciliations db @ [k]\<rparr>))"

definition recordAsfReconciliationRequest ::
  "terminal_access \<Rightarrow> store_env \<Rightarrow> store \<Rightarrow> reconciliation_request \<Rightarrow> string \<Rightarrow>
     store_error + (store \<times> request_result)" where
  "recordAsfReconciliationRequest ta env db q digest =
     (if digest \<noteq> digest_of env (reconciliation_request_json q) then Inl ReconciliationConflict
      else case getAsfReconciliation db (rq_operation q) of
        Some k \<Rightarrow>
          if k_request_digest k \<noteq> digest then Inl ReconciliationConflict
          else Inr (db, request_result_of
            (if k_status k = ReconCompleted \<and> k_started_at k = None then NothingToReconcile else RequestExisting) k)
      | None \<Rightarrow>
          (case getAsfRun db (rq_run q) of
             None \<Rightarrow> Inl ReconciliationConflict
           | Some r \<Rightarrow>
               if getAsfTerminalEvidencePlanRecord db (rq_run q) \<noteq> None
               then (if plan_reads ta db (rq_run q) then Inl ReconciliationConflict else Inl Rejected)
               else (case active_operation db (rq_run q) of
                  Some k \<Rightarrow> Inr (db, request_result_of RequestExisting k)
                | None \<Rightarrow>
                    and_then (canonicalAsfPendingSet env db (rq_run q)) (\<lambda>p.
                      if ps_github p + ps_delivery p = 0 \<and> r_reconcile r then Inl ReconciliationConflict
                      else and_then (now_iso env) (\<lambda>at_time.
                           let k = new_operation env q digest p at_time
                           in and_then (insert_operation db k) (\<lambda>db'.
                                Inr (db', request_result_of
                                  (if ps_github p + ps_delivery p = 0 then NothingToReconcile else RequestQueued) k)))))))"

record recovery_cursor =
  rc_requested_at :: string
  rc_operation :: string

definition cursor_ok :: "store_env \<Rightarrow> (recovery_cursor option \<times> int) option \<Rightarrow> bool" where
  "cursor_ok env input \<longleftrightarrow>
     (case input of
        None \<Rightarrow> True
      | Some (after, limit) \<Rightarrow>
          bounded_int 1 1000 limit \<and>
          absent_or (\<lambda>c. ASF_DELIVERY_IDENTIFIER (rc_operation c) \<and> parse_time env (rc_requested_at c) \<noteq> None) after)"

definition listRecoverableAsfReconciliations ::
  "store_env \<Rightarrow> store \<Rightarrow> (recovery_cursor option \<times> int) option \<Rightarrow> store_error + reconciliation_row list" where
  "listRecoverableAsfReconciliations env db input =
     (if \<not> cursor_ok env input then Inl ReconciliationConflict
      else
        let active = sort_key (\<lambda>k. (k_requested_at k, k_operation k))
              (filter (\<lambda>k. k_status k = ReconQueued \<or> k_status k = ReconRunning) (reconciliations db))
        in (case input of
              None \<Rightarrow> Inr active
            | Some (after, limit) \<Rightarrow> Inr (take (nat limit) (filter (\<lambda>k. absent_or (\<lambda>c.
                (rc_requested_at c, rc_operation c) < (k_requested_at k, k_operation k)) after) active))))"

section \<open>Claiming\<close>

datatype claim_outcome = OperationFinished | OwnerLive | OperationClaimed string int

definition update_operation ::
  "store \<Rightarrow> string \<Rightarrow> (reconciliation_row \<Rightarrow> reconciliation_row) \<Rightarrow> store" where
  "update_operation db op f =
     db\<lparr>reconciliations := map (\<lambda>k. if k_operation k = op then f k else k) (reconciliations db)\<rparr>"

definition claimAsfReconciliation ::
  "terminal_access \<Rightarrow> store_env \<Rightarrow> store \<Rightarrow> string \<Rightarrow> string \<Rightarrow> string \<Rightarrow>
     store_error + (store \<times> claim_outcome)" where
  "claimAsfReconciliation ta env db op owner staleBefore =
     (case getAsfReconciliation db op of
        None \<Rightarrow> Inl ReconciliationConflict
      | Some k \<Rightarrow>
          if k_status k = ReconCompleted \<or> k_status k = ReconBlocked then Inr (db, OperationFinished)
          else (case getAsfRun db (k_run_id k) of
             None \<Rightarrow> Inl Rejected
           | Some r \<Rightarrow>
               if getAsfTerminalEvidencePlanRecord db (k_run_id k) \<noteq> None
               then (if plan_reads ta db (k_run_id k) then Inl ReconciliationConflict else Inl Rejected)
               else if live_owner staleBefore r then Inr (db, OwnerLive)
               else and_then (now_iso env) (\<lambda>at_time.
                 let gen = r_generation r + 1;
                     db1 = update_run db (k_run_id k) (\<lambda>q. q\<lparr>r_generation := gen, r_owner := Some owner,
                       r_heartbeat := Some at_time, r_updated := at_time\<rparr>);
                     db2 = update_operation db1 op (\<lambda>l. l\<lparr>k_status := ReconRunning, k_generation := Some gen,
                       k_owner := Some owner,
                       k_started_at := (case k_started_at l of None \<Rightarrow> Some at_time | s \<Rightarrow> s)\<rparr>)
                 in Inr (db2, OperationClaimed (k_run_id k) gen))))"

section \<open>Results\<close>

text \<open>The immutable snapshot of the pending set, content-addressed, with its effects.\<close>

definition snapshot_effects :: "store_env \<Rightarrow> reconciliation_row \<Rightarrow> store_error + json list" where
  "snapshot_effects env k =
     (case (k_canonical_pending k, k_pending_digest k) of
        (Some text, Some digest) \<Rightarrow>
          (case json_parse env text of
             Some (JObject ms) \<Rightarrow>
               if canonicalJson env (JObject ms) \<noteq> text \<or> digest_of env (JObject ms) \<noteq> digest \<or>
                  map_of ms ''schema'' \<noteq> Some (JString ''asf.pending-reconciliation-set/v2'') \<or>
                  map_of ms ''run_id'' \<noteq> Some (JString (k_run_id k))
               then Inl ReconciliationConflict
               else (case map_of ms ''effects'' of Some (JArray js) \<Rightarrow> Inr js | _ \<Rightarrow> Inl ReconciliationConflict)
           | _ \<Rightarrow> Inl ReconciliationConflict)
      | _ \<Rightarrow> Inl ReconciliationConflict)"

definition effect_class_ok :: "string \<Rightarrow> bool" where
  "effect_class_ok c \<longleftrightarrow> c = ''github-effect'' \<or> c = ''delivery-intent''"

text \<open>The key of an effect in the sorted result: class, a zero character, key.\<close>

definition item_key :: "string \<Rightarrow> string \<Rightarrow> string" where
  "item_key c k = c @ [CHR 0x00] @ k"

fun expected_effects ::
  "json list \<Rightarrow> (string \<times> (string \<times> json) list) list \<Rightarrow>
     store_error + (string \<times> (string \<times> json) list) list" where
  "expected_effects [] seen = Inr seen"
| "expected_effects (j # js) seen =
     (case j of
        JObject ms \<Rightarrow>
          (case (text_field ms ''effect_class'', text_field ms ''effect_key'', text_field ms ''policy_digest'',
                 text_field ms ''intent_digest'') of
             (Some c, Some key, Some pd, Some idg) \<Rightarrow>
               if \<not> effect_class_ok c \<or> \<not> ASF_DELIVERY_IDENTIFIER key \<or> \<not> is_digest pd \<or> \<not> is_digest idg \<or>
                  map_of seen (item_key c key) \<noteq> None
               then Inl ReconciliationConflict
               else expected_effects js (seen @ [(item_key c key, ms)])
           | _ \<Rightarrow> Inl ReconciliationConflict)
      | _ \<Rightarrow> Inl ReconciliationConflict)"

definition class_count :: "string \<Rightarrow> (string \<times> (string \<times> json) list) list \<Rightarrow> nat" where
  "class_count c expected = length (filter (\<lambda>(_, ms). text_field ms ''effect_class'' = Some c) expected)"

definition outcome_of_text :: "string \<Rightarrow> outcome option" where
  "outcome_of_text s =
     (if s = ''confirmed'' then Some Confirmed else if s = ''not_applied'' then Some NotApplied
      else if s = ''ambiguous'' then Some Ambiguous else None)"

definition read_item :: "json \<Rightarrow> observation_item option" where
  "read_item j =
     (case j of
        JObject ms \<Rightarrow>
          (case (text_field ms ''effect_class'', text_field ms ''effect_key'',
                 Option.bind (text_field ms ''outcome'') outcome_of_text) of
             (Some c, Some key, Some out) \<Rightarrow>
               if effect_class_ok c \<and>
                  js_join [CHR 0x00] (sort (map fst ms)) =
                    js_join [CHR 0x00] (sort [''effect_class'', ''effect_key'', ''outcome''])
               then Some \<lparr>ob_class = c, ob_key = key, ob_outcome = out\<rparr> else None
           | _ \<Rightarrow> None)
      | _ \<Rightarrow> None)"

text \<open>What the ledgers prove of an observation of an effect with the snapshot's members.\<close>

definition ledger_digest :: "string option \<Rightarrow> bool" where
  "ledger_digest d \<longleftrightarrow> (case d of None \<Rightarrow> False | Some x \<Rightarrow> is_digest x)"

definition github_proven :: "store \<Rightarrow> string \<Rightarrow> observation_item \<Rightarrow> (string \<times> json) list \<Rightarrow> bool" where
  "github_proven db run b ms \<longleftrightarrow>
     (case List.find (\<lambda>e. e_key e = ob_key b \<and> e_run_id e = run) (effects db) of
        None \<Rightarrow> False
      | Some e \<Rightarrow>
          e_status e = Observed (ob_outcome b) \<and> ledger_digest (e_observation_digest e) \<and>
          js_identical (jtext (e_candidate e)) (map_of ms ''candidate_sha'') \<and>
          js_identical (jtext (e_policy_digest e)) (map_of ms ''policy_digest'') \<and>
          js_identical (jtext (e_intent_digest e)) (map_of ms ''intent_digest''))"

definition delivery_proven :: "store \<Rightarrow> string \<Rightarrow> observation_item \<Rightarrow> (string \<times> json) list \<Rightarrow> bool" where
  "delivery_proven db run b ms \<longleftrightarrow>
     (case List.find (\<lambda>i. i_effect_key i = ob_key b \<and> i_run_id i = run) (intents db) of
        None \<Rightarrow> False
      | Some i \<Rightarrow>
          i_outcome i = Some (ob_outcome b) \<and> ledger_digest (i_observation_digest i) \<and>
          js_identical (jnull_or (i_candidate i)) (map_of ms ''candidate_sha'') \<and>
          js_identical (jtext (i_policy_digest i)) (map_of ms ''policy_digest'') \<and>
          js_identical (jtext (i_digest i)) (map_of ms ''intent_digest'') \<and>
          js_identical (jint (i_event_seq i)) (map_of ms ''event_seq''))"

definition ledger_proven :: "store \<Rightarrow> string \<Rightarrow> observation_item \<Rightarrow> (string \<times> json) list \<Rightarrow> bool" where
  "ledger_proven db run b ms \<longleftrightarrow>
     (if ob_class b = ''github-effect'' then github_proven db run b ms else delivery_proven db run b ms)"

fun validated_items ::
  "store \<Rightarrow> string \<Rightarrow> (string \<times> (string \<times> json) list) list \<Rightarrow> string option \<Rightarrow> json list \<Rightarrow>
     store_error + observation_item list" where
  "validated_items db run expected prior [] = Inr []"
| "validated_items db run expected prior (j # js) =
     (case read_item j of
        None \<Rightarrow> Inl ReconciliationConflict
      | Some b \<Rightarrow>
          (case map_of expected (item_key (ob_class b) (ob_key b)) of
             None \<Rightarrow> Inl ReconciliationConflict
           | Some ms \<Rightarrow>
               if (case prior of None \<Rightarrow> False | Some p \<Rightarrow> item_key (ob_class b) (ob_key b) \<le> p)
               then Inl ReconciliationConflict
               else if \<not> ledger_proven db run b ms then Inl ReconciliationConflict
               else and_then (validated_items db run expected (Some (item_key (ob_class b) (ob_key b))) js) (\<lambda>bs.
                      Inr (b # bs))))"

record pending_binding =
  pb_digest :: string
  pb_github :: int
  pb_delivery :: int

definition result_keys :: "string list" where
  "result_keys = [''observations'', ''operation_id'', ''pending_set_digest'', ''run_id'', ''schema'']"

text \<open>The members of a result bound to its operation, with its observations.\<close>

definition bound_observations :: "reconciliation_row \<Rightarrow> json \<Rightarrow> json list option" where
  "bound_observations k result =
     (case result of
        JObject ms \<Rightarrow>
          if js_join [CHR 0x00] (sort (map fst ms)) \<noteq> js_join [CHR 0x00] (sort result_keys) \<or>
             map_of ms ''schema'' \<noteq> Some (JString ''asf.reconciliation-result/v1'') \<or>
             map_of ms ''operation_id'' \<noteq> Some (JString (k_operation k)) \<or>
             map_of ms ''run_id'' \<noteq> Some (JString (k_run_id k)) \<or>
             k_pending_digest k = None \<or> k_canonical_pending k = None \<or> k_pending_github k = None \<or>
             k_pending_delivery k = None \<or>
             map_of ms ''pending_set_digest'' \<noteq> map_option JString (k_pending_digest k)
          then None
          else (case map_of ms ''observations'' of Some (JArray js) \<Rightarrow> Some js | _ \<Rightarrow> None)
      | _ \<Rightarrow> None)"

definition binding_contradicts :: "reconciliation_row \<Rightarrow> pending_binding option \<Rightarrow> bool" where
  "binding_contradicts k b \<longleftrightarrow>
     (case b of
        None \<Rightarrow> False
      | Some p \<Rightarrow>
          Some (pb_digest p) \<noteq> k_pending_digest k \<or> Some (pb_github p) \<noteq> map_option int (k_pending_github k) \<or>
          Some (pb_delivery p) \<noteq> map_option int (k_pending_delivery k))"

definition validateAsfReconciliationResult ::
  "store_env \<Rightarrow> store \<Rightarrow> reconciliation_row \<Rightarrow> json \<Rightarrow> string \<Rightarrow> pending_binding option \<Rightarrow>
     store_error + (string \<times> observation_item list)" where
  "validateAsfReconciliationResult env db k result digest binding =
     (case bound_observations k result of
        None \<Rightarrow> Inl ReconciliationConflict
      | Some js \<Rightarrow>
          if binding_contradicts k binding then Inl ReconciliationConflict
          else and_then (snapshot_effects env k) (\<lambda>es.
            and_then (expected_effects es []) (\<lambda>expected.
              if Some (class_count ''github-effect'' expected) \<noteq> k_pending_github k \<or>
                 Some (length expected - class_count ''github-effect'' expected) \<noteq> k_pending_delivery k \<or>
                 length js \<noteq> length expected
              then Inl ReconciliationConflict
              else and_then (validated_items db (k_run_id k) expected None js) (\<lambda>bs.
                if digest_of env result \<noteq> digest then Inl ReconciliationConflict
                else Inr (canonicalJson env result, bs)))))"

definition all_resolved :: "observation_item list \<Rightarrow> bool" where
  "all_resolved bs \<longleftrightarrow> list_all (\<lambda>b. ob_outcome b \<noteq> Ambiguous) bs"

section \<open>The result rebuilt from the ledgers\<close>

definition durable_outcome :: "store \<Rightarrow> string \<Rightarrow> string \<Rightarrow> string \<Rightarrow> outcome option option" where
  "durable_outcome db run c key =
     (if c = ''github-effect''
      then map_option (\<lambda>e. case e_status e of Observed out \<Rightarrow> Some out | _ \<Rightarrow> None)
             (List.find (\<lambda>e. e_key e = key \<and> e_run_id e = run) (effects db))
      else map_option i_outcome (List.find (\<lambda>i. i_effect_key i = key \<and> i_run_id i = run) (intents db)))"

text \<open>\<open>Inr None\<close> is the early return while an effect is unresolved.\<close>

fun recovered_items :: "store \<Rightarrow> string \<Rightarrow> json list \<Rightarrow> store_error + observation_item list option" where
  "recovered_items db run [] = Inr (Some [])"
| "recovered_items db run (j # js) =
     (case j of
        JObject ms \<Rightarrow>
          (case (text_field ms ''effect_class'', text_field ms ''effect_key'') of
             (Some c, Some key) \<Rightarrow>
               if \<not> effect_class_ok c then Inl ReconciliationConflict
               else (case durable_outcome db run c key of
                  None \<Rightarrow> Inl ReconciliationConflict
                | Some None \<Rightarrow> Inr None
                | Some (Some Ambiguous) \<Rightarrow> Inr None
                | Some (Some out) \<Rightarrow>
                    and_then (recovered_items db run js) (\<lambda>rest.
                      Inr (map_option (Cons \<lparr>ob_class = c, ob_key = key, ob_outcome = out\<rparr>) rest)))
           | _ \<Rightarrow> Inl ReconciliationConflict)
      | _ \<Rightarrow> Inl ReconciliationConflict)"

definition item_cmp :: "(string \<Rightarrow> string \<Rightarrow> int) \<Rightarrow> observation_item \<Rightarrow> observation_item \<Rightarrow> int" where
  "item_cmp collate l r =
     (let c = collate (ob_class l) (ob_class r) in if c \<noteq> 0 then c else collate (ob_key l) (ob_key r))"

definition operation_fence ::
  "store \<Rightarrow> string \<Rightarrow> string \<Rightarrow> int \<Rightarrow> store_error + (reconciliation_row \<times> run_row)" where
  "operation_fence db op owner gen =
     (case getAsfReconciliation db op of
        None \<Rightarrow> Inl StaleLease
      | Some k \<Rightarrow>
          if k_status k \<noteq> ReconRunning \<or> k_owner k \<noteq> Some owner \<or> k_generation k \<noteq> Some gen then Inl StaleLease
          else (case getAsfRun db (k_run_id k) of
             None \<Rightarrow> Inl StaleLease
           | Some r \<Rightarrow> if r_owner r \<noteq> Some owner \<or> r_generation r \<noteq> gen then Inl StaleLease else Inr (k, r)))"

definition recoverResolvedAsfReconciliationResult ::
  "store_env \<Rightarrow> store \<Rightarrow> string \<Rightarrow> string \<Rightarrow> int \<Rightarrow> store_error + json option" where
  "recoverResolvedAsfReconciliationResult env db op owner gen =
     and_then (operation_fence db op owner gen) (\<lambda>(k, r).
       case (k_pending_digest k, k_pending_github k, k_pending_delivery k) of
         (Some digest, Some _, Some _) \<Rightarrow>
           and_then (snapshot_effects env k) (\<lambda>es.
             if length es < 1 \<or> length es > 100000 then Inl ReconciliationConflict
             else and_then (recovered_items db (k_run_id k) es) (\<lambda>found.
               case found of
                 None \<Rightarrow> Inr None
               | Some bs \<Rightarrow>
                   let result = result_json (k_operation k) (k_run_id k) digest
                         (js_sort (item_cmp (localeCompare env)) bs)
                   in and_then (validateAsfReconciliationResult env db k result (digest_of env result) None)
                        (\<lambda>_. Inr (Some result))))
       | _ \<Rightarrow> Inl ReconciliationConflict)"

section \<open>Resuming a blocked run\<close>

text \<open>An effect that was not applied may be replayed only when the operator owns its replay.\<close>

definition replayable :: "store_env \<Rightarrow> store \<Rightarrow> observation_item \<Rightarrow> store_error + bool" where
  "replayable env db b =
     (if ob_class b = ''github-effect''
      then Inr (case getAsfEffect db (ob_key b) of
             None \<Rightarrow> False
           | Some e \<Rightarrow> e_operation e = ''branch.push'' \<or> e_operation e = ''pull_request.create'')
      else and_then (getAsfDeliveryIntent env db (ob_key b)) (\<lambda>found.
             Inr (case found of None \<Rightarrow> False | Some i \<Rightarrow> i_stage i \<in> set ASF_DELIVERY_INTENT_STAGES)))"

fun all_replayable :: "store_env \<Rightarrow> store \<Rightarrow> observation_item list \<Rightarrow> store_error + unit" where
  "all_replayable env db [] = Inr ()"
| "all_replayable env db (b # bs) =
     and_then (replayable env db b) (\<lambda>ok. if \<not> ok then Inl ReconciliationConflict else all_replayable env db bs)"

record block_binding =
  bb_cancellation :: bool
  bb_phase :: phase
  bb_seq :: int
  bb_checkpoint :: string
  bb_event_id :: "string option"
  bb_event_digest :: "string option"
  bb_request :: "string option"

definition integer_member :: "(string \<times> json) list \<Rightarrow> string \<Rightarrow> int option" where
  "integer_member ms k =
     (case map_of ms k of
        Some (JNumber x) \<Rightarrow> if of_int \<lfloor>x\<rfloor> = x \<and> safe_int \<lfloor>x\<rfloor> then Some \<lfloor>x\<rfloor> else None
      | _ \<Rightarrow> None)"

definition cancellation_members_ok :: "bool \<Rightarrow> (string \<times> json) list \<Rightarrow> bool" where
  "cancellation_members_ok cancellation ms \<longleftrightarrow>
     (if cancellation
      then text_field ms ''cancellation_event_id'' \<noteq> None \<and> text_field ms ''cancellation_event_digest'' \<noteq> None \<and>
           text_field ms ''cancellation_request_id'' \<noteq> None
      else map_of ms ''cancellation_event_id'' = None \<and> map_of ms ''cancellation_event_digest'' = None \<and>
           map_of ms ''cancellation_request_id'' = None)"

text \<open>The continuation that the blocking event carries for this pending set.\<close>

definition read_block ::
  "run_row \<Rightarrow> (string \<times> json) list \<Rightarrow> bool \<Rightarrow> string \<Rightarrow> block_binding option" where
  "read_block r ms cancellation pending =
     (case (Option.bind (text_field ms ''resume_phase'') phase_of_name, integer_member ms ''interrupted_event_seq'',
            text_field ms ''checkpoint_digest'') of
        (Some ph, Some n, Some cp) \<Rightarrow>
          if map_of ms ''schema'' \<noteq> Some (JString ''asf.reconciliation-continuation/v1'') \<or>
             map_of ms ''disposition'' \<noteq> Some (JString
               (if cancellation then ''finish-cancellation'' else ''retry-interrupted-phase'')) \<or>
             map_of ms ''pending_set_digest'' \<noteq> Some (JString pending) \<or>
             n < 1 \<or> n \<ge> r_version r \<or> (cancellation \<and> ph \<noteq> CANCELLING) \<or>
             \<not> cancellation_members_ok cancellation ms
          then None
          else Some \<lparr>bb_cancellation = cancellation, bb_phase = ph, bb_seq = n, bb_checkpoint = cp,
                 bb_event_id = text_field ms ''cancellation_event_id'',
                 bb_event_digest = text_field ms ''cancellation_event_digest'',
                 bb_request = text_field ms ''cancellation_request_id''\<rparr>
      | _ \<Rightarrow> None)"

text \<open>Whether the named cancellation and the interrupted event belong together; a throw is a no.\<close>

definition cancellation_exact ::
  "store_env \<Rightarrow> store \<Rightarrow> admission \<Rightarrow> run_row \<Rightarrow> block_binding \<Rightarrow> event_row option \<Rightarrow> bool" where
  "cancellation_exact env db adm r b interruption \<longleftrightarrow>
     \<not> bb_cancellation b \<or>
     (case (interruption, List.find (\<lambda>w. w_run_id w = r_run_id r \<and> Some (w_event_id w) = bb_event_id b) (events db)) of
        (Some wi, Some wc) \<Rightarrow>
          (case (stored_event env adm wc, stored_event env adm wi) of
             (Inr c, Inr started) \<Rightarrow>
               cancellation_event c \<and>
               map_of (payload c) ''request_id'' = map_option JString (bb_request b) \<and>
               Some (digest_of env (run_event_json c)) = bb_event_digest b \<and>
               event_type started = ''cancellation.started'' \<and> event_phase started = CANCELLING \<and>
               map_of (payload started) ''request_id'' = map_option JString (bb_request b)
           | _ \<Rightarrow> False)
      | _ \<Rightarrow> False)"

definition bound_checkpoint ::
  "store_env \<Rightarrow> store \<Rightarrow> string \<Rightarrow> string \<Rightarrow> store_error + durable_checkpoint option" where
  "bound_checkpoint env db run digest =
     (case List.find (\<lambda>c. c_run_id c = run \<and> c_digest c = digest) (checkpoints db) of
        None \<Rightarrow> Inr None
      | Some c \<Rightarrow> getAsfCheckpoint env db (c_id c))"

definition block_matches ::
  "store_env \<Rightarrow> store \<Rightarrow> admission \<Rightarrow> run_row \<Rightarrow> block_binding \<Rightarrow> durable_checkpoint option \<Rightarrow> bool" where
  "block_matches env db adm r b checkpoint \<longleftrightarrow>
     Some (bb_phase b) = r_resume_phase r \<and>
     (case event_at db (r_run_id r) (bb_seq b) of
        None \<Rightarrow> False
      | Some w \<Rightarrow> w_phase w = phase_text (bb_phase b) \<and> w_policy_digest w = a_policy_digest adm) \<and>
     cancellation_exact env db adm r b (event_at db (r_run_id r) (bb_seq b)) \<and>
     (case checkpoint of
        None \<Rightarrow> False
      | Some c \<Rightarrow>
          chk_digest c = bb_checkpoint b \<and> chk_run_id c = r_run_id r \<and> chk_work_order_id c = a_work_order adm \<and>
          chk_attempt_id c = a_attempt_id adm \<and> chk_policy_digest c = a_policy_digest adm \<and>
          chk_candidate_sha c = r_candidate r \<and> chk_event_seq c \<le> bb_seq b)"

datatype resume_action = ContinueCancellation | ResumeConfirmed | ResumeReplay

definition resume_action_of :: "block_binding \<Rightarrow> observation_item list \<Rightarrow> resume_action" where
  "resume_action_of b bs =
     (if bb_cancellation b then ContinueCancellation
      else if list_ex (\<lambda>x. ob_outcome x = NotApplied) bs then ResumeReplay else ResumeConfirmed)"

definition action_text :: "resume_action \<Rightarrow> string" where
  "action_text a = (case a of ContinueCancellation \<Rightarrow> ''continue-cancellation''
     | ResumeConfirmed \<Rightarrow> ''continue-confirmed'' | ResumeReplay \<Rightarrow> ''replay-not-applied'')"

definition action_reason :: "resume_action \<Rightarrow> string" where
  "action_reason a = (case a of
       ContinueCancellation \<Rightarrow> ''exact reconciliation resolved cancellation effects and authorized cleanup''
     | ResumeConfirmed \<Rightarrow> ''exact reconciliation confirmed every interrupted effect''
     | ResumeReplay \<Rightarrow> ''exact reconciliation proved absent effects and authorized one bounded replay'')"

text \<open>The provider reservations of the observed intents are settled; the digests in order.\<close>

fun settle_observed ::
  "store_env \<Rightarrow> string \<Rightarrow> store \<Rightarrow> observation_item list \<Rightarrow> store_error + (store \<times> string list)" where
  "settle_observed env run db [] = Inr (db, [])"
| "settle_observed env run db (b # bs) =
     (if ob_class b \<noteq> ''delivery-intent'' \<or> ob_outcome b = Ambiguous then settle_observed env run db bs
      else and_then (getAsfDeliveryIntent env db (ob_key b)) (\<lambda>found.
        case found of
          None \<Rightarrow> Inl ReconciliationConflict
        | Some i \<Rightarrow>
            if i_run_id i \<noteq> run \<or> i_outcome i \<noteq> Some (ob_outcome b) then Inl ReconciliationConflict
            else and_then (settleResolvedAsfProviderBudgetForIntent env db i) (\<lambda>(db', d).
              and_then (settle_observed env run db' bs) (\<lambda>(db'', ds).
                Inr (db'', case d of None \<Rightarrow> ds | Some x \<Rightarrow> x # ds)))))"

definition providerBudgetSettlementDigestsForReconciliation ::
  "store_env \<Rightarrow> string \<Rightarrow> store \<Rightarrow> observation_item list \<Rightarrow> store_error + (store \<times> string list)" where
  "providerBudgetSettlementDigestsForReconciliation env run db bs =
     and_then (settle_observed env run db bs) (\<lambda>(db', ds). Inr (db', sort (remdups ds)))"

definition continuation_result_json ::
  "reconciliation_row \<Rightarrow> string \<Rightarrow> string \<Rightarrow> block_binding \<Rightarrow> run_event \<Rightarrow> string list \<Rightarrow> resume_action \<Rightarrow> json" where
  "continuation_result_json k digest pending b blocked ds a = JObject
     [(''schema'', JString ''asf.reconciliation-continuation-result/v1''),
      (''operation_id'', JString (k_operation k)), (''result_digest'', JString digest),
      (''pending_set_digest'', JString pending), (''checkpoint_digest'', JString (bb_checkpoint b)),
      (''blocked_event_id'', JString (event_id blocked)),
      (''interrupted_event_seq'', JNumber (of_int (bb_seq b))),
      (''provider_budget_settlement_digests'', JArray (map JString ds)), (''action'', JString (action_text a))]"

definition continuation_evidence :: "store_env \<Rightarrow> run_row \<Rightarrow> admission \<Rightarrow> phase \<Rightarrow> json \<Rightarrow> string" where
  "continuation_evidence env r adm ph binding = digest_of env (JObject
     [(''schema'', JString ''asf.reconciliation-continuation-result/v1''), (''run_id'', JString (r_run_id r)),
      (''work_order_id'', JString (a_work_order adm)), (''attempt_id'', JString (a_attempt_id adm)),
      (''policy_digest'', JString (a_policy_digest adm)), (''candidate_sha'', text_or_null (r_candidate r)),
      (''resume_phase'', JString (phase_text ph)), (''reconciliation'', binding)])"

definition continued_payload :: "run_row \<Rightarrow> phase \<Rightarrow> string \<Rightarrow> json \<Rightarrow> (string \<times> json) list" where
  "continued_payload r ph evidence binding =
     [(''interrupted_phase'', JString ''BLOCKED_EXTERNAL''), (''resume_phase'', JString (phase_text ph)),
      (''evidence_digest'', JString evidence)] @
     (case r_candidate r of None \<Rightarrow> [] | Some c \<Rightarrow> [(''candidate_sha'', JString c)]) @
     [(''reconciliation'', binding)]"

definition unblocked_run :: "phase \<Rightarrow> string \<Rightarrow> run_row \<Rightarrow> run_row" where
  "unblocked_run ph at_time r =
     r\<lparr>r_state := ph, r_version := r_version r + 1, r_resume_phase := None, r_reconcile := False,
       r_updated := at_time, r_heartbeat := Some at_time\<rparr>"

definition unblocks :: "run_row \<Rightarrow> run_row \<Rightarrow> bool" where
  "unblocks r q \<longleftrightarrow> r_state q = BLOCKED_EXTERNAL \<and> r_version q = r_version r \<and> r_owner q = r_owner r \<and>
     r_generation q = r_generation r \<and> r_candidate q = r_candidate r"

text \<open>The append of the resumption once its binding has been checked.\<close>

definition append_resumption ::
  "store_env \<Rightarrow> store \<Rightarrow> reconciliation_row \<Rightarrow> run_row \<Rightarrow> admission \<Rightarrow> string \<Rightarrow> string \<Rightarrow> block_binding \<Rightarrow>
     run_event \<Rightarrow> observation_item list \<Rightarrow> string \<Rightarrow> store_error + store" where
  "append_resumption env db k r adm digest pending b blocked bs at_time =
     and_then (providerBudgetSettlementDigestsForReconciliation env (r_run_id r) db bs) (\<lambda>(db1, ds).
       let a = resume_action_of b bs; binding = continuation_result_json k digest pending b blocked ds a
       in and_then (parse_event env (new_event_json env adm (r_run_id r) (r_version r + 1) at_time ''run.resumed''
              (bb_phase b) (continued_payload r (bb_phase b)
                 (continuation_evidence env r adm (bb_phase b) binding) binding))) (\<lambda>e.
            case assertRunEventTransition BLOCKED_EXTERNAL e of
              Inl _ \<Rightarrow> Inl Rejected
            | Inr _ \<Rightarrow>
                (case getAsfRun db1 (r_run_id r) of
                   None \<Rightarrow> Inl StaleLease
                 | Some q \<Rightarrow>
                     if \<not> unblocks r q then Inl StaleLease
                     else append_history env (update_run db1 (r_run_id r) (unblocked_run (bb_phase b) at_time))
                       (r_run_id r) (r_version r + 1) BLOCKED_EXTERNAL (bb_phase b) ''run.resumed'' e
                       (Some (action_reason a)) ''reconciliation-controller'' at_time)))"

definition eligible_stop :: "(string \<times> json) list \<Rightarrow> bool" where
  "eligible_stop pl \<longleftrightarrow> text_field pl ''code'' \<in>
     {Some ''INTERNAL_DELIVERY_FAILURE'', Some ''INTERNAL_WORKER_RECONCILIATION_REQUIRED'',
      Some ''CLEANUP_RECONCILIATION_REQUIRED''}"

text \<open>The event that blocked the run.\<close>

definition blocking_event :: "store_env \<Rightarrow> store \<Rightarrow> admission \<Rightarrow> run_row \<Rightarrow> store_error + run_event" where
  "blocking_event env db adm r =
     (case event_at db (r_run_id r) (r_version r) of
        None \<Rightarrow> Inl ReconciliationConflict
      | Some w \<Rightarrow>
          (case json_parse env (w_payload w) of
             None \<Rightarrow> Inl ReconciliationConflict
           | Some pl \<Rightarrow> parse_event env (event_json adm (r_run_id r) (r_version r) w pl)))"

definition resume_blocked ::
  "store_env \<Rightarrow> store \<Rightarrow> reconciliation_row \<Rightarrow> run_row \<Rightarrow> admission \<Rightarrow> string \<Rightarrow> string \<Rightarrow> run_event \<Rightarrow>
     observation_item list \<Rightarrow> string \<Rightarrow> store_error + (store \<times> (int \<times> phase) option)" where
  "resume_blocked env db k r adm digest pending blocked bs at_time =
     (if event_type blocked \<noteq> ''run.blocked_external'' \<or> map_of (payload blocked) ''continuation'' = None
      then Inr (db, None)
      else if \<not> eligible_stop (payload blocked) then Inl ReconciliationConflict
      else case object_field (payload blocked) ''continuation'' of
        None \<Rightarrow> Inl ReconciliationConflict
      | Some ms \<Rightarrow>
          (case read_block r ms
              (text_field (payload blocked) ''code'' = Some ''CLEANUP_RECONCILIATION_REQUIRED'') pending of
             None \<Rightarrow> Inl ReconciliationConflict
           | Some b \<Rightarrow>
               and_then (bound_checkpoint env db (r_run_id r) (bb_checkpoint b)) (\<lambda>checkpoint.
                 if \<not> block_matches env db adm r b checkpoint then Inl ReconciliationConflict
                 else if \<not> bb_cancellation b \<and> assertRunPhaseTransition BLOCKED_EXTERNAL (bb_phase b) \<noteq> Inr ()
                 then Inl Rejected
                 else and_then (append_resumption env db k r adm digest pending b blocked bs at_time) (\<lambda>db'.
                   Inr (db', Some (r_version r + 1, bb_phase b))))))"

definition resumeResolvedAsfReconciliation ::
  "terminal_access \<Rightarrow> store_env \<Rightarrow> store \<Rightarrow> reconciliation_row \<Rightarrow> run_row \<Rightarrow> string \<Rightarrow> observation_item list \<Rightarrow>
     string \<Rightarrow> store_error + (store \<times> (int \<times> phase) option)" where
  "resumeResolvedAsfReconciliation ta env db k r digest bs at_time =
     (if r_state r \<noteq> BLOCKED_EXTERNAL then Inr (db, None)
      else if getAsfTerminalEvidencePlanRecord db (r_run_id r) \<noteq> None
      then (if plan_reads ta db (r_run_id r) then Inl ReconciliationConflict else Inl Rejected)
      else case k_pending_digest k of
        None \<Rightarrow> Inr (db, None)
      | Some pending \<Rightarrow>
          if \<not> all_resolved bs then Inl ReconciliationConflict
          else and_then (all_replayable env db (filter (\<lambda>b. ob_outcome b = NotApplied) bs)) (\<lambda>_.
            case getAsfAdmissionForRun db (r_run_id r) of
              None \<Rightarrow> Inl ReconciliationConflict
            | Some adm \<Rightarrow>
                and_then (blocking_event env db adm r) (\<lambda>blocked.
                  resume_blocked env db k r adm digest pending blocked bs at_time)))"

section \<open>Finishing\<close>

record finish_input =
  fi_operation :: string
  fi_owner :: string
  fi_generation :: int
  fi_completed :: bool     \<comment> \<open>status \<open>completed\<close>; the other one is \<open>blocked\<close>\<close>
  fi_digest :: string
  fi_result :: "json option"
  fi_binding :: "pending_binding option"

definition finished_operation ::
  "bool \<Rightarrow> finish_input \<Rightarrow> string option \<Rightarrow> string \<Rightarrow> reconciliation_row \<Rightarrow> reconciliation_row" where
  "finished_operation completes i canonical at_time k =
     k\<lparr>k_status := (if completes then ReconCompleted else ReconBlocked), k_completed_at := Some at_time,
       k_result_digest := Some (fi_digest i), k_result := canonical\<rparr>"

definition validated_result ::
  "store_env \<Rightarrow> store \<Rightarrow> reconciliation_row \<Rightarrow> finish_input \<Rightarrow>
     store_error + (string \<times> observation_item list) option" where
  "validated_result env db k i =
     (case fi_result i of
        None \<Rightarrow> Inr None
      | Some result \<Rightarrow>
          and_then (validateAsfReconciliationResult env db k result (fi_digest i) (fi_binding i)) (\<lambda>v. Inr (Some v)))"

definition completes :: "store \<Rightarrow> reconciliation_row \<Rightarrow> finish_input \<Rightarrow> bool" where
  "completes db k i \<longleftrightarrow> fi_completed i \<and> total_pending (asfPendingReconciliationCounts db (k_run_id k)) = 0"

definition close_operation ::
  "store \<Rightarrow> reconciliation_row \<Rightarrow> finish_input \<Rightarrow> string option \<Rightarrow> string \<Rightarrow> store" where
  "close_operation db k i canonical at_time =
     update_run (update_operation db (fi_operation i) (finished_operation (completes db k i) i canonical at_time))
       (k_run_id k) (\<lambda>r. r\<lparr>r_reconcile := \<not> completes db k i, r_updated := at_time\<rparr>)"

definition mark_resumed :: "store \<Rightarrow> string \<Rightarrow> (int \<times> phase) option \<Rightarrow> store" where
  "mark_resumed db op continuation =
     (case continuation of
        None \<Rightarrow> db
      | Some (n, _) \<Rightarrow> update_operation db op (\<lambda>k. if k_status k = ReconCompleted then k\<lparr>k_resumed_seq := Some n\<rparr> else k))"

definition finishAsfReconciliation ::
  "terminal_access \<Rightarrow> store_env \<Rightarrow> store \<Rightarrow> finish_input \<Rightarrow>
     store_error + (store \<times> reconciliation_row \<times> (int \<times> phase) option)" where
  "finishAsfReconciliation ta env db i =
     (if \<not> is_digest (fi_digest i) then Inl Rejected
      else and_then (operation_fence db (fi_operation i) (fi_owner i) (fi_generation i)) (\<lambda>(k, r).
        if getAsfTerminalEvidencePlanRecord db (r_run_id r) \<noteq> None
        then (if plan_reads ta db (r_run_id r) then Inl ReconciliationConflict else Inl Rejected)
        else and_then (now_iso env) (\<lambda>at_time.
             and_then (validated_result env db k i) (\<lambda>v.
               let db1 = close_operation db k i (map_option fst v) at_time
               in and_then
                 (case v of
                    Some (_, bs) \<Rightarrow>
                      if completes db k i \<and> all_resolved bs
                      then resumeResolvedAsfReconciliation ta env db1 k r (fi_digest i) bs at_time
                      else Inr (db1, None)
                  | None \<Rightarrow> Inr (db1, None)) (\<lambda>(db2, continuation).
                 let db3 = mark_resumed db2 (fi_operation i) continuation
                 in (case getAsfReconciliation db3 (fi_operation i) of
                       None \<Rightarrow> Inl Rejected
                     | Some k' \<Rightarrow> Inr (db3, k', continuation)))))))"

section \<open>Lemmas\<close>

abbreviation key_of_item :: "observation_item \<Rightarrow> string" where
  "key_of_item b \<equiv> item_key (ob_class b) (ob_key b)"

text \<open>The effects of a snapshot have distinct keys.\<close>

lemma expected_distinct:
  "expected_effects js seen = Inr expected \<Longrightarrow> distinct (map fst seen) \<Longrightarrow>
     distinct (map fst expected) \<and> length expected = length seen + length js"
proof (induction js arbitrary: seen)
  case (Cons j js)
  from Cons.prems(1) obtain ms c key where k: "map_of seen (item_key c key) = None"
    "expected_effects js (seen @ [(item_key c key, ms)]) = Inr expected"
    by (auto split: json.splits option.splits if_splits)
  from k(1) have "item_key c key \<notin> fst ` set seen" by (auto simp: map_of_eq_None_iff)
  with Cons.IH [OF k(2)] Cons.prems(2) show ?case by simp
qed simp

text \<open>Validated observations are proven one by one and strictly ordered by key.\<close>

lemma validated_items_proven:
  "validated_items db run expected prior js = Inr bs \<Longrightarrow>
     length bs = length js \<and> sorted_wrt (<) (map key_of_item bs) \<and>
     (\<forall>p. prior = Some p \<longrightarrow> (\<forall>b \<in> set bs. p < key_of_item b)) \<and>
     (\<forall>b \<in> set bs. \<exists>ms. map_of expected (key_of_item b) = Some ms \<and> ledger_proven db run b ms)"
proof (induction js arbitrary: prior bs)
  case (Cons j js)
  from Cons.prems obtain b ms cs where b: "read_item j = Some b" "map_of expected (key_of_item b) = Some ms"
    "\<not> (case prior of None \<Rightarrow> False | Some p \<Rightarrow> key_of_item b \<le> p)" "ledger_proven db run b ms"
    "validated_items db run expected (Some (key_of_item b)) js = Inr cs" "bs = b # cs"
    by (auto simp: and_then_Inr_iff split: option.splits if_splits)
  from Cons.IH [OF b(5)] b show ?case by (auto split: option.splits)
qed simp

lemma strictly_sorted_distinct: "sorted_wrt (<) (xs :: 'a :: linorder list) \<Longrightarrow> distinct xs"
  by (induction xs) auto

text \<open>A validated result speaks of exactly the effects of the snapshot.\<close>

lemma validated_items_cover:
  assumes "expected_effects es [] = Inr expected" "validated_items db run expected None js = Inr bs"
    and "length js = length expected"
  shows "set (map key_of_item bs) = set (map fst expected)"
proof -
  have v: "length bs = length js" "distinct (map key_of_item bs)"
    "\<forall>b \<in> set bs. \<exists>ms. map_of expected (key_of_item b) = Some ms"
    using validated_items_proven [OF assms(2)] strictly_sorted_distinct by blast+
  have "distinct (map fst expected)" using expected_distinct [OF assms(1)] by simp
  moreover have "set (map key_of_item bs) \<subseteq> set (map fst expected)" using v(3) by (force dest: map_of_SomeD)
  ultimately show ?thesis using v assms(3)
    by (metis List.finite_set card_subset_eq distinct_card length_map)
qed

text \<open>What a valid result states: every effect of the content-addressed snapshot, each one proven by its
  ledger, and nothing else.\<close>

definition settles_snapshot :: "store_env \<Rightarrow> store \<Rightarrow> reconciliation_row \<Rightarrow> observation_item list \<Rightarrow> bool" where
  "settles_snapshot env db k bs \<longleftrightarrow>
     (\<exists>es expected. snapshot_effects env k = Inr es \<and> expected_effects es [] = Inr expected \<and>
        distinct (map key_of_item bs) \<and> set (map key_of_item bs) = set (map fst expected) \<and>
        (\<forall>b \<in> set bs. \<exists>ms. (key_of_item b, ms) \<in> set expected \<and> ledger_proven db (k_run_id k) b ms))"

lemma validated_settles:
  assumes "validateAsfReconciliationResult env db k result digest binding = Inr (text, bs)"
  shows "settles_snapshot env db k bs \<and> text = canonicalJson env result \<and> digest = digest_of env result \<and>
    \<not> binding_contradicts k binding"
proof -
  obtain js where js: "bound_observations k result = Some js"
    using assms by (auto simp: validateAsfReconciliationResult_def split: option.splits)
  obtain es expected where v: "\<not> binding_contradicts k binding" "snapshot_effects env k = Inr es"
    "expected_effects es [] = Inr expected" "length js = length expected"
    "validated_items db (k_run_id k) expected None js = Inr bs" "digest_of env result = digest"
    "canonicalJson env result = text"
    using assms unfolding validateAsfReconciliationResult_def js option.case
    by (auto simp: and_then_Inr_iff guard_Inr_iff)
  from validated_items_proven [OF v(5)] strictly_sorted_distinct
  have "distinct (map key_of_item bs)"
    "\<forall>b \<in> set bs. \<exists>ms. (key_of_item b, ms) \<in> set expected \<and> ledger_proven db (k_run_id k) b ms"
    by (blast dest: map_of_SomeD)+
  with v validated_items_cover [OF v(3) v(5) v(4)] show ?thesis
    unfolding settles_snapshot_def by blast
qed

text \<open>Settling provider reservations touches nothing else.\<close>

lemma settle_observed_tables:
  "settle_observed env run db bs = Inr (db', ds) \<Longrightarrow> \<exists>rs. db' = db\<lparr>reservations := rs\<rparr>"
proof (induction bs arbitrary: db db' ds)
  case Nil
  then show ?case by (auto intro: exI [of _ "reservations db"])
next
  case (Cons b bs)
  show ?case
  proof (cases "ob_class b \<noteq> ''delivery-intent'' \<or> ob_outcome b = Ambiguous")
    case True
    with Cons show ?thesis by simp
  next
    case False
    from Cons.prems(1) have "\<exists>(i :: stored_intent) db1 d ds'. settleResolvedAsfProviderBudgetForIntent env db i = Inr (db1, d) \<and>
        settle_observed env run db1 bs = Inr (db', ds')"
      unfolding settle_observed.simps if_not_P [OF False] step_iff sum.inject prod.inject by blast
    then obtain i :: stored_intent and db1 d ds' where s:
      "settleResolvedAsfProviderBudgetForIntent env db i = Inr (db1, d)"
      "settle_observed env run db1 bs = Inr (db', ds')" by blast
    from settle_tables [OF s(1)] Cons.IH [OF s(2)] show ?thesis by auto
  qed
qed


lemma resumption_shape:
  assumes "append_resumption env db k r adm digest pending b blocked bs t = Inr db'"
  shows "\<exists>e q. getAsfRun db (r_run_id r) = Some q \<and> unblocks r q \<and>
     runs db' = runs (update_run db (r_run_id r) (unblocked_run (bb_phase b) t)) \<and>
     assertRunEventTransition BLOCKED_EXTERNAL e = Inr () \<and>
     events db' = events db @ [event_row_of env (r_run_id r) (r_version r + 1) ''run.resumed'' e] \<and>
     transitions db' = transitions db @ [\<lparr>st_run = r_run_id r, st_seq = r_version r + 1, st_from = BLOCKED_EXTERNAL,
       st_to = bb_phase b, st_reason = Some (action_reason (resume_action_of b bs)),
       st_actor = ''reconciliation-controller'', st_at = t\<rparr>] \<and>
     reconciliations db' = reconciliations db"
proof -
  obtain db1 ds e u q where s: "settle_observed env (r_run_id r) db bs = Inr (db1, ds)"
    "assertRunEventTransition BLOCKED_EXTERNAL e = Inr u" "getAsfRun db1 (r_run_id r) = Some q" "unblocks r q"
    "append_history env (update_run db1 (r_run_id r) (unblocked_run (bb_phase b) t)) (r_run_id r) (r_version r + 1)
       BLOCKED_EXTERNAL (bb_phase b) ''run.resumed'' e (Some (action_reason (resume_action_of b bs)))
       ''reconciliation-controller'' t = Inr db'"
    using assms unfolding append_resumption_def providerBudgetSettlementDigestsForReconciliation_def Let_def step_iff
    by blast
  obtain rs where rs: "db1 = db\<lparr>reservations := rs\<rparr>" using settle_observed_tables [OF s(1)] by blast
  have "getAsfRun db1 = getAsfRun db" by (rule getAsfRun_cong) (simp add: rs)
  with s(2-4) append_history_Inr [OF s(5)] show ?thesis by (simp add: rs update_run_def) blast
qed


text \<open>Closing an operation touches only the operation and the flag of its run.\<close>

lemma closed_tables [simp]:
  "effects (close_operation db k i c t) = effects db" "intents (close_operation db k i c t) = intents db"
  "events (close_operation db k i c t) = events db" "admissions (close_operation db k i c t) = admissions db"
  "checkpoints (close_operation db k i c t) = checkpoints db"
  "terminal_plans (close_operation db k i c t) = terminal_plans db"
  by (simp_all add: close_operation_def update_operation_def)

lemma getAsfRun_close:
  "getAsfRun (close_operation db k i c t) run = map_option (\<lambda>r. if run = k_run_id k
     then r\<lparr>r_reconcile := \<not> completes db k i, r_updated := t\<rparr> else r) (getAsfRun db run)"
proof -
  have "getAsfRun (update_operation db op f) = getAsfRun db" for op f
    by (rule getAsfRun_cong) (simp add: update_operation_def)
  then show ?thesis by (simp add: close_operation_def getAsfRun_update)
qed

text \<open>An intent is decoded against the generation of its run.\<close>

lemma getAsfDeliveryIntent_cong:
  assumes "intents db = intents db'" "\<And>run. generation_of db run = generation_of db' run"
  shows "getAsfDeliveryIntent env db key = getAsfDeliveryIntent env db' key"
proof -
  have same: "(case getAsfRun db run of None \<Rightarrow> Inl StateConflict
          | Some r \<Rightarrow> if \<not> confirmation_consistent env (r_generation r) x then Inl StateConflict else Inr (stored_of x)) =
        (case getAsfRun db' run of None \<Rightarrow> Inl StateConflict
          | Some r \<Rightarrow> if \<not> confirmation_consistent env (r_generation r) x then Inl StateConflict else Inr (stored_of x))"
    for run x
    using assms(2) [of run] by (cases "getAsfRun db run"; cases "getAsfRun db' run") (simp_all add: generation_of_def)
  have "decodeAsfDeliveryIntentRow env db = decodeAsfDeliveryIntentRow env db'"
    by (rule ext) (simp only: decodeAsfDeliveryIntentRow_def same)
  then show ?thesis by (simp only: getAsfDeliveryIntent_def decode_found_def assms(1))
qed

lemma replayable_closed: "replayable env (close_operation db k i c t) b = replayable env db b"
proof -
  have "generation_of (close_operation db k i c t) run = generation_of db run" for run
    by (cases "getAsfRun db run") (simp_all add: generation_of_def getAsfRun_close)
  then have "getAsfDeliveryIntent env (close_operation db k i c t) (ob_key b) = getAsfDeliveryIntent env db (ob_key b)"
    by (intro getAsfDeliveryIntent_cong) simp_all
  then show ?thesis by (simp add: replayable_def getAsfEffect_def)
qed

lemma all_replayable_Inr: "all_replayable env db bs = Inr u \<Longrightarrow> \<forall>b \<in> set bs. replayable env db b = Inr True"
  by (induction bs) (auto simp: and_then_Inr_iff split: if_splits)

definition resumption_binding ::
  "store_env \<Rightarrow> store \<Rightarrow> run_row \<Rightarrow> string \<Rightarrow> block_binding \<Rightarrow> bool" where
  "resumption_binding env db r pending b \<longleftrightarrow>
     (\<exists>adm blocked ms checkpoint. getAsfAdmissionForRun db (r_run_id r) = Some adm \<and>
        blocking_event env db adm r = Inr blocked \<and> event_type blocked = ''run.blocked_external'' \<and>
        object_field (payload blocked) ''continuation'' = Some ms \<and>
        read_block r ms (text_field (payload blocked) ''code'' = Some ''CLEANUP_RECONCILIATION_REQUIRED'') pending = Some b \<and>
        bound_checkpoint env db (r_run_id r) (bb_checkpoint b) = Inr checkpoint \<and> block_matches env db adm r b checkpoint \<and>
        (bb_cancellation b \<or> assertRunPhaseTransition BLOCKED_EXTERNAL (bb_phase b) = Inr ()))"

lemma resume_resolved_shape:
  assumes "resumeResolvedAsfReconciliation ta env db k r digest bs t = Inr (db', Some (n, ph))"
  shows "\<exists>pending adm blocked b. r_state r = BLOCKED_EXTERNAL \<and> k_pending_digest k = Some pending \<and> all_resolved bs \<and>
     all_replayable env db (filter (\<lambda>b. ob_outcome b = NotApplied) bs) = Inr () \<and>
     resumption_binding env db r pending b \<and> n = r_version r + 1 \<and> ph = bb_phase b \<and>
     append_resumption env db k r adm digest pending b blocked bs t = Inr db'"
proof -
  have st: "r_state r = BLOCKED_EXTERNAL"
    using assms by (simp add: resumeResolvedAsfReconciliation_def split: if_splits)
  have "\<exists>pending. k_pending_digest k = Some pending"
    using assms by (auto simp: resumeResolvedAsfReconciliation_def st split: if_splits option.splits)
  then obtain pending where pending: "k_pending_digest k = Some pending" by blast
  have none: "getAsfTerminalEvidencePlanRecord db (r_run_id r) = None"
    using assms by (auto simp: resumeResolvedAsfReconciliation_def st split: if_splits)
  obtain u adm blocked where s: "all_resolved bs"
    "all_replayable env db (filter (\<lambda>b. ob_outcome b = NotApplied) bs) = Inr u"
    "getAsfAdmissionForRun db (r_run_id r) = Some adm" "blocking_event env db adm r = Inr blocked"
    "resume_blocked env db k r adm digest pending blocked bs t = Inr (db', Some (n, ph))"
    using assms unfolding resumeResolvedAsfReconciliation_def pending option.case
    by (simp only: st none step_iff simp_thms if_False if_True) blast
  have ty: "event_type blocked = ''run.blocked_external''"
    using s(5) by (auto simp: resume_blocked_def split: if_splits)
  have "\<not> (event_type blocked \<noteq> ''run.blocked_external'' \<or> map_of (payload blocked) ''continuation'' = None)"
    using s(5) by (auto simp: resume_blocked_def split: if_splits)
  note body = s(5) [unfolded resume_blocked_def if_not_P [OF this] step_iff]
  obtain ms b checkpoint where c: "object_field (payload blocked) ''continuation'' = Some ms"
    "read_block r ms (text_field (payload blocked) ''code'' = Some ''CLEANUP_RECONCILIATION_REQUIRED'') pending = Some b"
    "bound_checkpoint env db (r_run_id r) (bb_checkpoint b) = Inr checkpoint"
    "block_matches env db adm r b checkpoint"
    "\<not> (\<not> bb_cancellation b \<and> assertRunPhaseTransition BLOCKED_EXTERNAL (bb_phase b) \<noteq> Inr ())"
    "append_resumption env db k r adm digest pending b blocked bs t = Inr db'"
    "n = r_version r + 1" "ph = bb_phase b"
    using body by blast
  have "resumption_binding env db r pending b"
    unfolding resumption_binding_def using s(3,4) ty c(1-5) by blast
  with st pending s(1,2) c(6-8) show ?thesis by auto
qed


lemma resumption_binding_closed:
  "resumption_binding env (close_operation db k i c t) r pending b = resumption_binding env db r pending b"
proof -
  let ?db = "close_operation db k i c t"
  have "getAsfAdmissionForRun ?db = getAsfAdmissionForRun db" "event_at ?db = event_at db"
    by (simp_all add: getAsfAdmissionForRun_def event_at_def fun_eq_iff)
  moreover have "blocking_event env ?db adm r = blocking_event env db adm r" for adm
    by (simp add: blocking_event_def calculation)
  moreover have "bound_checkpoint env ?db run d = bound_checkpoint env db run d" for run d
    by (simp add: bound_checkpoint_def getAsfCheckpoint_def getAsfCheckpointRecord_def cong: option.case_cong)
  moreover have "cancellation_exact env ?db adm r b w = cancellation_exact env db adm r b w" for adm w
    by (simp add: cancellation_exact_def)
  ultimately show ?thesis by (simp add: resumption_binding_def block_matches_def)
qed

lemma operation_fence_Inr:
  "operation_fence db op owner gen = Inr (k, r) \<Longrightarrow>
     getAsfReconciliation db op = Some k \<and> k_status k = ReconRunning \<and> k_owner k = Some owner \<and>
     k_generation k = Some gen \<and> getAsfRun db (k_run_id k) = Some r \<and> r_run_id r = k_run_id k \<and>
     r_owner r = Some owner \<and> r_generation r = gen"
  by (auto simp: operation_fence_def split: option.splits if_splits dest: getAsfRun_id)

text \<open>No branch of the guard on a terminal plan returns.\<close>

lemma plan_guard_iff:
  "(if p then (if q then Inl a else Inl b) else k) = Inr y \<longleftrightarrow> \<not> p \<and> k = Inr y"
  by simp

lemma finish_resumes:
  assumes "finishAsfReconciliation ta env db i = Inr (db', k', Some (n, ph))"
  shows "\<exists>k r t text bs db2. operation_fence db (fi_operation i) (fi_owner i) (fi_generation i) = Inr (k, r) \<and>
     getAsfTerminalEvidencePlanRecord db (r_run_id r) = None \<and> completes db k i \<and> settles_snapshot env db k bs \<and>
     resumeResolvedAsfReconciliation ta env (close_operation db k i (Some text) t) k r (fi_digest i) bs t =
       Inr (db2, Some (n, ph)) \<and>
     db' = mark_resumed db2 (fi_operation i) (Some (n, ph)) \<and> getAsfReconciliation db' (fi_operation i) = Some k'"
proof -
  obtain k r t v db2 where s: "operation_fence db (fi_operation i) (fi_owner i) (fi_generation i) = Inr (k, r)"
    "getAsfTerminalEvidencePlanRecord db (r_run_id r) = None" "validated_result env db k i = Inr v"
    "(case v of
        Some (_, bs) \<Rightarrow>
          if completes db k i \<and> all_resolved bs
          then resumeResolvedAsfReconciliation ta env (close_operation db k i (map_option fst v) t) k r (fi_digest i) bs t
          else Inr (close_operation db k i (map_option fst v) t, None)
      | None \<Rightarrow> Inr (close_operation db k i (map_option fst v) t, None)) = Inr (db2, Some (n, ph))"
    "db' = mark_resumed db2 (fi_operation i) (Some (n, ph))" "getAsfReconciliation db' (fi_operation i) = Some k'"
    using assms unfolding finishAsfReconciliation_def Let_def plan_guard_iff step_iff sum.inject prod.inject by blast
  from s(4) obtain canon bs where v: "v = Some (canon, bs)"
    by (cases v) auto
  from s(4) have c: "completes db k i" "resumeResolvedAsfReconciliation ta env (close_operation db k i (Some canon) t)
      k r (fi_digest i) bs t = Inr (db2, Some (n, ph))"
    by (simp_all add: v split: if_splits)
  from s(3) v obtain result where "validateAsfReconciliationResult env db k result (fi_digest i) (fi_binding i) = Inr (canon, bs)"
    by (auto simp: validated_result_def and_then_Inr_iff split: option.splits)
  with validated_settles have "settles_snapshot env db k bs" by blast
  with s(1,2,5,6) c show ?thesis by blast
qed


lemma getAsfReconciliation_update:
  assumes "\<And>k. k_operation (f k) = k_operation k"
  shows "getAsfReconciliation (update_operation db op f) j =
    map_option (\<lambda>k. if j = op then f k else k) (getAsfReconciliation db j)"
proof -
  have "List.find (\<lambda>k. k_operation k = j) (map (\<lambda>k. if k_operation k = op then f k else k) ks) =
      map_option (\<lambda>k. if j = op then f k else k) (List.find (\<lambda>k. k_operation k = j) ks)" for ks
    using assms by (induction ks) auto
  then show ?thesis by (simp add: getAsfReconciliation_def update_operation_def)
qed

lemma getAsfReconciliation_cong:
  "reconciliations db = reconciliations db' \<Longrightarrow> getAsfReconciliation db op = getAsfReconciliation db' op"
  by (simp add: getAsfReconciliation_def)

section \<open>Properties\<close>

text \<open>C40: A reconciliation resumes a blocked run only when its caller holds the fence of operation and run, the
  run has no pending terminal outcome, no effect of it is pending, the result speaks of every effect of the
  operation's content-addressed snapshot and of nothing else, each outcome definite and proven by its ledger, and
  every effect that was not applied may be replayed. The run continues in the phase that its blocking event bound
  to this pending set, one event later, with the same owner, generation and candidate; nobody else's run changes.\<close>

theorem reconciled_resume_is_exact:
  assumes "finishAsfReconciliation ta env db i = Inr (db', k', Some (n, ph))"
  shows "\<exists>k r r' pending b bs. getAsfReconciliation db (fi_operation i) = Some k \<and>
     operation_fence db (fi_operation i) (fi_owner i) (fi_generation i) = Inr (k, r) \<and>
     getAsfTerminalEvidencePlanRecord db (k_run_id k) = None \<and>
     total_pending (asfPendingReconciliationCounts db (k_run_id k)) = 0 \<and>
     settles_snapshot env db k bs \<and>
     (\<forall>x \<in> set bs. ob_outcome x = Confirmed \<or> ob_outcome x = NotApplied \<and> replayable env db x = Inr True) \<and>
     r_state r = BLOCKED_EXTERNAL \<and> r_resume_phase r = Some ph \<and> n = r_version r + 1 \<and>
     k_pending_digest k = Some pending \<and> resumption_binding env db r pending b \<and> bb_phase b = ph \<and>
     getAsfRun db' (k_run_id k) = Some r' \<and> r_state r' = ph \<and> r_version r' = n \<and> \<not> r_reconcile r' \<and>
     r_resume_phase r' = None \<and> r_candidate r' = r_candidate r \<and>
     owns db' (k_run_id k) (fi_owner i) (fi_generation i) \<and>
     (\<forall>other. other = k_run_id k \<or> getAsfRun db' other = getAsfRun db other)"
proof -
  obtain k r t canon bs db2 where f: "operation_fence db (fi_operation i) (fi_owner i) (fi_generation i) = Inr (k, r)"
    "getAsfTerminalEvidencePlanRecord db (r_run_id r) = None" "completes db k i" "settles_snapshot env db k bs"
    "resumeResolvedAsfReconciliation ta env (close_operation db k i (Some canon) t) k r (fi_digest i) bs t =
       Inr (db2, Some (n, ph))"
    "db' = mark_resumed db2 (fi_operation i) (Some (n, ph))"
    using finish_resumes [OF assms] by blast
  let ?db = "close_operation db k i (Some canon) t"
  note r = operation_fence_Inr [OF f(1)]
  obtain pending adm blocked b where s: "r_state r = BLOCKED_EXTERNAL" "k_pending_digest k = Some pending" "all_resolved bs"
    "all_replayable env ?db (filter (\<lambda>b. ob_outcome b = NotApplied) bs) = Inr ()"
    "resumption_binding env ?db r pending b" "n = r_version r + 1" "ph = bb_phase b"
    "append_resumption env ?db k r adm (fi_digest i) pending b blocked bs t = Inr db2"
    using resume_resolved_shape [OF f(5)] by blast
  have "runs db' = runs (update_run ?db (r_run_id r) (unblocked_run (bb_phase b) t))"
    using resumption_shape [OF s(8)] by (auto simp: f(6) mark_resumed_def update_operation_def)
  from getAsfRun_cong [OF this] have get: "getAsfRun db' j = map_option
      (\<lambda>q. if j = k_run_id k then unblocked_run (bb_phase b) t
         (q\<lparr>r_reconcile := \<not> completes db k i, r_updated := t\<rparr>) else q) (getAsfRun db j)" for j
    using r by (cases "getAsfRun db j") (auto simp: getAsfRun_update unblocked_run_def getAsfRun_close)
  have "ob_outcome x = Confirmed \<or> ob_outcome x = NotApplied \<and> replayable env db x = Inr True" if "x \<in> set bs" for x
    using all_replayable_Inr [OF s(4)] s(3) that
    by (cases "ob_outcome x") (auto simp: replayable_closed all_resolved_def list_all_iff)
  moreover have "r_resume_phase r = Some ph"
    using s(5,7) by (auto simp: resumption_binding_def block_matches_def)
  moreover have "other = k_run_id k \<or> getAsfRun db' other = getAsfRun db other" for other
    by (cases "getAsfRun db other") (simp_all add: get)
  ultimately show ?thesis
    using f(1-4) s(1,2,5-7) r get
    by (auto simp: resumption_binding_closed completes_def unblocked_run_def owns_def)
qed


text \<open>A reconciliation is claimed only while it is active and its run has neither a live owner nor a pending
  terminal outcome. The claimer gets the next generation of the run and alone holds the fence of operation and
  run: everybody else is stale. Without a claim nothing changes, and no other run or operation ever does.\<close>

theorem reconciliation_claim_is_fenced:
  assumes "claimAsfReconciliation ta env db op owner stale = Inr (db', out)"
  shows "\<exists>k. getAsfReconciliation db op = Some k \<and>
     (case out of
        OperationFinished \<Rightarrow> db' = db \<and> (k_status k = ReconCompleted \<or> k_status k = ReconBlocked)
      | OwnerLive \<Rightarrow> db' = db \<and> (\<exists>r. getAsfRun db (k_run_id k) = Some r \<and> live_owner stale r)
      | OperationClaimed run gen \<Rightarrow> run = k_run_id k \<and> (k_status k = ReconQueued \<or> k_status k = ReconRunning) \<and>
          getAsfTerminalEvidencePlanRecord db run = None \<and>
          (\<exists>r. getAsfRun db run = Some r \<and> \<not> live_owner stale r \<and> gen = r_generation r + 1) \<and>
          (\<forall>w g. is_ok (operation_fence db' op w g) \<longleftrightarrow> w = owner \<and> g = gen) \<and>
          (\<forall>w g. owns db' run w g \<longleftrightarrow> w = owner \<and> g = gen) \<and>
          (\<forall>other. other \<noteq> run \<longrightarrow> getAsfRun db' other = getAsfRun db other) \<and>
          (\<forall>other. other \<noteq> op \<longrightarrow> getAsfReconciliation db' other = getAsfReconciliation db other))"
proof -
  obtain k where k: "getAsfReconciliation db op = Some k"
    using assms by (auto simp: claimAsfReconciliation_def split: option.splits)
  show ?thesis
  proof (cases "k_status k = ReconCompleted \<or> k_status k = ReconBlocked")
    case True
    with assms k show ?thesis by (auto simp: claimAsfReconciliation_def)
  next
    case False
    then have active: "k_status k = ReconQueued \<or> k_status k = ReconRunning" by (cases "k_status k") auto
    obtain r where r: "getAsfRun db (k_run_id k) = Some r"
      using assms k False by (auto simp: claimAsfReconciliation_def split: option.splits)
    have none: "getAsfTerminalEvidencePlanRecord db (k_run_id k) = None"
      using assms k False r by (auto simp: claimAsfReconciliation_def split: if_splits)
    show ?thesis
    proof (cases "live_owner stale r")
      case True
      with assms k False r none show ?thesis by (auto simp: claimAsfReconciliation_def)
    next
      case fresh: False
      let ?gen = "r_generation r + 1"
      let ?run = "\<lambda>t q. q\<lparr>r_generation := ?gen, r_owner := Some owner, r_heartbeat := Some t, r_updated := t\<rparr>"
      let ?op = "\<lambda>t l. l\<lparr>k_status := ReconRunning, k_generation := Some ?gen, k_owner := Some owner,
         k_started_at := (case k_started_at l of None \<Rightarrow> Some t | s \<Rightarrow> s)\<rparr>"
      obtain t where out: "out = OperationClaimed (k_run_id k) ?gen"
        and db': "db' = update_operation (update_run db (k_run_id k) (?run t)) op (?op t)"
        using assms k False r none fresh by (auto simp: claimAsfReconciliation_def and_then_Inr_iff Let_def)
      have run: "getAsfRun db' j = map_option (\<lambda>q. if j = k_run_id k then ?run t q else q) (getAsfRun db j)" for j
      proof -
        have "getAsfRun db' = getAsfRun (update_run db (k_run_id k) (?run t))"
          by (rule getAsfRun_cong) (simp add: db' update_operation_def)
        then show ?thesis by (simp add: getAsfRun_update)
      qed
      have "getAsfReconciliation (update_run db (k_run_id k) (?run t)) j = getAsfReconciliation db j" for j
        by (rule getAsfReconciliation_cong) simp
      then have oper: "getAsfReconciliation db' j = map_option (\<lambda>l. if j = op then ?op t l else l)
          (getAsfReconciliation db j)" for j
        by (simp add: db' getAsfReconciliation_update)
      have fence: "is_ok (operation_fence db' op w g) \<longleftrightarrow> w = owner \<and> g = ?gen" for w g
        using k r by (auto simp: operation_fence_def oper run)
      have others: "other \<noteq> k_run_id k \<Longrightarrow> getAsfRun db' other = getAsfRun db other"
        "other \<noteq> op \<Longrightarrow> getAsfReconciliation db' other = getAsfReconciliation db other" for other
        by (cases "getAsfRun db other"; simp add: run) (cases "getAsfReconciliation db other"; simp add: oper)
      show ?thesis using k r none fresh active out fence others
        by (auto simp: owns_def run)
    qed
  qed
qed

text \<open>Sample input: a run that was blocked while implementing, with one intent that turned out not to be applied.\<close>

definition pending_doc :: json where
  "pending_doc = JObject [(''schema'', JString ''asf.pending-reconciliation-set/v2''), (''run_id'', JString ''r''),
     (''effects'', JArray (map pending_json (delivery_pending (empty_store\<lparr>intents := [sample_intent]\<rparr>) ''r'')))]"

definition blocked_payload :: "(string \<times> json) list" where
  "blocked_payload =
     [(''code'', JString ''INTERNAL_DELIVERY_FAILURE''), (''summary'', JString ''s''),
      (''checkpoint'', JString ''IMPLEMENTING''), (''retry_disposition'', JString ''reconcile-first''),
      (''required_actor'', JString ''asf''), (''required_action'', JString ''a''), (''evidence_refs'', JArray []),
      (''continuation'', JObject
        [(''schema'', JString ''asf.reconciliation-continuation/v1''),
         (''disposition'', JString ''retry-interrupted-phase''), (''resume_phase'', JString ''IMPLEMENTING''),
         (''interrupted_event_seq'', JNumber 7), (''checkpoint_digest'', JString sample_digest),
         (''pending_set_digest'', JString sample_digest)])]"

definition stored_checkpoint :: json where
  "stored_checkpoint = JObject (admission_members @ [(''checkpoint_digest'', JString sample_digest)])"

definition recon_env :: store_env where
  "recon_env = sample_store_env\<lparr>
     json_parse := (\<lambda>s. if s = ''cp'' then Some stored_checkpoint
        else if s = ''snap'' then Some pending_doc else Some (JObject blocked_payload)),
     canonicalJson := (\<lambda>j. if j = pending_doc then ''snap'' else if j = stored_checkpoint
        then ''cp'' else ''doc'')\<rparr>"

definition blocked_run :: run_row where
  "blocked_run = (sample_run ''r'')\<lparr>r_state := BLOCKED_EXTERNAL, r_version := 8, r_generation := 2,
     r_owner := Some ''o'', r_resume_phase := Some IMPLEMENTING, r_reconcile := True\<rparr>"

definition resolved_intent :: intent_row where
  "resolved_intent = sample_intent\<lparr>i_observation_digest := Some sample_digest,
     i_outcome := Some NotApplied, i_confirmed_generation := Some 2, i_confirmed_at := Some ''2026''\<rparr>"

definition event_of_sample :: "int \<Rightarrow> string \<Rightarrow> string \<Rightarrow> phase \<Rightarrow> event_row" where
  "event_of_sample n ty ident ph = \<lparr>w_run_id = ''r'', w_seq = n, w_type = ty, w_payload = ''blk'', w_at = ''2026'',
     w_event_id = ident, w_schema = ''asf.run-event/v1'', w_phase = phase_text ph, w_policy_digest = sample_digest\<rparr>"

definition running_operation :: reconciliation_row where
  "running_operation = \<lparr>k_operation = ''op'', k_run_id = ''r'', k_request_digest = sample_digest, k_requested_by = ''s'',
     k_authority = ''asf:reconcile'', k_scope = ''pending-effects'', k_status = ReconRunning, k_generation = Some 2,
     k_owner = Some ''o'', k_requested_at = ''2026'', k_started_at = Some ''2026'', k_completed_at = None,
     k_result_digest = None, k_pending_digest = Some sample_digest, k_pending_github = Some 0,
     k_pending_delivery = Some 1, k_canonical_pending = Some ''snap'', k_result = None, k_resumed_seq = None\<rparr>"

definition blocked_store :: store where
  "blocked_store = empty_store\<lparr>runs := [blocked_run], admissions := [sample_admission ''r''],
     events := [event_of_sample 7 ''implementation.started'' ''e7'' IMPLEMENTING,
                event_of_sample 8 ''run.blocked_external'' ''e8'' BLOCKED_EXTERNAL],
     intents := [resolved_intent], reconciliations := [running_operation],
     checkpoints := [\<lparr>c_id = ''c'', c_run_id = ''r'', c_kind = ''work-order-admission'', c_phase = ''ADMITTED'',
       c_event_seq = 1, c_generation = 1, c_candidate = None, c_policy_digest = sample_digest,
       c_digest = sample_digest, c_replay_policy = ''replayable'', c_canonical = ''cp'', c_created_at = ''2026'',
       c_recorded_at = ''2026''\<rparr>]\<rparr>"

definition sample_finish :: finish_input where
  "sample_finish = \<lparr>fi_operation = ''op'', fi_owner = ''o'', fi_generation = 2, fi_completed = True,
     fi_digest = sample_digest,
     fi_result = Some (result_json ''op'' ''r'' sample_digest
       [\<lparr>ob_class = ''delivery-intent'', ob_key = i_effect_key sample_intent, ob_outcome = NotApplied\<rparr>]), fi_binding = None\<rparr>"


definition sample_items :: "observation_item list" where
  "sample_items = [\<lparr>ob_class = ''delivery-intent'', ob_key = i_effect_key sample_intent, ob_outcome = NotApplied\<rparr>]"

definition closed_store :: store where
  "closed_store = close_operation blocked_store running_operation sample_finish (Some ''doc'') ''2026''"

definition retry_binding :: block_binding where
  "retry_binding = \<lparr>bb_cancellation = False, bb_phase = IMPLEMENTING, bb_seq = 7, bb_checkpoint = sample_digest,
     bb_event_id = None, bb_event_digest = None, bb_request = None\<rparr>"

definition blocked_event :: run_event where
  "blocked_event = \<lparr>event_id = ''e8'', run_id = ''r'', work_order_id = ''w'', attempt_id = ''a'', seq = 8,
     occurred_at = ''2026'', event_type = ''run.blocked_external'', event_phase = BLOCKED_EXTERNAL,
     payload = blocked_payload, policy_digest = sample_digest\<rparr>"

definition retried_payload :: "(string \<times> json) list" where
  "retried_payload = continued_payload blocked_run IMPLEMENTING sample_digest
     (continuation_result_json running_operation sample_digest sample_digest retry_binding blocked_event [] ResumeReplay)"

definition retried_event :: run_event where
  "retried_event = \<lparr>event_id = ''evt_'' @ take 26 ''r:1:run.resumed'', run_id = ''r'', work_order_id = ''w'',
     attempt_id = ''a'', seq = 9, occurred_at = ''2026'', event_type = ''run.resumed'', event_phase = IMPLEMENTING,
     payload = retried_payload, policy_digest = sample_digest\<rparr>"

lemmas recon_env_defs = recon_env_def sample_store_env_def digest_env_def sample_env_def

lemma blocked_parsed: "blocking_event recon_env closed_store (sample_admission ''r'') blocked_run = Inr blocked_event"
proof -
  have w: "event_at closed_store ''r'' 8 =
      Some (event_of_sample 8 ''run.blocked_external'' ''e8'' BLOCKED_EXTERNAL)" by code_simp
  note q = conforming_event [of recon_env "''e8''" "''r''" "''w''" "''a''" 8 sample_digest "''run.blocked_external''"
      "Fixed BLOCKED_EXTERNAL" blockedExternalPayloadSchema BLOCKED_EXTERNAL blocked_payload "''2026''"]
  have "check_payload (Fixed BLOCKED_EXTERNAL) BLOCKED_EXTERNAL blocked_payload = Inr ()"
    by (simp add: blocked_payload_def check_payload_def observation_mismatch_def text_field_def)
  moreover have "conforms blockedExternalPayloadSchema (JObject blocked_payload)"
    by (simp add: blocked_payload_def blockedExternalPayloadSchema_def stop_fields_def payload_defs upper_alpha_def
        char_in_def evidenceRefsSchema_def reconciliationBlockContinuationSchema_def positive_int_def safe_int_def)
  moreover have "map_of (RUN_EVENT_CONTRACTS sample_formats) ''run.blocked_external'' =
      Some (Fixed BLOCKED_EXTERNAL, blockedExternalPayloadSchema)" by (simp add: contract_defs)
  ultimately show ?thesis using q
    by (simp add: blocking_event_def w event_json_def event_of_sample_def recon_env_defs sample_admission_def
        sample_digest_ok word_defs safe_int_def blocked_event_def blocked_run_def sample_run_def)
qed

lemma retried_parsed:
  "parse_event recon_env (new_event_json recon_env (sample_admission ''r'') ''r'' 9 ''2026'' ''run.resumed''
     IMPLEMENTING retried_payload) = Inr retried_event"
proof -
  note q = conforming_event [of recon_env "''evt_'' @ take 26 ''r:1:run.resumed''" "''r''" "''w''" "''a''"
      9 sample_digest "''run.resumed''" ResumePhaseFromPayload _ IMPLEMENTING retried_payload "''2026''"]
  have pl: "retried_payload =
      [(''interrupted_phase'', JString ''BLOCKED_EXTERNAL''), (''resume_phase'', JString ''IMPLEMENTING''),
       (''evidence_digest'', JString sample_digest),
       (''reconciliation'', JObject
         [(''schema'', JString ''asf.reconciliation-continuation-result/v1''), (''operation_id'', JString ''op''),
          (''result_digest'', JString sample_digest), (''pending_set_digest'', JString sample_digest),
          (''checkpoint_digest'', JString sample_digest), (''blocked_event_id'', JString ''e8''),
          (''interrupted_event_seq'', JNumber 7), (''provider_budget_settlement_digests'', JArray []),
          (''action'', JString ''replay-not-applied'')])]"
    by (simp add: retried_payload_def continued_payload_def blocked_run_def sample_run_def phase_text_def
        RUN_EVENT_PHASES_def continuation_result_json_def running_operation_def retry_binding_def blocked_event_def
        action_text_def)
  have "check_payload ResumePhaseFromPayload IMPLEMENTING retried_payload = Inr ()"
    by (simp add: pl check_payload_def observation_mismatch_def text_field_def phase_text_def
      phase_of_name_def RUN_EVENT_PHASES_def)
  then show ?thesis using q
    by (simp add: new_event_json_def event_id_of_def recon_env_defs sample_admission_def sample_digest_ok word_defs
        contract_defs safe_int_def pl payload_defs phase_text_def retried_event_def positive_int_def at_most_def)
qed

lemma resumption_accepted:
  "\<exists>db'. append_resumption recon_env closed_store running_operation blocked_run (sample_admission ''r'')
     sample_digest sample_digest retry_binding blocked_event sample_items ''2026'' = Inr db'"
proof -
  have tables: "providerBudgetSettlementDigestsForReconciliation recon_env ''r'' closed_store sample_items =
      Inr (closed_store, [])" "resume_action_of retry_binding sample_items = ResumeReplay"
    "getAsfRun closed_store ''r'' = Some (blocked_run\<lparr>r_reconcile := False, r_updated := ''2026''\<rparr>)"
    "transitions closed_store = []"
    "list_all (\<lambda>w. w_event_id w = ''e7'' \<and> w_seq w = 7 \<or> w_event_id w = ''e8'' \<and> w_seq w = 8) (events closed_store)"
    by code_simp+
  have fields: "r_run_id blocked_run = ''r''" "r_version blocked_run = 8" "bb_phase retry_binding = IMPLEMENTING"
    "continuation_evidence recon_env blocked_run (sample_admission ''r'') IMPLEMENTING x = sample_digest" for x
    by (simp_all add: blocked_run_def sample_run_def retry_binding_def continuation_evidence_def digest_of_def recon_env_defs)
  have "assertRunEventTransition BLOCKED_EXTERNAL retried_event = Inr ()"
    by (simp add: retried_event_def) code_simp
  moreover have "unblocks blocked_run (blocked_run\<lparr>r_reconcile := False, r_updated := ''2026''\<rparr>)"
    by (simp add: unblocks_def blocked_run_def)
  moreover have "\<exists>db'. append_history recon_env (update_run closed_store ''r'' (unblocked_run IMPLEMENTING ''2026'')) ''r'' 9
      BLOCKED_EXTERNAL IMPLEMENTING ''run.resumed'' retried_event s a ''2026'' = Inr db'" for s a
    using tables(4,5)
    by (auto simp: append_history_def insert_transition_def insert_event_def event_row_of_def retried_event_def
        list_ex_iff list_all_iff)
  ultimately show ?thesis using retried_parsed tables
    unfolding append_resumption_def fields Let_def
    by (simp add: retried_payload_def)
qed


lemma recon_fence:
  "operation_fence blocked_store ''op'' ''o'' 2 = Inr (running_operation, blocked_run)"
  "getAsfTerminalEvidencePlanRecord blocked_store ''r'' = None"
  "getAsfTerminalEvidencePlanRecord closed_store ''r'' = None"
  "getAsfAdmissionForRun closed_store ''r'' = Some (sample_admission ''r'')"
  "now_iso recon_env = Inr ''2026''" "assertRunPhaseTransition BLOCKED_EXTERNAL IMPLEMENTING = Inr ()"
  by code_simp+

lemma recon_result:
  "validated_result recon_env blocked_store running_operation sample_finish = Inr (Some (''doc'', sample_items))"
  "completes blocked_store running_operation sample_finish" "all_resolved sample_items"
  by code_simp+

lemma recon_replayable:
  "all_replayable recon_env closed_store (filter (\<lambda>b. ob_outcome b = NotApplied) sample_items) = Inr ()"
  by code_simp

lemma recon_checkpoint:
  "bound_checkpoint recon_env closed_store ''r'' sample_digest = Inr (Some (with_digest admission_checkpoint sample_digest))"
  by code_simp

lemma recon_matches:
  "block_matches recon_env closed_store (sample_admission ''r'') blocked_run retry_binding
     (Some (with_digest admission_checkpoint sample_digest))"
  by code_simp

lemma reconciliation_accepted:
  "\<exists>db' k'. finishAsfReconciliation no_terminal recon_env blocked_store sample_finish = Inr (db', k', Some (9, IMPLEMENTING))"
proof -
  note tables = recon_fence recon_result recon_replayable recon_checkpoint recon_matches
  have fields: "fi_operation sample_finish = ''op''" "fi_owner sample_finish = ''o''" "fi_generation sample_finish = 2"
    "fi_digest sample_finish = sample_digest" "r_run_id blocked_run = ''r''" "r_state blocked_run = BLOCKED_EXTERNAL"
    "k_pending_digest running_operation = Some sample_digest" "r_version blocked_run = 8"
    "event_type blocked_event = ''run.blocked_external''" "eligible_stop (payload blocked_event)"
    "bb_phase retry_binding = IMPLEMENTING" "bb_checkpoint retry_binding = sample_digest" "is_digest sample_digest"
    "\<not> bb_cancellation retry_binding" "map_of (payload blocked_event) ''continuation'' \<noteq> None"
    by (simp_all add: sample_finish_def blocked_run_def sample_run_def running_operation_def blocked_event_def
        retry_binding_def sample_digest_ok blocked_payload_def eligible_stop_def text_field_def)
  obtain ms where block: "object_field (payload blocked_event) ''continuation'' = Some ms"
    "read_block blocked_run ms (text_field (payload blocked_event) ''code'' = Some ''CLEANUP_RECONCILIATION_REQUIRED'')
       sample_digest = Some retry_binding"
    by (simp add: blocked_event_def blocked_payload_def object_field_def text_field_def read_block_def phase_of_name_def
        RUN_EVENT_PHASES_def integer_member_def safe_int_def blocked_run_def sample_run_def cancellation_members_ok_def
        retry_binding_def)
  obtain db2 where db2: "append_resumption recon_env closed_store running_operation blocked_run (sample_admission ''r'')
     sample_digest sample_digest retry_binding blocked_event sample_items ''2026'' = Inr db2"
    using resumption_accepted by blast
  have resumed: "resumeResolvedAsfReconciliation no_terminal recon_env closed_store running_operation blocked_run
      sample_digest sample_items ''2026'' = Inr (db2, Some (9, IMPLEMENTING))"
    unfolding resumeResolvedAsfReconciliation_def resume_blocked_def
    using block db2 fields tables by (simp add: blocked_parsed)
  have "reconciliations db2 = reconciliations closed_store" using resumption_shape [OF db2] by blast
  moreover have "case getAsfReconciliation closed_store ''op'' of None \<Rightarrow> False | Some _ \<Rightarrow> True" by code_simp
  ultimately have "getAsfReconciliation db2 ''op'' \<noteq> None"
    using getAsfReconciliation_cong [of db2 closed_store "''op''"] by (auto split: option.splits)
  then have "\<exists>k'. getAsfReconciliation (mark_resumed db2 ''op'' (Some (9, IMPLEMENTING))) ''op'' = Some k'"
    by (auto simp: mark_resumed_def getAsfReconciliation_update)
  then show ?thesis
    unfolding finishAsfReconciliation_def fields tables and_then_simps
    by (auto simp: tables fields closed_store_def [symmetric] resumed Let_def)
qed

theorem reconciled_resume_is_exact_witness:
  "\<exists>db' k' r'. finishAsfReconciliation no_terminal recon_env blocked_store sample_finish =
       Inr (db', k', Some (9, IMPLEMENTING)) \<and>
     getAsfRun db' ''r'' = Some r' \<and> r_state r' = IMPLEMENTING \<and> owns db' ''r'' ''o'' 2"
proof -
  obtain db' k' where a: "finishAsfReconciliation no_terminal recon_env blocked_store sample_finish =
      Inr (db', k', Some (9, IMPLEMENTING))"
    using reconciliation_accepted by blast
  have "operation_fence blocked_store ''op'' ''o'' 2 = Inr (running_operation, blocked_run)"
    "k_run_id running_operation = ''r''" by code_simp+
  with reconciled_resume_is_exact [OF a] a show ?thesis by (auto simp: sample_finish_def)
qed


definition queued_store :: store where
  "queued_store = blocked_store\<lparr>runs := [blocked_run\<lparr>r_owner := None\<rparr>],
     reconciliations := [running_operation\<lparr>k_status := ReconQueued, k_owner := None, k_generation := None\<rparr>]\<rparr>"

theorem reconciliation_claim_is_fenced_witness:
  "\<exists>db'. claimAsfReconciliation no_terminal recon_env queued_store ''op'' ''n'' ''2020'' =
       Inr (db', OperationClaimed ''r'' 3) \<and>
     is_ok (operation_fence db' ''op'' ''n'' 3) \<and> \<not> is_ok (operation_fence db' ''op'' ''o'' 2)"
proof -
  let ?k = "running_operation\<lparr>k_status := ReconQueued, k_owner := None, k_generation := None\<rparr>"
  let ?r = "blocked_run\<lparr>r_owner := None\<rparr>"
  have tables: "getAsfReconciliation queued_store ''op'' = Some ?k" "getAsfRun queued_store ''r'' = Some ?r"
    "getAsfTerminalEvidencePlanRecord queued_store ''r'' = None"
    by (simp_all add: queued_store_def getAsfReconciliation_def getAsfRun_def getAsfTerminalEvidencePlanRecord_def
        running_operation_def blocked_run_def sample_run_def blocked_store_def empty_store_def)
  have fields: "k_run_id ?k = ''r''" "r_generation ?r = 2" "k_status ?k = ReconQueued" "\<not> live_owner ''2020'' ?r"
    by (simp_all add: running_operation_def blocked_run_def live_owner_def)
  obtain db' where a: "claimAsfReconciliation no_terminal recon_env queued_store ''op'' ''n'' ''2020'' =
      Inr (db', OperationClaimed ''r'' 3)"
    using recon_fence(5) tables fields by (simp add: claimAsfReconciliation_def Let_def)
  have "\<forall>w g. is_ok (operation_fence db' ''op'' w g) \<longleftrightarrow> w = ''n'' \<and> g = 3"
    using reconciliation_claim_is_fenced [OF a] unfolding claim_outcome.case by (elim exE conjE)
  with a show ?thesis by simp
qed

end
