(* ===== verification/Store_Steps.thy ===== *)
theory Store_Steps
  imports Lifecycle_Spec Reconciliation
begin

text \<open>
  The durable store as one state machine (\<open>src/src/state/store.ts\<close>): every modelled transaction is a step, at
  whatever time the clock shows. The transactions implement the specification of \<open>Lifecycle_Spec\<close>, so what
  it promises of the life of a run holds for any interleaving of any callers.
\<close>

section \<open>Transactions\<close>

datatype transaction =
  AdmitWorkOrder admit_input
| ClaimRun claim_input
| HeartbeatRun string string int
| ReleaseRun string string int
| RecordCheckpoint json string int
| TransitionRun transition_input
| RecordApproval validated_approval
| RequestCancellation cancellation_request string
| RecordIntent string delivery_intent bool
| ConfirmIntent confirm_input bool
| ResolveIntent resolve_input
| IntendEffect effect_input
| BeginEffect string string int
| ObserveEffect observe_input
| ReserveBudget reserve_input
| CompleteBudget complete_input
| RequestReconciliation reconciliation_request string
| ClaimReconciliation string string string
| FinishReconciliation finish_input

fun perform :: "terminal_access \<Rightarrow> store_env \<Rightarrow> store \<Rightarrow> transaction \<Rightarrow> store_error + store" where
  "perform ta env db (AdmitWorkOrder i) = and_then (admitAsfWorkOrder env db i) (\<lambda>x. Inr (fst x))"
| "perform ta env db (ClaimRun i) = and_then (claimAsfRun env db i) (\<lambda>x. Inr (fst x))"
| "perform ta env db (HeartbeatRun run w g) = heartbeatAsfRun env db run w g"
| "perform ta env db (ReleaseRun run w g) = releaseAsfRunOwnership env db run w g"
| "perform ta env db (RecordCheckpoint j w g) = and_then (recordAsfCheckpoint env db j w g) (\<lambda>x. Inr (fst x))"
| "perform ta env db (TransitionRun i) = and_then (transitionAsfRun ta env db i) (\<lambda>x. Inr (fst x))"
| "perform ta env db (RecordApproval v) = and_then (recordAsfApproval env db v) (\<lambda>x. Inr (fst x))"
| "perform ta env db (RequestCancellation q d) = and_then (requestAsfCancellation ta env db q d) (\<lambda>x. Inr (fst x))"
| "perform ta env db (RecordIntent w i c) =
     and_then (recordAsfDeliveryIntent env (plan_reads ta) db w i c) (\<lambda>x. Inr (fst x))"
| "perform ta env db (ConfirmIntent h b) = confirmAsfDeliveryIntent env db h b"
| "perform ta env db (ResolveIntent r) = and_then (resolveAsfDeliveryIntentReconciliation env db r) (\<lambda>x. Inr (fst x))"
| "perform ta env db (IntendEffect x) = and_then (intendAsfEffect env db x) (\<lambda>x. Inr (fst x))"
| "perform ta env db (BeginEffect k w g) = and_then (beginAsfEffect env db k w g) (\<lambda>x. Inr (fst x))"
| "perform ta env db (ObserveEffect z) = and_then (recordAsfEffectObservation env db z) (\<lambda>x. Inr (fst x))"
| "perform ta env db (ReserveBudget v) = and_then (reserveAsfProviderBudget env db v) (\<lambda>x. Inr (fst x))"
| "perform ta env db (CompleteBudget f) = and_then (completeAsfProviderBudget env db f) (\<lambda>x. Inr (fst x))"
| "perform ta env db (RequestReconciliation q d) =
     and_then (recordAsfReconciliationRequest ta env db q d) (\<lambda>x. Inr (fst x))"
| "perform ta env db (ClaimReconciliation op w t) = and_then (claimAsfReconciliation ta env db op w t) (\<lambda>x. Inr (fst x))"
| "perform ta env db (FinishReconciliation i) = and_then (finishAsfReconciliation ta env db i) (\<lambda>x. Inr (fst x))"

text \<open>A step is a committed transaction; a transaction that throws leaves the store as it was.\<close>

definition store_step :: "terminal_access \<Rightarrow> store_env \<Rightarrow> store \<Rightarrow> rat \<times> transaction \<Rightarrow> store \<Rightarrow> bool" where
  "store_step ta env db x db' \<longleftrightarrow> perform ta (at_clock env (fst x)) db (snd x) = Inr db'"

section \<open>The view of a run\<close>

definition run_log :: "store \<Rightarrow> string \<Rightarrow> (int \<times> phase \<times> phase) list" where
  "run_log db run = map (\<lambda>t. (st_seq t, st_from t, st_to t)) (filter (\<lambda>t. st_run t = run) (transitions db))"

definition run_events :: "store \<Rightarrow> string \<Rightarrow> int list" where
  "run_events db run = map w_seq (filter (\<lambda>w. w_run_id w = run) (events db))"

definition life_of :: "store \<Rightarrow> string \<Rightarrow> life option" where
  "life_of db run = map_option (\<lambda>r. \<lparr>lf_phase = r_state r, lf_cursor = r_version r, lf_owner = r_owner r,
     lf_generation = r_generation r, lf_log = run_log db run, lf_events = run_events db run\<rparr>) (getAsfRun db run)"

text \<open>No history without a run.\<close>

definition no_orphans :: "store \<Rightarrow> bool" where
  "no_orphans db \<longleftrightarrow> (\<forall>run. getAsfRun db run = None \<longrightarrow> run_log db run = [] \<and> run_events db run = [])"

definition same_tables :: "store \<Rightarrow> store \<Rightarrow> bool" where
  "same_tables db db' \<longleftrightarrow> runs db' = runs db \<and> transitions db' = transitions db \<and> events db' = events db"

lemma same_tables_view:
  assumes "same_tables db db'"
  shows "life_of db' = life_of db" "getAsfRun db' = getAsfRun db" "run_log db' = run_log db" "run_events db' = run_events db"
  using assms getAsfRun_cong [of db' db]
  by (auto simp: same_tables_def life_of_def run_log_def run_events_def fun_eq_iff)

text \<open>A transaction is a step of the specification and keeps histories with their runs.\<close>

definition implements :: "store \<Rightarrow> store \<Rightarrow> bool" where
  "implements db db' \<longleftrightarrow> (no_orphans db \<longrightarrow> no_orphans db' \<and> (\<forall>run. life_step (life_of db run) (life_of db' run)))"

lemma implements_same: "same_tables db db' \<Longrightarrow> implements db db'"
  by (simp add: implements_def no_orphans_def same_tables_view life_stays)

text \<open>A changed run without a change of its history.\<close>

lemma implements_row:
  assumes rows: "\<And>j. getAsfRun db' j = map_option (\<lambda>r. if j = run then f r else r) (getAsfRun db j)"
    and hist: "transitions db' = transitions db" "events db' = events db"
    and kept: "\<And>r. r_state (f r) = r_state r \<and> r_version (f r) = r_version r"
    and fence: "\<And>r. getAsfRun db run = Some r \<Longrightarrow>
      r_owner (f r) = r_owner r \<and> r_generation (f r) = r_generation r \<or>
      r_owner (f r) = None \<and> r_generation (f r) = r_generation r \<or>
      r_owner (f r) \<noteq> None \<and> r_generation (f r) = r_generation r + 1"
  shows "implements db db'"
proof -
  have log: "run_log db' = run_log db" "run_events db' = run_events db"
    using hist by (simp_all add: run_log_def run_events_def fun_eq_iff)
  have "life_step (life_of db j) (life_of db' j)" for j
  proof (cases "getAsfRun db j")
    case None
    then show ?thesis by (simp add: life_of_def rows life_stays)
  next
    case (Some r)
    let ?l = "\<lparr>lf_phase = r_state r, lf_cursor = r_version r, lf_owner = r_owner r,
      lf_generation = r_generation r, lf_log = run_log db j, lf_events = run_events db j\<rparr>"
    have l: "life_of db j = Some ?l" using Some by (simp add: life_of_def)
    show ?thesis
    proof (cases "j = run")
      case True
      then have l': "life_of db' j = Some (?l\<lparr>lf_owner := r_owner (f r), lf_generation := r_generation (f r)\<rparr>)"
        using Some kept [of r] by (simp add: life_of_def rows log)
      from fence [of r] Some True consider
          "r_owner (f r) = r_owner r" "r_generation (f r) = r_generation r"
        | "r_owner (f r) = None" "r_generation (f r) = r_generation r"
        | w where "r_owner (f r) = Some w" "r_generation (f r) = r_generation r + 1" by auto
      then show ?thesis
      proof cases
        case 1 then show ?thesis unfolding l l' by (simp add: life_stays)
      next
        case 2 then show ?thesis unfolding l l' using life_released [of ?l] by simp
      next
        case 3 then show ?thesis unfolding l l' using life_claimed [of ?l] by simp
      qed
    next
      case False
      then show ?thesis using Some by (simp add: l) (simp add: life_of_def rows log life_stays)
    qed
  qed
  moreover have "no_orphans db \<Longrightarrow> no_orphans db'" by (auto simp: no_orphans_def rows log)
  ultimately show ?thesis by (simp add: implements_def)
qed

text \<open>A run advanced by one event.\<close>

lemma implements_advance:
  assumes row: "getAsfRun db run = Some r"
    and rows: "\<And>j. getAsfRun db' j = map_option (\<lambda>q. if j = run then f q else q) (getAsfRun db j)"
    and hist: "transitions db' = transitions db @ [t]" "events db' = events db @ [w]"
      "st_run t = run" "st_seq t = r_version r + 1" "st_from t = r_state r" "st_to t = r_state (f r)"
      "w_run_id w = run" "w_seq w = r_version r + 1"
    and cursor: "r_version (f r) = r_version r + 1" and edge: "life_edge (r_state r) (r_state (f r))"
    and fence: "r_owner (f r) = r_owner r \<and> r_generation (f r) = r_generation r \<or>
      r_owner (f r) = None \<and> r_generation (f r) = r_generation r + 1"
  shows "implements db db'"
proof -
  have log: "run_log db' j = run_log db j @ (if j = run then [(r_version r + 1, r_state r, r_state (f r))] else [])"
      "run_events db' j = run_events db j @ (if j = run then [r_version r + 1] else [])" for j
    using hist by (auto simp: run_log_def run_events_def)
  have "life_step (life_of db j) (life_of db' j)" for j
  proof (cases "j = run")
    case True
    let ?l = "\<lparr>lf_phase = r_state r, lf_cursor = r_version r, lf_owner = r_owner r,
      lf_generation = r_generation r, lf_log = run_log db run, lf_events = run_events db run\<rparr>"
    have l: "life_of db j = Some ?l" using row True by (simp add: life_of_def)
    have l': "life_of db' j = Some ((advanced_life (r_state (f r)) ?l)
        \<lparr>lf_owner := r_owner (f r), lf_generation := r_generation (f r)\<rparr>)"
      using row True cursor by (simp add: life_of_def rows log advanced_life_def)
    from fence show ?thesis
    proof
      assume "r_owner (f r) = r_owner r \<and> r_generation (f r) = r_generation r"
      with life_advanced [of ?l "r_state (f r)"] edge show ?thesis
        unfolding l l' by (simp add: advanced_life_def)
    next
      assume "r_owner (f r) = None \<and> r_generation (f r) = r_generation r + 1"
      with life_fenced [of ?l "r_state (f r)"] edge show ?thesis unfolding l l' by simp
    qed
  next
    case False
    then have "life_of db' j = life_of db j" by (cases "getAsfRun db j") (simp_all add: life_of_def rows log)
    then show ?thesis by (simp add: life_stays)
  qed
  moreover have "no_orphans db \<Longrightarrow> no_orphans db'" by (auto simp: no_orphans_def rows log row)
  ultimately show ?thesis by (simp add: implements_def)
qed

section \<open>The transactions, one by one\<close>

lemma implements_update:
  assumes "runs db' = runs (update_run db run f)" and "transitions db' = transitions db" and "events db' = events db"
    and id: "\<And>r. r_run_id (f r) = r_run_id r"
    and "\<And>r. r_state (f r) = r_state r \<and> r_version (f r) = r_version r"
    and "\<And>r. getAsfRun db run = Some r \<Longrightarrow>
      r_owner (f r) = r_owner r \<and> r_generation (f r) = r_generation r \<or>
      r_owner (f r) = None \<and> r_generation (f r) = r_generation r \<or>
      r_owner (f r) \<noteq> None \<and> r_generation (f r) = r_generation r + 1"
  shows "implements db db'"
proof (rule implements_row)
  show "getAsfRun db' j = map_option (\<lambda>r. if j = run then f r else r) (getAsfRun db j)" for j
    using getAsfRun_cong [OF assms(1)] by (simp add: getAsfRun_update id)
qed (use assms in auto)

lemma admit_implements:
  assumes "admitAsfWorkOrder env db i = Inr (db', run, fresh)"
  shows "implements db db'"
proof (cases "getAsfAdmission db (ad_key i)")
  case (Some a)
  with assms have "db' = db" by (simp add: admitAsfWorkOrder_def split: if_splits)
  then show ?thesis by (simp add: implements_same same_tables_def)
next
  case None
  with assms obtain t db1 db2 db3 where c: "insert_run db (admitted_run i t) = Inr db1"
    "insert_admission db1 (admission_of env i t) = Inr db2"
    "insert_transition db2 \<lparr>st_run = ad_run i, st_seq = 1, st_from = RECEIVED, st_to = ADMITTED,
       st_reason = Some ''signed Work Order accepted'', st_actor = ''orchestrator'', st_at = t\<rparr> = Inr db3"
    "insert_event db3 (admitted_event env i t) = Inr db'"
    by (auto simp: admitAsfWorkOrder_def and_then_Inr_iff split: if_splits)
  have tables: "runs db' = runs db @ [admitted_run i t]" "events db' = events db @ [admitted_event env i t]"
    "transitions db' = transitions db @ [\<lparr>st_run = ad_run i, st_seq = 1, st_from = RECEIVED, st_to = ADMITTED,
       st_reason = Some ''signed Work Order accepted'', st_actor = ''orchestrator'', st_at = t\<rparr>]"
    using c by (auto simp: insert_run_def insert_admission_def insert_transition_def insert_event_def split: if_splits)
  have fresh: "getAsfRun db (ad_run i) = None"
    using c(1) by (auto simp: insert_run_def getAsfRun_def find_None_iff admitted_run_def list_ex_iff split: if_splits)
  have "List.find P (xs @ [x]) = (case List.find P xs of None \<Rightarrow> if P x then Some x else None | y \<Rightarrow> y)"
    for P xs and x :: run_row by (induction xs) auto
  then have rows: "getAsfRun db' j = (if j = ad_run i then Some (admitted_run i t) else getAsfRun db j)" for j
    using fresh by (auto simp: getAsfRun_def tables admitted_run_def split: option.splits)
  have log: "run_log db' j = run_log db j @ (if j = ad_run i then [(1, RECEIVED, ADMITTED)] else [])"
    "run_events db' j = run_events db j @ (if j = ad_run i then [1] else [])" for j
    by (auto simp: run_log_def run_events_def tables admitted_event_def)
  have "life_step (life_of db j) (life_of db' j)" if "no_orphans db" for j
  proof (cases "j = ad_run i")
    case True
    have "run_log db j = []" "run_events db j = []" using that fresh True by (auto simp: no_orphans_def)
    then have "life_of db j = None" "life_of db' j = Some admitted_life"
      using True fresh by (simp_all add: life_of_def rows log admitted_life_def admitted_run_def)
    then show ?thesis by (simp add: life_admitted)
  next
    case False
    then have "life_of db' j = life_of db j" by (simp add: life_of_def rows log)
    then show ?thesis by (simp add: life_stays)
  qed
  moreover have "no_orphans db \<Longrightarrow> no_orphans db'" by (auto simp: no_orphans_def rows log split: if_splits)
  ultimately show ?thesis by (simp add: implements_def)
qed

lemma claim_implements:
  assumes "claimAsfRun env db i = Inr (db', res)"
  shows "implements db db'"
proof (cases res)
  case None
  with assms have "db' = db"
    by (auto simp: claimAsfRun_def Let_def and_then_Inr_iff split: if_splits option.splits)
  then show ?thesis by (simp add: implements_same same_tables_def)
next
  case (Some p)
  then obtain gen takeover where "claimAsfRun env db i = Inr (db', Some (gen, takeover))"
    using assms by (cases p) simp
  then obtain row t cs where c: "getAsfRun db (cl_run i) = Some row" "gen = r_generation row + 1"
    "db' = (update_run db (cl_run i) (\<lambda>r. r\<lparr>r_owner := Some (cl_owner i),
              r_generation := gen, r_heartbeat := Some t, r_updated := t\<rparr>))\<lparr>checkpoints := cs\<rparr>"
    using claim_Some by blast
  show ?thesis
    by (rule implements_update [where run = "cl_run i" and f = "\<lambda>r. r\<lparr>r_owner := Some (cl_owner i),
          r_generation := gen, r_heartbeat := Some t, r_updated := t\<rparr>"]) (simp_all add: c)
qed

lemma heartbeat_implements: "heartbeatAsfRun env db run w g = Inr db' \<Longrightarrow> implements db db'"
  by (auto simp: heartbeatAsfRun_def and_then_Inr_iff split: if_splits
      intro!: implements_update [where run = run and f = "\<lambda>r. r\<lparr>r_heartbeat := _, r_updated := _\<rparr>"])

lemma release_implements: "releaseAsfRunOwnership env db run w g = Inr db' \<Longrightarrow> implements db db'"
  by (auto simp: releaseAsfRunOwnership_def and_then_Inr_iff split: if_splits
      intro!: implements_update [where run = run and f = "\<lambda>r. r\<lparr>r_owner := None, r_heartbeat := None, r_updated := _\<rparr>"])

lemma checkpoint_implements:
  assumes "recordAsfCheckpoint env db j w g = Inr (db', row, fresh)"
  shows "implements db db'"
proof -
  have "\<exists>c canonical t. insertAsfCheckpoint db c canonical t = Inr (db', row, fresh)"
    using assms unfolding recordAsfCheckpoint_def
    by (auto simp: and_then_Inr_iff split: sum.splits option.splits if_splits)
  then obtain cs where "db' = db\<lparr>checkpoints := cs\<rparr>" using insertAsfCheckpoint_runs by blast
  then show ?thesis by (simp add: implements_same same_tables_def)
qed

lemma transition_implements:
  assumes "transitionAsfRun ta env db i = Inr (db', e)"
  shows "implements db db'"
proof -
  obtain r adm t continues checkpoint where s: "getAsfRun db (t_run i) = Some r" "r_state r = t_from i"
    "r_version r = t_version i" "assertRunPhaseTransition (t_from i) (t_to i) = Inr ()"
    "commit_transition env db i e continues (next_candidate r i e) checkpoint t = Inr db'"
    using transition_shape [OF assms] by blast
  note c = commit_shape [OF s(5)]
  show ?thesis
  proof (rule implements_advance [OF s(1), where f = "advanced_run i (t_version i + 1) continues (next_candidate r i e) t"])
    show "getAsfRun db' j = map_option (\<lambda>q. if j = t_run i
        then advanced_run i (t_version i + 1) continues (next_candidate r i e) t q else q) (getAsfRun db j)" for j
      using c getAsfRun_cong [of db' "update_run db (t_run i)
        (advanced_run i (t_version i + 1) continues (next_candidate r i e) t)"]
      by (auto simp: getAsfRun_update moved_run_id)
    show "life_edge (r_state r) (r_state (advanced_run i (t_version i + 1) continues (next_candidate r i e) t r))"
      using s(2,4) by (simp add: life_edge_def)
  qed (use c s(2,3) in \<open>auto simp: event_row_of_def\<close>)
qed

lemma approval_implements:
  assumes "recordAsfApproval env db v = Inr (db', res)"
  shows "implements db db'"
proof -
  let ?run = "y_run (en_payload (va_envelope v))"
  obtain r adm t db1 as where c: "getAsfRun db ?run = Some r" "db1 = db\<lparr>approvals := as\<rparr>"
    "approvalResumeTarget env db1 r adm (en_payload (va_envelope v)) t = Inr (ra_resume res)"
    "case ra_resume res of None \<Rightarrow> db' = db1
      | Some ph \<Rightarrow> resume_waiting_run env db1 r adm (en_payload (va_envelope v)) (ra_row res) ph t = Inr db'"
    using record_approval_shape [OF assms] by blast
  show ?thesis
  proof (cases "ra_resume res")
    case None
    with c show ?thesis by (simp add: implements_same same_tables_def)
  next
    case (Some ph)
    have same: "getAsfRun db1 = getAsfRun db" by (rule getAsfRun_cong) (simp add: c(2))
    note id = getAsfRun_id [OF c(1)]
    have "resume_waiting_run env db1 r adm (en_payload (va_envelope v)) (ra_row res) ph t = Inr db'"
      using c(4) Some by simp
    from resume_shape [OF this] c(1) same id obtain e where s: "r_state r = WAITING_APPROVAL"
      "db' = (update_run db1 ?run (resumed_run ph t))
        \<lparr>transitions := transitions db @ [\<lparr>st_run = ?run, st_seq = r_version r + 1,
            st_from = WAITING_APPROVAL, st_to = ph, st_reason = Some ''current signed approval recorded'',
            st_actor = ''approval-control'', st_at = t\<rparr>],
         events := events db @ [event_row_of env ?run (r_version r + 1) ''run.resumed'' e]\<rparr>"
      by (auto simp: c(2))
    have rows: "getAsfRun db' j = map_option (\<lambda>q. if j = ?run then resumed_run ph t q else q) (getAsfRun db j)" for j
      using getAsfRun_cong [of db' "update_run db1 ?run (resumed_run ph t)"]
      by (simp add: s(2) getAsfRun_update resumed_run_def same)
    have "assertRunPhaseTransition WAITING_APPROVAL ph = Inr ()"
      using resume_target_Inr c(3) Some by fastforce
    then show ?thesis
      by (intro implements_advance [OF c(1) rows])
        (auto simp: s event_row_of_def resumed_run_def life_edge_def)
  qed
qed

lemma cancel_edge: "\<not> isTerminalRunEventPhase p \<Longrightarrow> life_edge p CANCEL_REQUESTED"
  by (cases p) (simp_all add: life_edge_def assertRunPhaseTransition_def isTerminalRunEventPhase_def
      TERMINAL_RUN_EVENT_PHASES_def INTERRUPTING_PHASES_def CHECKPOINT_SELF_TRANSITIONS_def)

lemma cancellation_implements:
  assumes "requestAsfCancellation ta env db q digest = Inr (db', res)"
  shows "implements db db'"
proof (cases "cr_disposition res = CancelRequested")
  case False
  with cancel_shape [OF assms] show ?thesis by (auto intro!: implements_same simp: same_tables_def)
next
  case True
  with cancel_shape [OF assms] obtain r t cs where c: "getAsfRun db (cq_run q) = Some r"
    "\<not> isTerminalRunEventPhase (r_state r)"
    "fence_cancelled env (db\<lparr>cancellations := cs\<rparr>) r q t = Inr db'" by blast
  let ?db = "db\<lparr>cancellations := cs\<rparr>"
  have same: "getAsfRun ?db = getAsfRun db" by (rule getAsfRun_cong) simp
  from fence_shape [OF c(3)] c(1) same obtain e where
    db': "db' = (update_run ?db (cq_run q) (cancelled_run (origin_of ?db r q \<noteq> NoOrigin) t))
      \<lparr>transitions := transitions db @ [\<lparr>st_run = cq_run q, st_seq = r_version r + 1, st_from = r_state r,
          st_to = CANCEL_REQUESTED, st_reason = Some ''authorized cancellation request'', st_actor = cq_subject q,
          st_at = t\<rparr>],
       events := events db @ [event_row_of env (cq_run q) (r_version r + 1) (event_type e) e]\<rparr>" by auto
  have rows: "getAsfRun db' j = map_option (\<lambda>s. if j = cq_run q
      then cancelled_run (origin_of ?db r q \<noteq> NoOrigin) t s else s) (getAsfRun db j)" for j
    using getAsfRun_cong [of db' "update_run ?db (cq_run q) (cancelled_run (origin_of ?db r q \<noteq> NoOrigin) t)"]
    by (simp add: db' getAsfRun_update cancelled_run_id same)
  show ?thesis
    by (rule implements_advance [OF c(1) rows])
      (auto simp: db' event_row_of_def cancelled_run_def cancel_edge [OF c(2)])
qed

lemma settle_same: "settleResolvedAsfProviderBudgetForIntent env db i = Inr (db', d) \<Longrightarrow> same_tables db db'"
  by (drule settle_tables) (auto simp: same_tables_def)

lemma same_tables_trans: "same_tables db db1 \<Longrightarrow> same_tables db1 db' \<Longrightarrow> same_tables db db'"
  by (simp add: same_tables_def)

lemma intent_implements:
  assumes "recordAsfDeliveryIntent env intact db owner i cleanup = Inr (db', s, disp)"
  shows "implements db db'"
proof -
  have "same_tables db db'"
    using record_shape [OF assms] unfolding record_effect_def
    by (auto simp: same_tables_def dest!: settle_same)
  then show ?thesis by (rule implements_same)
qed

lemma confirm_implements: "confirmAsfDeliveryIntent env db h b = Inr db' \<Longrightarrow> implements db db'"
  by (drule confirm_shape) (auto intro!: implements_same simp: same_tables_def)

lemma resolve_implements:
  assumes "resolveAsfDeliveryIntentReconciliation env db r = Inr (db', s)"
  shows "implements db db'"
proof -
  have "same_tables db db'" if pending: "resolve_pending env db r = Inr (db', s)"
  proof -
    obtain us x vs t xs db1 d where "db1 = db\<lparr>intent_observations := xs, intents := us @ resolved_row
        (o_outcome r) (o_observation r) (o_generation r) t x # vs\<rparr>"
      "settleResolvedAsfProviderBudgetForIntent env db1 s = Inr (db', d)"
      using resolve_pending_shape [OF pending] by blast
    then show ?thesis using settle_same [of env db1 s db' d] by (simp add: same_tables_def)
  qed
  with resolve_shape [OF assms] settle_same show ?thesis by (auto intro!: implements_same)
qed

lemma intend_implements:
  assumes "intendAsfEffect env db x = Inr (db', e)"
  shows "implements db db'"
proof -
  have "same_tables db db'"
    using assms unfolding intendAsfEffect_def Let_def
    by (auto simp: and_then_Inr_iff insert_effect_def same_tables_def split: if_splits option.splits prod.splits)
  then show ?thesis by (rule implements_same)
qed

lemma begin_implements:
  assumes "beginAsfEffect env db k w g = Inr (db', e)"
  shows "implements db db'"
proof -
  have "same_tables db db'"
    using assms unfolding beginAsfEffect_def Let_def
    by (auto simp: and_then_Inr_iff update_effects_def same_tables_def split: if_splits option.splits)
  then show ?thesis by (rule implements_same)
qed

lemma observe_implements:
  assumes "recordAsfEffectObservation env db z = Inr (db', b)"
  shows "implements db db'"
proof -
  obtain e :: effect_row and t and x :: effect_observation where db': "(if z_outcome z = Ambiguous
      then update_run ((update_effects db (\<lambda>f. e_key f = z_key z) (observed_effect z t))
          \<lparr>effect_observations := effect_observations db @ [x]\<rparr>) (e_run_id e)
        (\<lambda>r. r\<lparr>r_reconcile := True, r_updated := t\<rparr>)
      else (update_effects db (\<lambda>f. e_key f = z_key z) (observed_effect z t))
          \<lparr>effect_observations := effect_observations db @ [x]\<rparr>) = db'"
    using assms unfolding recordAsfEffectObservation_def Let_def step_iff sum.inject prod.inject
    by blast
  show ?thesis
  proof (cases "z_outcome z = Ambiguous")
    case True
    then show ?thesis
      by (intro implements_update [where run = "e_run_id e" and f = "\<lambda>r. r\<lparr>r_reconcile := True, r_updated := t\<rparr>"])
        (simp_all add: db' [symmetric] update_run_def update_effects_def)
  next
    case False
    then show ?thesis by (simp add: db' [symmetric] implements_same same_tables_def update_effects_def)
  qed
qed

lemma reserve_implements:
  assumes "reserveAsfProviderBudget env db v = Inr (db', d)"
  shows "implements db db'"
proof -
  have "same_tables db db'"
    using reserve_shape [OF assms] reserve_new_shape by (fastforce simp: same_tables_def)
  then show ?thesis by (rule implements_same)
qed

lemma complete_implements:
  assumes "completeAsfProviderBudget env db f = Inr (db', y)"
  shows "implements db db'"
proof -
  have "same_tables db db'" using complete_shape [OF assms] by (auto simp: same_tables_def)
  then show ?thesis by (rule implements_same)
qed

lemma reconciliation_request_implements:
  assumes "recordAsfReconciliationRequest ta env db q digest = Inr (db', res)"
  shows "implements db db'"
proof -
  have "same_tables db db'"
    using assms unfolding recordAsfReconciliationRequest_def Let_def
    by (auto simp: and_then_Inr_iff insert_operation_def same_tables_def split: if_splits option.splits)
  then show ?thesis by (rule implements_same)
qed

lemma reconciliation_claim_implements:
  assumes "claimAsfReconciliation ta env db op w stale = Inr (db', out)"
  shows "implements db db'"
proof (cases "db' = db")
  case True
  then show ?thesis by (simp add: implements_same same_tables_def)
next
  case False
  then obtain k :: reconciliation_row and r t where c: "getAsfRun db (k_run_id k) = Some r"
    "runs db' = runs (update_run db (k_run_id k) (\<lambda>q. q\<lparr>r_generation := r_generation r + 1, r_owner := Some w,
       r_heartbeat := Some t, r_updated := t\<rparr>))"
    "transitions db' = transitions db" "events db' = events db"
    using assms unfolding claimAsfReconciliation_def Let_def
    by (auto simp: and_then_Inr_iff update_operation_def split: if_splits option.splits)
  show ?thesis
    by (rule implements_update [OF c(2-4)]) (simp_all add: c(1))
qed

lemma resume_none:
  "resumeResolvedAsfReconciliation ta env db k r digest bs t = Inr (db', None) \<Longrightarrow> db' = db"
  unfolding resumeResolvedAsfReconciliation_def resume_blocked_def
  by (auto simp: and_then_Inr_iff split: if_splits option.splits)

text \<open>The phase that a block names is reached along an edge.\<close>

lemma read_block_phase:
  "read_block r ms c pending = Some b \<Longrightarrow> bb_cancellation b = c \<and> (c \<longrightarrow> bb_phase b = CANCELLING)"
  by (auto simp: read_block_def split: option.splits if_splits)

lemma resumption_edge:
  assumes "resumption_binding env db r pending b"
  shows "life_edge BLOCKED_EXTERNAL (bb_phase b)"
proof (cases "bb_cancellation b")
  case True
  then have "bb_phase b = CANCELLING"
    using assms unfolding resumption_binding_def by (metis read_block_phase)
  then show ?thesis by (simp add: life_edge_def)
next
  case False
  then show ?thesis using assms by (auto simp: resumption_binding_def life_edge_def)
qed

lemma finish_implements:
  assumes "finishAsfReconciliation ta env db i = Inr (db', k', continuation)"
  shows "implements db db'"
proof (cases continuation)
  case None
  obtain k r t v db2 where s: "operation_fence db (fi_operation i) (fi_owner i) (fi_generation i) = Inr (k, r)"
    "(case v of
        Some (_, bs) \<Rightarrow>
          if completes db k i \<and> all_resolved bs
          then resumeResolvedAsfReconciliation ta env (close_operation db k i (map_option fst v) t) k r (fi_digest i) bs t
          else Inr (close_operation db k i (map_option fst v) t, None)
      | None \<Rightarrow> Inr (close_operation db k i (map_option fst v) t, None)) = Inr (db2, None)"
    "db' = mark_resumed db2 (fi_operation i) None"
    using assms unfolding None finishAsfReconciliation_def Let_def plan_guard_iff step_iff sum.inject prod.inject by blast
  have "db2 = close_operation db k i (map_option fst v) t"
    using s(2) resume_none by (auto split: option.splits if_splits)
  then have "runs db' = runs (update_run db (k_run_id k) (\<lambda>r. r\<lparr>r_reconcile := \<not> completes db k i, r_updated := t\<rparr>))"
    "transitions db' = transitions db" "events db' = events db"
    by (simp_all add: s(3) mark_resumed_def close_operation_def update_operation_def update_run_def)
  then show ?thesis by (rule implements_update) simp_all
next
  case (Some c)
  then obtain n ph where "finishAsfReconciliation ta env db i = Inr (db', k', Some (n, ph))"
    using assms by (cases c) simp
  note f = this
  obtain k r t canon bs db2 where f: "operation_fence db (fi_operation i) (fi_owner i) (fi_generation i) = Inr (k, r)"
    "resumeResolvedAsfReconciliation ta env (close_operation db k i (Some canon) t) k r (fi_digest i) bs t =
       Inr (db2, Some (n, ph))"
    "db' = mark_resumed db2 (fi_operation i) (Some (n, ph))"
    using finish_resumes [OF f] by blast
  let ?db = "close_operation db k i (Some canon) t"
  note r = operation_fence_Inr [OF f(1)]
  obtain pending adm blocked b where s: "r_state r = BLOCKED_EXTERNAL" "resumption_binding env ?db r pending b"
    "append_resumption env ?db k r adm (fi_digest i) pending b blocked bs t = Inr db2"
    using resume_resolved_shape [OF f(2)] by blast
  let ?f = "\<lambda>q. unblocked_run (bb_phase b) t (q\<lparr>r_reconcile := \<not> completes db k i, r_updated := t\<rparr>)"
  from resumption_shape [OF s(3)] obtain e where a:
    "runs db2 = runs (update_run ?db (r_run_id r) (unblocked_run (bb_phase b) t))"
    "events db2 = events ?db @ [event_row_of env (r_run_id r) (r_version r + 1) ''run.resumed'' e]"
    "transitions db2 = transitions ?db @ [\<lparr>st_run = r_run_id r, st_seq = r_version r + 1, st_from = BLOCKED_EXTERNAL,
       st_to = bb_phase b, st_reason = Some (action_reason (resume_action_of b bs)),
       st_actor = ''reconciliation-controller'', st_at = t\<rparr>]" by blast
  have "runs db' = runs (update_run ?db (r_run_id r) (unblocked_run (bb_phase b) t))"
    by (simp add: f(3) mark_resumed_def update_operation_def a)
  from getAsfRun_cong [OF this] have rows:
    "getAsfRun db' j = map_option (\<lambda>q. if j = k_run_id k then ?f q else q) (getAsfRun db j)" for j
    using r by (cases "getAsfRun db j") (auto simp: getAsfRun_update unblocked_run_def getAsfRun_close)
  have "life_edge BLOCKED_EXTERNAL (bb_phase b)"
    using s(2) by (rule resumption_edge)
  then show ?thesis
    using r s(1) a
    by (intro implements_advance [OF _ rows])
      (auto simp: f(3) mark_resumed_def update_operation_def close_operation_def update_run_def event_row_of_def
        unblocked_run_def)
qed

lemmas implementations =
  admit_implements claim_implements heartbeat_implements release_implements checkpoint_implements
  transition_implements approval_implements cancellation_implements intent_implements confirm_implements
  resolve_implements intend_implements begin_implements observe_implements reserve_implements complete_implements
  reconciliation_request_implements reconciliation_claim_implements finish_implements

lemma perform_implements: "perform ta env db x = Inr db' \<Longrightarrow> implements db db'"
  by (cases x) (auto simp: and_then_Inr_iff intro: implementations)

interpretation lifecycle_of_store: lifecycle_store "store_step ta env" no_orphans life_of for ta env
proof
  fix db x db' run assume "no_orphans db" "store_step ta env db x db'"
  then show "no_orphans db'" "life_step (life_of db run) (life_of db' run)"
    using perform_implements by (auto simp: store_step_def implements_def)
qed

lemma no_orphans_empty: "no_orphans empty_store"
  by (simp add: no_orphans_def run_log_def run_events_def empty_store_def)

section \<open>What holds of every run\<close>




subsection \<open>Fences\<close>

text \<open>The run, the owner and the generation in whose name a transaction is called.\<close>

fun fence_of :: "store_env \<Rightarrow> store \<Rightarrow> transaction \<Rightarrow> (string \<times> string \<times> int) option" where
  "fence_of env db (HeartbeatRun run w g) = Some (run, w, g)"
| "fence_of env db (ReleaseRun run w g) = Some (run, w, g)"
| "fence_of env db (RecordCheckpoint j w g) =
     (case parseDurableAsfCheckpoint (recovery env) j of Inl _ \<Rightarrow> None | Inr c \<Rightarrow> Some (chk_run_id c, w, g))"
| "fence_of env db (TransitionRun i) = Some (t_run i, t_owner i, t_generation i)"
| "fence_of env db (RecordIntent w i c) = Some (i_run_id i, w, i_generation i)"
| "fence_of env db (ConfirmIntent h b) =
     Some (d_run (h_binding h), h_owner h, d_generation (h_binding h))"
| "fence_of env db (IntendEffect x) = Some (x_run x, x_owner x, x_generation x)"
| "fence_of env db (BeginEffect k w g) = map_option (\<lambda>e. (e_run_id e, w, g)) (getAsfEffect db k)"
| "fence_of env db (ObserveEffect z) =
     map_option (\<lambda>e. (e_run_id e, z_owner z, z_generation z)) (getAsfEffect db (z_key z))"
| "fence_of env db (ReserveBudget v) = Some (d_run (v_binding v), v_owner v, d_generation (v_binding v))"
| "fence_of env db (CompleteBudget f) = Some (d_run (f_binding f), f_owner f, d_generation (f_binding f))"
| "fence_of env db (FinishReconciliation i) =
     map_option (\<lambda>k. (k_run_id k, fi_owner i, fi_generation i)) (getAsfReconciliation db (fi_operation i))"
| "fence_of env db _ = None"

text \<open>Each of them commits only while that owner holds that generation.\<close>

lemma run_fence_owns: "run_fence db w run g = Inr r \<Longrightarrow> owns db run w g"
  by (auto simp: run_fence_def owns_def split: option.splits if_splits)

lemma intent_fence_owns: "intent_fence db w run g = Inr (r, adm) \<Longrightarrow> owns db run w g"
  by (auto simp: intent_fence_def owns_def split: option.splits if_splits)

lemma effect_fenced:
  "intendAsfEffect env db x = Inr y \<Longrightarrow> owns db (x_run x) (x_owner x) (x_generation x)"
  "beginAsfEffect env db k w g = Inr z \<Longrightarrow> getAsfEffect db k = Some e \<Longrightarrow> owns db (e_run_id e) w g"
  "recordAsfEffectObservation env db o' = Inr v \<Longrightarrow> getAsfEffect db (z_key o') = Some e \<Longrightarrow>
     owns db (e_run_id e) (z_owner o') (z_generation o')"
  by (auto simp: intendAsfEffect_def beginAsfEffect_def recordAsfEffectObservation_def and_then_Inr_iff
      dest: run_fence_owns intent_fence_owns split: if_splits)

lemma run_fenced:
  "heartbeatAsfRun env db run w g = Inr db' \<Longrightarrow> owns db run w g"
  "releaseAsfRunOwnership env db run w g = Inr db' \<Longrightarrow> owns db run w g"
  "transitionAsfRun ta env db i = Inr (db', e) \<Longrightarrow> owns db (t_run i) (t_owner i) (t_generation i)"
  by (auto simp: heartbeatAsfRun_def releaseAsfRunOwnership_def and_then_Inr_iff owns_def
      dest!: transition_shape split: if_splits)

lemma checkpoint_fenced:
  "recordAsfCheckpoint env db j w g = Inr y \<Longrightarrow> parseDurableAsfCheckpoint (recovery env) j = Inr c \<Longrightarrow>
     owns db (chk_run_id c) w g"
  by (auto simp: recordAsfCheckpoint_def owns_def split: option.splits if_splits)

lemma budget_fenced:
  "reserveAsfProviderBudget env db v = Inr y \<Longrightarrow> owns db (d_run (v_binding v)) (v_owner v) (d_generation (v_binding v))"
  "completeAsfProviderBudget env db f = Inr z \<Longrightarrow> owns db (d_run (f_binding f)) (f_owner f) (d_generation (f_binding f))"
  by (auto simp: reserveAsfProviderBudget_def completeAsfProviderBudget_def and_then_Inr_iff
      dest!: binding_current split: if_splits)

lemma finish_fenced:
  assumes "finishAsfReconciliation ta env db i = Inr y" and "getAsfReconciliation db (fi_operation i) = Some k"
  shows "owns db (k_run_id k) (fi_owner i) (fi_generation i)"
proof -
  obtain k' r where "operation_fence db (fi_operation i) (fi_owner i) (fi_generation i) = Inr (k', r)"
    using assms(1) unfolding finishAsfReconciliation_def Let_def step_iff by blast
  from operation_fence_Inr [OF this] assms(2) show ?thesis by (auto simp: owns_def)
qed

lemma fenced_transaction:
  "perform ta env db x = Inr db' \<Longrightarrow> fence_of env db x = Some (run, w, g) \<Longrightarrow> owns db run w g"
  by (cases x) (auto simp: and_then_Inr_iff dest: effect_fenced run_fenced checkpoint_fenced budget_fenced
      finish_fenced record_shape confirm_shape split: sum.splits)


section \<open>Sample runs\<close>

definition sample_order :: "string \<Rightarrow> admit_input" where
  "sample_order run =
     \<lparr>ad_run = run, ad_key = run, ad_work_item = ''i'', ad_repository = ''o/n'', ad_implementer = ''p'',
      ad_base = sample_sha, ad_work_order = run, ad_attempt = ''a'', ad_tenant = ''t'', ad_signer = ''k'',
      ad_algorithm = ''ed25519'', ad_envelope = ''e'', ad_envelope_digest = sample_digest,
      ad_payload_digest = sample_digest, ad_policy = JObject [], ad_policy_digest = sample_digest\<rparr>"

definition sample_script :: "(rat \<times> transaction) list" where
  "sample_script = [(0, AdmitWorkOrder (sample_order ''r''))]"

text \<open>A list of transactions, each committed at its time.\<close>

fun replay :: "terminal_access \<Rightarrow> store_env \<Rightarrow> store \<Rightarrow> (rat \<times> transaction) list \<Rightarrow> store_error + store" where
  "replay ta env db [] = Inr db"
| "replay ta env db (x # xs) =
     and_then (perform ta (at_clock env (fst x)) db (snd x)) (\<lambda>db'. replay ta env db' xs)"

lemma replay_steps: "replay ta env db xs = Inr db' \<Longrightarrow> steps (store_step ta env) db xs db'"
  by (induction xs arbitrary: db) (auto simp: and_then_Inr_iff store_step_def intro: steps.intros)

lemma sample_replayed:
  "case replay no_terminal sample_store_env empty_store sample_script of
     Inl _ \<Rightarrow> False
   | Inr db \<Rightarrow> map_option (\<lambda>r. (r_state r, r_version r, r_owner r, r_generation r)) (getAsfRun db ''r'') =
       Some (ADMITTED, 1, None, 0)"
  by code_simp

text \<open>A run that has failed, and another one whose owner renews itself.\<close>

definition finished_store :: store where
  "finished_store = empty_store\<lparr>runs := [(sample_run ''f'')\<lparr>r_state := FAILED\<rparr>,
     (sample_run ''h'')\<lparr>r_owner := Some ''o'', r_generation := 1\<rparr>]\<rparr>"

definition heartbeat_script :: "(rat \<times> transaction) list" where
  "heartbeat_script = [(0, HeartbeatRun ''h'' ''o'' 1)]"

lemma finished_replayed:
  "case replay no_terminal sample_store_env finished_store heartbeat_script of
     Inl _ \<Rightarrow> False | Inr db \<Rightarrow> True"
  by code_simp

lemma no_orphans_finished: "no_orphans finished_store"
  by (simp add: no_orphans_def run_log_def run_events_def finished_store_def empty_store_def)





end
