(* ===== verification/Canonical_Json.thy ===== *)
theory Canonical_Json
  imports Prelude "HOL-Library.Word"
begin

text \<open>
  The canonical form of a JSON document (\<open>src/src/asf/canonical-json.ts\<close>), the text that every digest and
  signature of the system is computed from. JavaScript values refer to objects by their address in a
  store, so shared and cyclic structures are modelled; strings are lists of UTF-16 code units. The text of
  a finite number (\<open>JSON.stringify\<close>) is a parameter; it takes -0 to the text of 0, so a number is a rational.
\<close>

section \<open>Values\<close>

type_synonym code_unit = "16 word"
type_synonym jstr = "code_unit list"

datatype jsnum = NaN | Infinite bool | Finite rat

datatype jsval =
  Undefined | JsFunction | JsSymbol | BigInt
| Null | Bool bool | Str jstr | Num jsnum
| Ref nat   \<comment> \<open>the address of an object\<close>

datatype pkey = Named jstr | SymbolKey

datatype js_property = Data bool jsval | Accessor   \<comment> \<open>a data property: enumerable?, value\<close>

text \<open>The own properties in the order of \<open>Reflect.ownKeys\<close>; the property \<open>length\<close> of an array is its length.
  The prototype of an object is \<open>Object.prototype\<close> or null, or its constructor has a name.\<close>

datatype jsobj =
  ArrayObject nat "(pkey \<times> js_property) list"
| PlainObject "(pkey \<times> js_property) list"
| ForeignObject jstr

datatype canon_error =
  LoneSurrogate | NotFinite | NotJson jsval | Cyclic | SymbolKeyedElement | ForeignElement jstr | HoleAt nat
| ElementNotData nat | NotPlain jstr | SymbolKeyedProperty | PropertyNotData jstr | PropertyNotEnumerable jstr

section \<open>Strings\<close>

definition high_surrogate :: "code_unit \<Rightarrow> bool" where
  "high_surrogate c \<longleftrightarrow> 0xD800 \<le> c \<and> c \<le> 0xDBFF"

definition low_surrogate :: "code_unit \<Rightarrow> bool" where
  "low_surrogate c \<longleftrightarrow> 0xDC00 \<le> c \<and> c \<le> 0xDFFF"

fun rejectLoneSurrogates :: "jstr \<Rightarrow> canon_error + unit" where
  "rejectLoneSurrogates [] = Inr ()"
| "rejectLoneSurrogates [c] = (if high_surrogate c \<or> low_surrogate c then Inl LoneSurrogate else Inr ())"
| "rejectLoneSurrogates (c # d # cs) =
     (if high_surrogate c then (if low_surrogate d then rejectLoneSurrogates cs else Inl LoneSurrogate)
      else if low_surrogate c then Inl LoneSurrogate
      else rejectLoneSurrogates (d # cs))"

text \<open>\<open>JSON.stringify\<close> of a string without lone surrogates.\<close>

definition hex_digit :: "code_unit \<Rightarrow> code_unit" where
  "hex_digit d = (if d < 10 then 48 + d else 87 + d)"

definition escaped :: "code_unit \<Rightarrow> jstr" where
  "escaped c =
     (if c = 8 then [92, 98] else if c = 9 then [92, 116] else if c = 10 then [92, 110]
      else if c = 12 then [92, 102] else if c = 13 then [92, 114]
      else if c = 34 then [92, 34] else if c = 92 then [92, 92]
      else if c < 32 then [92, 117, 48, 48, hex_digit (c div 16), hex_digit (c mod 16)]
      else [c])"

definition quoted :: "jstr \<Rightarrow> jstr" where
  "quoted s = 34 # concat (map escaped s) @ [34]"

definition renderString :: "jstr \<Rightarrow> canon_error + jstr" where
  "renderString s = and_then (rejectLoneSurrogates s) (\<lambda>_. Inr (quoted s))"

section \<open>Canonicalisation\<close>

text \<open>ASCII text as code units.\<close>

definition ascii :: "string \<Rightarrow> jstr" where
  "ascii s = map of_char s"

fun decimal :: "nat \<Rightarrow> jstr" where
  "decimal n = (if n < 10 then [word_of_nat (48 + n)] else decimal (n div 10) @ [word_of_nat (48 + n mod 10)])"

declare decimal.simps [simp del]

text \<open>A key is an index of the array if it is the text of a number below its length.\<close>

definition isArrayIndex :: "jstr \<Rightarrow> nat \<Rightarrow> bool" where
  "isArrayIndex key n \<longleftrightarrow> (\<exists>i \<in> set [0..<n]. decimal i = key)"

fun commas :: "jstr list \<Rightarrow> jstr" where
  "commas [] = []"
| "commas [s] = s"
| "commas (s # t # ts) = s @ 44 # commas (t # ts)"

fun traverse :: "('a \<Rightarrow> 'e + 'b) \<Rightarrow> 'a list \<Rightarrow> 'e + 'b list" where
  "traverse f [] = Inr []"
| "traverse f (x # xs) = and_then (f x) (\<lambda>y. and_then (traverse f xs) (\<lambda>ys. Inr (y # ys)))"

lemma traverse_cong [fundef_cong]:
  "xs = ys \<Longrightarrow> (\<And>x. x \<in> set ys \<Longrightarrow> f x = g x) \<Longrightarrow> traverse f xs = traverse g ys"
  by (induction xs arbitrary: ys) auto

text \<open>An error about a key shows the key, which may itself not be renderable.\<close>

definition about_key :: "jstr \<Rightarrow> (jstr \<Rightarrow> canon_error) \<Rightarrow> canon_error + 'a" where
  "about_key key e = and_then (renderString key) (\<lambda>s. Inl (e s))"

fun array_key_ok :: "nat \<Rightarrow> pkey \<times> js_property \<Rightarrow> canon_error + unit" where
  "array_key_ok n (SymbolKey, p) = Inl SymbolKeyedElement"
| "array_key_ok n (Named key, p) = (if isArrayIndex key n then Inr () else about_key key ForeignElement)"

definition element_at :: "(pkey \<times> js_property) list \<Rightarrow> nat \<Rightarrow> canon_error + jsval" where
  "element_at ps i =
     (case map_of ps (Named (decimal i)) of
        None \<Rightarrow> Inl (HoleAt i)
      | Some Accessor \<Rightarrow> Inl (ElementNotData i)
      | Some (Data e v) \<Rightarrow> Inr v)"

fun member_of :: "pkey \<times> js_property \<Rightarrow> canon_error + (jstr \<times> jsval)" where
  "member_of (SymbolKey, p) = Inl SymbolKeyedProperty"
| "member_of (Named key, Accessor) = about_key key PropertyNotData"
| "member_of (Named key, Data e v) = (if e then Inr (key, v) else about_key key PropertyNotEnumerable)"

text \<open>\<open>heap\<close> holds the objects, \<open>anc\<close> the addresses of the objects being serialised. No value refers to an
  address outside the store.\<close>

function canonicalize :: "(rat \<Rightarrow> jstr) \<Rightarrow> jsobj list \<Rightarrow> nat list \<Rightarrow> jsval \<Rightarrow> canon_error + jstr" where
  "canonicalize nt heap anc v =
     (case v of
        Null \<Rightarrow> Inr (ascii ''null'')
      | Bool b \<Rightarrow> Inr (ascii (if b then ''true'' else ''false''))
      | Str s \<Rightarrow> renderString s
      | Num (Finite q) \<Rightarrow> Inr (nt q)
      | Num _ \<Rightarrow> Inl NotFinite
      | Ref a \<Rightarrow>
          if a \<in> set anc then Inl Cyclic
          else if length heap \<le> a then Inl (NotJson v)
          else (case heap ! a of
             ArrayObject n ps \<Rightarrow>
               and_then (all_ok (array_key_ok n) ps) (\<lambda>_.
               and_then (traverse (\<lambda>i. and_then (element_at ps i) (canonicalize nt heap (a # anc))) [0..<n]) (\<lambda>es.
                 Inr (91 # commas es @ [93])))
           | ForeignObject name \<Rightarrow> Inl (NotPlain name)
           | PlainObject ps \<Rightarrow>
               and_then (traverse member_of ps) (\<lambda>ms.
               and_then (traverse (\<lambda>(key, w). and_then (renderString key) (\<lambda>k.
                   and_then (canonicalize nt heap (a # anc) w) (\<lambda>t. Inr (k @ 58 # t)))) (sort_key fst ms)) (\<lambda>ts.
                 Inr (123 # commas ts @ [125]))))
      | _ \<Rightarrow> Inl (NotJson v))"
  by pat_completeness auto

termination
  by (relation "measure (\<lambda>(nt, heap, anc, v). card ({..<length heap} - set anc))")
    (auto intro!: diff_less simp: card_gt_0_iff subset_iff, (metis not_le)+)

declare canonicalize.simps [simp del]

definition canonicalJson :: "(rat \<Rightarrow> jstr) \<Rightarrow> jsobj list \<Rightarrow> jsval \<Rightarrow> canon_error + jstr" where
  "canonicalJson nt heap v = canonicalize nt heap [] v"

text \<open>\<open>hash\<close> is the lower-case hexadecimal SHA-256 of the UTF-8 encoding of a text.\<close>

definition sha256Digest ::
  "(jstr \<Rightarrow> jstr) \<Rightarrow> (rat \<Rightarrow> jstr) \<Rightarrow> jsobj list \<Rightarrow> jsval \<Rightarrow> canon_error + jstr" where
  "sha256Digest hash nt heap v = and_then (canonicalJson nt heap v) (\<lambda>s. Inr (ascii ''sha256:'' @ hash s))"

section \<open>Documents\<close>

text \<open>What a value means: a finite tree. A value denotes at most one.\<close>

datatype doc = DNull | DBool bool | DNum rat | DStr jstr | DArr "doc list" | DObj "(jstr \<times> doc) list"

inductive denotes :: "jsobj list \<Rightarrow> jsval \<Rightarrow> doc \<Rightarrow> bool" for heap where
  denotes_null: "denotes heap Null DNull"
| denotes_bool: "denotes heap (Bool b) (DBool b)"
| denotes_str: "denotes heap (Str s) (DStr s)"
| denotes_num: "denotes heap (Num (Finite q)) (DNum q)"
| denotes_arr: "a < length heap \<Longrightarrow> heap ! a = ArrayObject n ps \<Longrightarrow>
    \<forall>kp \<in> set ps. \<exists>i<n. fst kp = Named (decimal i) \<Longrightarrow>
    list_all2 (\<lambda>i d. \<exists>w e. map_of ps (Named (decimal i)) = Some (Data e w) \<and> denotes heap w d) [0..<n] ds \<Longrightarrow>
    denotes heap (Ref a) (DArr ds)"
| denotes_obj: "a < length heap \<Longrightarrow> heap ! a = PlainObject (map (\<lambda>m. (Named (fst m), Data True (snd m))) ms) \<Longrightarrow>
    list_all2 (\<lambda>m d. fst d = fst m \<and> denotes heap (snd m) (snd d)) ms kds \<Longrightarrow> denotes heap (Ref a) (DObj kds)"

inductive_cases denotes_RefE: "denotes heap (Ref a) d"
inductive_simps denotes_leaf [simp]:
  "denotes heap Null d" "denotes heap (Bool b) d" "denotes heap (Str s) d" "denotes heap (Num x) d"
  "denotes heap Undefined d" "denotes heap JsFunction d" "denotes heap JsSymbol d" "denotes heap BigInt d"

text \<open>The members of every object in the order of their keys, the text of a document as it stands, and
  the strings that have a UTF-8 encoding.\<close>

primrec ordered :: "doc \<Rightarrow> doc" where
  "ordered DNull = DNull"
| "ordered (DBool b) = DBool b"
| "ordered (DNum q) = DNum q"
| "ordered (DStr s) = DStr s"
| "ordered (DArr ds) = DArr (map ordered ds)"
| "ordered (DObj ms) = DObj (sort_key fst (map (map_prod id ordered) ms))"

primrec print :: "(rat \<Rightarrow> jstr) \<Rightarrow> doc \<Rightarrow> jstr" where
  "print nt DNull = ascii ''null''"
| "print nt (DBool b) = ascii (if b then ''true'' else ''false'')"
| "print nt (DNum q) = nt q"
| "print nt (DStr s) = quoted s"
| "print nt (DArr ds) = 91 # commas (map (print nt) ds) @ [93]"
| "print nt (DObj ms) = 123 # commas (map (\<lambda>(k, t). quoted k @ 58 # t) (map (map_prod id (print nt)) ms)) @ [125]"

primrec lawful :: "doc \<Rightarrow> bool" where
  "lawful DNull = True"
| "lawful (DBool b) = True"
| "lawful (DNum q) = True"
| "lawful (DStr s) = (rejectLoneSurrogates s = Inr ())"
| "lawful (DArr ds) = list_all id (map lawful ds)"
| "lawful (DObj ms) = list_all (\<lambda>(k, b). rejectLoneSurrogates k = Inr () \<and> b) (map (map_prod id lawful) ms)"

lemma map_insort_key:
  "(\<And>y. y \<in> insert x (set xs) \<Longrightarrow> fst (f y) = k y) \<Longrightarrow> insort_key fst (f x) (map f xs) = map f (insort_key k x xs)"
  by (induction xs) auto

lemma sort_map_key: "(\<And>x. x \<in> set xs \<Longrightarrow> fst (f x) = k x) \<Longrightarrow> sort_key fst (map f xs) = map f (sort_key k xs)"
proof (induction xs)
  case (Cons x xs)
  have "insort_key fst (f x) (map f (sort_key k xs)) = map f (insort_key k x (sort_key k xs))"
    by (rule map_insort_key) (use Cons.prems in auto)
  moreover have "sort_key fst (map f xs) = map f (sort_key k xs)" using Cons by simp
  ultimately show ?case by (simp only: list.map sort_key_simps)
qed simp

lemma sort_map_pair: "sort_key fst (map (map_prod id f) xs) = map (map_prod id f) (sort_key fst xs)"
  by (rule sort_map_key) simp

text \<open>The order of members does not matter.\<close>

lemma norm_permuted:
  assumes "distinct (map fst ms)" and "mset ms = mset ns"
  shows "ordered (DObj ms) = ordered (DObj ns)"
proof -
  have "inj_on fst (set ms)" using assms(1) by (simp add: distinct_map)
  then have "sort_key fst ms = sort_key fst ns" using assms(2) by (intro sort_key_eq_sort_key) auto
  then show ?thesis by (simp add: sort_map_pair)
qed

lemma traverse_Inr_iff: "traverse f xs = Inr ys \<longleftrightarrow> list_all2 (\<lambda>x y. f x = Inr y) xs ys"
  by (induction xs arbitrary: ys) (auto simp: and_then_Inr_iff list_all2_Cons1)

lemma denotes_unique: "denotes heap v d \<Longrightarrow> denotes heap v d' \<Longrightarrow> d = d'"
proof (induction arbitrary: d' rule: denotes.induct)
  case (denotes_arr a n ps ds)
  from denotes_arr.prems denotes_arr.hyps(1,2) obtain ds' where d': "d' = DArr ds'"
    "list_all2 (\<lambda>i d. \<exists>w e. map_of ps (Named (decimal i)) = Some (Data e w) \<and> denotes heap w d) [0..<n] ds'"
    by (auto elim: denotes_RefE)
  have "ds ! i = ds' ! i" if i: "i < length ds" for i
    using list_all2_nthD2 [OF denotes_arr.IH i] list_all2_nthD2 [OF d'(2), of i] i
      list_all2_lengthD [OF denotes_arr.IH] list_all2_lengthD [OF d'(2)] by auto
  then have "ds = ds'"
    using list_all2_lengthD [OF denotes_arr.IH] list_all2_lengthD [OF d'(2)] by (intro nth_equalityI) auto
  then show ?case by (simp add: d')
next
  case (denotes_obj a ms kds)
  have inj: "inj (\<lambda>m. (Named (fst m), Data True (snd m)))" by (auto intro!: injI prod_eqI)
  from denotes_obj.prems denotes_obj.hyps(1,2) obtain kds' where d': "d' = DObj kds'"
    "list_all2 (\<lambda>m d. fst d = fst m \<and> denotes heap (snd m) (snd d)) ms kds'"
    by (auto elim!: denotes_RefE dest!: map_injective [OF _ inj])
  have "kds ! i = kds' ! i" if i: "i < length kds" for i
  proof (rule prod_eqI)
    note n = list_all2_lengthD [OF denotes_obj.IH] list_all2_lengthD [OF d'(2)]
    note kd = list_all2_nthD2 [OF denotes_obj.IH i]
    have kd': "fst (kds' ! i) = fst (ms ! i) \<and> denotes heap (snd (ms ! i)) (snd (kds' ! i))"
      using list_all2_nthD2 [OF d'(2), of i] i n by simp
    show "fst (kds ! i) = fst (kds' ! i)" using kd kd' by simp
    show "snd (kds ! i) = snd (kds' ! i)" using kd kd' by blast
  qed
  then have "kds = kds'"
    using list_all2_lengthD [OF denotes_obj.IH] list_all2_lengthD [OF d'(2)] by (intro nth_equalityI) auto
  then show ?case by (simp add: d')
qed auto

section \<open>The canonical form is the text of the sorted document\<close>

lemma about_key_not_Inr [simp]: "about_key key e \<noteq> Inr y"
  by (auto simp: about_key_def and_then_Inr_iff)

lemma array_key_ok_iff: "array_key_ok n kp = Inr u \<longleftrightarrow> (\<exists>i<n. fst kp = Named (decimal i))"
  by (cases "(n, kp)" rule: array_key_ok.cases) (auto simp: isArrayIndex_def)

lemma member_of_iff: "member_of kp = Inr m \<longleftrightarrow> kp = (Named (fst m), Data True (snd m))"
  by (cases kp rule: member_of.cases) auto

lemma element_at_iff: "element_at ps i = Inr w \<longleftrightarrow> (\<exists>e. map_of ps (Named (decimal i)) = Some (Data e w))"
  by (auto simp: element_at_def split: option.splits js_property.splits)

lemma members_iff:
  "list_all2 (\<lambda>x y. member_of x = Inr y) ps ms \<longleftrightarrow> ps = map (\<lambda>m. (Named (fst m), Data True (snd m))) ms"
  by (auto simp: member_of_iff list_all2_conv_all_nth intro!: nth_equalityI)

text \<open>What the serialisation of an object consists of.\<close>

lemma canonicalize_array:
  assumes "heap ! a = ArrayObject n ps"
  shows "canonicalize nt heap anc (Ref a) = Inr s \<longleftrightarrow>
     a \<notin> set anc \<and> a < length heap \<and> (\<forall>kp \<in> set ps. \<exists>i<n. fst kp = Named (decimal i)) \<and>
     (\<exists>es. list_all2 (\<lambda>i t. \<exists>w. element_at ps i = Inr w \<and> canonicalize nt heap (a # anc) w = Inr t) [0..<n] es \<and>
        s = 91 # commas es @ [93])"
  by (subst canonicalize.simps) (auto simp: assms and_then_Inr_iff all_ok_Inr_iff traverse_Inr_iff array_key_ok_iff)

definition member_text :: "jstr \<times> jstr \<Rightarrow> jstr" where
  "member_text m = quoted (fst m) @ 58 # snd m"

lemma canonicalize_object:
  assumes "heap ! a = PlainObject ps"
  shows "canonicalize nt heap anc (Ref a) = Inr s \<longleftrightarrow>
     a \<notin> set anc \<and> a < length heap \<and>
     (\<exists>ms. ps = map (\<lambda>m. (Named (fst m), Data True (snd m))) ms \<and>
        (\<exists>ts. list_all2 (\<lambda>m t. rejectLoneSurrogates (fst m) = Inr () \<and>
           (\<exists>u. canonicalize nt heap (a # anc) (snd m) = Inr u \<and> member_text (fst m, u) = t)) (sort_key fst ms) ts \<and>
          s = 123 # commas ts @ [125]))"
  by (subst canonicalize.simps)
    (simp add: assms and_then_Inr_iff traverse_Inr_iff members_iff renderString_def member_text_def split_beta
      not_le eq_commute [of "_ # _" s] conj_commute [of "_ \<le> _"] cong: conj_cong)

lemma canonicalize_leaf [simp]:
  "canonicalize nt heap anc Null = Inr (ascii ''null'')"
  "canonicalize nt heap anc (Bool b) = Inr (ascii (if b then ''true'' else ''false''))"
  "canonicalize nt heap anc (Str u) = renderString u"
  "canonicalize nt heap anc (Num (Finite q)) = Inr (nt q)"
  "canonicalize nt heap anc (Num NaN) = Inl NotFinite" "canonicalize nt heap anc (Num (Infinite b)) = Inl NotFinite"
  "canonicalize nt heap anc Undefined = Inl (NotJson Undefined)"
  "canonicalize nt heap anc JsFunction = Inl (NotJson JsFunction)"
  "canonicalize nt heap anc JsSymbol = Inl (NotJson JsSymbol)" "canonicalize nt heap anc BigInt = Inl (NotJson BigInt)"
  by (simp_all add: canonicalize.simps)

lemma print_obj: "print nt (DObj ms) = 123 # commas (map (member_text \<circ> map_prod id (print nt)) ms) @ [125]"
  by (simp add: member_text_def comp_def split_beta)

lemma canonicalize_sound:
  "canonicalize nt heap anc v = Inr s \<Longrightarrow> \<exists>d. denotes heap v d \<and> lawful d \<and> s = print nt (ordered d)"
proof (induction nt heap anc v arbitrary: s rule: canonicalize.induct)
  case (1 nt heap anc v)
  show ?case
  proof (cases v)
    case (Ref a)
    show ?thesis
    proof (cases "heap ! a")
      case (ArrayObject n ps)
      from 1(3) [unfolded Ref canonicalize_array [OF ArrayObject]] obtain es where es: "a \<notin> set anc"
        "\<not> length heap \<le> a" "\<forall>kp \<in> set ps. \<exists>i<n. fst kp = Named (decimal i)" "s = 91 # commas es @ [93]"
        "list_all2 (\<lambda>i t. \<exists>w. element_at ps i = Inr w \<and> canonicalize nt heap (a # anc) w = Inr t) [0..<n] es"
        by auto
      have "\<exists>d w e. map_of ps (Named (decimal i)) = Some (Data e w) \<and> denotes heap w d \<and> lawful d \<and>
          es ! i = print nt (ordered d)" if i: "i < n" for i
      proof -
        from list_all2_nthD [OF es(5), of i] i obtain w where w: "element_at ps i = Inr w"
          "canonicalize nt heap (a # anc) w = Inr (es ! i)" by auto
        from 1(1) [OF Ref es(1,2) ArrayObject _ w(2), of i] i w(1) show ?thesis by (auto simp: element_at_iff)
      qed
      then obtain D where D: "\<And>i. i < n \<Longrightarrow> (\<exists>w e. map_of ps (Named (decimal i)) = Some (Data e w) \<and>
          denotes heap w (D i)) \<and> lawful (D i) \<and> es ! i = print nt (ordered (D i))"
        by metis
      let ?ds = "map D [0..<n]"
      have "denotes heap v (DArr ?ds)"
        unfolding Ref using es(2,3) D by (intro denotes_arr [OF _ ArrayObject]) (auto simp: list_all2_conv_all_nth)
      moreover have "es = map (print nt \<circ> ordered \<circ> D) [0..<n]"
        using list_all2_lengthD [OF es(5)] D by (intro nth_equalityI) auto
      ultimately show ?thesis using D es(4) by (intro exI [of _ "DArr ?ds"]) (auto simp: list_all_iff comp_def)
    next
      case (PlainObject ps)
      from 1(3) [unfolded Ref canonicalize_object [OF PlainObject]] obtain ms ts where ms: "a \<notin> set anc"
        "\<not> length heap \<le> a" "ps = map (\<lambda>m. (Named (fst m), Data True (snd m))) ms" "s = 123 # commas ts @ [125]"
        "list_all2 (\<lambda>m t. rejectLoneSurrogates (fst m) = Inr () \<and>
           (\<exists>u. canonicalize nt heap (a # anc) (snd m) = Inr u \<and> member_text (fst m, u) = t)) (sort_key fst ms) ts"
        by auto
      have "\<exists>d. rejectLoneSurrogates (fst m) = Inr () \<and> denotes heap (snd m) d \<and> lawful d \<and>
          canonicalize nt heap (a # anc) (snd m) = Inr (print nt (ordered d))" if m: "m \<in> set ms" for m
      proof -
        from m obtain j where j: "j < length (sort_key fst ms)" "m = sort_key fst ms ! j"
          by (metis in_set_conv_nth set_sort)
        from list_all2_nthD [OF ms(5) j(1)] j(2) obtain u where u: "rejectLoneSurrogates (fst m) = Inr ()"
          "canonicalize nt heap (a # anc) (snd m) = Inr u" by auto
        from 1(2) [OF Ref ms(1,2) PlainObject] m u show ?thesis by (cases m) fastforce
      qed
      then obtain D where D: "\<And>m. m \<in> set ms \<Longrightarrow> rejectLoneSurrogates (fst m) = Inr () \<and>
          denotes heap (snd m) (D m) \<and> lawful (D m) \<and>
          canonicalize nt heap (a # anc) (snd m) = Inr (print nt (ordered (D m)))" by metis
      let ?pair = "\<lambda>m. (fst m, D m)"
      have "denotes heap v (DObj (map ?pair ms))"
        unfolding Ref
      proof (rule denotes_obj)
        show "list_all2 (\<lambda>m d. fst d = fst m \<and> denotes heap (snd m) (snd d)) ms (map ?pair ms)"
          by (simp add: list_all2_conv_all_nth D)
      qed (use ms(2,3) PlainObject in auto)
      moreover have "sort_key fst (map ?pair ms) = map ?pair (sort_key fst ms)"
        by (rule sort_map_key) simp
      then have "ordered (DObj (map ?pair ms)) = DObj (map (\<lambda>m. (fst m, ordered (D m))) (sort_key fst ms))"
        by (simp only: ordered.simps sort_map_pair) (simp add: comp_def)
      moreover have "ts = map (member_text \<circ> (\<lambda>m. (fst m, print nt (ordered (D m))))) (sort_key fst ms)"
      proof (rule nth_equalityI)
        fix j assume j: "j < length ts"
        then have k: "j < length (sort_key fst ms)" using list_all2_lengthD [OF ms(5)] by simp
        then have "sort_key fst ms ! j \<in> set ms" by (metis nth_mem set_sort)
        with list_all2_nthD [OF ms(5) k] D k
        show "ts ! j = map (member_text \<circ> (\<lambda>m. (fst m, print nt (ordered (D m))))) (sort_key fst ms) ! j" by auto
      qed (use list_all2_lengthD [OF ms(5)] in simp)
      moreover have "lawful (DObj (map ?pair ms))" using D by (auto simp: list_all_iff)
      ultimately show ?thesis
        by (intro exI [of _ "DObj (map ?pair ms)"]) (simp add: ms(4) print_obj comp_def del: print.simps ordered.simps)
    qed (use 1(3) Ref in \<open>auto simp: canonicalize.simps split: if_splits\<close>)
  next
    case (Num x)
    with 1(3) show ?thesis by (cases x) auto
  qed (use 1(3) in \<open>auto simp: renderString_def and_then_Inr_iff\<close>)
qed

lemma size_member: "(k, d) \<in> set ms \<Longrightarrow> size d < size (DObj ms)"
  by (induction ms) (auto simp: less_Suc_eq_le)

lemma size_element: "d \<in> set ds \<Longrightarrow> size d < size (DArr ds)"
  by (induction ds) auto

definition inside :: "jsobj list \<Rightarrow> nat list \<Rightarrow> doc \<Rightarrow> bool" where
  "inside heap anc d \<longleftrightarrow> (\<forall>a \<in> set anc. \<exists>d'. denotes heap (Ref a) d' \<and> size d < size d')"

lemma inside_fresh: "inside heap anc d \<Longrightarrow> denotes heap (Ref a) d \<Longrightarrow> a \<notin> set anc"
  using denotes_unique unfolding inside_def by fastforce

lemma inside_child: "inside heap anc d \<Longrightarrow> denotes heap (Ref a) d \<Longrightarrow> size c < size d \<Longrightarrow> inside heap (a # anc) c"
  unfolding inside_def by (metis less_trans set_ConsD)

text \<open>A document is serialised whatever larger objects are being serialised: none of them is part of it.\<close>

lemma canonicalize_complete:
  assumes "denotes heap v d" and "lawful d"
    and "inside heap anc d"
  shows "canonicalize nt heap anc v = Inr (print nt (ordered d))"
  using assms
proof (induction arbitrary: anc rule: denotes.induct)
  case (denotes_arr a n ps ds)
  have self: "denotes heap (Ref a) (DArr ds)"
    using denotes_arr.hyps denotes_arr.IH by (intro denotes.denotes_arr) (auto elim!: list_all2_mono)
  note fresh = inside_fresh [OF denotes_arr.prems(2) self]
  have "\<exists>w. element_at ps i = Inr w \<and> canonicalize nt heap (a # anc) w = Inr (print nt (ordered (ds ! i)))"
    if i: "i < n" for i
  proof -
    have len: "length ds = n" using list_all2_lengthD [OF denotes_arr.IH] by simp
    with i list_all2_nthD2 [OF denotes_arr.IH, of i] obtain w e where w: "map_of ps (Named (decimal i)) = Some (Data e w)"
      "\<And>anc. lawful (ds ! i) \<Longrightarrow> inside heap anc (ds ! i) \<Longrightarrow>
         canonicalize nt heap anc w = Inr (print nt (ordered (ds ! i)))" by auto
    have "ds ! i \<in> set ds" using i len by simp
    note small = size_element [OF this]
    have "lawful (ds ! i)" using denotes_arr.prems(1) i len by (auto simp: list_all_iff)
    moreover note inside_child [OF denotes_arr.prems(2) self small]
    ultimately show ?thesis using w by (auto simp: element_at_iff)
  qed
  then show ?case
    using fresh denotes_arr.hyps list_all2_lengthD [OF denotes_arr.IH]
    by (subst canonicalize_array [OF denotes_arr.hyps(2)])
      (auto simp: list_all2_conv_all_nth intro!: exI [of _ "map (print nt \<circ> ordered) ds"] simp: comp_def)
next
  case (denotes_obj a ms kds)
  have self: "denotes heap (Ref a) (DObj kds)"
    using denotes_obj.hyps denotes_obj.IH by (intro denotes.denotes_obj) (auto elim!: list_all2_mono)
  note fresh = inside_fresh [OF denotes_obj.prems(2) self]
  have step: "fst d = fst m \<and> rejectLoneSurrogates (fst m) = Inr () \<and>
      canonicalize nt heap (a # anc) (snd m) = Inr (print nt (ordered (snd d)))"
    if md: "(m, d) \<in> set (zip ms kds)" for m d
  proof -
    from md denotes_obj.IH have w: "fst d = fst m"
      "\<And>anc. lawful (snd d) \<Longrightarrow> inside heap anc (snd d) \<Longrightarrow>
         canonicalize nt heap anc (snd m) = Inr (print nt (ordered (snd d)))"
      by (auto simp: list_all2_iff)
    have d: "(fst d, snd d) \<in> set kds" using set_zip_rightD md by fastforce
    note small = size_member [OF d]
    have "lawful (snd d)" "rejectLoneSurrogates (fst d) = Inr ()"
      using denotes_obj.prems(1) d by (auto simp: list_all_iff split_beta)
    moreover note inside_child [OF denotes_obj.prems(2) self small]
    ultimately show ?thesis using w by auto
  qed
  define pairs where "pairs = zip ms kds"
  have len: "length ms = length kds" using list_all2_lengthD [OF denotes_obj.IH] .
  then have m: "ms = map fst pairs" and k: "kds = map snd pairs" by (simp_all add: pairs_def)
  have keys: "\<forall>p \<in> set pairs. fst (snd p) = fst (fst p)" using step by (auto simp: pairs_def)
  let ?sorted = "sort_key (\<lambda>p. fst (fst p)) pairs"
  have s: "sort_key fst ms = map fst ?sorted" unfolding m by (rule sort_map_key) simp
  have sk: "sort_key fst kds = map snd ?sorted" unfolding k using keys by (intro sort_map_key) auto
  have "list_all2 (\<lambda>m t. rejectLoneSurrogates (fst m) = Inr () \<and> (\<exists>u. canonicalize nt heap (a # anc) (snd m) = Inr u \<and>
      member_text (fst m, u) = t)) (sort_key fst ms) (map (\<lambda>p. member_text (fst (snd p), print nt (ordered (snd (snd p))))) ?sorted)"
    unfolding s by (auto simp: list_all2_map1 list_all2_map2 pairs_def intro!: list.rel_refl_strong dest!: step)
  moreover have "print nt (ordered (DObj kds)) =
      123 # commas (map (\<lambda>p. member_text (fst (snd p), print nt (ordered (snd (snd p))))) ?sorted) @ [125]"
    by (simp only: ordered.simps sort_map_pair print_obj sk) (simp add: comp_def map_prod_def split_beta)
  ultimately show ?case
    using fresh denotes_obj.hyps by (subst canonicalize_object [OF denotes_obj.hyps(2)]) auto
qed (auto simp: renderString_def)

text \<open>C13: A value is serialised exactly when it denotes a finite tree of JSON data whose strings have a UTF-8
  encoding, and its canonical form is then the text of that tree with the members of every object in
  the order of their keys. Every other value (cyclic, with a hole, an accessor, a symbol, a hidden
  property, a foreign prototype, a number that is not finite or a lone surrogate anywhere) is refused.\<close>

theorem canonical_form_is_sorted_text:
  "canonicalJson nt heap v = Inr s \<longleftrightarrow> (\<exists>d. denotes heap v d \<and> lawful d \<and> s = print nt (ordered d))"
  using canonicalize_sound [of nt heap "[]" v] canonicalize_complete [of heap v _ "[]" nt]
  by (auto simp: canonicalJson_def inside_def)


section \<open>The canonical form determines the document\<close>

text \<open>What \<open>JSON.stringify\<close> writes for a finite number: distinct texts for distinct numbers, of the
  characters of number literals.\<close>

definition number_chars :: "jstr" where
  "number_chars = ascii ''0123456789+-.e''"

definition number_text_ok :: "(rat \<Rightarrow> jstr) \<Rightarrow> bool" where
  "number_text_ok nt \<longleftrightarrow> inj nt \<and> (\<forall>q. nt q \<noteq> [] \<and> set (nt q) \<subseteq> set number_chars)"

text \<open>The text after a value: the end, a comma or a closing bracket.\<close>

definition ends :: "jstr \<Rightarrow> bool" where
  "ends s \<longleftrightarrow> s = [] \<or> hd s = 44 \<or> hd s = 93 \<or> hd s = 125"

lemma ends_simps [simp]: "ends []" "ends (c # s) \<longleftrightarrow> c = 44 \<or> c = 93 \<or> c = 125"
  by (simp_all add: ends_def)

lemma number_chars_eq: "number_chars = [48, 49, 50, 51, 52, 53, 54, 55, 56, 57, 43, 45, 46, 101]"
  unfolding number_chars_def ascii_def by code_simp

lemma number_prefix:
  assumes "number_text_ok nt" and "nt p @ xs = nt q @ ys" and "ends xs" and "ends ys"
  shows "p = q \<and> xs = ys"
proof -
  have cut: "takeWhile (\<lambda>c. c \<in> set number_chars) (nt q @ xs) = nt q" if "ends xs" for q xs
  proof -
    have "\<forall>c \<in> set (nt q). c \<in> set number_chars" using assms(1) by (auto simp: number_text_ok_def)
    moreover have "takeWhile (\<lambda>c. c \<in> set number_chars) xs = []"
      using that by (cases xs) (auto simp: number_chars_eq)
    ultimately show ?thesis by (simp add: takeWhile_append2 subset_iff)
  qed
  have "nt p = nt q" using cut [OF assms(3), of p] cut [OF assms(4), of q] assms(2) by simp
  with assms(1,2) show ?thesis by (auto simp: number_text_ok_def dest: injD)
qed

lemma below_16_iff: "(a::code_unit) < 16 \<Longrightarrow> a \<in> word_of_nat ` set [0..<16]"
  by (rule image_eqI [of _ _ "unat a"]) (simp_all add: word_less_nat_alt)

lemma hex_digits_distinct: "distinct (map (\<lambda>i. hex_digit (word_of_nat i)) [0..<16])"
  by code_simp

lemma hex_digit_inj: "a < 16 \<Longrightarrow> b < 16 \<Longrightarrow> hex_digit a = hex_digit b \<Longrightarrow> a = b"
  using hex_digits_distinct unfolding distinct_map by (auto dest!: below_16_iff dest: inj_onD)

lemma div_mod_16: "(c::code_unit) div 16 = d div 16 \<Longrightarrow> c mod 16 = d mod 16 \<Longrightarrow> c = d"
  by (metis div_mult_mod_eq)

lemma below_16: "c < 32 \<Longrightarrow> (c::code_unit) div 16 < 16" "(c::code_unit) mod 16 < 16"
  by unat_arith+

lemma escaped_prefix: "escaped c @ xs = escaped d @ ys \<Longrightarrow> c = d \<and> xs = ys"
  by (auto simp: escaped_def split: if_splits dest!: hex_digit_inj [rotated 2] intro: div_mod_16 below_16)

lemma escaped_head: "escaped c \<noteq> [] \<and> hd (escaped c) \<noteq> 34"
  by (auto simp: escaped_def)

lemma quoted_prefix: "quoted s @ xs = quoted t @ ys \<Longrightarrow> s = t \<and> xs = ys"
proof -
  have "concat (map escaped s) @ 34 # xs = concat (map escaped t) @ 34 # ys \<Longrightarrow> s = t \<and> xs = ys"
  proof (induction s arbitrary: t)
    case Nil
    show ?case
    proof (cases t)
      case (Cons d t')
      with Nil escaped_head [of d] show ?thesis by (cases "escaped d") auto
    qed (use Nil in simp)
  next
    case (Cons c s)
    show ?case
    proof (cases t)
      case Nil
      then show ?thesis using Cons.prems escaped_head [of c] by (cases "escaped c") auto
    next
      case (Cons d t')
      with Cons.prems have "escaped c @ (concat (map escaped s) @ 34 # xs) = escaped d @ (concat (map escaped t') @ 34 # ys)"
        by simp
      from escaped_prefix [OF this] Cons.IH [of t'] Cons show ?thesis by simp
    qed
  qed
  then show "quoted s @ xs = quoted t @ ys \<Longrightarrow> s = t \<and> xs = ys" by (simp add: quoted_def)
qed

text \<open>Texts separated by commas up to a closing bracket.\<close>

lemma commas_Cons: "xs \<noteq> [] \<Longrightarrow> commas (x # xs) = x @ 44 # commas xs"
  by (cases xs) simp_all

lemma commas_prefix:
  assumes "\<And>x y r r'. x \<in> set xs \<Longrightarrow> f x @ r = f y @ r' \<Longrightarrow> ends r \<Longrightarrow> ends r' \<Longrightarrow> x = y \<and> r = r'"
    and "\<And>y. f y \<noteq> [] \<and> hd (f y) \<noteq> c" and c: "c = 93 \<or> c = 125"
    and "commas (map f xs) @ c # r = commas (map f ys) @ c # r'"
  shows "xs = ys \<and> r = r'"
  using assms(1,4)
proof (induction xs arbitrary: ys)
  case Nil
  show ?case
  proof (cases ys)
    case (Cons y ys')
    with Nil(2) assms(2) [of y] show ?thesis by (cases "f y"; cases ys') auto
  qed (use Nil in simp)
next
  case (Cons x xs)
  show ?case
  proof (cases ys)
    case Nil
    with Cons.prems(2) assms(2) [of x] show ?thesis by (cases "f x"; cases xs) auto
  next
    case (Cons y ys')
    let ?tail = "\<lambda>zs r. if zs = [] then c # r else 44 # commas (map f zs) @ c # r"
    have parts: "commas (map f (z # zs)) @ c # r = f z @ ?tail zs r" for z zs r
      by (cases zs) simp_all
    have "f x @ ?tail xs r = f y @ ?tail ys' r'" using Cons.prems(2) by (simp only: Cons parts)
    from Cons.prems(1) [OF _ this] have xy: "x = y" "?tail xs r = ?tail ys' r'" using c by auto
    then have "xs = [] \<longleftrightarrow> ys' = []" using c by (auto split: if_splits)
    with xy(2) have "commas (map f xs) @ c # r = commas (map f ys') @ c # r'" by (auto split: if_splits)
    from Cons.IH [OF _ this] Cons.prems(1) xy(1) Cons show ?thesis by auto
  qed
qed


text \<open>The first character of a text tells the kind of the document.\<close>

fun kind :: "doc \<Rightarrow> nat" where
  "kind DNull = 0" | "kind (DBool True) = 1" | "kind (DBool False) = 2" | "kind (DNum q) = 3"
| "kind (DStr s) = 4" | "kind (DArr ds) = 5" | "kind (DObj ms) = 6"

definition kind_of_char :: "code_unit \<Rightarrow> nat" where
  "kind_of_char c = (if c = 110 then 0 else if c = 116 then 1 else if c = 102 then 2 else if c = 34 then 4
     else if c = 91 then 5 else if c = 123 then 6 else 3)"

lemma ascii_words:
  "ascii ''null'' = [110, 117, 108, 108]" "ascii ''true'' = [116, 114, 117, 101]"
  "ascii ''false'' = [102, 97, 108, 115, 101]"
  unfolding ascii_def by code_simp+

lemma print_head:
  assumes "number_text_ok nt"
  shows "print nt d \<noteq> [] \<and> kind_of_char (hd (print nt d)) = kind d \<and> hd (print nt d) \<noteq> 93"
proof (cases d)
  case (DNum q)
  have "nt q \<noteq> []" "hd (nt q) \<in> set number_chars"
    using assms hd_in_set by (auto simp: number_text_ok_def)
  then show ?thesis by (auto simp: DNum number_chars_eq kind_of_char_def)
next
  case (DBool b)
  then show ?thesis by (cases b) (simp_all add: kind_of_char_def ascii_words)
qed (simp_all add: kind_of_char_def ascii_words quoted_def)

lemma same_kind:
  assumes "number_text_ok nt" and "print nt d @ xs = print nt e @ ys"
  shows "kind d = kind e"
proof -
  have "hd (print nt d @ xs) = hd (print nt d)" "hd (print nt e @ ys) = hd (print nt e)"
    using print_head [OF assms(1)] by (simp_all add: hd_append)
  then show ?thesis using print_head [OF assms(1)] assms(2) by metis
qed

lemma print_prefix:
  assumes nt: "number_text_ok nt"
  shows "print nt d @ xs = print nt e @ ys \<Longrightarrow> ends xs \<Longrightarrow> ends ys \<Longrightarrow> d = e \<and> xs = ys"
proof (induction d arbitrary: e xs ys)
  case DNull
  with same_kind [OF nt DNull(1)] show ?case by (cases e rule: kind.cases) (auto simp: ascii_words)
next
  case (DBool b)
  with same_kind [OF nt DBool(1)] show ?case by (cases e rule: kind.cases; cases b) (auto simp: ascii_words)
next
  case (DNum q)
  with same_kind [OF nt DNum(1)] number_prefix [OF nt, of q xs _ ys] show ?case
    by (cases e rule: kind.cases) auto
next
  case (DStr s)
  with same_kind [OF nt DStr(1)] quoted_prefix [of s xs _ ys] show ?case by (cases e rule: kind.cases) auto
next
  case (DArr ds)
  obtain es where e: "e = DArr es" using same_kind [OF nt DArr(2)] by (cases e rule: kind.cases) auto
  have "ds = es \<and> xs = ys"
    by (rule commas_prefix [where f = "print nt" and c = 93])
      (use DArr e print_head [OF nt] in auto)
  then show ?case by (simp add: e)
next
  case (DObj ms)
  obtain ns where e: "e = DObj ns" using same_kind [OF nt DObj(2)] by (cases e rule: kind.cases) auto
  let ?f = "\<lambda>m. member_text (map_prod id (print nt) m)"
  have member: "m = n \<and> r = r'" if m: "m \<in> set ms" and eq: "?f m @ r = ?f n @ r'" and "ends r" "ends r'" for m n r r'
  proof -
    have "quoted (fst m) @ 58 # print nt (snd m) @ r = quoted (fst n) @ 58 # print nt (snd n) @ r'"
      using eq by (simp add: member_text_def)
    from quoted_prefix [OF this] have k: "fst m = fst n" "print nt (snd m) @ r = print nt (snd n) @ r'" by auto
    from DObj(1) [OF m _ k(2) that(3,4)] k(1) show ?thesis by (simp add: prod_eq_iff snds.simps)
  qed
  have members: "commas (map ?f ms) @ 125 # xs = commas (map ?f ns) @ 125 # ys"
    using DObj(2) unfolding e print_obj by (simp add: comp_def)
  have "?f m \<noteq> [] \<and> hd (?f m) \<noteq> 125" for m by (simp add: member_text_def quoted_def)
  from commas_prefix [where f = ?f and c = 125, OF member this _ members] have "ms = ns \<and> xs = ys" by blast
  then show ?case by (simp add: e)
qed

text \<open>C12: Two values have the same canonical form exactly when they mean the same document up to the order of
  the members of its objects: strings, keys, numbers, nesting and element order are never confused, so
  a digest or signature of a canonical form binds the whole document and only it.\<close>

theorem canonical_form_identifies_document:
  assumes "number_text_ok nt" and "canonicalJson nt heap v = Inr s"
  shows "\<exists>d. denotes heap v d \<and>
     (\<forall>heap' w. canonicalJson nt heap' w = Inr s \<longleftrightarrow> (\<exists>e. denotes heap' w e \<and> lawful e \<and> ordered e = ordered d))"
proof -
  have iff: "canonicalJson nt h w = Inr u \<longleftrightarrow> (\<exists>e. denotes h w e \<and> lawful e \<and> u = print nt (ordered e))" for h w u
    using canonicalize_sound [of nt h "[]" w] canonicalize_complete [of h w _ "[]" nt]
    by (auto simp: canonicalJson_def inside_def)
  obtain d where d: "denotes heap v d" "s = print nt (ordered d)" using assms(2) by (auto simp: iff)
  have "print nt (ordered e) = s \<longleftrightarrow> ordered e = ordered d" for e
    using print_prefix [OF assms(1), of "ordered e" "[]" "ordered d" "[]"] by (auto simp: d(2))
  then have "canonicalJson nt heap' w = Inr s \<longleftrightarrow> (\<exists>e. denotes heap' w e \<and> lawful e \<and> ordered e = ordered d)" for heap' w
    unfolding iff by metis
  with d(1) show ?thesis by blast
qed

section \<open>Samples\<close>

text \<open>Numbers as fractions, in digits.\<close>

definition sample_number :: "rat \<Rightarrow> jstr" where
  "sample_number q = (case quotient_of q of (n, m) \<Rightarrow>
     (if n < 0 then [45] else []) @ replicate (nat \<bar>n\<bar>) 49 @ 46 # replicate (nat m) 49)"

lemma sample_number_ok: "number_text_ok sample_number"
proof -
  have "p = q" if "sample_number p = sample_number q" for p q
  proof -
    obtain n m n' m' where q: "quotient_of p = (n, m)" "quotient_of q = (n', m')"
      by (cases "quotient_of p"; cases "quotient_of q")
    then have pos: "m > 0" "m' > 0" using quotient_of_denom_pos by blast+
    have cut: "replicate a (49::code_unit) @ 46 # x = replicate b 49 @ 46 # y \<Longrightarrow> a = b \<and> x = y" for a b x y
      by (induction a arbitrary: b) (case_tac b; simp)+
    from that have "(n < 0 \<longleftrightarrow> n' < 0) \<and> nat \<bar>n\<bar> = nat \<bar>n'\<bar> \<and> nat m = nat m'"
      by (cases "nat \<bar>n\<bar>"; cases "nat \<bar>n'\<bar>") (auto simp: sample_number_def q split: if_splits dest!: cut arg_cong [of "replicate _ _" _ length])
    then have "n = n'" "m = m'" using pos by auto
    with q show ?thesis by (metis quotient_of_inject)
  qed
  moreover have "sample_number q \<noteq> [] \<and> set (sample_number q) \<subseteq> set number_chars" for q
    by (auto simp: sample_number_def number_chars_eq split: prod.splits)
  ultimately show ?thesis by (auto simp: number_text_ok_def intro: injI)
qed

text \<open>Two objects with the same members in different orders, one of them shared, and a cyclic one.\<close>

definition sample_heap :: "jsobj list" where
  "sample_heap =
     [PlainObject [(Named [98], Data True (Ref 2)), (Named [97], Data True (Str [34, 0xD83D, 0xDE00]))],
      PlainObject [(Named [97], Data True (Str [34, 0xD83D, 0xDE00])), (Named [98], Data True (Ref 2))],
      ArrayObject 2 [(Named [48], Data True (Ref 3)), (Named [49], Data True (Ref 3))],
      PlainObject [],
      ArrayObject 1 [(Named [48], Data True (Ref 4))]]"

lemma sample_canonical:
  "canonicalJson sample_number sample_heap (Ref 0) = canonicalJson sample_number sample_heap (Ref 1)"
  "canonicalJson sample_number sample_heap (Ref 0) =
     Inr (ascii ''{'' @ quoted [97] @ ascii '':'' @ quoted [34, 0xD83D, 0xDE00] @ ascii '','' @ quoted [98] @ ascii '':[{},{}]}'')"
  "canonicalJson sample_number sample_heap (Ref 4) = Inl Cyclic"
  by code_simp+

theorem canonical_form_identifies_document_witness:
  "\<exists>s d e. canonicalJson sample_number sample_heap (Ref 0) = Inr s \<and> denotes sample_heap (Ref 0) d \<and>
     denotes sample_heap (Ref 1) e \<and> ordered e = ordered d"
proof -
  obtain s where s: "canonicalJson sample_number sample_heap (Ref 0) = Inr s"
    "canonicalJson sample_number sample_heap (Ref 1) = Inr s"
    using sample_canonical(1,2) by metis
  from canonical_form_identifies_document [OF sample_number_ok s(1)] s show ?thesis by blast
qed

end
