(* ===== verification/Circuit_Breakers.thy ===== *)
theory Circuit_Breakers
  imports State_Store
begin

text \<open>
  Unattended operation: the circuit breakers and the serial loop of the daemon
  (\<open>src/src/orchestrator/daemon.ts\<close>), with the durable breaker table and the budget ledger of the store
  (\<open>src/src/state/store.ts\<close>). A TEXT column that holds canonical JSON is modelled by its value, \<open>None\<close>
  when the text is not the canonical JSON of a value; by \<open>Canonical_Json\<close> the text determines the value.
\<close>

section \<open>The durable breaker table\<close>

datatype durable_name = ConsecutiveFailures | EscalationRate | Quarantine

definition DURABLE_CIRCUIT_BREAKER_NAMES :: "(durable_name \<times> string) list" where
  "DURABLE_CIRCUIT_BREAKER_NAMES =
     [(ConsecutiveFailures, ''consecutive-failures''), (EscalationRate, ''escalation-rate''),
      (Quarantine, ''quarantine'')]"

fun durable_text :: "durable_name \<Rightarrow> string" where
  "durable_text ConsecutiveFailures = ''consecutive-failures''"
| "durable_text EscalationRate = ''escalation-rate''"
| "durable_text Quarantine = ''quarantine''"

definition durable_named :: "string \<Rightarrow> durable_name option" where
  "durable_named s = map_of (map (\<lambda>(n, t). (t, n)) DURABLE_CIRCUIT_BREAKER_NAMES) s"

record trip =
  tr_name :: durable_name
  tr_opened :: string
  tr_reason :: string

record durable_state =
  du_failures :: int
  du_quarantines :: int
  du_escalations :: int
  du_completed :: int
  du_tripped :: "trip option"

record breaker_row =
  cb_name :: string
  cb_state :: "json option"
  cb_opened :: "string option"
  cb_reason :: "string option"

definition CIRCUIT_BREAKER_REASON :: "string \<Rightarrow> bool" where
  "CIRCUIT_BREAKER_REASON s \<longleftrightarrow>
     1 \<le> length s \<and> length s \<le> 4096 \<and> list_all (\<lambda>c. 31 < (of_char c :: nat) \<and> (of_char c :: nat) \<noteq> 127) s"

definition hasExactKeys :: "(string \<times> json) list \<Rightarrow> string list \<Rightarrow> bool" where
  "hasExactKeys ms ks \<longleftrightarrow> sort (map fst ms) = sort ks"

definition isCanonicalIsoTimestamp :: "store_env \<Rightarrow> string \<Rightarrow> bool" where
  "isCanonicalIsoTimestamp env s \<longleftrightarrow> (case parse_time env s of None \<Rightarrow> False | Some t \<Rightarrow> iso env t = Some s)"

definition count_ok :: "int \<Rightarrow> bool" where
  "count_ok n \<longleftrightarrow> safe_int n \<and> 0 \<le> n"

definition trip_contradicts :: "durable_state \<Rightarrow> trip \<Rightarrow> bool" where
  "trip_contradicts d t \<longleftrightarrow>
     (case tr_name t of
        ConsecutiveFailures \<Rightarrow> du_failures d = 0
      | Quarantine \<Rightarrow> du_quarantines d = 0
      | EscalationRate \<Rightarrow> du_completed d = 0 \<or> du_escalations d = 0)"

definition assertValidDurableCircuitBreakerState :: "store_env \<Rightarrow> durable_state \<Rightarrow> store_error + unit" where
  "assertValidDurableCircuitBreakerState env d =
     (if \<not> count_ok (du_completed d) \<or> \<not> count_ok (du_failures d) \<or> \<not> count_ok (du_escalations d) \<or>
         \<not> count_ok (du_quarantines d) then Inl StateConflict
      else if du_failures d > du_completed d \<or> du_escalations d > du_completed d \<or>
              du_quarantines d > du_completed d then Inl StateConflict
      else (case du_tripped d of
              None \<Rightarrow> Inr ()
            | Some t \<Rightarrow>
                if \<not> isCanonicalIsoTimestamp env (tr_opened t) \<or> \<not> CIRCUIT_BREAKER_REASON (tr_reason t) \<or>
                   js_trim (tr_reason t) \<noteq> tr_reason t then Inl StateConflict
                else if trip_contradicts d t then Inl StateConflict
                else Inr ()))"

text \<open>A count in a JSON object, or a throw.\<close>

definition count_member :: "(string \<times> json) list \<Rightarrow> string \<Rightarrow> store_error + int" where
  "count_member ms k =
     (case map_of ms k of
        Some (JNumber q) \<Rightarrow> if of_int \<lfloor>q\<rfloor> = q \<and> count_ok \<lfloor>q\<rfloor> then Inr \<lfloor>q\<rfloor> else Inl StateConflict
      | _ \<Rightarrow> Inl StateConflict)"

record breaker_reads =
  rd_failures :: "int option"
  rd_quarantines :: "int option"
  rd_escalations :: "int option"
  rd_completed :: "int option"
  rd_trips :: "trip list"

definition read_counts :: "durable_name \<Rightarrow> (string \<times> json) list \<Rightarrow> breaker_reads \<Rightarrow> store_error + breaker_reads" where
  "read_counts name ms acc =
     (if name = EscalationRate
      then if \<not> hasExactKeys ms [''completed'', ''escalations'', ''schema''] \<or>
              map_of ms ''schema'' \<noteq> Some (JString ''runmill.circuit-breaker-rate/v1'') then Inl StateConflict
           else and_then (count_member ms ''completed'') (\<lambda>c.
                and_then (count_member ms ''escalations'') (\<lambda>e.
                  Inr (acc\<lparr>rd_completed := Some c, rd_escalations := Some e\<rparr>)))
      else if \<not> hasExactKeys ms [''count'', ''schema''] \<or>
              map_of ms ''schema'' \<noteq> Some (JString ''runmill.circuit-breaker-counter/v1'') then Inl StateConflict
           else and_then (count_member ms ''count'') (\<lambda>n.
                Inr (if name = ConsecutiveFailures then acc\<lparr>rd_failures := Some n\<rparr>
                     else acc\<lparr>rd_quarantines := Some n\<rparr>)))"

definition read_trip :: "durable_name \<Rightarrow> breaker_row \<Rightarrow> breaker_reads \<Rightarrow> store_error + breaker_reads" where
  "read_trip name row acc =
     (case (cb_opened row, cb_reason row) of
        (None, None) \<Rightarrow> Inr acc
      | (Some at_time, Some r) \<Rightarrow>
          Inr (acc\<lparr>rd_trips := rd_trips acc @ [\<lparr>tr_name = name, tr_opened = at_time, tr_reason = r\<rparr>]\<rparr>)
      | _ \<Rightarrow> Inl StateConflict)"

definition read_row :: "breaker_reads \<Rightarrow> breaker_row \<Rightarrow> store_error + breaker_reads" where
  "read_row acc row =
     (case durable_named (cb_name row) of
        None \<Rightarrow> Inl StateConflict
      | Some name \<Rightarrow>
          (case cb_state row of
             Some (JObject ms) \<Rightarrow> and_then (read_counts name ms acc) (read_trip name row)
           | _ \<Rightarrow> Inl StateConflict))"

fun read_rows :: "breaker_reads \<Rightarrow> breaker_row list \<Rightarrow> store_error + breaker_reads" where
  "read_rows acc [] = Inr acc"
| "read_rows acc (row # rows) = and_then (read_row acc row) (\<lambda>acc'. read_rows acc' rows)"

definition no_reads :: breaker_reads where
  "no_reads = \<lparr>rd_failures = None, rd_quarantines = None, rd_escalations = None, rd_completed = None, rd_trips = []\<rparr>"

definition getCircuitBreakerState :: "store_env \<Rightarrow> breaker_row list \<Rightarrow> store_error + durable_state" where
  "getCircuitBreakerState env rows =
     (if length rows \<noteq> length DURABLE_CIRCUIT_BREAKER_NAMES then Inl StateConflict
      else and_then (read_rows no_reads (sort_key cb_name rows)) (\<lambda>r.
        case (rd_failures r, rd_quarantines r, rd_escalations r, rd_completed r) of
          (Some f, Some q, Some e, Some c) \<Rightarrow>
            if length (rd_trips r) > 1 then Inl StateConflict
            else let d = \<lparr>du_failures = f, du_quarantines = q, du_escalations = e, du_completed = c,
                          du_tripped = (case rd_trips r of [] \<Rightarrow> None | t # _ \<Rightarrow> Some t)\<rparr>
                 in and_then (assertValidDurableCircuitBreakerState env d) (\<lambda>_. Inr d)
        | _ \<Rightarrow> Inl StateConflict))"

text \<open>\<open>canonicalJson\<close> of the three states; the members are in the order of their keys.\<close>

definition state_by_name :: "durable_state \<Rightarrow> durable_name \<Rightarrow> json" where
  "state_by_name d name =
     (case name of
        ConsecutiveFailures \<Rightarrow> JObject [(''count'', JNumber (of_int (du_failures d))),
          (''schema'', JString ''runmill.circuit-breaker-counter/v1'')]
      | Quarantine \<Rightarrow> JObject [(''count'', JNumber (of_int (du_quarantines d))),
          (''schema'', JString ''runmill.circuit-breaker-counter/v1'')]
      | EscalationRate \<Rightarrow> JObject [(''completed'', JNumber (of_int (du_completed d))),
          (''escalations'', JNumber (of_int (du_escalations d))),
          (''schema'', JString ''runmill.circuit-breaker-rate/v1'')])"

definition row_of :: "durable_state \<Rightarrow> durable_name \<Rightarrow> breaker_row" where
  "row_of d name =
     (let t = (case du_tripped d of Some t \<Rightarrow> if tr_name t = name then Some t else None | None \<Rightarrow> None)
      in \<lparr>cb_name = durable_text name, cb_state = Some (state_by_name d name),
          cb_opened = map_option tr_opened t, cb_reason = map_option tr_reason t\<rparr>)"

text \<open>\<open>INSERT \<dots> ON CONFLICT(name) DO UPDATE\<close>.\<close>

definition upsert_row :: "breaker_row \<Rightarrow> breaker_row list \<Rightarrow> breaker_row list" where
  "upsert_row r rows =
     (if list_ex (\<lambda>q. cb_name q = cb_name r) rows then map (\<lambda>q. if cb_name q = cb_name r then r else q) rows
      else rows @ [r])"

definition counters_advance :: "durable_state \<Rightarrow> durable_state \<Rightarrow> bool" where
  "counters_advance prior d \<longleftrightarrow>
     (let q = du_quarantines d - du_quarantines prior; e = du_escalations d - du_escalations prior
      in du_completed d = du_completed prior + 1 \<and> (q = 0 \<or> q = 1) \<and> (e = 0 \<or> e = 1) \<and> q + e \<le> 1 \<and>
         du_failures d = (if q = 1 \<or> e = 1 then du_failures prior + 1 else 0))"

definition same_counters :: "durable_state \<Rightarrow> durable_state \<Rightarrow> bool" where
  "same_counters prior d \<longleftrightarrow> du_completed d = du_completed prior \<and> du_failures d = du_failures prior \<and>
     du_escalations d = du_escalations prior \<and> du_quarantines d = du_quarantines prior"

definition saveCircuitBreakerState ::
  "store_env \<Rightarrow> breaker_row list \<Rightarrow> durable_state \<Rightarrow> store_error + breaker_row list" where
  "saveCircuitBreakerState env rows d =
     and_then (assertValidDurableCircuitBreakerState env d) (\<lambda>_.
     and_then (getCircuitBreakerState env rows) (\<lambda>prior.
       if du_tripped prior \<noteq> None \<and> du_tripped prior \<noteq> du_tripped d then Inl StateConflict
       else if du_completed d = du_completed prior \<and> \<not> same_counters prior d then Inl StateConflict
       else if du_completed d \<noteq> du_completed prior \<and> \<not> counters_advance prior d then Inl StateConflict
       else Inr (foldl (\<lambda>rs name. upsert_row (row_of d name) rs) rows (map fst DURABLE_CIRCUIT_BREAKER_NAMES))))"

section \<open>The budget ledger\<close>

record ledger_row =
  lg_day :: string
  lg_repo :: string
  lg_cost :: rat
  lg_invocations :: int

definition budgetUsage :: "ledger_row list \<Rightarrow> string \<Rightarrow> string \<Rightarrow> ledger_row" where
  "budgetUsage rows day repo =
     (case List.find (\<lambda>r. lg_day r = day \<and> lg_repo r = repo) rows of
        Some r \<Rightarrow> r
      | None \<Rightarrow> \<lparr>lg_day = day, lg_repo = repo, lg_cost = 0, lg_invocations = 0\<rparr>)"

definition recordBudgetUsage :: "ledger_row list \<Rightarrow> ledger_row \<Rightarrow> ledger_row list" where
  "recordBudgetUsage rows x =
     (if list_ex (\<lambda>r. lg_day r = lg_day x \<and> lg_repo r = lg_repo x) rows
      then map (\<lambda>r. if lg_day r = lg_day x \<and> lg_repo r = lg_repo x
                    then r\<lparr>lg_cost := lg_cost r + lg_cost x, lg_invocations := lg_invocations r + lg_invocations x\<rparr>
                    else r) rows
      else rows @ [x])"

section \<open>The circuit breakers\<close>

datatype breaker_name = Durable durable_name | DailyCost

record breaker_state =
  bs_name :: breaker_name
  bs_open :: bool
  bs_reason :: "string option"
  bs_opened :: "string option"

record breaker_config =
  maxConsecutiveFailures :: rat
  maxQuarantines :: rat
  dailyCostUsd :: "rat option"
  maxEscalationRate :: "rat option"
  minRunsBeforeRateCheck :: "rat option"

definition DEFAULT_BREAKERS :: breaker_config where
  "DEFAULT_BREAKERS = \<lparr>maxConsecutiveFailures = 3, maxQuarantines = 1, dailyCostUsd = None,
     maxEscalationRate = Some (4 / 5), minRunsBeforeRateCheck = Some 5\<rparr>"

datatype run_state =
  DISCOVERED | ELIGIBILITY_CHECKED | CLAIMED | WORKSPACE_READY | TASK_PACKET_READY | IMPLEMENTING
| LOCAL_VERIFY | LOCAL_REVIEW | FIXING | PR_READY | PUSHED | PR_OPEN | CI_WAIT | PR_REVIEW | MERGE_READY
| AWAITING_APPROVAL | MERGED | BACKLOG_UPDATED | PR_DELIVERED | CLEANUP | COMPLETED | NEEDS_HUMAN
| QUARANTINED | ABORTED

text \<open>The members of an outcome that the daemon reads.\<close>

record run_outcome =
  ro_issue :: string
  ro_state :: run_state
  ro_cost :: rat
  ro_invocations :: "int option"

record breakers =
  bk_failures :: int
  bk_quarantines :: int
  bk_escalations :: int
  bk_completed :: int
  bk_spend :: rat
  bk_day :: "string option"
  bk_tripped :: "breaker_state option"

definition open_trip :: "trip \<Rightarrow> breaker_state" where
  "open_trip t = \<lparr>bs_name = Durable (tr_name t), bs_open = True, bs_reason = Some (tr_reason t),
     bs_opened = Some (tr_opened t)\<rparr>"

text \<open>The constructor; without persistence all counters start at 0.\<close>

definition new_breakers :: "durable_state option \<Rightarrow> breakers" where
  "new_breakers durable =
     (case durable of
        None \<Rightarrow> \<lparr>bk_failures = 0, bk_quarantines = 0, bk_escalations = 0, bk_completed = 0, bk_spend = 0,
                 bk_day = None, bk_tripped = None\<rparr>
      | Some d \<Rightarrow> \<lparr>bk_failures = du_failures d, bk_quarantines = du_quarantines d,
                   bk_escalations = du_escalations d, bk_completed = du_completed d, bk_spend = 0,
                   bk_day = None, bk_tripped = map_option open_trip (du_tripped d)\<rparr>)"

definition durable_trip :: "breakers \<Rightarrow> store_error + trip option" where
  "durable_trip b =
     (case bk_tripped b of
        None \<Rightarrow> Inr None
      | Some s \<Rightarrow>
          (case bs_name s of
             DailyCost \<Rightarrow> Inr None
           | Durable n \<Rightarrow>
               (case (bs_opened s, bs_reason s) of
                  (Some at_time, Some r) \<Rightarrow> Inr (Some \<lparr>tr_name = n, tr_opened = at_time, tr_reason = r\<rparr>)
                | _ \<Rightarrow> Inl Rejected)))"

text \<open>The table is absent when the breakers have no persistence.\<close>

definition persistNonDailyState ::
  "store_env \<Rightarrow> breaker_row list option \<Rightarrow> breakers \<Rightarrow> store_error + breaker_row list option" where
  "persistNonDailyState env table b =
     and_then (durable_trip b) (\<lambda>t.
       case table of
         None \<Rightarrow> Inr None
       | Some rows \<Rightarrow>
           and_then (saveCircuitBreakerState env rows
               \<lparr>du_failures = bk_failures b, du_quarantines = bk_quarantines b, du_escalations = bk_escalations b,
                du_completed = bk_completed b, du_tripped = t\<rparr>) (\<lambda>rows'. Inr (Some rows')))"

definition escalated :: "run_outcome \<Rightarrow> bool" where
  "escalated x \<longleftrightarrow> ro_state x = NEEDS_HUMAN \<or> ro_state x = AWAITING_APPROVAL"

definition quarantined :: "run_outcome \<Rightarrow> bool" where
  "quarantined x \<longleftrightarrow> ro_state x = QUARANTINED"

definition record_outcome ::
  "store_env \<Rightarrow> breaker_row list option \<Rightarrow> breakers \<Rightarrow> run_outcome \<Rightarrow>
     store_error + (breakers \<times> breaker_row list option)" where
  "record_outcome env table b x =
     (let b' = b\<lparr>bk_completed := bk_completed b + 1, bk_spend := bk_spend b + ro_cost x,
                 bk_escalations := bk_escalations b + (if escalated x then 1 else 0),
                 bk_quarantines := bk_quarantines b + (if quarantined x then 1 else 0),
                 bk_failures := (if quarantined x \<or> escalated x then bk_failures b + 1 else 0)\<rparr>
      in and_then (persistNonDailyState env table b') (\<lambda>table'. Inr (b', table')))"

definition setDailySpend :: "string \<Rightarrow> rat \<Rightarrow> breakers \<Rightarrow> breakers" where
  "setDailySpend day cost b =
     (let b1 = (if bk_day b \<noteq> Some day
                then b\<lparr>bk_day := Some day,
                       bk_tripped := (case bk_tripped b of
                          Some s \<Rightarrow> if bs_name s = DailyCost then None else Some s | None \<Rightarrow> None)\<rparr>
                else b)
      in b1\<lparr>bk_spend := cost\<rparr>)"

text \<open>\<open>x.toFixed(2)\<close> of a number that is not negative.\<close>

definition to_fixed2 :: "store_env \<Rightarrow> rat \<Rightarrow> string" where
  "to_fixed2 env x =
     (let n = \<lfloor>x * 100 + 1 / 2\<rfloor>
      in number_text env (of_int (n div 100)) @ ''.'' @ number_text env (of_int (n div 10 mod 10)) @
         number_text env (of_int (n mod 10)))"

definition trip_with ::
  "store_env \<Rightarrow> breaker_row list option \<Rightarrow> breakers \<Rightarrow> breaker_state \<Rightarrow>
     store_error + (breakers \<times> breaker_row list option \<times> breaker_state option)" where
  "trip_with env table b s =
     (let b' = b\<lparr>bk_tripped := Some s\<rparr>
      in and_then (persistNonDailyState env table b') (\<lambda>table'. Inr (b', table', Some s)))"

definition quarantine_reason :: "store_env \<Rightarrow> breakers \<Rightarrow> string" where
  "quarantine_reason env b = number_text env (of_int (bk_quarantines b)) @
     '' quarantined run(s); a quarantine means policy could not classify what happened''"

definition failures_reason :: "store_env \<Rightarrow> breakers \<Rightarrow> string" where
  "failures_reason env b = number_text env (of_int (bk_failures b)) @ '' consecutive runs did not complete''"

definition daily_reason :: "store_env \<Rightarrow> breakers \<Rightarrow> rat \<Rightarrow> string" where
  "daily_reason env b limit = ''spent $'' @ to_fixed2 env (bk_spend b) @ '' against a $'' @
     number_text env limit @ '' daily cap''"

definition rate_reason :: "store_env \<Rightarrow> breakers \<Rightarrow> rat \<Rightarrow> string" where
  "rate_reason env b rate = number_text env (of_int \<lfloor>rate * 100 + 1 / 2\<rfloor>) @ ''% of '' @
     number_text env (of_int (bk_completed b)) @
     '' runs escalated to a human. The backlog is likely underspecified rather than the worker being broken.''"

definition evaluate_breakers ::
  "store_env \<Rightarrow> breaker_config \<Rightarrow> breaker_row list option \<Rightarrow> breakers \<Rightarrow>
     store_error + (breakers \<times> breaker_row list option \<times> breaker_state option)" where
  "evaluate_breakers env cfg table b =
     (case bk_tripped b of
        Some s \<Rightarrow> Inr (b, table, Some s)
      | None \<Rightarrow>
          and_then (now_iso env) (\<lambda>at_time.
            let state = (\<lambda>name reason. \<lparr>bs_name = name, bs_open = True, bs_reason = Some reason, bs_opened = Some at_time\<rparr>)
            in if of_int (bk_quarantines b) \<ge> maxQuarantines cfg
               then trip_with env table b (state (Durable Quarantine) (quarantine_reason env b))
               else if of_int (bk_failures b) \<ge> maxConsecutiveFailures cfg
               then trip_with env table b (state (Durable ConsecutiveFailures) (failures_reason env b))
               else case (case dailyCostUsd cfg of Some limit \<Rightarrow> if bk_spend b \<ge> limit then Some limit else None
                                                 | None \<Rightarrow> None) of
                 Some limit \<Rightarrow>
                   let s = state DailyCost (daily_reason env b limit)
                   in Inr (b\<lparr>bk_tripped := Some s\<rparr>, table, Some s)
               | None \<Rightarrow>
                   (let minRuns = (case minRunsBeforeRateCheck cfg of None \<Rightarrow> 5 | Some n \<Rightarrow> n);
                        rate = of_int (bk_escalations b) / of_int (bk_completed b)
                    in case maxEscalationRate cfg of
                         Some maxRate \<Rightarrow>
                           if of_int (bk_completed b) \<ge> minRuns \<and> bk_completed b \<noteq> 0 \<and> rate \<ge> maxRate
                           then trip_with env table b (state (Durable EscalationRate) (rate_reason env b rate))
                           else Inr (b, table, None)
                       | None \<Rightarrow> Inr (b, table, None))))"

section \<open>The daemon\<close>

datatype daily_window = UTC | Local

text \<open>\<open>local_day\<close> is the calendar day of a time in the time zone of the host.\<close>

definition budgetDayBucket :: "(rat \<Rightarrow> string) \<Rightarrow> store_env \<Rightarrow> daily_window \<Rightarrow> store_error + string" where
  "budgetDayBucket local_day env window =
     (case window of
        UTC \<Rightarrow> and_then (now_iso env) (\<lambda>s. Inr (take 10 s))
      | Local \<Rightarrow> Inr (local_day (clock env)))"

record daemon_options =
  op_max_runs :: "nat option"
  op_stop_when_idle :: "bool option"
  op_ledger :: "(string \<times> daily_window) option"
  op_local_day :: "rat \<Rightarrow> string"

datatype stop_reason = NoWork | BreakerOpen breaker_state | MaxRuns | SignalStop

record daemon_state =
  dm_breakers :: breakers
  dm_table :: "breaker_row list option"
  dm_ledger :: "ledger_row list"
  dm_outcomes :: "run_outcome list"

text \<open>What the world does in one round of the loop: whether a stop was requested, the clock when the budget
  is refreshed, when the breakers are evaluated and when the outcome is booked, and what the run returns.\<close>

record round =
  rn_stop :: bool
  rn_refresh :: rat
  rn_evaluate :: rat
  rn_book :: rat
  rn_run :: "run_outcome option"

definition at_instant :: "store_env \<Rightarrow> rat \<Rightarrow> store_env" where
  "at_instant env t = env\<lparr>recovery := (recovery env)\<lparr>now := t\<rparr>\<rparr>"

definition refreshDailyBudget ::
  "store_env \<Rightarrow> daemon_options \<Rightarrow> daemon_state \<Rightarrow> store_error + breakers" where
  "refreshDailyBudget env opts s =
     (case op_ledger opts of
        None \<Rightarrow> Inr (dm_breakers s)
      | Some (repo, window) \<Rightarrow>
          and_then (budgetDayBucket (op_local_day opts) env window) (\<lambda>day.
            Inr (setDailySpend day (lg_cost (budgetUsage (dm_ledger s) day repo)) (dm_breakers s))))"

definition book_outcome ::
  "store_env \<Rightarrow> daemon_options \<Rightarrow> daemon_state \<Rightarrow> run_outcome \<Rightarrow> store_error + daemon_state" where
  "book_outcome env opts s x =
     and_then (record_outcome env (dm_table s) (dm_breakers s) x) (\<lambda>(b, table).
       let s' = s\<lparr>dm_breakers := b, dm_table := table, dm_outcomes := dm_outcomes s @ [x]\<rparr>
       in case op_ledger opts of
            None \<Rightarrow> Inr s'
          | Some (repo, window) \<Rightarrow>
              and_then (budgetDayBucket (op_local_day opts) env window) (\<lambda>day.
                Inr (s'\<lparr>dm_ledger := recordBudgetUsage (dm_ledger s')
                  \<lparr>lg_day = day, lg_repo = repo, lg_cost = ro_cost x,
                   lg_invocations = (case ro_invocations x of None \<Rightarrow> 0 | Some n \<Rightarrow> n)\<rparr>\<rparr>)))"

text \<open>One round: why the loop returns, or that it goes on.\<close>

definition daemon_round ::
  "store_env \<Rightarrow> breaker_config \<Rightarrow> daemon_options \<Rightarrow> daemon_state \<Rightarrow> round \<Rightarrow>
     store_error + (stop_reason option \<times> daemon_state)" where
  "daemon_round env cfg opts s rn =
     (if rn_stop rn then Inr (Some SignalStop, s)
      else
        and_then (refreshDailyBudget (at_instant env (rn_refresh rn)) opts s) (\<lambda>b.
        and_then (evaluate_breakers (at_instant env (rn_evaluate rn)) cfg (dm_table s) b) (\<lambda>(b', table, opened).
          let s1 = s\<lparr>dm_breakers := b', dm_table := table\<rparr>
          in case opened of
               Some w \<Rightarrow> Inr (Some (BreakerOpen w), s1)
             | None \<Rightarrow>
                 if (case op_max_runs opts of None \<Rightarrow> False | Some n \<Rightarrow> length (dm_outcomes s1) \<ge> n)
                 then Inr (Some MaxRuns, s1)
                 else case rn_run rn of
                   None \<Rightarrow> Inr (if op_stop_when_idle opts \<noteq> Some False then Some NoWork else None, s1)
                 | Some x \<Rightarrow>
                     and_then (book_outcome (at_instant env (rn_book rn)) opts s1 x) (\<lambda>s'. Inr (None, s')))))"

text \<open>The loop over the rounds that have happened so far; without a reason it is still running.\<close>

fun daemon_loop ::
  "store_env \<Rightarrow> breaker_config \<Rightarrow> daemon_options \<Rightarrow> daemon_state \<Rightarrow> round list \<Rightarrow>
     store_error + (stop_reason option \<times> daemon_state)" where
  "daemon_loop env cfg opts s [] = Inr (None, s)"
| "daemon_loop env cfg opts s (rn # rns) =
     and_then (daemon_round env cfg opts s rn) (\<lambda>(stop, s').
       case stop of
         Some w \<Rightarrow> Inr (Some w, s')
       | None \<Rightarrow> daemon_loop env cfg opts s' rns)"

text \<open>A new daemon over the durable table.\<close>

definition start_daemon :: "store_env \<Rightarrow> breaker_row list \<Rightarrow> ledger_row list \<Rightarrow> store_error + daemon_state" where
  "start_daemon env rows ledger =
     and_then (getCircuitBreakerState env rows) (\<lambda>d.
       Inr \<lparr>dm_breakers = new_breakers (Some d), dm_table = Some rows, dm_ledger = ledger, dm_outcomes = []\<rparr>)"

section \<open>The table holds what was saved\<close>

lemma durable_named_iff: "durable_named s = Some n \<longleftrightarrow> s = durable_text n"
  by (cases n) (auto simp: durable_named_def DURABLE_CIRCUIT_BREAKER_NAMES_def)

lemma durable_text_simps [simp]: "durable_text m = durable_text n \<longleftrightarrow> m = n"
  by (cases m; cases n) simp_all

lemma read_counts_names:
  assumes "read_counts n ms acc = Inr r"
  shows "(rd_failures r \<noteq> None \<longrightarrow> rd_failures acc \<noteq> None \<or> n = ConsecutiveFailures) \<and>
     (rd_quarantines r \<noteq> None \<longrightarrow> rd_quarantines acc \<noteq> None \<or> n = Quarantine) \<and>
     (rd_completed r \<noteq> None \<longrightarrow> rd_completed acc \<noteq> None \<or> n = EscalationRate)"
  using assms by (cases n) (auto simp: read_counts_def and_then_Inr_iff split: if_splits)

lemma read_trip_names:
  assumes "read_trip n row acc = Inr r"
  shows "rd_failures r = rd_failures acc" "rd_quarantines r = rd_quarantines acc" "rd_completed r = rd_completed acc"
  using assms by (auto simp: read_trip_def split: option.splits)

lemma read_row_Inr:
  assumes "read_row acc row = Inr r"
  shows "\<exists>n ms acc'. cb_name row = durable_text n \<and> read_counts n ms acc = Inr acc' \<and> read_trip n row acc' = Inr r"
proof -
  obtain n where n: "durable_named (cb_name row) = Some n"
    using assms by (cases "durable_named (cb_name row)") (simp_all add: read_row_def)
  obtain j where "cb_state row = Some j"
    using assms n by (cases "cb_state row") (simp_all add: read_row_def)
  with assms n have "\<exists>ms. and_then (read_counts n ms acc) (read_trip n row) = Inr r"
    by (cases j) (auto simp: read_row_def)
  with n show ?thesis by (auto simp: and_then_Inr_iff durable_named_iff)
qed

lemma read_row_names:
  assumes "read_row acc row = Inr r"
  shows "(rd_failures r \<noteq> None \<longrightarrow> rd_failures acc \<noteq> None \<or> cb_name row = ''consecutive-failures'') \<and>
     (rd_quarantines r \<noteq> None \<longrightarrow> rd_quarantines acc \<noteq> None \<or> cb_name row = ''quarantine'') \<and>
     (rd_completed r \<noteq> None \<longrightarrow> rd_completed acc \<noteq> None \<or> cb_name row = ''escalation-rate'')"
proof -
  obtain n ms acc' where c: "cb_name row = durable_text n" "read_counts n ms acc = Inr acc'" "read_trip n row acc' = Inr r"
    using read_row_Inr [OF assms] by blast
  from read_counts_names [OF c(2)] read_trip_names [OF c(3)] c(1) show ?thesis by (cases n) simp_all
qed

lemma read_rows_sel:
  assumes step: "\<And>acc row r. read_row acc row = Inr r \<Longrightarrow> sel r \<noteq> None \<Longrightarrow> sel acc \<noteq> None \<or> cb_name row = x"
  shows "read_rows acc rows = Inr r \<Longrightarrow> sel r \<noteq> None \<Longrightarrow> sel acc \<noteq> None \<or> x \<in> cb_name ` set rows"
proof (induction rows arbitrary: acc)
  case (Cons row rows)
  from Cons.prems(1) obtain acc' where a: "read_row acc row = Inr acc'" "read_rows acc' rows = Inr r"
    unfolding read_rows.simps and_then_Inr_iff by blast
  from Cons.IH [OF a(2) Cons.prems(2)] step [OF a(1)] show ?case by auto
qed simp

definition durable_texts :: "string list" where
  "durable_texts = [''consecutive-failures'', ''escalation-rate'', ''quarantine'']"

lemma read_rows_names:
  assumes "read_rows no_reads rows = Inr r" and "rd_failures r \<noteq> None" and "rd_quarantines r \<noteq> None"
    and "rd_completed r \<noteq> None"
  shows "set durable_texts \<subseteq> cb_name ` set rows"
  using read_rows_sel [of rd_failures "''consecutive-failures''", OF _ assms(1,2)]
    read_rows_sel [of rd_quarantines "''quarantine''", OF _ assms(1,3)]
    read_rows_sel [of rd_completed "''escalation-rate''", OF _ assms(1,4)] read_row_names
  by (simp add: no_reads_def durable_texts_def)

lemma durable_texts_sorted: "sorted durable_texts \<and> distinct durable_texts"
  unfolding durable_texts_def by code_simp

lemma get_Inr:
  assumes "getCircuitBreakerState env rows = Inr d"
  shows "\<exists>r. length rows = 3 \<and> read_rows no_reads (sort_key cb_name rows) = Inr r \<and> rd_failures r = Some (du_failures d) \<and>
     rd_quarantines r = Some (du_quarantines d) \<and> rd_escalations r = Some (du_escalations d) \<and>
     rd_completed r = Some (du_completed d) \<and> assertValidDurableCircuitBreakerState env d = Inr ()"
proof -
  obtain r where r: "length rows = 3" "read_rows no_reads (sort_key cb_name rows) = Inr r"
    using assms unfolding getCircuitBreakerState_def
    by (auto simp: DURABLE_CIRCUIT_BREAKER_NAMES_def and_then_Inr_iff split: if_splits)
  note body = assms [unfolded getCircuitBreakerState_def r(2) DURABLE_CIRCUIT_BREAKER_NAMES_def, simplified r(1) and_then_simps]
  obtain f q e c where v: "rd_failures r = Some f" "rd_quarantines r = Some q" "rd_escalations r = Some e" "rd_completed r = Some c"
    using body by (simp split: option.splits)
  then show ?thesis using r body by (auto simp: Let_def and_then_Inr_iff split: if_splits)
qed

lemma get_names:
  assumes "getCircuitBreakerState env rows = Inr d"
  shows "sort (map cb_name rows) = durable_texts"
proof -
  obtain r where r: "length rows = 3" "read_rows no_reads (sort_key cb_name rows) = Inr r"
    "rd_failures r \<noteq> None" "rd_quarantines r \<noteq> None" "rd_completed r \<noteq> None"
    using get_Inr [OF assms] by auto
  from read_rows_names [OF r(2-5)] have sub: "set durable_texts \<subseteq> set (map cb_name rows)" by simp
  have "card (set (map cb_name rows)) \<le> 3" using r(1) card_length [of "map cb_name rows"] by simp
  moreover have "card (set durable_texts) = 3" using durable_texts_sorted distinct_card [of durable_texts]
    by (simp add: durable_texts_def)
  ultimately have eq: "set (map cb_name rows) = set durable_texts"
    using sub by (metis card_seteq List.finite_set)
  then have "distinct (map cb_name rows)" using r(1) \<open>card (set durable_texts) = 3\<close>
    by (intro card_distinct) (simp del: set_map)
  then show ?thesis using eq durable_texts_sorted
    by (intro sorted_distinct_set_unique) (simp_all del: set_map)
qed

lemma upsert_present:
  "cb_name r \<in> cb_name ` set rows \<Longrightarrow> upsert_row r rows = map (\<lambda>q. if cb_name q = cb_name r then r else q) rows"
  by (auto simp: upsert_row_def list_ex_iff image_iff)

text \<open>The table after the three upserts.\<close>

definition replaced :: "durable_state \<Rightarrow> breaker_row \<Rightarrow> breaker_row" where
  "replaced d q = (case durable_named (cb_name q) of None \<Rightarrow> q | Some n \<Rightarrow> row_of d n)"

lemma row_of_name [simp]: "cb_name (row_of d n) = durable_text n"
  by (simp add: row_of_def Let_def)

lemma replaced_name: "cb_name (replaced d q) = cb_name q"
  by (auto simp: replaced_def durable_named_iff split: option.splits)

lemma upserts:
  assumes "sort (map cb_name rows) = durable_texts"
  shows "foldl (\<lambda>rs name. upsert_row (row_of d name) rs) rows (map fst DURABLE_CIRCUIT_BREAKER_NAMES) =
     map (replaced d) rows"
proof -
  let ?put = "\<lambda>n q. if cb_name q = durable_text n then row_of d n else q"
  have keep: "cb_name (?put n q) = cb_name q" for n q by simp
  have names: "cb_name ` set rows = set durable_texts" using assms by (metis set_map set_sort)
  then have some: "durable_text n \<in> cb_name ` set rows" for n by (cases n) (auto simp: durable_texts_def)
  have up: "upsert_row (row_of d n) rs = map (?put n) rs" if "cb_name ` set rs = cb_name ` set rows" for n rs
    using upsert_present [of "row_of d n" rs] some that by simp
  have same: "cb_name ` set (map (?put n) rs) = cb_name ` set rs" for n rs
    by (simp only: set_map image_image keep)
  have "foldl (\<lambda>rs name. upsert_row (row_of d name) rs) rows (map fst DURABLE_CIRCUIT_BREAKER_NAMES) =
      map (?put Quarantine) (map (?put EscalationRate) (map (?put ConsecutiveFailures) rows))"
    unfolding DURABLE_CIRCUIT_BREAKER_NAMES_def list.map fst_conv foldl.simps
    by (simp only: up [OF refl] up same)
  also have "\<dots> = map (replaced d) rows"
  proof -
    have "?put Quarantine (?put EscalationRate (?put ConsecutiveFailures q)) = replaced d q" if "q \<in> set rows" for q
    proof -
      have "cb_name q \<in> set durable_texts" using names that by blast
      then obtain n where n: "cb_name q = durable_text n"
        by (auto simp: durable_texts_def) (metis durable_text.simps)+
      then have "durable_named (cb_name q) = Some n" by (simp add: durable_named_iff)
      with n show ?thesis by (cases n) (simp_all add: replaced_def)
    qed
    then show ?thesis unfolding map_map by (intro map_cong [OF refl]) (simp only: o_apply)
  qed
  finally show ?thesis .
qed

lemma sort_map_same_key: "(\<And>x. k (f x) = k x) \<Longrightarrow> sort_key k (map f xs) = map f (sort_key k xs)"
proof (induction xs)
  case (Cons x xs)
  have "insort_key k (f y) (map f zs) = map f (insort_key k y zs)" for y zs
    by (induction zs) (simp_all add: Cons.prems)
  with Cons show ?case by simp
qed simp

lemma sort_map_key_self: "map k (sort_key k xs) = sort (map k xs)"
proof (induction xs)
  case (Cons x xs)
  have "map k (insort_key k y zs) = insort (k y) (map k zs)" for y zs by (induction zs) simp_all
  with Cons show ?case by simp
qed simp

lemma sorted_replaced:
  assumes "sort (map cb_name rows) = durable_texts"
  shows "sort_key cb_name (map (replaced d) rows) =
     [row_of d ConsecutiveFailures, row_of d EscalationRate, row_of d Quarantine]"
proof -
  have "map cb_name (sort_key cb_name rows) = durable_texts"
    using assms by (simp add: sort_map_key_self)
  then obtain a b c where s: "sort_key cb_name rows = [a, b, c]" "cb_name a = ''consecutive-failures''"
    "cb_name b = ''escalation-rate''" "cb_name c = ''quarantine''"
    by (auto simp: durable_texts_def map_eq_Cons_conv)
  show ?thesis unfolding sort_map_same_key [of cb_name "replaced d", OF replaced_name] s(1)
    by (simp add: replaced_def s durable_named_def DURABLE_CIRCUIT_BREAKER_NAMES_def)
qed


section \<open>What a save leaves behind\<close>

lemma count_read: "count_ok n \<Longrightarrow> count_member ((k, JNumber (of_int n)) # ms) k = Inr n"
  by (simp add: count_member_def)

lemma count_skip: "j \<noteq> k \<Longrightarrow> count_member ((j, v) # ms) k = count_member ms k"
  by (simp add: count_member_def)

lemma exact_keys [simp]:
  "hasExactKeys [(''count'', v), (''schema'', w)] [''count'', ''schema'']"
  "hasExactKeys [(''completed'', v), (''escalations'', w), (''schema'', u)] [''completed'', ''escalations'', ''schema'']"
  by (simp_all add: hasExactKeys_def)

lemma valid_counts:
  assumes "assertValidDurableCircuitBreakerState env d = Inr u"
  shows "count_ok (du_completed d)" "count_ok (du_failures d)" "count_ok (du_escalations d)" "count_ok (du_quarantines d)"
  using assms by (auto simp: assertValidDurableCircuitBreakerState_def split: if_splits)

lemma read_saved_counts:
  assumes "assertValidDurableCircuitBreakerState env d = Inr u"
  shows "JObject ms = state_by_name d ConsecutiveFailures \<Longrightarrow>
       read_counts ConsecutiveFailures ms acc = Inr (acc\<lparr>rd_failures := Some (du_failures d)\<rparr>)"
    and "JObject ms = state_by_name d Quarantine \<Longrightarrow>
       read_counts Quarantine ms acc = Inr (acc\<lparr>rd_quarantines := Some (du_quarantines d)\<rparr>)"
    and "JObject ms = state_by_name d EscalationRate \<Longrightarrow>
       read_counts EscalationRate ms acc =
         Inr (acc\<lparr>rd_completed := Some (du_completed d), rd_escalations := Some (du_escalations d)\<rparr>)"
  using valid_counts [OF assms]
  by (simp_all add: state_by_name_def read_counts_def count_read count_skip)

definition trips_of :: "durable_state \<Rightarrow> durable_name \<Rightarrow> trip list" where
  "trips_of d n = (case du_tripped d of Some t \<Rightarrow> if tr_name t = n then [t] else [] | None \<Rightarrow> [])"

lemma read_saved_trip:
  "read_trip n (row_of d n) acc = Inr (acc\<lparr>rd_trips := rd_trips acc @ trips_of d n\<rparr>)"
  by (auto simp: read_trip_def row_of_def Let_def trips_of_def split: option.splits)

lemma read_saved_row:
  assumes "JObject ms = state_by_name d n" and "read_counts n ms acc = Inr acc'"
  shows "read_row acc (row_of d n) = Inr (acc'\<lparr>rd_trips := rd_trips acc' @ trips_of d n\<rparr>)"
proof -
  have "cb_state (row_of d n) = Some (JObject ms)" by (simp add: row_of_def Let_def assms(1))
  moreover have "durable_named (cb_name (row_of d n)) = Some n" by (simp add: durable_named_iff)
  ultimately show ?thesis by (simp add: read_row_def assms(2) read_saved_trip)
qed

lemma get_saved:
  assumes valid: "assertValidDurableCircuitBreakerState env d = Inr ()"
    and names: "sort (map cb_name rows) = durable_texts"
  shows "getCircuitBreakerState env (map (replaced d) rows) = Inr d"
proof -
  let ?r = "\<lparr>rd_failures = Some (du_failures d), rd_quarantines = Some (du_quarantines d),
    rd_escalations = Some (du_escalations d), rd_completed = Some (du_completed d),
    rd_trips = trips_of d ConsecutiveFailures @ trips_of d EscalationRate @ trips_of d Quarantine\<rparr>"
  have obj: "\<exists>ms. JObject ms = state_by_name d n" for n by (cases n) (simp_all add: state_by_name_def)
  obtain m1 m2 m3 where m: "JObject m1 = state_by_name d ConsecutiveFailures" "JObject m2 = state_by_name d EscalationRate"
    "JObject m3 = state_by_name d Quarantine" using obj by metis
  note rows = read_saved_row [OF m(1) read_saved_counts(1) [OF valid m(1)]]
    read_saved_row [OF m(2) read_saved_counts(3) [OF valid m(2)]]
    read_saved_row [OF m(3) read_saved_counts(2) [OF valid m(3)]]
  have "read_rows no_reads (sort_key cb_name (map (replaced d) rows)) = Inr ?r"
    unfolding sorted_replaced [OF names] by (simp add: rows no_reads_def)
  moreover have "length rows = 3"
    using arg_cong [OF names, of length] by (simp add: durable_texts_def)
  moreover have "rd_trips ?r = (case du_tripped d of None \<Rightarrow> [] | Some t \<Rightarrow> [t])"
  proof (cases "du_tripped d")
    case (Some t)
    then show ?thesis by (cases "tr_name t") (simp_all add: trips_of_def)
  qed (simp add: trips_of_def)
  ultimately show ?thesis
    using valid by (cases d; cases "du_tripped d") (simp_all add: getCircuitBreakerState_def DURABLE_CIRCUIT_BREAKER_NAMES_def Let_def)
qed

lemma save_Inr:
  assumes "saveCircuitBreakerState env rows d = Inr rows'"
  obtains prior where "getCircuitBreakerState env rows = Inr prior" "getCircuitBreakerState env rows' = Inr d"
    "\<And>t. du_tripped prior = Some t \<Longrightarrow> du_tripped d = Some t"
    "same_counters prior d \<or> counters_advance prior d"
proof -
  obtain prior where p: "assertValidDurableCircuitBreakerState env d = Inr ()" "getCircuitBreakerState env rows = Inr prior"
    "\<not> (du_tripped prior \<noteq> None \<and> du_tripped prior \<noteq> du_tripped d)"
    "\<not> (du_completed d = du_completed prior \<and> \<not> same_counters prior d)"
    "\<not> (du_completed d \<noteq> du_completed prior \<and> \<not> counters_advance prior d)"
    "rows' = foldl (\<lambda>rs name. upsert_row (row_of d name) rs) rows (map fst DURABLE_CIRCUIT_BREAKER_NAMES)"
    using assms unfolding saveCircuitBreakerState_def
    by (auto simp: and_then_Inr_iff split: if_splits)
  note names = get_names [OF p(2)]
  from get_saved [OF p(1) names] have "getCircuitBreakerState env rows' = Inr d"
    by (simp only: p(6) upserts [OF names])
  then show thesis by (rule that [OF p(2)]) (use p(3-5) in auto)
qed

text \<open>A breaker snapshot that was saved is read back exactly, whatever was in the table before, counters and
  trip alike, so a restarted daemon resumes with the state the last one committed.\<close>

theorem breaker_table_round_trip:
  assumes "saveCircuitBreakerState env rows d = Inr rows'"
  shows "getCircuitBreakerState env rows' = Inr d"
  using assms by (rule save_Inr)


section \<open>The committed history\<close>

text \<open>The specification of the counters: they are what a list of finished runs amounts to.\<close>

datatype run_class = Finished | Quarantines | Escalates

definition class_of :: "run_outcome \<Rightarrow> run_class" where
  "class_of x = (if quarantined x then Quarantines else if escalated x then Escalates else Finished)"

fun count_class :: "run_class \<Rightarrow> run_class list \<Rightarrow> int" where
  "count_class c [] = 0"
| "count_class c (x # xs) = (if x = c then 1 else 0) + count_class c xs"

text \<open>The runs that did not complete since the last that did.\<close>

fun unfinished_since :: "int \<Rightarrow> run_class list \<Rightarrow> int" where
  "unfinished_since n [] = n"
| "unfinished_since n (x # xs) = unfinished_since (if x = Finished then 0 else n + 1) xs"

lemma count_class_append [simp]: "count_class c (xs @ ys) = count_class c xs + count_class c ys"
  by (induction xs) auto

lemma unfinished_since_append [simp]: "unfinished_since n (xs @ ys) = unfinished_since (unfinished_since n xs) ys"
  by (induction xs arbitrary: n) auto

definition amounts_to :: "run_class list \<Rightarrow> durable_state \<Rightarrow> bool" where
  "amounts_to os d \<longleftrightarrow> du_completed d = int (length os) \<and> du_quarantines d = count_class Quarantines os \<and>
     du_escalations d = count_class Escalates os \<and> du_failures d = unfinished_since 0 os"

lemma advance_class:
  assumes "counters_advance p d" and "amounts_to os p"
  shows "\<exists>c. amounts_to (os @ [c]) d"
proof -
  let ?q = "du_quarantines d - du_quarantines p" and ?e = "du_escalations d - du_escalations p"
  have a: "du_completed d = du_completed p + 1" "?q = 0 \<or> ?q = 1" "?e = 0 \<or> ?e = 1" "?q + ?e \<le> 1"
    "du_failures d = (if ?q = 1 \<or> ?e = 1 then du_failures p + 1 else 0)"
    using assms(1) by (simp_all add: counters_advance_def Let_def)
  from a(2-4) consider "?q = 1" "?e = 0" | "?q = 0" "?e = 1" | "?q = 0" "?e = 0" by linarith
  then show ?thesis
  proof cases
    case 1
    then have "amounts_to (os @ [Quarantines]) d" using assms(2) a(1,5) by (simp add: amounts_to_def)
    then show ?thesis ..
  next
    case 2
    then have "amounts_to (os @ [Escalates]) d" using assms(2) a(1,5) by (simp add: amounts_to_def)
    then show ?thesis ..
  next
    case 3
    then have "amounts_to (os @ [Finished]) d" using assms(2) a(1,5) by (simp add: amounts_to_def)
    then show ?thesis ..
  qed
qed

text \<open>A save that any daemon commits, and what it keeps: a history that only grows, and an open breaker.\<close>

definition table_step :: "store_env \<Rightarrow> breaker_row list \<Rightarrow> durable_state \<Rightarrow> breaker_row list \<Rightarrow> bool" where
  "table_step env rows d rows' \<longleftrightarrow> saveCircuitBreakerState env rows d = Inr rows'"

definition table_history :: "store_env \<Rightarrow> run_class list \<Rightarrow> trip option \<Rightarrow> breaker_row list \<Rightarrow> bool" where
  "table_history env os t rows \<longleftrightarrow> (\<exists>d os'. getCircuitBreakerState env rows = Inr d \<and> amounts_to (os @ os') d \<and>
     (t \<noteq> None \<longrightarrow> du_tripped d = t))"

interpretation breaker_table: preserved "table_step env" "table_history env os t" for env os t
proof
  fix rows d rows' assume h: "table_history env os t rows" and "table_step env rows d rows'"
  then have "saveCircuitBreakerState env rows d = Inr rows'" by (simp add: table_step_def)
  then show "table_history env os t rows'"
  proof (rule save_Inr)
    fix prior assume p: "getCircuitBreakerState env rows = Inr prior" "getCircuitBreakerState env rows' = Inr d"
      "\<And>u. du_tripped prior = Some u \<Longrightarrow> du_tripped d = Some u" "same_counters prior d \<or> counters_advance prior d"
    from h p(1) obtain os' where o': "amounts_to (os @ os') prior" "t \<noteq> None \<longrightarrow> du_tripped prior = t"
      by (auto simp: table_history_def)
    have "\<exists>os''. amounts_to (os @ os'') d"
      using p(4)
    proof
      assume "same_counters prior d"
      then have "amounts_to (os @ os') d" using o'(1) by (simp add: same_counters_def amounts_to_def)
      then show ?thesis ..
    next
      assume "counters_advance prior d"
      from advance_class [OF this o'(1)] show ?thesis by auto
    qed
    then show ?thesis using p(2,3) o'(2) by (cases t) (auto simp: table_history_def)
  qed
qed


section \<open>What the daemon does\<close>

lemma evaluate_open: "bk_tripped b = Some w \<Longrightarrow> evaluate_breakers env cfg table b = Inr (b, table, Some w)"
  by (simp add: evaluate_breakers_def)

lemma refresh_open:
  assumes "refreshDailyBudget env opts s = Inr b" and "bk_tripped (dm_breakers s) = Some w" and "bs_name w \<noteq> DailyCost"
  shows "bk_tripped b = Some w"
  using assms by (auto simp: refreshDailyBudget_def setDailySpend_def Let_def and_then_Inr_iff split: option.splits)



text \<open>Within the limits: no breaker condition on the counters holds and the session has room for a run.\<close>

definition unfinished_after :: "breakers \<Rightarrow> run_outcome list \<Rightarrow> int" where
  "unfinished_after b xs = unfinished_since (bk_failures b) (map class_of xs)"

definition quarantines_after :: "breakers \<Rightarrow> run_outcome list \<Rightarrow> int" where
  "quarantines_after b xs = bk_quarantines b + count_class Quarantines (map class_of xs)"

definition within_limits :: "breaker_config \<Rightarrow> daemon_options \<Rightarrow> nat \<Rightarrow> breakers \<Rightarrow> run_outcome list \<Rightarrow> bool" where
  "within_limits cfg opts n b xs \<longleftrightarrow>
     of_int (quarantines_after b xs) < maxQuarantines cfg \<and>
     of_int (unfinished_after b xs) < maxConsecutiveFailures cfg \<and>
     (case op_max_runs opts of None \<Rightarrow> True | Some m \<Rightarrow> n + length xs < m)"

text \<open>Two breakers with the same counters are limited alike.\<close>

definition counted :: "breakers \<Rightarrow> run_outcome list \<Rightarrow> breakers \<Rightarrow> bool" where
  "counted b xs b' \<longleftrightarrow> bk_failures b' = unfinished_after b xs \<and> bk_quarantines b' = quarantines_after b xs"

lemma counted_Nil: "counted b [] b' \<longleftrightarrow> bk_failures b' = bk_failures b \<and> bk_quarantines b' = bk_quarantines b"
  by (simp add: counted_def unfinished_after_def quarantines_after_def)

lemma counted_append: "counted b xs b' \<Longrightarrow> counted b' ys b'' \<Longrightarrow> counted b (xs @ ys) b''"
  by (simp add: counted_def unfinished_after_def quarantines_after_def)

lemma within_append:
  "counted b xs b' \<Longrightarrow> within_limits cfg opts (n + length xs) b' ys = within_limits cfg opts n b (xs @ ys)"
  by (auto simp: counted_def within_limits_def unfinished_after_def quarantines_after_def add.assoc split: option.splits)

lemma refresh_counts: "refreshDailyBudget env opts s = Inr b \<Longrightarrow> counted (dm_breakers s) [] b"
  by (auto simp: refreshDailyBudget_def setDailySpend_def Let_def and_then_Inr_iff counted_Nil split: option.splits if_splits)

lemma evaluate_counts:
  assumes "evaluate_breakers env cfg table b = Inr (b', table', w)"
  shows "counted b [] b'"
    and "w = None \<Longrightarrow> of_int (bk_quarantines b) < maxQuarantines cfg \<and> of_int (bk_failures b) < maxConsecutiveFailures cfg"
  using assms
  by (auto simp: evaluate_breakers_def trip_with_def Let_def and_then_Inr_iff counted_Nil not_le
      split: option.splits if_splits)

lemma record_counts:
  assumes "record_outcome env table b x = Inr (b', table')"
  shows "counted b [x] b'"
  using assms
  by (auto simp: record_outcome_def Let_def and_then_Inr_iff counted_def unfinished_after_def quarantines_after_def
      class_of_def quarantined_def escalated_def)

lemma book_counts:
  assumes "book_outcome env opts s x = Inr s'"
  shows "dm_outcomes s' = dm_outcomes s @ [x] \<and> counted (dm_breakers s) [x] (dm_breakers s')"
  using assms record_counts
  by (fastforce simp: book_outcome_def Let_def and_then_Inr_iff split: option.splits prod.splits)

lemma round_counts:
  assumes "daemon_round env cfg opts s rn = Inr (stop, s')"
  shows "\<exists>xs. dm_outcomes s' = dm_outcomes s @ xs \<and> counted (dm_breakers s) xs (dm_breakers s') \<and>
     (xs = [] \<or> (\<exists>x. xs = [x] \<and> within_limits cfg opts (length (dm_outcomes s)) (dm_breakers s) []))"
proof (cases "rn_stop rn")
  case True
  with assms have "s' = s" by (simp add: daemon_round_def)
  then show ?thesis by (intro exI [of _ "[]"]) (simp add: counted_Nil)
next
  case False
  with assms obtain b b' table w where b: "refreshDailyBudget (at_instant env (rn_refresh rn)) opts s = Inr b"
    "evaluate_breakers (at_instant env (rn_evaluate rn)) cfg (dm_table s) b = Inr (b', table, w)"
    by (auto simp: daemon_round_def and_then_Inr_iff split: prod.splits)
  let ?s = "s\<lparr>dm_breakers := b', dm_table := table\<rparr>"
  have c: "counted (dm_breakers s) [] b'"
    using counted_append [OF refresh_counts [OF b(1)] evaluate_counts(1) [OF b(2)]] by simp
  show ?thesis
  proof (cases "s' = ?s")
    case True
    then show ?thesis using c by (intro exI [of _ "[]"]) simp
  next
    case other: False
    have w: "w = None" using assms False b other by (cases w) (auto simp: daemon_round_def Let_def)
    have m: "\<not> (case op_max_runs opts of None \<Rightarrow> False | Some n \<Rightarrow> length (dm_outcomes s) \<ge> n)"
      using assms False b other w by (cases "op_max_runs opts") (auto simp: daemon_round_def Let_def)
    obtain x where x: "book_outcome (at_instant env (rn_book rn)) opts ?s x = Inr s'"
      using assms False b other w m by (cases "op_max_runs opts"; cases "rn_run rn") (auto simp: daemon_round_def Let_def and_then_Inr_iff)
    from book_counts [OF x] have "dm_outcomes s' = dm_outcomes s @ [x]" "counted b' [x] (dm_breakers s')" by simp_all
    moreover have "within_limits cfg opts (length (dm_outcomes s)) (dm_breakers s) []"
      using evaluate_counts(2) [OF b(2) w] refresh_counts [OF b(1)] m
      by (auto simp: within_limits_def counted_Nil unfinished_after_def quarantines_after_def split: option.splits)
    ultimately show ?thesis using counted_append [OF c] by (intro exI [of _ "[x]"]) fastforce
  qed
qed

lemma loop_within_limits:
  "daemon_loop env cfg opts s rns = Inr (stop, s') \<Longrightarrow>
     \<exists>xs. dm_outcomes s' = dm_outcomes s @ xs \<and>
       (\<forall>k < length xs. within_limits cfg opts (length (dm_outcomes s)) (dm_breakers s) (take k xs))"
proof (induction rns arbitrary: s)
  case Nil
  then show ?case by (intro exI [of _ "[]"]) simp
next
  case (Cons rn rns)
  obtain stop1 s1 where r: "daemon_round env cfg opts s rn = Inr (stop1, s1)"
    "(case stop1 of None \<Rightarrow> daemon_loop env cfg opts s1 rns | Some w \<Rightarrow> Inr (Some w, s1)) = Inr (stop, s')"
    using Cons.prems by (auto simp: and_then_Inr_iff)
  from round_counts [OF r(1)] obtain xs where x: "dm_outcomes s1 = dm_outcomes s @ xs"
    "counted (dm_breakers s) xs (dm_breakers s1)"
    "xs = [] \<or> (\<exists>x. xs = [x] \<and> within_limits cfg opts (length (dm_outcomes s)) (dm_breakers s) [])" by blast
  have "\<exists>ys. dm_outcomes s' = dm_outcomes s1 @ ys \<and>
      (\<forall>k < length ys. within_limits cfg opts (length (dm_outcomes s1)) (dm_breakers s1) (take k ys))"
  proof (cases stop1)
    case None
    then show ?thesis using r(2) Cons.IH [of s1] by simp
  next
    case (Some w)
    then show ?thesis using r(2) by (intro exI [of _ "[]"]) simp
  qed
  then obtain ys where y: "dm_outcomes s' = dm_outcomes s1 @ ys"
    "\<And>k. k < length ys \<Longrightarrow> within_limits cfg opts (length (dm_outcomes s)) (dm_breakers s) (xs @ take k ys)"
    using within_append [OF x(2)] x(1) by auto
  have "within_limits cfg opts (length (dm_outcomes s)) (dm_breakers s) (take k (xs @ ys))" if "k < length (xs @ ys)" for k
    using that x(3) y(2) [of "k - length xs"] by (cases k) auto
  then show ?case using x(1) y(1) by (intro exI [of _ "xs @ ys"]) simp
qed

text \<open>In a session of the daemon every run is started within the limits: counted from the durable table and
  over the runs of the session before it, fewer runs were quarantined and fewer in a row did not
  complete than the breakers allow, and fewer were made than the session may make.\<close>

theorem daemon_runs_within_limits:
  assumes "start_daemon env rows ledger = Inr s" and "daemon_loop env cfg opts s rns = Inr (stop, s')"
    and "k < length (dm_outcomes s')"
  shows "\<exists>d. getCircuitBreakerState env rows = Inr d \<and>
     (let before = map class_of (take k (dm_outcomes s'))
      in of_int (du_quarantines d + count_class Quarantines before) < maxQuarantines cfg \<and>
         of_int (unfinished_since (du_failures d) before) < maxConsecutiveFailures cfg \<and>
         (\<forall>n. op_max_runs opts = Some n \<longrightarrow> k < n))"
proof -
  obtain d where d: "getCircuitBreakerState env rows = Inr d" "dm_breakers s = new_breakers (Some d)" "dm_outcomes s = []"
    using assms(1) by (auto simp: start_daemon_def and_then_Inr_iff)
  from loop_within_limits [OF assms(2)] assms(3) d(3)
  have "within_limits cfg opts 0 (dm_breakers s) (take k (dm_outcomes s'))" by auto
  then show ?thesis using d assms(3)
    by (auto simp: within_limits_def quarantines_after_def unfinished_after_def new_breakers_def min_def)
qed

section \<open>Sample sessions\<close>

definition sample_breaker_env :: store_env where
  "sample_breaker_env = \<lparr>recovery = sample_env\<lparr>date_parse := (\<lambda>_. Some 0)\<rparr>, json_parse = (\<lambda>_. None),
     canonicalJson = (\<lambda>_. ''doc''), iso = (\<lambda>_. Some ''2026''), sha_hex = (\<lambda>s. s), number_text = (\<lambda>_. ''1''),
     stringify = (\<lambda>_. ''{}''), localeCompare = (\<lambda>s t. 0)\<rparr>"

definition empty_breakers :: durable_state where
  "empty_breakers = \<lparr>du_failures = 0, du_quarantines = 0, du_escalations = 0, du_completed = 0, du_tripped = None\<rparr>"

text \<open>The rows that the migration inserts.\<close>

definition seeded_table :: "breaker_row list" where
  "seeded_table = map (row_of empty_breakers) [ConsecutiveFailures, Quarantine, EscalationRate]"

definition sample_outcome :: "run_state \<Rightarrow> run_outcome" where
  "sample_outcome p = \<lparr>ro_issue = ''i'', ro_state = p, ro_cost = 1, ro_invocations = None\<rparr>"

definition sample_rounds :: "round list" where
  "sample_rounds = map (\<lambda>p. \<lparr>rn_stop = False, rn_refresh = 0, rn_evaluate = 0, rn_book = 0, rn_run = Some (sample_outcome p)\<rparr>)
     [COMPLETED, QUARANTINED, COMPLETED]"

definition sample_daemon_options :: daemon_options where
  "sample_daemon_options = \<lparr>op_max_runs = Some 5, op_stop_when_idle = None, op_ledger = Some (''o/n'', UTC),
     op_local_day = (\<lambda>_. [])\<rparr>"

definition opened_breakers :: durable_state where
  "opened_breakers = \<lparr>du_failures = 1, du_quarantines = 1, du_escalations = 0, du_completed = 1,
     du_tripped = Some \<lparr>tr_name = Quarantine, tr_opened = ''2026'', tr_reason = ''x''\<rparr>\<rparr>"

lemma seeded_read: "getCircuitBreakerState sample_breaker_env seeded_table = Inr empty_breakers"
  by code_simp

lemma sample_save:
  "case saveCircuitBreakerState sample_breaker_env seeded_table opened_breakers of
     Inl _ \<Rightarrow> False
   | Inr rows \<Rightarrow> is_ok (saveCircuitBreakerState sample_breaker_env rows opened_breakers) \<and>
       \<not> is_ok (saveCircuitBreakerState sample_breaker_env rows empty_breakers)"
  by code_simp

text \<open>The session ends with the breaker that the quarantine opened; the third run is never started.\<close>

lemma sample_session:
  "case start_daemon sample_breaker_env seeded_table [] of
     Inl _ \<Rightarrow> False
   | Inr s \<Rightarrow>
       (case daemon_loop sample_breaker_env DEFAULT_BREAKERS sample_daemon_options s sample_rounds of
          Inl _ \<Rightarrow> False
        | Inr (stop, s') \<Rightarrow> map ro_state (dm_outcomes s') = [COMPLETED, QUARANTINED] \<and>
            (case stop of Some (BreakerOpen w) \<Rightarrow> bs_name w = Durable Quarantine | _ \<Rightarrow> False))"
  by code_simp

theorem breaker_table_round_trip_witness:
  "\<exists>rows. saveCircuitBreakerState sample_breaker_env seeded_table opened_breakers = Inr rows \<and>
     getCircuitBreakerState sample_breaker_env rows = Inr opened_breakers"
proof -
  obtain rows where r: "saveCircuitBreakerState sample_breaker_env seeded_table opened_breakers = Inr rows"
    using sample_save by (auto split: sum.splits)
  from r breaker_table_round_trip [OF r] show ?thesis by blast
qed



theorem daemon_runs_within_limits_witness:
  "\<exists>s stop s'. start_daemon sample_breaker_env seeded_table [] = Inr s \<and>
     daemon_loop sample_breaker_env DEFAULT_BREAKERS sample_daemon_options s sample_rounds = Inr (stop, s') \<and>
     length (dm_outcomes s') = 2 \<and> (\<exists>d. getCircuitBreakerState sample_breaker_env seeded_table = Inr d \<and>
       of_int (du_quarantines d) < maxQuarantines DEFAULT_BREAKERS)"
proof -
  obtain s stop s' where s: "start_daemon sample_breaker_env seeded_table [] = Inr s"
    "daemon_loop sample_breaker_env DEFAULT_BREAKERS sample_daemon_options s sample_rounds = Inr (stop, s')"
    "map ro_state (dm_outcomes s') = [COMPLETED, QUARANTINED]"
    using sample_session by (auto split: sum.splits prod.splits)
  from arg_cong [OF s(3), of length] have n: "length (dm_outcomes s') = 2" by simp
  from daemon_runs_within_limits [OF s(1,2), of 0] n s show ?thesis by (auto simp: Let_def)
qed

end
