(* ===== verification/Stage_Effects.thy ===== *)
theory Stage_Effects
  imports Store_Steps
begin

text \<open>
  The effect protocol of the delivery runner (\<open>src/src/asf/delivery-runner.ts\<close>,
  \<open>src/src/asf/state-delivery-intent-store.ts\<close>): every stage writes its intent ahead, is told whether it may
  apply the effect or only reconcile it, and confirms what it observed. The first part shows what the
  transactions of the store do to the table of intents; the second is the runner.
\<close>

section \<open>Transactions that leave the intents alone\<close>

lemma upsert_gate_intents: "intents (upsert_gate g db) = intents db"
  by (simp add: upsert_gate_def Let_def)

lemma record_gates_intents: "intents (recordAsfGateResults db run e) = intents db"
proof -
  have "intents (fold upsert_gate gs db) = intents db" for gs
    by (induction gs arbitrary: db) (simp_all add: upsert_gate_intents)
  then show ?thesis by (simp add: recordAsfGateResults_def)
qed

lemma append_history_intents: "append_history env db run n p q ty e reason actor t = Inr db' \<Longrightarrow> intents db' = intents db"
  by (auto simp: append_history_def and_then_Inr_iff insert_transition_def insert_event_def split: if_splits)

lemma change_run_intents: "change_run db run p f = Inr db' \<Longrightarrow> intents db' = intents db"
  by (auto simp: change_run_def split: if_splits option.splits)

lemma admit_intents: "admitAsfWorkOrder env db i = Inr (db', x) \<Longrightarrow> intents db' = intents db"
  unfolding admitAsfWorkOrder_def
  by (auto simp: and_then_Inr_iff insert_run_def insert_admission_def insert_transition_def insert_event_def
      split: option.splits if_splits)

lemma claim_intents: "claimAsfRun env db i = Inr (db', x) \<Longrightarrow> intents db' = intents db"
proof (cases x)
  case None
  moreover assume "claimAsfRun env db i = Inr (db', x)"
  ultimately show ?thesis
    by (auto simp: claimAsfRun_def Let_def and_then_Inr_iff split: if_splits option.splits)
next
  case (Some p)
  moreover assume "claimAsfRun env db i = Inr (db', x)"
  ultimately have "claimAsfRun env db i = Inr (db', Some (fst p, snd p))" by simp
  from claim_Some [OF this] show ?thesis by auto
qed

lemma ownership_intents:
  "heartbeatAsfRun env db run w g = Inr db' \<Longrightarrow> intents db' = intents db"
  "releaseAsfRunOwnership env db run w g = Inr db' \<Longrightarrow> intents db' = intents db"
  by (auto simp: heartbeatAsfRun_def releaseAsfRunOwnership_def and_then_Inr_iff split: if_splits)

lemma checkpoint_intents:
  assumes "recordAsfCheckpoint env db j w g = Inr (db', x)"
  shows "intents db' = intents db"
proof -
  obtain row fresh where x: "x = (row, fresh)" by (cases x)
  have "\<exists>c canonical t. insertAsfCheckpoint db c canonical t = Inr (db', row, fresh)"
    using assms unfolding recordAsfCheckpoint_def x
    by (auto simp: and_then_Inr_iff split: sum.splits option.splits if_splits)
  then show ?thesis using insertAsfCheckpoint_runs by fastforce
qed

lemma transition_intents:
  assumes "transitionAsfRun ta env db i = Inr (db', e)"
  shows "intents db' = intents db"
proof -
  obtain r continues checkpoint t where "commit_transition env db i e continues (next_candidate r i e) checkpoint t = Inr db'"
    using transition_shape [OF assms] by blast
  then obtain db1 db2 where c: "change_run db (t_run i)
         (\<lambda>q. r_state q = t_from i \<and> r_version q = t_version i \<and> r_owner q = Some (t_owner i) \<and>
              r_generation q = t_generation i) (moved_run i (next_candidate r i e) t) = Inr db1"
    "append_history env (if continues then update_run db1 (t_run i) (continued_run i (t_version i + 1)) else db1)
       (t_run i) (t_version i + 1) (t_from i) (t_to i) (event_type e) e (t_reason i)
       (case t_actor i of None \<Rightarrow> ''orchestrator'' | Some a \<Rightarrow> a) t = Inr db2"
    "store_checkpoint env (recordAsfGateResults db2 (t_run i) e) checkpoint t = Inr db'"
    unfolding commit_transition_def and_then_Inr_iff by blast
  have "intents db2 = intents db"
    using append_history_intents [OF c(2)] change_run_intents [OF c(1)] by simp
  with store_checkpoint_Inr [OF c(3)] show ?thesis by (auto simp: record_gates_intents)
qed

lemma approval_intents:
  assumes "recordAsfApproval env db v = Inr (db', x)"
  shows "intents db' = intents db"
proof -
  let ?p = "en_payload (va_envelope v)"
  obtain r adm t db1 as where c: "getAsfRun db (y_run ?p) = Some r" "db1 = db\<lparr>approvals := as\<rparr>"
    "case ra_resume x of None \<Rightarrow> db' = db1
      | Some ph \<Rightarrow> resume_waiting_run env db1 r adm ?p (ra_row x) ph t = Inr db'"
    using record_approval_shape [OF assms] by blast
  show ?thesis
  proof (cases "ra_resume x")
    case (Some ph)
    have "getAsfRun db1 (r_run_id r) = Some r"
      using c(1) getAsfRun_id [OF c(1)] getAsfRun_cong [of db1 db] by (simp add: c(2))
    with resume_shape c(3) Some c(2) show ?thesis by fastforce
  qed (use c in simp)
qed

lemma cancellation_intents:
  assumes "requestAsfCancellation ta env db q digest = Inr (db', x)"
  shows "intents db' = intents db"
proof (cases "cr_disposition x = CancelRequested")
  case True
  with cancel_shape [OF assms] obtain r t cs where c: "getAsfRun db (cq_run q) = Some r"
    "fence_cancelled env (db\<lparr>cancellations := cs\<rparr>) r q t = Inr db'" by blast
  have "getAsfRun (db\<lparr>cancellations := cs\<rparr>) (cq_run q) = Some r"
    using c(1) getAsfRun_cong [of "db\<lparr>cancellations := cs\<rparr>" db] by simp
  from fence_shape [OF c(2) this] show ?thesis by auto
qed (use cancel_shape [OF assms] in auto)

lemma effect_intents:
  "intendAsfEffect env db x = Inr (db', e) \<Longrightarrow> intents db' = intents db"
  "beginAsfEffect env db k w g = Inr (db', e) \<Longrightarrow> intents db' = intents db"
  by (auto simp: intendAsfEffect_def beginAsfEffect_def Let_def and_then_Inr_iff insert_effect_def
      update_effects_def split: if_splits option.splits prod.splits)

lemma observe_intents: "recordAsfEffectObservation env db z = Inr (db', o') \<Longrightarrow> intents db' = intents db"
  by (auto simp: recordAsfEffectObservation_def Let_def and_then_Inr_iff update_effects_def update_run_def
      split: if_splits option.splits)

lemma budget_intents:
  "reserveAsfProviderBudget env db v = Inr (db', d) \<Longrightarrow> intents db' = intents db"
  "completeAsfProviderBudget env db f = Inr (db', y) \<Longrightarrow> intents db' = intents db"
  by (drule reserve_shape, use reserve_new_shape in fastforce) (drule complete_shape, auto)

lemma request_intents: "recordAsfReconciliationRequest ta env db q digest = Inr (db', x) \<Longrightarrow> intents db' = intents db"
  unfolding recordAsfReconciliationRequest_def Let_def
  by (auto simp: and_then_Inr_iff insert_operation_def split: if_splits option.splits)

lemma operation_claim_intents: "claimAsfReconciliation ta env db op w s = Inr (db', x) \<Longrightarrow> intents db' = intents db"
  unfolding claimAsfReconciliation_def Let_def
  by (auto simp: and_then_Inr_iff update_operation_def split: if_splits option.splits)

lemma append_resumption_intents:
  assumes "append_resumption env db k r adm digest pending b blocked bs t = Inr db'"
  shows "intents db' = intents db"
proof -
  obtain db1 ds e where s: "settle_observed env (r_run_id r) db bs = Inr (db1, ds)"
    "append_history env (update_run db1 (r_run_id r) (unblocked_run (bb_phase b) t)) (r_run_id r) (r_version r + 1)
       BLOCKED_EXTERNAL (bb_phase b) ''run.resumed'' e (Some (action_reason (resume_action_of b bs)))
       ''reconciliation-controller'' t = Inr db'"
    using assms
    unfolding append_resumption_def Let_def step_iff sum.inject prod.inject providerBudgetSettlementDigestsForReconciliation_def
    by blast
  from settle_observed_tables [OF s(1)] append_history_intents [OF s(2)] show ?thesis by auto
qed

lemma finish_intents:
  assumes "finishAsfReconciliation ta env db i = Inr (db', k', cont)"
  shows "intents db' = intents db"
proof (cases cont)
  case None
  then obtain k r t v db2 where s:
    "(case v of Some (_, bs) \<Rightarrow>
        if completes db k i \<and> all_resolved bs
        then resumeResolvedAsfReconciliation ta env (close_operation db k i (map_option fst v) t) k r (fi_digest i) bs t
        else Inr (close_operation db k i (map_option fst v) t, None)
      | None \<Rightarrow> Inr (close_operation db k i (map_option fst v) t, None)) = Inr (db2, None)"
    "db' = mark_resumed db2 (fi_operation i) None"
    using assms unfolding finishAsfReconciliation_def Let_def plan_guard_iff step_iff sum.inject prod.inject by blast
  have "db2 = close_operation db k i (map_option fst v) t"
    using s(1) resume_none by (auto split: option.splits if_splits)
  then show ?thesis by (simp add: s(2) mark_resumed_def)
next
  case (Some c)
  then obtain n ph where f: "finishAsfReconciliation ta env db i = Inr (db', k', Some (n, ph))"
    using assms by (cases c) simp
  obtain k r t canon bs db2 where s:
    "resumeResolvedAsfReconciliation ta env (close_operation db k i (Some canon) t) k r (fi_digest i) bs t =
       Inr (db2, Some (n, ph))"
    "db' = mark_resumed db2 (fi_operation i) (Some (n, ph))"
    using finish_resumes [OF f] by blast
  obtain adm pending b blocked where
    "append_resumption env (close_operation db k i (Some canon) t) k r adm (fi_digest i) pending b blocked bs t = Inr db2"
    using resume_resolved_shape [OF s(1)] by blast
  from append_resumption_intents [OF this] show ?thesis by (simp add: s(2) mark_resumed_def update_operation_def)
qed

fun touches_intents :: "transaction \<Rightarrow> bool" where
  "touches_intents (RecordIntent w i c) = True"
| "touches_intents (ConfirmIntent h b) = True"
| "touches_intents (ResolveIntent r) = True"
| "touches_intents _ = False"

lemma intents_kept: "perform ta env db x = Inr db' \<Longrightarrow> \<not> touches_intents x \<Longrightarrow> intents db' = intents db"
  by (cases x) (auto simp: and_then_Inr_iff dest: admit_intents claim_intents ownership_intents checkpoint_intents
      transition_intents approval_intents cancellation_intents effect_intents observe_intents budget_intents
      request_intents operation_claim_intents finish_intents)

section \<open>Authority to apply an effect\<close>

text \<open>The effect key for which a transaction hands out the authority to apply it: an intent was recorded and
  the runner is told to observe before applying.\<close>

fun authorised :: "terminal_access \<Rightarrow> store_env \<Rightarrow> store \<Rightarrow> transaction \<Rightarrow> string option" where
  "authorised ta env db (RecordIntent w i c) =
     (case recordAsfDeliveryIntent env (plan_reads ta) db w i c of
        Inr (_, _, disp) \<Rightarrow> if intent_mode_of disp = ObserveBeforeApply then Some (i_effect_key i) else None
      | Inl _ \<Rightarrow> None)"
| "authorised ta env db _ = None"

text \<open>The effect key that a transaction reports as not applied.\<close>

fun not_applied :: "transaction \<Rightarrow> string option" where
  "not_applied (ResolveIntent r) = (if o_outcome r = NotApplied then Some (o_effect_key r) else None)"
| "not_applied _ = None"

text \<open>How often the effect may still be applied: once if it was never recorded, and once for every intent
  that is observed as not applied.\<close>

definition rows_of :: "store \<Rightarrow> string \<Rightarrow> intent_row list" where
  "rows_of db key = filter (\<lambda>r. i_effect_key r = key) (intents db)"

definition credit :: "store \<Rightarrow> string \<Rightarrow> nat" where
  "credit db key = (if rows_of db key = [] then 1
     else length (filter (\<lambda>r. i_outcome r = Some NotApplied) (rows_of db key)))"

definition spends :: "string \<Rightarrow> string option \<Rightarrow> nat" where
  "spends key k = (if k = Some key then 1 else 0)"

lemma credit_cong: "intents db' = intents db \<Longrightarrow> credit db' key = credit db key"
  by (simp add: credit_def rows_of_def)

text \<open>One row replaced by another of the same effect.\<close>

lemma credit_replace:
  assumes "intents db = us @ r # vs" and "intents db' = us @ r' # vs" and "i_effect_key r' = i_effect_key r"
  shows "credit db' key + (if i_effect_key r = key \<and> i_outcome r = Some NotApplied then 1 else 0) =
     credit db key + (if i_effect_key r = key \<and> i_outcome r' = Some NotApplied then 1 else 0)"
  using assms by (auto simp: credit_def rows_of_def filter_empty_conv)

lemma resolved_row_simps [simp]:
  "i_effect_key (resolved_row out obs gen t r) = i_effect_key r" "i_outcome (resolved_row out obs gen t r) = Some out"
  "i_effect_key (replaying_row op gen r) = i_effect_key r" "i_outcome (replaying_row op gen r) = None"
  by (simp_all add: resolved_row_def replaying_row_def)

lemma record_credit:
  assumes "recordAsfDeliveryIntent env intact db w i c = Inr (db', s, disp)"
  shows "spends key (if intent_mode_of disp = ObserveBeforeApply then Some (i_effect_key i) else None) + credit db' key
     \<le> credit db key"
proof -
  have e: "record_effect env db i db' disp" using record_shape [OF assms] by blast
  consider (same) "disp = ExistingCurrent \<or> disp = ExistingPriorGeneration" "db' = db"
    | (new) canonical where "disp = Created" "\<forall>r \<in> set (intents db). i_effect_key r \<noteq> i_effect_key i"
        "db' = db\<lparr>intents := intents db @ [pending_row i canonical]\<rparr>"
    | (replay) db1 d us r vs op and existing :: stored_intent where "disp = ExistingPriorGenerationReplayAuthorized"
        "settleResolvedAsfProviderBudgetForIntent env db existing = Inr (db1, d)"
        "intents db1 = us @ r # vs" "i_effect_key r = i_effect_key i" "i_outcome r = Some NotApplied"
        "db' = db1\<lparr>intents := us @ replaying_row op (i_generation i) r # vs\<rparr>"
    using e unfolding record_effect_def by blast
  then show ?thesis
  proof cases
    case same
    then show ?thesis by (auto simp: intent_mode_of_def spends_def)
  next
    case new
    then show ?thesis
      by (auto simp: intent_mode_of_def spends_def credit_def rows_of_def pending_row_def filter_empty_conv)
  next
    case replay
    have "intents db = us @ r # vs" using settle_tables [OF replay(2)] replay(3) by auto
    from credit_replace [OF this, of db' "replaying_row op (i_generation i) r" key] replay
    show ?thesis by (auto simp: intent_mode_of_def spends_def split: if_splits)
  qed
qed

lemma confirm_credit:
  assumes "confirmAsfDeliveryIntent env db h b = Inr db'"
  shows "credit db' key \<le> credit db key"
proof (cases "db' = db")
  case False
  then obtain us r vs t xs where r: "intents db = us @ r # vs"
    "db' = db\<lparr>intent_observations := xs,
       intents := us @ resolved_row Confirmed (h_observation h) (d_generation (h_binding h)) t r # vs\<rparr>"
    using confirm_shape [OF assms] by blast
  from credit_replace [OF r(1), of db' _ key] r(2) show ?thesis by (fastforce split: if_splits)
qed simp

lemma resolve_credit:
  assumes "resolveAsfDeliveryIntentReconciliation env db r = Inr (db', s)"
  shows "credit db' key \<le> credit db key + spends key (not_applied (ResolveIntent r))"
proof -
  from resolve_shape [OF assms] consider
      d where "settleResolvedAsfProviderBudgetForIntent env db s = Inr (db', d)"
    | "resolve_pending env db r = Inr (db', s)" by blast
  then show ?thesis
  proof cases
    case 1
    then show ?thesis using settle_tables credit_cong [of db' db] by fastforce
  next
    case 2
    then obtain us x vs t xs db1 d where x: "intents db = us @ x # vs" "i_effect_key x = o_effect_key r"
      "db1 = db\<lparr>intent_observations := xs,
         intents := us @ resolved_row (o_outcome r) (o_observation r) (o_generation r) t x # vs\<rparr>"
      "settleResolvedAsfProviderBudgetForIntent env db1 s = Inr (db', d)"
      using resolve_pending_shape [of env db r db' s] by blast
    have "credit db' key = credit db1 key" using settle_tables [OF x(4)] credit_cong [of db' db1] by auto
    moreover from credit_replace [OF x(1), of db1 _ key] x(2,3)
    have "credit db1 key \<le> credit db key + spends key (not_applied (ResolveIntent r))"
      by (fastforce simp: spends_def split: if_splits)
    ultimately show ?thesis by simp
  qed
qed

lemma transaction_credit:
  assumes "perform ta env db x = Inr db'"
  shows "spends key (authorised ta env db x) + credit db' key \<le> credit db key + spends key (not_applied x)"
proof (cases "touches_intents x")
  case False
  then have "authorised ta env db x = None" by (cases x) simp_all
  then show ?thesis using credit_cong [OF intents_kept [OF assms False]] by (simp add: spends_def)
next
  case True
  then show ?thesis
  proof (cases x)
    case (RecordIntent w i c)
    then obtain s disp where "recordAsfDeliveryIntent env (plan_reads ta) db w i c = Inr (db', s, disp)"
      using assms by (auto simp: and_then_Inr_iff)
    from record_credit [OF this, of key] this RecordIntent show ?thesis by (auto simp: spends_def)
  next
    case (ConfirmIntent h b)
    with confirm_credit assms show ?thesis by (auto simp: spends_def)
  next
    case (ResolveIntent r)
    then obtain s where "resolveAsfDeliveryIntentReconciliation env db r = Inr (db', s)"
      using assms by (auto simp: and_then_Inr_iff)
    from resolve_credit [OF this, of key] ResolveIntent show ?thesis by (simp add: spends_def)
  qed simp_all
qed


section \<open>Any sequence of attempted transactions\<close>

text \<open>Transactions are attempted one after another, by any workers with any arguments; one that throws leaves
  the store as it was. \<open>authorities\<close> counts how often the authority to apply an effect is handed out on the
  way, \<open>disproofs\<close> how often a committed reconciliation reports the effect as not applied.\<close>

definition attempted :: "terminal_access \<Rightarrow> store_env \<Rightarrow> store \<Rightarrow> rat \<times> transaction \<Rightarrow> store" where
  "attempted ta env db x = (case perform ta (at_clock env (fst x)) db (snd x) of Inl _ \<Rightarrow> db | Inr db' \<Rightarrow> db')"

fun authorities :: "terminal_access \<Rightarrow> store_env \<Rightarrow> store \<Rightarrow> (rat \<times> transaction) list \<Rightarrow> string \<Rightarrow> nat" where
  "authorities ta env db [] key = 0"
| "authorities ta env db (x # xs) key =
     spends key (authorised ta (at_clock env (fst x)) db (snd x)) + authorities ta env (attempted ta env db x) xs key"

definition disproved :: "terminal_access \<Rightarrow> store_env \<Rightarrow> store \<Rightarrow> rat \<times> transaction \<Rightarrow> string \<Rightarrow> nat" where
  "disproved ta env db x key =
     (case perform ta (at_clock env (fst x)) db (snd x) of Inl _ \<Rightarrow> 0 | Inr _ \<Rightarrow> spends key (not_applied (snd x)))"

fun disproofs :: "terminal_access \<Rightarrow> store_env \<Rightarrow> store \<Rightarrow> (rat \<times> transaction) list \<Rightarrow> string \<Rightarrow> nat" where
  "disproofs ta env db [] key = 0"
| "disproofs ta env db (x # xs) key = disproved ta env db x key + disproofs ta env (attempted ta env db x) xs key"

lemma authorised_commits: "authorised ta env db x = Some k \<Longrightarrow> \<exists>db'. perform ta env db x = Inr db'"
  by (cases x) (auto split: sum.splits)

lemma attempted_credit:
  "spends key (authorised ta (at_clock env (fst x)) db (snd x)) + credit (attempted ta env db x) key
     \<le> credit db key + disproved ta env db x key"
proof (cases "perform ta (at_clock env (fst x)) db (snd x)")
  case (Inl e)
  then have "authorised ta (at_clock env (fst x)) db (snd x) = None"
    using authorised_commits [of ta "at_clock env (fst x)" db "snd x"] by fastforce
  with Inl show ?thesis by (simp add: attempted_def disproved_def spends_def)
next
  case (Inr db')
  with transaction_credit [OF this, of key] show ?thesis by (simp add: attempted_def disproved_def)
qed

lemma authorities_bounded: "authorities ta env db xs key \<le> credit db key + disproofs ta env db xs key"
proof (induction xs arbitrary: db)
  case (Cons x xs)
  from Cons.IH [of "attempted ta env db x"] attempted_credit [of key ta env x db] show ?case by simp
qed simp

text \<open>C4: Whatever transactions are attempted on the durable store, by any workers in any order and at any time,
  the authority to apply the effect of a key is handed out at most once, plus once for every committed
  reconciliation that reports the effect as not applied: if the effect is not in the store yet and no
  reconciliation reports it as not applied, at most one caller is ever told to apply it, everybody else only
  to reconcile it.\<close>

theorem effect_applied_at_most_once:
  "authorities ta env db xs key \<le>
     (if \<exists>r \<in> set (intents db). i_effect_key r = key
      then length (filter (\<lambda>r. i_effect_key r = key \<and> i_outcome r = Some NotApplied) (intents db)) else 1) +
     disproofs ta env db xs key"
proof -
  have "filter (\<lambda>r. i_outcome r = Some NotApplied) (rows_of db key) =
      filter (\<lambda>r. i_effect_key r = key \<and> i_outcome r = Some NotApplied) (intents db)"
    by (simp add: rows_of_def conj_commute)
  moreover have "rows_of db key = [] \<longleftrightarrow> \<not> (\<exists>r \<in> set (intents db). i_effect_key r = key)"
    by (auto simp: rows_of_def filter_empty_conv)
  ultimately show ?thesis using authorities_bounded [of ta env db xs key] by (auto simp: credit_def split: if_splits)
qed

end
