(* ===== verification/Output_Text.thy ===== *)
theory Output_Text
  imports Canonical_Json "HOL-Library.Sublist"
begin

text \<open>
  What the tool gateway (\<open>src/src/agent/tool-gateway.ts\<close>) does to the output of a tool before an agent
  sees it: protected values and credential patterns are redacted, then the text is cut to a number of
  UTF-8 bytes. Texts are the UTF-16 code units of the program. The two regular expressions are data and
  matched in the order in which backtracking tries the alternatives.
\<close>

section \<open>Bytes of a text\<close>

text \<open>Iterating over a string yields surrogate pairs as one character.\<close>

fun characters :: "jstr \<Rightarrow> jstr list" where
  "characters [] = []"
| "characters [c] = [[c]]"
| "characters (c # d # s) =
     (if high_surrogate c \<and> low_surrogate d then [c, d] # characters s else [c] # characters (d # s))"

text \<open>The UTF-8 width of a character; a lone surrogate is written as U+FFFD.\<close>

definition width :: "jstr \<Rightarrow> nat" where
  "width ch = (case ch of [c] \<Rightarrow> if c < 0x80 then 1 else if c < 0x800 then 2 else 3 | _ \<Rightarrow> 4)"

definition byteLength :: "jstr \<Rightarrow> nat" where
  "byteLength s = sum_list (map width (characters s))"

fun take_width :: "nat \<Rightarrow> nat \<Rightarrow> jstr list \<Rightarrow> jstr list" where
  "take_width limit used [] = []"
| "take_width limit used (ch # chs) =
     (if used + width ch > limit then [] else ch # take_width limit (used + width ch) chs)"

definition utf8Prefix :: "jstr \<Rightarrow> nat \<Rightarrow> jstr" where
  "utf8Prefix s limit = concat (take_width limit 0 (characters s))"

definition utf8Suffix :: "jstr \<Rightarrow> nat \<Rightarrow> jstr" where
  "utf8Suffix s limit = concat (rev (take_width limit 0 (rev (characters s))))"

definition truncation_marker :: jstr where
  "truncation_marker = ascii ''[...truncated...]'' @ [10]"

definition boundedUtf8 :: "jstr \<Rightarrow> nat \<Rightarrow> jstr \<times> bool" where
  "boundedUtf8 s limit =
     (if byteLength s \<le> limit then (s, False)
      else if limit = 0 then ([], True)
      else if byteLength truncation_marker \<ge> limit then (utf8Prefix s limit, True)
      else (truncation_marker @ utf8Suffix s (limit - byteLength truncation_marker), True))"

section \<open>Redaction of values\<close>

text \<open>\<open>s.split(sep)\<close> for a separator that is not empty.\<close>

function split_text :: "jstr \<Rightarrow> jstr \<Rightarrow> jstr list" where
  "split_text sep [] = [[]]"
| "split_text sep (c # cs) =
     (if sep \<noteq> [] \<and> take (length sep) (c # cs) = sep then [] # split_text sep (drop (length sep - 1) cs)
      else (case split_text sep cs of [] \<Rightarrow> [[c]] | w # ws \<Rightarrow> (c # w) # ws))"
  by pat_completeness auto
termination by (relation "measure (\<lambda>(sep, s). length s)") auto

fun join_text :: "jstr \<Rightarrow> jstr list \<Rightarrow> jstr" where
  "join_text sep [] = []"
| "join_text sep [w] = w"
| "join_text sep (w # v # ws) = w @ sep @ join_text sep (v # ws)"

definition redacted :: jstr where
  "redacted = ascii ''[REDACTED]''"

definition redact_value :: "jstr \<Rightarrow> jstr \<Rightarrow> jstr" where
  "redact_value v s = (if v = [] then s else join_text redacted (split_text v s))"

section \<open>Redaction of credential patterns\<close>

text \<open>Case-insensitive matching with the flag \<open>u\<close>: besides the letters, U+017F folds to s and U+212A to k,
  and both are word characters.\<close>

definition fold_case :: "code_unit \<Rightarrow> code_unit" where
  "fold_case c = (if 65 \<le> c \<and> c \<le> 90 then c + 32 else if c = 0x17F then 115 else if c = 0x212A then 107 else c)"

definition letter :: "code_unit \<Rightarrow> bool" where
  "letter c \<longleftrightarrow> 97 \<le> fold_case c \<and> fold_case c \<le> 122"

definition digit :: "code_unit \<Rightarrow> bool" where
  "digit c \<longleftrightarrow> 48 \<le> c \<and> c \<le> 57"

definition word_char :: "code_unit \<Rightarrow> bool" where
  "word_char c \<longleftrightarrow> letter c \<or> digit c \<or> c = 95"

definition white_space :: "code_unit \<Rightarrow> bool" where
  "white_space c \<longleftrightarrow> (9 \<le> c \<and> c \<le> 13) \<or> c = 32 \<or> c = 0xA0 \<or> c = 0x1680 \<or> (0x2000 \<le> c \<and> c \<le> 0x200A) \<or>
     c = 0x2028 \<or> c = 0x2029 \<or> c = 0x202F \<or> c = 0x205F \<or> c = 0x3000 \<or> c = 0xFEFF"

datatype regexp =
  Eps
| Class "code_unit \<Rightarrow> bool"
| Many "code_unit \<Rightarrow> bool"            \<comment> \<open>greedy repetition of a class\<close>
| Conc regexp regexp
| Choice regexp regexp

text \<open>The lengths of the prefixes that match, in the order in which they are tried. The classes contain
  either both halves of a surrogate pair or none, so matching by code units is matching by code points.\<close>

primrec matches :: "regexp \<Rightarrow> jstr \<Rightarrow> nat list" where
  "matches Eps s = [0]"
| "matches (Class p) s = (case s of [] \<Rightarrow> [] | c # _ \<Rightarrow> if p c then [1] else [])"
| "matches (Many p) s = rev [0..<Suc (length (takeWhile p s))]"
| "matches (Conc a b) s = concat (map (\<lambda>i. map (\<lambda>j. i + j) (matches b (drop i s))) (matches a s))"
| "matches (Choice a b) s = matches a s @ matches b s"

definition several :: "(code_unit \<Rightarrow> bool) \<Rightarrow> regexp" where
  "several p = Conc (Class p) (Many p)"

fun literal :: "string \<Rightarrow> regexp" where
  "literal [] = Eps"
| "literal (c # cs) = Conc (Class (\<lambda>d. fold_case d = fold_case (of_char c))) (literal cs)"

text \<open>\<open>CREDENTIAL_ASSIGNMENT\<close> after its word boundary.\<close>

definition credential_name :: regexp where
  "credential_name =
     Conc (Many word_char) (Conc (foldr (\<lambda>w r. Choice (literal w) r) [''TOKEN'', ''KEY'', ''SECRET'', ''PASSWORD'']
       (literal ''CREDENTIAL'')) (Many word_char))"

definition credential_assignment :: regexp where
  "credential_assignment =
     Conc (Choice credential_name (Choice (literal ''SSH_AUTH_SOCK'')
             (Choice (Conc (literal ''CTXLANE'') (Choice (literal ''_SOCKET'') (Choice (literal ''_HANDLE'') Eps)))
                (literal ''AWS_SESSION_TOKEN''))))
       (Conc (Many white_space) (Conc (Class (\<lambda>c. c = 58 \<or> c = 61)) (Conc (Many white_space)
          (several (\<lambda>c. \<not> white_space c \<and> c \<noteq> 44 \<and> c \<noteq> 59)))))"

text \<open>The captured part of \<open>CREDENTIAL_URL\<close> and what follows it.\<close>

definition url_scheme :: regexp where
  "url_scheme = Conc (Class letter) (Conc (Many (\<lambda>c. letter c \<or> digit c \<or> c = 43 \<or> c = 46 \<or> c = 45)) (literal ''://''))"

definition url_userinfo :: regexp where
  "url_userinfo =
     Conc (several (\<lambda>c. \<not> white_space c \<and> c \<noteq> 47 \<and> c \<noteq> 64 \<and> c \<noteq> 58)) (Conc (Class (\<lambda>c. c = 58))
       (Conc (several (\<lambda>c. \<not> white_space c \<and> c \<noteq> 47 \<and> c \<noteq> 64)) (Class (\<lambda>c. c = 64))))"

definition boundary :: "code_unit option \<Rightarrow> jstr \<Rightarrow> bool" where
  "boundary before s \<longleftrightarrow>
     (case before of None \<Rightarrow> False | Some c \<Rightarrow> word_char c) \<noteq> (case s of [] \<Rightarrow> False | c # _ \<Rightarrow> word_char c)"

text \<open>The first match at a position: the length of the captured part and of the rest.\<close>

definition match_here :: "regexp \<Rightarrow> regexp \<Rightarrow> code_unit option \<Rightarrow> jstr \<Rightarrow> (nat \<times> nat) option" where
  "match_here captured rest before s =
     (if \<not> boundary before s then None
      else case concat (map (\<lambda>i. map (Pair i) (matches rest (drop i s))) (matches captured s)) of
        [] \<Rightarrow> None | m # _ \<Rightarrow> Some m)"

text \<open>\<open>s.replace(/.../giu, ...)\<close>; the replacement is the captured part, the marker and a fixed text.\<close>

function replace_all ::
  "(code_unit option \<Rightarrow> jstr \<Rightarrow> (nat \<times> nat) option) \<Rightarrow> jstr \<Rightarrow> code_unit option \<Rightarrow> jstr \<Rightarrow> jstr"
where
  "replace_all f after before [] = []"
| "replace_all f after before (c # cs) =
     (case f before (c # cs) of
        None \<Rightarrow> c # replace_all f after (Some c) cs
      | Some (i, j) \<Rightarrow>
          if i + j = 0 then c # replace_all f after (Some c) cs
          else take i (c # cs) @ redacted @ after @
            replace_all f after (Some ((c # cs) ! (i + j - 1))) (drop (i + j - 1) cs))"
  by pat_completeness auto
termination by (relation "measure (\<lambda>(f, a, b, s). length s)") auto

definition redact_assignments :: "jstr \<Rightarrow> jstr" where
  "redact_assignments s = replace_all (match_here Eps credential_assignment) [] None s"

definition redact_urls :: "jstr \<Rightarrow> jstr" where
  "redact_urls s = replace_all (match_here url_scheme url_userinfo) [64] None s"

definition redact :: "jstr \<Rightarrow> jstr list \<Rightarrow> jstr" where
  "redact s values = redact_urls (redact_assignments (fold redact_value values s))"


section \<open>The bound on the bytes\<close>

lemma characters_concat [simp]: "concat (characters s) = s"
  by (induction s rule: characters.induct) simp_all

text \<open>Dropping characters at either end leaves the remaining ones as they are.\<close>

lemma characters_not_Nil: "s \<noteq> [] \<Longrightarrow> characters s \<noteq> []"
  by (induction s rule: characters.induct) simp_all

lemma characters_drop: "characters (concat (drop n (characters s))) = drop n (characters s)"
proof (induction s arbitrary: n rule: characters.induct)
  case (3 c d s)
  then show ?case by (cases n) auto
qed (auto simp: drop_Cons')

lemma hd_characters: "s \<noteq> [] \<Longrightarrow> \<exists>ch chs. characters s = ch # chs \<and> ch \<noteq> [] \<and> hd ch = hd s"
  by (cases s rule: characters.cases) auto

lemma characters_Cons_take:
  assumes "\<not> (high_surrogate c \<and> t \<noteq> [] \<and> low_surrogate (hd t))"
  shows "characters (c # t) = [c] # characters t"
  using assms by (cases t) auto

lemma concat_take_hd:
  assumes "concat (take n (characters s)) \<noteq> []"
  shows "hd (concat (take n (characters s))) = hd s"
proof -
  have "s \<noteq> []" using assms by auto
  from hd_characters [OF this] obtain ch chs where "characters s = ch # chs" "ch \<noteq> []" "hd ch = hd s" by blast
  with assms show ?thesis by (cases n) auto
qed

lemma characters_take: "characters (concat (take n (characters s))) = take n (characters s)"
proof (induction s arbitrary: n rule: characters.induct)
  case (3 c d s)
  show ?case
  proof (cases n)
    case (Suc m)
    show ?thesis
    proof (cases "high_surrogate c \<and> low_surrogate d")
      case True
      with 3 Suc show ?thesis by simp
    next
      case False
      let ?t = "concat (take m (characters (d # s)))"
      have "\<not> (high_surrogate c \<and> ?t \<noteq> [] \<and> low_surrogate (hd ?t))"
        using False concat_take_hd [of m "d # s"] by fastforce
      from characters_Cons_take [OF this] False 3(2) [OF False, of m] Suc show ?thesis by auto
    qed
  qed simp
qed (auto simp: take_Cons')

lemma take_width_prefix: "\<exists>n. take_width limit used chs = take n chs"
proof (induction chs arbitrary: used)
  case (Cons ch chs)
  obtain n where "take_width limit (used + width ch) chs = take n chs" using Cons.IH by blast
  then have "take_width limit used (ch # chs) = take (if used + width ch > limit then 0 else Suc n) (ch # chs)"
    by simp
  then show ?case by blast
qed simp

lemma take_width_bound: "used \<le> limit \<Longrightarrow> used + sum_list (map width (take_width limit used chs)) \<le> limit"
proof (induction chs arbitrary: used)
  case (Cons ch chs)
  show ?case using Cons.IH [of "used + width ch"] Cons.prems by (simp add: add.assoc)
qed simp

lemma utf8Prefix_bound: "byteLength (utf8Prefix s limit) \<le> limit"
proof -
  obtain n where n: "take_width limit 0 (characters s) = take n (characters s)" using take_width_prefix by blast
  show ?thesis using take_width_bound [of 0 limit "characters s"]
    by (simp add: byteLength_def utf8Prefix_def n characters_take)
qed

lemma utf8Suffix_shape: "\<exists>n. utf8Suffix s limit = concat (drop n (characters s)) \<and>
    rev (take_width limit 0 (rev (characters s))) = drop n (characters s)"
proof -
  obtain n where "take_width limit 0 (rev (characters s)) = take n (rev (characters s))" using take_width_prefix by blast
  then show ?thesis by (auto simp: utf8Suffix_def take_rev)
qed

lemma utf8Suffix_bound: "byteLength (utf8Suffix s limit) \<le> limit"
proof -
  obtain n where n: "utf8Suffix s limit = concat (drop n (characters s))"
    "rev (take_width limit 0 (rev (characters s))) = drop n (characters s)" using utf8Suffix_shape by blast
  have "sum_list (map width (drop n (characters s))) = sum_list (map width (take_width limit 0 (rev (characters s))))"
    by (simp flip: n(2) add: rev_map [symmetric])
  then show ?thesis using take_width_bound [of 0 limit "rev (characters s)"]
    by (simp add: byteLength_def n(1) characters_drop)
qed

lemma characters_plain: "\<forall>c \<in> set s. \<not> high_surrogate c \<Longrightarrow> characters (s @ t) = map (\<lambda>c. [c]) s @ characters t"
  by (induction s) (simp_all add: characters_Cons_take)

lemma marker_plain: "\<forall>c \<in> set truncation_marker. \<not> high_surrogate c"
  by code_simp

lemma byteLength_marker: "byteLength (truncation_marker @ s) = byteLength truncation_marker + byteLength s"
  using characters_plain [OF marker_plain, of s] characters_plain [OF marker_plain, of "[]"]
  by (simp add: byteLength_def)

lemma boundedUtf8_bound: "byteLength (fst (boundedUtf8 s limit)) \<le> limit"
  using utf8Prefix_bound [of s limit] utf8Suffix_bound [of s "limit - byteLength truncation_marker"]
  by (auto simp: boundedUtf8_def byteLength_marker byteLength_def [of "[]"])

section \<open>What redaction removes\<close>

lemma sublist_cut:
  assumes "x \<notin> set v"
  shows "sublist v (a @ x # b) \<longleftrightarrow> sublist v a \<or> sublist v b"
proof
  assume "sublist v (a @ x # b)"
  then obtain p q where "a @ x # b = p @ v @ q" by (auto simp: sublist_def)
  then consider us where "a = p @ us" "us @ x # b = v @ q" | us where "p = a @ us" "x # b = us @ v @ q"
    by (auto simp: append_eq_append_conv2)
  then show "sublist v a \<or> sublist v b"
  proof cases
    case 1
    from 1(2) obtain ws where "(us = v @ ws) \<or> (v = us @ ws \<and> x # b = ws @ q)"
      by (auto simp: append_eq_append_conv2)
    then show ?thesis
    proof
      assume "us = v @ ws"
      with 1(1) show ?thesis by (auto simp: sublist_def)
    next
      assume "v = us @ ws \<and> x # b = ws @ q"
      with assms have "ws = []" by (cases ws) auto
      with \<open>v = us @ ws \<and> x # b = ws @ q\<close> 1(1) have "a = p @ v @ []" by simp
      then show ?thesis unfolding sublist_def by blast
    qed
  next
    case 2
    then show ?thesis
    proof (cases us)
      case Nil
      with 2(2) assms have "v = []" by (cases v) auto
      then show ?thesis by simp
    next
      case (Cons y us')
      with 2(2) show ?thesis by (auto simp: sublist_def)
    qed
  qed
next
  assume "sublist v a \<or> sublist v b"
  then show "sublist v (a @ x # b)"
    by (meson sublist_appendI sublist_append_rightI sublist_order.order_trans sublist_append_leftI suffix_ConsI suffix_imp_sublist suffix_order.refl)
qed

text \<open>A value that the texts inserted by the gateway cannot contain or complete.\<close>

definition foreign :: "jstr \<Rightarrow> bool" where
  "foreign v \<longleftrightarrow> v \<noteq> [] \<and> 91 \<notin> set v \<and> 93 \<notin> set v \<and> 10 \<notin> set v \<and>
     \<not> sublist v (ascii ''REDACTED'') \<and> \<not> sublist v (ascii ''...truncated...'')"

lemma sublist_redacted:
  assumes "foreign v"
  shows "sublist v (a @ redacted @ b) \<longleftrightarrow> sublist v a \<or> sublist v b"
proof -
  have r: "redacted = 91 # ascii ''REDACTED'' @ [93]" by code_simp
  have "sublist v (a @ redacted @ b) \<longleftrightarrow> sublist v (a @ 91 # ascii ''REDACTED'' @ 93 # b)" by (simp add: r)
  also have "\<dots> \<longleftrightarrow> sublist v a \<or> sublist v b"
    using assms by (simp add: sublist_cut foreign_def)
  finally show ?thesis .
qed


lemma sublist_Cons_cut: "x \<notin> set v \<Longrightarrow> v \<noteq> [] \<Longrightarrow> sublist v (x # b) \<longleftrightarrow> sublist v b"
  using sublist_cut [of x v "[]" b] by simp

lemma sublist_marker:
  assumes "foreign v"
  shows "sublist v (truncation_marker @ s) \<longleftrightarrow> sublist v s"
proof -
  have m: "truncation_marker = 91 # ascii ''...truncated...'' @ [93, 10]" by code_simp
  show ?thesis
    using assms by (simp add: m sublist_cut sublist_Cons_cut foreign_def)
qed

text \<open>The pieces of a split text are parts of the text and do not contain the separator.\<close>

lemma split_text_Nil [simp]: "split_text sep s \<noteq> []"
  by (induction sep s rule: split_text.induct) (auto split: list.splits)

lemma split_text_pieces: "w \<in> set (split_text sep s) \<Longrightarrow> sublist w s"
proof (induction sep s arbitrary: w rule: split_text.induct)
  case (2 sep c cs)
  show ?case
  proof (cases "sep \<noteq> [] \<and> take (length sep) (c # cs) = sep")
    case True
    with 2(1) [OF True] 2(3) show ?thesis
      by (auto intro: sublist_order.order_trans [OF _ sublist_drop] sublist_Cons_right [THEN iffD2])
  next
    case False
    then obtain v vs where v: "split_text sep cs = v # vs" by (cases "split_text sep cs") auto
    with 2(3) False have "w = c # v \<or> w \<in> set vs" by auto
    then show ?thesis
    proof
      assume "w = c # v"
      moreover have "prefix v cs"
        using v by (induction sep cs arbitrary: v vs rule: split_text.induct)
          (auto split: if_splits list.splits)
      ultimately show ?thesis by (auto intro: prefix_imp_sublist)
    next
      assume "w \<in> set vs"
      with 2(2) [OF False, of w] v show ?thesis by (auto intro: sublist_Cons_right [THEN iffD2])
    qed
  qed
qed simp

lemma split_text_hd_prefix: "split_text sep s = w # ws \<Longrightarrow> prefix w s"
  by (induction sep s arbitrary: w ws rule: split_text.induct) (auto split: if_splits list.splits)

lemma split_text_clean: "sep \<noteq> [] \<Longrightarrow> w \<in> set (split_text sep s) \<Longrightarrow> \<not> sublist sep w"
proof (induction sep s arbitrary: w rule: split_text.induct)
  case (2 sep c cs)
  show ?case
  proof (cases "sep \<noteq> [] \<and> take (length sep) (c # cs) = sep")
    case True
    with 2 show ?thesis by auto
  next
    case False
    then obtain v vs where v: "split_text sep cs = v # vs" by (cases "split_text sep cs") auto
    have "\<not> prefix sep (c # v)"
    proof
      assume "prefix sep (c # v)"
      then have "prefix sep (c # cs)" using split_text_hd_prefix [OF v] by (auto simp: prefix_Cons)
      with False 2(3) show False by (auto simp: prefix_def)
    qed
    with v 2 False show ?thesis by (auto simp: sublist_Cons_right)
  qed
qed simp

lemma sublist_join:
  assumes "foreign v" and "\<And>w. w \<in> set ws \<Longrightarrow> \<not> sublist v w"
  shows "\<not> sublist v (join_text redacted ws)"
  using assms(2)
proof (induction ws rule: induct_list012)
  case 1
  then show ?case using assms(1) by (simp add: foreign_def)
next
  case (3 w x ws)
  then show ?case by (simp add: sublist_redacted [OF assms(1)])
qed simp

lemma redact_value_removes: "foreign v \<Longrightarrow> \<not> sublist v (redact_value v s)"
  using split_text_clean [of v _ s] sublist_join [of v "split_text v s"]
  by (auto simp: redact_value_def foreign_def)

lemma redact_value_keeps:
  assumes "foreign v" and "\<not> sublist v s"
  shows "\<not> sublist v (redact_value u s)"
proof -
  have "\<not> sublist v w" if "w \<in> set (split_text u s)" for w
    using split_text_pieces [OF that] assms(2) sublist_order.order_trans by blast
  then show ?thesis using sublist_join [OF assms(1)] assms(2) by (simp add: redact_value_def)
qed

lemma redact_values_remove: "foreign v \<Longrightarrow> v \<in> set vs \<or> \<not> sublist v s \<Longrightarrow> \<not> sublist v (fold redact_value vs s)"
proof (induction vs arbitrary: s)
  case (Cons u vs)
  then have "v \<in> set vs \<or> \<not> sublist v (redact_value u s)"
    using redact_value_removes [of v s] redact_value_keeps [of v s u] by auto
  from Cons.IH [OF Cons.prems(1) this] show ?case by simp
qed simp


lemma matches_le: "i \<in> set (matches r s) \<Longrightarrow> i \<le> length s"
proof (induction r arbitrary: s i)
  case (Many p)
  then show ?case using length_takeWhile_le [of p s] by auto
next
  case (Conc a b)
  then obtain j k where j: "j \<in> set (matches a s)" "k \<in> set (matches b (drop j s))" "i = j + k" by auto
  from Conc.IH(1) [OF j(1)] Conc.IH(2) [OF j(2)] j(3) show ?case by simp
qed (auto split: list.splits if_splits)

lemma match_here_Some:
  assumes "match_here captured rest before s = Some (i, j)"
  shows "i \<in> set (matches captured s)" "j \<in> set (matches rest (drop i s))" "i + j \<le> length s"
proof -
  obtain ms where ms: "ms = concat (map (\<lambda>i. map (Pair i) (matches rest (drop i s))) (matches captured s))" by blast
  have "(case ms of [] \<Rightarrow> None | m # _ \<Rightarrow> Some m) = Some (i, j)"
    using assms unfolding match_here_def ms by (simp split: if_splits)
  then have "(i, j) \<in> set ms" by (cases ms) simp_all
  then have "(i, j) \<in> set (concat (map (\<lambda>i. map (Pair i) (matches rest (drop i s))) (matches captured s)))"
    by (simp only: ms)
  then show "i \<in> set (matches captured s)" "j \<in> set (matches rest (drop i s))" by auto
  from matches_le [OF this(1)] matches_le [OF this(2)] show "i + j \<le> length s" by simp
qed

text \<open>A replacement keeps a prefix of the match and possibly a suffix of it, with the marker between them.\<close>

definition replaces :: "(code_unit option \<Rightarrow> jstr \<Rightarrow> (nat \<times> nat) option) \<Rightarrow> jstr \<Rightarrow> bool" where
  "replaces f after \<longleftrightarrow>
     (\<forall>before s i j. f before s = Some (i, j) \<longrightarrow> i + j \<le> length s \<and> suffix after (take (i + j) s))"

lemma replace_all_keeps:
  assumes "foreign v" and "replaces f after"
  shows "\<not> sublist v (p @ s) \<Longrightarrow> \<not> sublist v (p @ replace_all f after before s)"
  using assms(2)
proof (induction f after before s arbitrary: p rule: replace_all.induct)
  case (2 f after before c cs)
  show ?case
  proof (cases "f before (c # cs)")
    case None
    from 2(1) [OF None, of "p @ [c]"] 2(4,5) None show ?thesis by simp
  next
    case (Some m)
    obtain i j where m: "(i, j) = m" by (cases m) simp
    show ?thesis
    proof (cases "i + j = 0")
      case True
      from 2(2) [OF Some m True, of "p @ [c]"] 2(4,5) Some [folded m] True show ?thesis by simp
    next
      case False
      let ?t = "drop (i + j - 1) cs"
      have t: "drop (i + j) (c # cs) = ?t" using False by (cases "i + j") auto
      from 2(5) Some [folded m] obtain u where u: "take (i + j) (c # cs) = u @ after"
        unfolding replaces_def suffix_def by blast
      have s: "c # cs = u @ after @ ?t" using u t by (metis append.assoc append_take_drop_id)
      have "\<not> sublist v (after @ ?t)"
        using 2(4) unfolding s by (metis append.assoc sublist_appendI sublist_append_leftI sublist_order.order_trans)
      from 2(3) [OF Some m False this 2(5)]
      have after: "\<not> sublist v (after @ replace_all f after (Some ((c # cs) ! (i + j - 1))) ?t)" .
      have "\<not> sublist v (p @ take i (c # cs))"
        using 2(4) by (metis append.assoc append_take_drop_id sublist_append_rightI sublist_order.order_trans)
      with after Some [folded m] False show ?thesis
        using sublist_redacted [OF assms(1), of "p @ take i (c # cs)"] by auto
    qed
  qed
qed simp

lemma replaces_assignments: "replaces (match_here Eps credential_assignment) []"
  unfolding replaces_def by (auto dest: match_here_Some(3))

definition ends_with_at :: "regexp \<Rightarrow> bool" where
  "ends_with_at r \<longleftrightarrow> (\<forall>s. \<forall>j \<in> set (matches r s). \<exists>k. j = Suc k \<and> k < length s \<and> s ! k = 64)"

lemma ends_with_at_Conc: "ends_with_at b \<Longrightarrow> ends_with_at (Conc a b)"
  unfolding ends_with_at_def
proof (intro allI ballI)
  fix s j
  assume b: "\<forall>s. \<forall>j \<in> set (matches b s). \<exists>k. j = Suc k \<and> k < length s \<and> s ! k = 64"
    and "j \<in> set (matches (Conc a b) s)"
  then obtain i l where i: "i \<in> set (matches a s)" "l \<in> set (matches b (drop i s))" "j = i + l" by auto
  from b i(2) obtain k where k: "l = Suc k" "k < length (drop i s)" "drop i s ! k = 64" by blast
  then have "j = Suc (i + k) \<and> i + k < length s \<and> s ! (i + k) = 64" using i(3) matches_le [OF i(1)] by simp
  then show "\<exists>k. j = Suc k \<and> k < length s \<and> s ! k = 64" by blast
qed

lemma ends_with_at_Class: "ends_with_at (Class (\<lambda>c. c = 64))"
  by (auto simp: ends_with_at_def split: list.splits if_splits)

lemma userinfo_ends: "j \<in> set (matches url_userinfo s) \<Longrightarrow> \<exists>k. j = Suc k \<and> k < length s \<and> s ! k = 64"
proof -
  have "ends_with_at url_userinfo"
    unfolding url_userinfo_def by (intro ends_with_at_Conc ends_with_at_Class)
  then show "j \<in> set (matches url_userinfo s) \<Longrightarrow> ?thesis" by (simp only: ends_with_at_def)
qed

lemma replaces_urls: "replaces (match_here url_scheme url_userinfo) [64]"
  unfolding replaces_def
proof (intro allI impI)
  fix before s i j
  assume m: "match_here url_scheme url_userinfo before s = Some (i, j)"
  from userinfo_ends [OF match_here_Some(2) [OF m]] obtain k
    where k: "j = Suc k" "k < length (drop i s)" "drop i s ! k = 64" by blast
  then have "take (i + j) s = take (i + k) s @ [64]"
    by (simp add: take_Suc_conv_app_nth)
  then show "i + j \<le> length s \<and> suffix [64] (take (i + j) s)"
    using match_here_Some(3) [OF m] by (simp add: suffix_def)
qed

lemma redact_removes:
  assumes "foreign v" and "v \<in> set vs"
  shows "\<not> sublist v (redact s vs)"
proof -
  from redact_values_remove [OF assms(1)] assms(2) have "\<not> sublist v ([] @ fold redact_value vs s)" by simp
  from replace_all_keeps [OF assms(1) replaces_assignments this]
  have "\<not> sublist v ([] @ redact_assignments (fold redact_value vs s))" by (simp add: redact_assignments_def)
  from replace_all_keeps [OF assms(1) replaces_urls this] show ?thesis by (simp add: redact_def redact_urls_def)
qed

lemma bounded_keeps:
  assumes "foreign v" and "\<not> sublist v s"
  shows "\<not> sublist v (fst (boundedUtf8 s limit))"
proof -
  obtain n where n: "take_width limit 0 (characters s) = take n (characters s)" using take_width_prefix by blast
  have "sublist (utf8Prefix s limit) s"
    unfolding utf8Prefix_def n by (metis append_take_drop_id characters_concat concat_append sublist_append_rightI)
  moreover obtain k where k: "utf8Suffix s (limit - byteLength truncation_marker) = concat (drop k (characters s))"
    using utf8Suffix_shape by blast
  have "sublist (utf8Suffix s (limit - byteLength truncation_marker)) s"
    unfolding k by (metis append_take_drop_id characters_concat concat_append sublist_append_leftI)
  ultimately show ?thesis
    using assms sublist_order.order_trans [of v _ s]
    by (auto simp: boundedUtf8_def sublist_marker foreign_def)
qed

lemma output_clean: "foreign v \<Longrightarrow> v \<in> set vs \<Longrightarrow> \<not> sublist v (fst (boundedUtf8 (redact s vs) limit))"
  by (simp add: bounded_keeps redact_removes)

end
