(* ===== verification/Tool_Gateway.thy ===== *)
theory Tool_Gateway
  imports Task_Packet Run_Budget Run_Event
begin

text \<open>
  The repository tool gateway (\<open>src/src/agent/tool-gateway.ts\<close>): an agent asks for one of five tools, and the
  gateway checks the request against the authority of the invocation, runs a registered command in the
  production sandbox and returns its output redacted and cut. The sandbox, the ownership fence and the clock
  are observed by what they answer in one execution; the command of a tool is a parameter of its
  registration, as are the digest of a value, \<open>toISOString\<close> and \<open>Date.parse\<close>. Identifiers, paths and patches are
  strings, the output of a tool is UTF-16 text.
\<close>

section \<open>Requests\<close>

datatype tool_body =
  ReadTool string rat
| ListTool string rat
| SearchTool string string rat
| ApplyPatchTool string string "string list"
| CheckTool string

fun tool_name :: "tool_body \<Rightarrow> string" where
  "tool_name (ReadTool p n) = ''repository.read''"
| "tool_name (ListTool p n) = ''repository.list''"
| "tool_name (SearchTool p q n) = ''repository.search''"
| "tool_name (ApplyPatchTool t d ps) = ''repository.apply_patch''"
| "tool_name (CheckTool c) = ''repository.check''"

definition ASF_REPOSITORY_TOOL_NAMES :: "string list" where
  "ASF_REPOSITORY_TOOL_NAMES = [''repository.read'', ''repository.list'', ''repository.search'',
     ''repository.apply_patch'', ''repository.check'']"

record tool_binding =
  tb_run :: string
  tb_work_order :: string
  tb_attempt :: string
  tb_role :: string
  tb_invocation :: string
  tb_policy :: string
  tb_candidate :: string
  tb_generation :: rat

definition identifier_text :: "string \<Rightarrow> bool" where
  "identifier_text s \<longleftrightarrow> length s \<le> 256 \<and>
     (case s of [] \<Rightarrow> False
      | c # cs \<Rightarrow> (ascii_letter c \<or> digit_char c) \<and>
          list_all (\<lambda>d. ascii_letter d \<or> digit_char d \<or> d \<in> {CHR ''.'', CHR ''_'', CHR '':'', CHR ''-''}) cs)"

definition AGENT_ROLES :: "string list" where
  "AGENT_ROLES = [''implementer'', ''local-reviewer'', ''fixer'', ''pr-reviewer'', ''retrospective'']"

definition is_safe_integer :: "rat \<Rightarrow> bool" where
  "is_safe_integer q \<longleftrightarrow> q = of_int \<lfloor>q\<rfloor> \<and> safe_int \<lfloor>q\<rfloor>"

text \<open>\<open>asfToolBindingSchema\<close>.\<close>

definition binding_ok :: "tool_binding \<Rightarrow> bool" where
  "binding_ok b \<longleftrightarrow>
     identifier_text (tb_run b) \<and> identifier_text (tb_work_order b) \<and> identifier_text (tb_attempt b) \<and>
     tb_role b \<in> set AGENT_ROLES \<and> identifier_text (tb_invocation b) \<and> is_digest (tb_policy b) \<and>
     is_git_sha (tb_candidate b) \<and> is_safe_integer (tb_generation b) \<and> 0 < tb_generation b"

record tool_request =
  tq_schema :: string
  tq_id :: string
  tq_binding :: tool_binding
  tq_tool :: tool_body
  tq_timeout :: rat
  tq_output :: rat

definition integer_between :: "rat \<Rightarrow> rat \<Rightarrow> rat \<Rightarrow> bool" where
  "integer_between lo hi q \<longleftrightarrow> is_safe_integer q \<and> lo \<le> q \<and> q \<le> hi"

definition repository_path :: "string \<Rightarrow> bool" where
  "repository_path s \<longleftrightarrow> s \<noteq> [] \<and> length s \<le> 4096 \<and> is_ok (normalizeRepositoryPath s)"

definition text_between :: "nat \<Rightarrow> nat \<Rightarrow> string \<Rightarrow> bool" where
  "text_between lo hi s \<longleftrightarrow> lo \<le> length s \<and> length s \<le> hi"

fun tool_ok :: "tool_body \<Rightarrow> bool" where
  "tool_ok (ReadTool p n) = (repository_path p \<and> integer_between 1 1048576 n)"
| "tool_ok (ListTool p n) = (repository_path p \<and> integer_between 1 10000 n)"
| "tool_ok (SearchTool p q n) = (repository_path p \<and> text_between 1 4096 q \<and> integer_between 1 10000 n)"
| "tool_ok (ApplyPatchTool t d ps) =
     (text_between 1 1048576 t \<and> is_digest d \<and> list_all repository_path ps \<and> 1 \<le> length ps \<and> length ps \<le> 10000)"
| "tool_ok (CheckTool c) = identifier_text c"

datatype refusal_reason =
  MalformedRequest | BindingMismatch | StaleGeneration | UnknownTool | RoleRefused | PathRefused
| IntegrityMismatch | LimitRefused | SandboxNotProduction | ToolDefinitionRefused

text \<open>A request of any other shape than the record is \<open>None\<close>.\<close>

definition parseAsfToolRequest :: "tool_request option \<Rightarrow> refusal_reason + tool_request" where
  "parseAsfToolRequest raw =
     (case raw of
        None \<Rightarrow> Inl MalformedRequest
      | Some q \<Rightarrow>
          if tq_schema q = ''asf.repository-tool-request/v1'' \<and> identifier_text (tq_id q) \<and> binding_ok (tq_binding q) \<and>
             tool_ok (tq_tool q) \<and> integer_between 1 86400000 (tq_timeout q) \<and> integer_between 1 16777216 (tq_output q)
          then Inr q else Inl MalformedRequest)"

section \<open>Authority and registration\<close>

record resource_limits =
  cpuMillis :: rat
  memoryMib :: rat
  processes :: rat
  fileSizeBytes :: rat
  wallTimeMs :: rat
  maxOutputBytes :: rat

record tool_authority =
  ta_binding :: tool_binding
  ta_root :: string
  ta_scope :: change_scope
  ta_tools :: "string list"
  ta_checks :: "string list"
  ta_limits :: resource_limits
  ta_fresh :: bool

datatype tool_access = ReadAccess | WriteAccess | VerificationAccess

record tool_invocation =
  iv_command :: string
  iv_args :: "string list"
  iv_stdin :: "string option"
  iv_paths :: "string list"

text \<open>\<open>buildInvocation\<close> of a registered tool; \<open>None\<close> where it throws.\<close>

record registered_tool =
  rt_name :: string
  rt_access :: tool_access
  rt_roles :: "string list"
  rt_build :: "tool_body \<Rightarrow> tool_authority \<Rightarrow> tool_invocation option"

record gateway_options =
  go_mechanism :: string
  go_enforcement :: string
  go_tools :: "registered_tool list"
  go_environment :: "(string \<times> jstr) list option"
  go_sensitive :: "jstr list option"

record gateway =
  gw_tools :: "registered_tool list"
  gw_environment :: "(string \<times> jstr) list"
  gw_sensitive :: "jstr list"

definition SAFE_ENVIRONMENT_KEYS :: "string list" where
  "SAFE_ENVIRONMENT_KEYS = [''PATH'', ''LANG'', ''LC_ALL'', ''TZ'']"

definition FORBIDDEN_GENERIC_SHELLS :: "string list" where
  "FORBIDDEN_GENERIC_SHELLS = [''bash'', ''cmd'', ''cmd.exe'', ''dash'', ''fish'', ''ksh'', ''powershell'',
     ''powershell.exe'', ''pwsh'', ''sh'', ''zsh'']"

definition assertPositiveInteger :: "rat \<Rightarrow> refusal_reason + unit" where
  "assertPositiveInteger q = (if \<not> is_safe_integer q \<or> q \<le> 0 then Inl LimitRefused else Inr ())"

definition environment_value_ok :: "jstr list \<Rightarrow> string \<times> jstr \<Rightarrow> refusal_reason + unit" where
  "environment_value_ok secrets e =
     (if fst e \<notin> set SAFE_ENVIRONMENT_KEYS then Inl SandboxNotProduction
      else if list_ex (\<lambda>c. c = 0 \<or> c = 13 \<or> c = 10) (snd e) \<or>
              list_ex (\<lambda>v. v \<noteq> [] \<and> sublist v (snd e)) secrets
      then Inl SandboxNotProduction else Inr ())"

definition sanitizeEnvironment :: "(string \<times> jstr) list option \<Rightarrow> jstr list \<Rightarrow> refusal_reason + (string \<times> jstr) list" where
  "sanitizeEnvironment raw secrets =
     (let es = given raw [] in and_then (all_ok (environment_value_ok secrets) es) (\<lambda>_. Inr es))"

definition expectedAccess :: "string \<Rightarrow> tool_access" where
  "expectedAccess name =
     (if name = ''repository.apply_patch'' then WriteAccess
      else if name = ''repository.check'' then VerificationAccess else ReadAccess)"

fun register_tools :: "registered_tool list \<Rightarrow> registered_tool list \<Rightarrow> refusal_reason + registered_tool list" where
  "register_tools tools [] = Inr tools"
| "register_tools tools (t # ts) =
     (if rt_name t \<notin> set ASF_REPOSITORY_TOOL_NAMES \<or> rt_name t \<in> set (map rt_name tools) then Inl ToolDefinitionRefused
      else if rt_access t \<noteq> expectedAccess (rt_name t) \<or> length (rt_roles t) = 0 then Inl ToolDefinitionRefused
      else register_tools (tools @ [t]) ts)"

definition new_gateway :: "gateway_options \<Rightarrow> refusal_reason + gateway" where
  "new_gateway x =
     (if go_mechanism x \<noteq> ''bubblewrap'' \<or> go_enforcement x \<noteq> ''production-credential-free''
      then Inl SandboxNotProduction
      else let secrets = given (go_sensitive x) []
           in and_then (sanitizeEnvironment (go_environment x) secrets) (\<lambda>env.
              and_then (register_tools [] (go_tools x)) (\<lambda>tools.
              Inr \<lparr>gw_tools = tools, gw_environment = env, gw_sensitive = secrets\<rparr>)))"

definition registered :: "gateway \<Rightarrow> string \<Rightarrow> registered_tool option" where
  "registered g name = find (\<lambda>t. rt_name t = name) (gw_tools g)"


section \<open>Paths\<close>

fun requestPaths :: "tool_body \<Rightarrow> string list" where
  "requestPaths (ReadTool p n) = [p]"
| "requestPaths (ListTool p n) = [p]"
| "requestPaths (SearchTool p q n) = [p]"
| "requestPaths (ApplyPatchTool t d ps) = ps"
| "requestPaths (CheckTool c) = []"

text \<open>\<open>patch.replaceAll("\r\n", "\n")\<close>, and the lines without the last line break.\<close>

fun unix_lines :: "string \<Rightarrow> string" where
  "unix_lines [] = []"
| "unix_lines [c] = [c]"
| "unix_lines (c # d # s) =
     (if c = CHR 0x0D \<and> d = CHR 0x0A then CHR 0x0A # unix_lines s else c # unix_lines (d # s))"

definition patch_lines :: "string \<Rightarrow> string list" where
  "patch_lines patch =
     (let s = unix_lines patch
      in js_split (CHR 0x0A) (if s \<noteq> [] \<and> last s = CHR 0x0A then butlast s else s))"

text \<open>The text behind a prefix, if it is not empty and \<open>.\<close> matches each of its characters.\<close>

definition after_prefix :: "string \<Rightarrow> string \<Rightarrow> string option" where
  "after_prefix p line =
     (if js_starts_with p line \<and> drop (length p) line \<noteq> [] \<and> CHR 0x0D \<notin> set (drop (length p) line)
      then Some (drop (length p) line) else None)"

definition header_prefixes :: "string list" where
  "header_prefixes = [''*** Add File: '', ''*** Update File: '', ''*** Delete File: '', ''*** Move to: '']"

definition header_path :: "string \<Rightarrow> string option" where
  "header_path line =
     (case filter (\<lambda>r. r \<noteq> None) (map (\<lambda>p. after_prefix p line) header_prefixes) of [] \<Rightarrow> None | r # _ \<Rightarrow> r)"

fun header_paths :: "string list \<Rightarrow> refusal_reason + string list" where
  "header_paths [] = Inr []"
| "header_paths (l # ls) =
     (case header_path l of
        None \<Rightarrow> header_paths ls
      | Some p \<Rightarrow>
          (case normalizeRepositoryPath p of
             Inl _ \<Rightarrow> Inl PathRefused
           | Inr n \<Rightarrow> and_then (header_paths ls) (\<lambda>ns. Inr (n # ns))))"

definition sorted_set :: "string list \<Rightarrow> string list" where
  "sorted_set ss = sort (remdups ss)"

definition pathsDeclaredByPatch :: "string \<Rightarrow> refusal_reason + string list" where
  "pathsDeclaredByPatch patch =
     (let lines = patch_lines patch
      in if hd lines \<noteq> ''*** Begin Patch'' \<or> last lines \<noteq> ''*** End Patch'' then Inl IntegrityMismatch
         else and_then (header_paths lines) (\<lambda>ps. if length ps = 0 then Inl IntegrityMismatch else Inr (sorted_set ps)))"

definition sameStringSet :: "string list \<Rightarrow> string list \<Rightarrow> bool" where
  "sameStringSet left right \<longleftrightarrow>
     length (sorted_set left) = length (sorted_set right) \<and>
     list_all (\<lambda>i. sorted_set left ! i = sorted_set right ! i) [0..<length (sorted_set left)]"

definition tool_scope :: "tool_authority \<Rightarrow> bool \<Rightarrow> change_scope" where
  "tool_scope a mutation =
     \<lparr>allowedPaths = allowedPaths (ta_scope a),
      forbiddenPaths = (if mutation then forbiddenPaths (ta_scope a) @ ALWAYS_FORBIDDEN_PATHS
                        else forbiddenPaths (ta_scope a))\<rparr>"

text \<open>The evaluation of a scope never throws, see \<open>evaluate_total\<close>.\<close>

definition assertScopedPaths :: "string list \<Rightarrow> tool_authority \<Rightarrow> bool \<Rightarrow> refusal_reason + unit" where
  "assertScopedPaths paths a mutation =
     (case evaluateChangedPathScope paths (tool_scope a mutation) of
        Inr (True, _) \<Rightarrow> Inr ()
      | _ \<Rightarrow> Inl PathRefused)"

definition absolute :: "string \<Rightarrow> bool" where
  "absolute p \<longleftrightarrow> js_starts_with ''/'' p"

text \<open>\<open>basename\<close> and \<open>join\<close> of an absolute path on a POSIX host.\<close>

definition basename :: "string \<Rightarrow> string" where
  "basename p = (case filter (\<lambda>s. s \<noteq> []) (js_split (CHR ''/'') p) of [] \<Rightarrow> [] | ss \<Rightarrow> last ss)"

fun path_segments :: "string list \<Rightarrow> string list \<Rightarrow> string list" where
  "path_segments done [] = done"
| "path_segments done (s # ss) =
     path_segments (if s = [] \<or> s = ''.'' then done else if s = ''..'' then butlast done else done @ [s]) ss"

definition join_absolute :: "string \<Rightarrow> string \<Rightarrow> string" where
  "join_absolute dir name = CHR ''/'' # js_join ''/'' (path_segments [] (js_split (CHR ''/'') dir @ [name]))"

definition safeInvocation :: "tool_invocation \<Rightarrow> refusal_reason + unit" where
  "safeInvocation v =
     (if \<not> absolute (iv_command v) \<or> js_trim (iv_command v) = [] \<or> CHR 0x00 \<in> set (iv_command v) \<or>
         list_ex (\<lambda>x. CHR 0x00 \<in> set x) (iv_args v) \<or>
         js_to_lower (basename (iv_command v)) \<in> set FORBIDDEN_GENERIC_SHELLS
      then Inl ToolDefinitionRefused
      else if list_ex (\<lambda>p. \<not> is_ok (normalizeRepositoryPath p)) (iv_paths v) then Inl ToolDefinitionRefused
      else Inr ())"

section \<open>Execution\<close>

record sandbox_run =
  sx_command :: string
  sx_args :: "string list"
  sx_cwd :: string
  sx_timeout :: rat
  sx_environment :: "(string \<times> jstr) list"
  sx_writable :: "string list"
  sx_readable :: "string list"
  sx_protected :: "string list"
  sx_network :: bool
  sx_stdin :: "string option"
  sx_cpu :: rat
  sx_memory :: rat
  sx_processes :: rat
  sx_file_size :: rat
  sx_inherit_environment :: bool
  sx_credentials :: string
  sx_credential_paths :: string
  sx_sockets :: string
  sx_other_workspaces :: string
  sx_isolated_network :: string
  sx_candidate :: string
  sx_fresh :: bool

definition sandbox_run_of :: "gateway \<Rightarrow> tool_authority \<Rightarrow> tool_access \<Rightarrow> tool_invocation \<Rightarrow> sandbox_run" where
  "sandbox_run_of g a access v =
     \<lparr>sx_command = iv_command v, sx_args = iv_args v, sx_cwd = ta_root a, sx_timeout = wallTimeMs (ta_limits a),
      sx_environment = gw_environment g, sx_writable = (if access = WriteAccess then [ta_root a] else []),
      sx_readable = [ta_root a], sx_protected = [join_absolute (ta_root a) ''.git'', join_absolute (ta_root a) ''.runmill''],
      sx_network = False, sx_stdin = iv_stdin v, sx_cpu = cpuMillis (ta_limits a),
      sx_memory = memoryMib (ta_limits a), sx_processes = processes (ta_limits a),
      sx_file_size = fileSizeBytes (ta_limits a), sx_inherit_environment = False, sx_credentials = ''denied'',
      sx_credential_paths = ''denied'', sx_sockets = ''denied'', sx_other_workspaces = ''denied'',
      sx_isolated_network = ''disabled'', sx_candidate = tb_candidate (ta_binding a), sx_fresh = ta_fresh a\<rparr>"

datatype sandbox_outcome = ExitedNormally | Signalled | TimedOutInSandbox | DeniedBySandbox

record sandbox_result =
  sb_outcome :: sandbox_outcome
  sb_exit :: "rat option"
  sb_stdout :: jstr
  sb_stderr :: jstr

definition aborted_result :: sandbox_result where
  "aborted_result = \<lparr>sb_outcome = Signalled, sb_exit = None, sb_stdout = [], sb_stderr = []\<rparr>"

text \<open>What one execution observes: the fence before and after (\<open>None\<close> where the validator throws), whether the
  signal is aborted before, when the sandbox throws and at the end, the answer of the sandbox (\<open>None\<close> where
  it throws), and two readings of each clock.\<close>

record surroundings =
  fence_before :: "bool option"
  fence_after :: "bool option"
  aborted_before :: bool
  aborted_in_catch :: bool
  aborted_at_end :: bool
  sandbox_answer :: "sandbox_result option"
  started_wall :: rat
  completed_wall :: rat
  started_monotonic :: rat
  completed_monotonic :: rat

datatype tool_status = SuccessStatus | FailureStatus | RefusedStatus | CancelledStatus | TimeoutStatus

record tool_output =
  to_request :: string
  to_request_digest :: string
  to_binding :: tool_binding
  to_tool :: string
  to_status :: tool_status
  to_started :: string
  to_completed :: string
  to_exit :: "rat option"
  to_stdout :: jstr
  to_stderr :: jstr
  to_truncated :: bool
  to_wall_ms :: rat
  to_bytes :: nat

record tool_result = tool_output +
  to_digest :: string

record gateway_env =
  request_digest :: "tool_request \<Rightarrow> string"
  text_digest :: "string \<Rightarrow> string"
  output_digest :: "tool_output \<Rightarrow> string"
  to_iso :: "rat \<Rightarrow> string"
  parse_instant :: "string \<Rightarrow> rat option"
  is_timestamp :: "string \<Rightarrow> bool"


definition limits_of :: "resource_limits \<Rightarrow> rat list" where
  "limits_of l = [cpuMillis l, memoryMib l, processes l, fileSizeBytes l, wallTimeMs l, maxOutputBytes l]"

definition assertAuthority :: "tool_request \<Rightarrow> tool_authority \<Rightarrow> refusal_reason + unit" where
  "assertAuthority q a =
     (let l = ta_limits a
      in if \<not> binding_ok (ta_binding a) \<or> tq_binding q \<noteq> ta_binding a then Inl BindingMismatch
         else if \<not> absolute (ta_root a) \<or> CHR 0x00 \<in> set (ta_root a) then Inl PathRefused
         else and_then (all_ok assertPositiveInteger (limits_of l)) (\<lambda>_.
              if cpuMillis l > 64000 \<or> memoryMib l > 262144 \<or> processes l > 4096 \<or>
                 fileSizeBytes l > 1099511627776 \<or> wallTimeMs l > 86400000 \<or> maxOutputBytes l > 16777216
              then Inl LimitRefused
              else if tq_timeout q \<noteq> wallTimeMs l \<or> tq_output q \<noteq> maxOutputBytes l then Inl LimitRefused
              else Inr ()))"

definition isCurrent :: "bool option \<Rightarrow> bool" where
  "isCurrent answer \<longleftrightarrow> answer = Some True"

definition check_allowed :: "tool_body \<Rightarrow> tool_authority \<Rightarrow> bool" where
  "check_allowed body a \<longleftrightarrow> (case body of CheckTool c \<Rightarrow> c \<in> set (ta_checks a) | _ \<Rightarrow> True)"

definition assertPatch :: "gateway_env \<Rightarrow> tool_body \<Rightarrow> refusal_reason + unit" where
  "assertPatch env body =
     (case body of
        ApplyPatchTool patch digest paths \<Rightarrow>
          if text_digest env patch \<noteq> digest then Inl IntegrityMismatch
          else and_then (pathsDeclaredByPatch patch) (\<lambda>ps.
                 if \<not> sameStringSet ps paths then Inl IntegrityMismatch else Inr ())
      | _ \<Rightarrow> Inr ())"

text \<open>Everything \<open>execute\<close> checks before the sandbox is invoked.\<close>

definition admit_request ::
  "gateway_env \<Rightarrow> gateway \<Rightarrow> tool_request option \<Rightarrow> tool_authority \<Rightarrow> bool option \<Rightarrow>
     refusal_reason + (tool_request \<times> registered_tool \<times> tool_invocation)"
where
  "admit_request env g raw a fence =
     and_then (parseAsfToolRequest raw) (\<lambda>q.
     and_then (assertAuthority q a) (\<lambda>_.
     case registered g (tool_name (tq_tool q)) of
       None \<Rightarrow> Inl UnknownTool
     | Some t \<Rightarrow>
         if tool_name (tq_tool q) \<notin> set (ta_tools a) then Inl UnknownTool
         else if tb_role (ta_binding a) \<notin> set (rt_roles t) then Inl RoleRefused
         else if rt_access t = WriteAccess \<and> tb_role (ta_binding a) \<noteq> ''implementer'' \<and> tb_role (ta_binding a) \<noteq> ''fixer''
         then Inl RoleRefused
         else if rt_access t = VerificationAccess \<and> \<not> ta_fresh a then Inl PathRefused
         else if \<not> check_allowed (tq_tool q) a then Inl UnknownTool
         else and_then (assertScopedPaths (requestPaths (tq_tool q)) a (rt_access t = WriteAccess)) (\<lambda>_.
              and_then (assertPatch env (tq_tool q)) (\<lambda>_.
              if \<not> isCurrent fence then Inl StaleGeneration
              else case rt_build t (tq_tool q) a of
                     None \<Rightarrow> Inl ToolDefinitionRefused
                   | Some v \<Rightarrow>
                       and_then (safeInvocation v) (\<lambda>_.
                       and_then (assertScopedPaths (iv_paths v) a (rt_access t = WriteAccess)) (\<lambda>_.
                       Inr (q, t, v)))))))"

text \<open>The answer of the sandbox, and whether it was invoked at all.\<close>

definition run_sandbox :: "sandbox_run \<Rightarrow> surroundings \<Rightarrow> sandbox_run option \<times> (refusal_reason + sandbox_result)" where
  "run_sandbox x w =
     (if aborted_before w then (None, Inr aborted_result)
      else (Some x,
        case sandbox_answer w of
          Some r \<Rightarrow> Inr r
        | None \<Rightarrow> if aborted_in_catch w then Inr aborted_result else Inl SandboxNotProduction))"

definition statusFor :: "sandbox_result \<Rightarrow> bool \<Rightarrow> rat \<Rightarrow> rat \<Rightarrow> tool_status" where
  "statusFor r aborted wallMs timeoutMs =
     (if aborted then CancelledStatus
      else if wallMs > timeoutMs then TimeoutStatus
      else if sb_outcome r = TimedOutInSandbox then TimeoutStatus
      else if sb_outcome r = DeniedBySandbox then RefusedStatus
      else if sb_outcome r = Signalled then CancelledStatus
      else if sb_exit r = Some 0 then SuccessStatus else FailureStatus)"

definition later_instant :: "rat option \<Rightarrow> rat option \<Rightarrow> bool" where
  "later_instant x y = (case (x, y) of (Some a, Some b) \<Rightarrow> a > b | _ \<Rightarrow> False)"

definition result_shape_ok :: "gateway_env \<Rightarrow> tool_result \<Rightarrow> bool" where
  "result_shape_ok env r \<longleftrightarrow>
     identifier_text (to_request r) \<and> is_digest (to_request_digest r) \<and> binding_ok (to_binding r) \<and>
     to_tool r \<in> set ASF_REPOSITORY_TOOL_NAMES \<and> is_timestamp env (to_started r) \<and> is_timestamp env (to_completed r) \<and>
     (case to_exit r of None \<Rightarrow> True | Some e \<Rightarrow> is_safe_integer e) \<and>
     length (to_stdout r) \<le> 16777216 \<and> length (to_stderr r) \<le> 16777216 \<and> 0 \<le> to_wall_ms r \<and>
     is_safe_integer (of_nat (to_bytes r)) \<and> is_digest (to_digest r) \<and>
     (to_status r = SuccessStatus \<longrightarrow> to_exit r = Some 0) \<and> (to_status r = TimeoutStatus \<longrightarrow> to_exit r = None)"

definition parseAsfToolResult :: "gateway_env \<Rightarrow> tool_result \<Rightarrow> refusal_reason + tool_result" where
  "parseAsfToolResult env r =
     (let actual = byteLength (to_stdout r) + byteLength (to_stderr r)
      in if \<not> result_shape_ok env r then Inl MalformedRequest
         else if later_instant (parse_instant env (to_started r)) (parse_instant env (to_completed r))
         then Inl MalformedRequest
         else if actual \<noteq> to_bytes r \<or> actual > 16777216 then Inl IntegrityMismatch
         else if output_digest env (tool_output.truncate r) \<noteq> to_digest r then Inl IntegrityMismatch
         else Inr r)"

text \<open>The output as the agent sees it: half of the budget for \<open>stdout\<close>, what is left for \<open>stderr\<close>.\<close>

definition unsigned_output ::
  "gateway_env \<Rightarrow> gateway \<Rightarrow> tool_request \<Rightarrow> tool_authority \<Rightarrow> surroundings \<Rightarrow> jstr list \<Rightarrow> sandbox_result \<Rightarrow> tool_output"
where
  "unsigned_output env g q a w secrets r =
     (let wallMs = max 0 (completed_monotonic w - started_monotonic w);
          status = statusFor r (aborted_at_end w) wallMs (wallTimeMs (ta_limits a));
          values = gw_sensitive g @ secrets;
          budget = nat \<lfloor>maxOutputBytes (ta_limits a)\<rfloor>;
          out = boundedUtf8 (redact (sb_stdout r) values) (nat \<lfloor>maxOutputBytes (ta_limits a) / 2\<rfloor>);
          err = boundedUtf8 (redact (sb_stderr r) values) (budget - byteLength (fst out))
      in \<lparr>to_request = tq_id q, to_request_digest = request_digest env q, to_binding = tq_binding q,
          to_tool = tool_name (tq_tool q), to_status = status, to_started = to_iso env (started_wall w),
          to_completed = to_iso env (completed_wall w),
          to_exit = (if status = SuccessStatus \<or> status = FailureStatus then sb_exit r else None),
          to_stdout = fst out, to_stderr = fst err, to_truncated = (snd out \<or> snd err), to_wall_ms = wallMs,
          to_bytes = byteLength (fst out) + byteLength (fst err)\<rparr>)"

definition execute_tool ::
  "gateway_env \<Rightarrow> gateway \<Rightarrow> tool_request option \<Rightarrow> tool_authority \<Rightarrow> surroundings \<Rightarrow> jstr list \<Rightarrow>
     sandbox_run option \<times> (refusal_reason + tool_result)"
where
  "execute_tool env g raw a w secrets =
     (case admit_request env g raw a (fence_before w) of
        Inl e \<Rightarrow> (None, Inl e)
      | Inr (q, t, v) \<Rightarrow>
          (let (run, answer) = run_sandbox (sandbox_run_of g a (rt_access t) v) w
           in (run,
               and_then answer (\<lambda>r.
               if \<not> isCurrent (fence_after w) then Inl StaleGeneration
               else let x = unsigned_output env g q a w secrets r
                    in parseAsfToolResult env (tool_output.extend x (tool_result.fields (output_digest env x)))))))"

section \<open>Registered tools\<close>

lemma register_tools_ok:
  assumes "register_tools tools ts = Inr us"
  shows "\<forall>t \<in> set us. t \<in> set tools \<or> rt_name t \<in> set ASF_REPOSITORY_TOOL_NAMES \<and> rt_access t = expectedAccess (rt_name t) \<and>
    rt_roles t \<noteq> []"
    "distinct (map rt_name tools) \<Longrightarrow> distinct (map rt_name us)"
  using assms by (induction tools ts rule: register_tools.induct) (auto split: if_splits)

lemma environment_ok:
  "sanitizeEnvironment raw secrets = Inr env \<Longrightarrow>
     \<forall>e \<in> set env. fst e \<in> set SAFE_ENVIRONMENT_KEYS \<and> (\<forall>v \<in> set secrets. v \<noteq> [] \<longrightarrow> \<not> sublist v (snd e))"
  unfolding sanitizeEnvironment_def Let_def
  by (auto simp: and_then_Inr_iff all_ok_Inr_iff environment_value_ok_def list_ex_iff split: if_splits)

lemma new_gateway_ok:
  assumes "new_gateway x = Inr g"
  shows "\<forall>t \<in> set (gw_tools g). rt_access t = expectedAccess (rt_name t)"
    "\<forall>e \<in> set (gw_environment g). fst e \<in> set SAFE_ENVIRONMENT_KEYS \<and>
       (\<forall>v \<in> set (gw_sensitive g). v \<noteq> [] \<longrightarrow> \<not> sublist v (snd e))"
proof -
  obtain env tools where g: "sanitizeEnvironment (go_environment x) (given (go_sensitive x) []) = Inr env"
    "register_tools [] (go_tools x) = Inr tools"
    "g = \<lparr>gw_tools = tools, gw_environment = env, gw_sensitive = given (go_sensitive x) []\<rparr>"
    using assms by (auto simp: new_gateway_def and_then_Inr_iff Let_def split: if_splits)
  show "\<forall>t \<in> set (gw_tools g). rt_access t = expectedAccess (rt_name t)"
    using register_tools_ok(1) [OF g(2)] by (simp add: g(3))
  show "\<forall>e \<in> set (gw_environment g). fst e \<in> set SAFE_ENVIRONMENT_KEYS \<and>
       (\<forall>v \<in> set (gw_sensitive g). v \<noteq> [] \<longrightarrow> \<not> sublist v (snd e))"
    using environment_ok [OF g(1)] by (simp add: g(3))
qed

lemma registered_Some: "registered g name = Some t \<Longrightarrow> t \<in> set (gw_tools g) \<and> rt_name t = name"
  by (auto simp: registered_def find_Some_iff)

section \<open>What was checked\<close>

lemma scoped_iff: "assertScopedPaths ps a m = Inr () \<longleftrightarrow>
    policy_compiles (tool_scope a m) \<and> (\<forall>p \<in> set ps. path_permitted (tool_scope a m) p)"
proof -
  obtain b vs where e: "evaluateChangedPathScope ps (tool_scope a m) = Inr (b, vs)"
    using evaluate_total [of ps "tool_scope a m"] by (metis surj_pair)
  show ?thesis
  proof (cases b)
    case True
    with e evaluate_permitted [of ps "tool_scope a m" vs] show ?thesis by (simp add: assertScopedPaths_def)
  next
    case False
    then have "\<not> evaluateChangedPathScope ps (tool_scope a m) = Inr (True, [])" using e by simp
    with e False evaluate_permitted [of ps "tool_scope a m" "[]"] show ?thesis by (auto simp: assertScopedPaths_def)
  qed
qed

lemma sorted_set_eq: "sorted_set xs = sorted_set ys \<longleftrightarrow> set xs = set ys"
proof
  assume "sorted_set xs = sorted_set ys"
  then have "set (sorted_set xs) = set (sorted_set ys)" by simp
  then show "set xs = set ys" by (simp add: sorted_set_def)
next
  assume "set xs = set ys"
  then show "sorted_set xs = sorted_set ys"
    unfolding sorted_set_def by (intro sorted_distinct_set_unique) simp_all
qed

lemma sameStringSet_iff: "sameStringSet xs ys \<longleftrightarrow> set xs = set ys"
proof -
  have "sameStringSet xs ys \<longleftrightarrow> sorted_set xs = sorted_set ys"
    by (auto simp: sameStringSet_def list_all_iff intro: nth_equalityI)
  then show ?thesis by (simp add: sorted_set_eq)
qed


definition mutating_role :: "string \<Rightarrow> bool" where
  "mutating_role r \<longleftrightarrow> r = ''implementer'' \<or> r = ''fixer''"

lemma guarded_iff: "(if b then Inl e else k) = Inr y \<longleftrightarrow> \<not> b \<and> k = Inr y"
  by simp

lemma present_iff: "(case x of None \<Rightarrow> Inl e | Some z \<Rightarrow> f z) = Inr y \<longleftrightarrow> (\<exists>z. x = Some z \<and> f z = Inr y)"
  by (cases x) simp_all

lemma unit_ex: "(\<exists>x :: unit. P x) \<longleftrightarrow> P ()"
  by (metis unit_eq)

lemmas peel_iff = guarded_iff present_iff and_then_Inr_iff unit_ex

lemma admit_shape:
  assumes "admit_request env g raw a fence = Inr (q, t, v)"
  shows "raw = Some q" "tq_binding q = ta_binding a" "binding_ok (ta_binding a)" "absolute (ta_root a)"
    "maxOutputBytes (ta_limits a) \<le> 16777216" "assertPositiveInteger (maxOutputBytes (ta_limits a)) = Inr ()"
    "registered g (tool_name (tq_tool q)) = Some t" "tool_name (tq_tool q) \<in> set (ta_tools a)"
    "tb_role (ta_binding a) \<in> set (rt_roles t)" "rt_access t = WriteAccess \<Longrightarrow> mutating_role (tb_role (ta_binding a))"
    "rt_access t = VerificationAccess \<Longrightarrow> ta_fresh a" "check_allowed (tq_tool q) a"
    "assertScopedPaths (requestPaths (tq_tool q)) a (rt_access t = WriteAccess) = Inr ()"
    "assertPatch env (tq_tool q) = Inr ()" "fence = Some True" "rt_build t (tq_tool q) a = Some v"
    "safeInvocation v = Inr ()" "assertScopedPaths (iv_paths v) a (rt_access t = WriteAccess) = Inr ()"
proof -
  have p: "parseAsfToolRequest raw = Inr q" and auth: "assertAuthority q a = Inr ()" and
    rest: "registered g (tool_name (tq_tool q)) = Some t \<and> tool_name (tq_tool q) \<in> set (ta_tools a) \<and>
      tb_role (ta_binding a) \<in> set (rt_roles t) \<and> (rt_access t = WriteAccess \<longrightarrow> mutating_role (tb_role (ta_binding a))) \<and>
      (rt_access t = VerificationAccess \<longrightarrow> ta_fresh a) \<and> check_allowed (tq_tool q) a \<and>
      assertScopedPaths (requestPaths (tq_tool q)) a (rt_access t = WriteAccess) = Inr () \<and>
      assertPatch env (tq_tool q) = Inr () \<and> fence = Some True \<and> rt_build t (tq_tool q) a = Some v \<and>
      safeInvocation v = Inr () \<and> assertScopedPaths (iv_paths v) a (rt_access t = WriteAccess) = Inr ()"
    using assms unfolding admit_request_def isCurrent_def mutating_role_def peel_iff sum.inject prod.inject
    by blast+
  from p show "raw = Some q" by (auto simp: parseAsfToolRequest_def split: option.splits if_splits)
  from auth show "tq_binding q = ta_binding a" "binding_ok (ta_binding a)" "absolute (ta_root a)"
    "maxOutputBytes (ta_limits a) \<le> 16777216" "assertPositiveInteger (maxOutputBytes (ta_limits a)) = Inr ()"
    unfolding assertAuthority_def Let_def peel_iff all_ok_Inr_iff limits_of_def by auto
  from rest show "registered g (tool_name (tq_tool q)) = Some t" "tool_name (tq_tool q) \<in> set (ta_tools a)"
    "tb_role (ta_binding a) \<in> set (rt_roles t)" "rt_access t = WriteAccess \<Longrightarrow> mutating_role (tb_role (ta_binding a))"
    "rt_access t = VerificationAccess \<Longrightarrow> ta_fresh a" "check_allowed (tq_tool q) a"
    "assertScopedPaths (requestPaths (tq_tool q)) a (rt_access t = WriteAccess) = Inr ()"
    "assertPatch env (tq_tool q) = Inr ()" "fence = Some True" "rt_build t (tq_tool q) a = Some v"
    "safeInvocation v = Inr ()" "assertScopedPaths (iv_paths v) a (rt_access t = WriteAccess) = Inr ()"
    by blast+
qed

lemma write_access_iff: "expectedAccess (tool_name b) = WriteAccess \<longleftrightarrow> (\<exists>t d ps. b = ApplyPatchTool t d ps)"
  by (cases b) (simp_all add: expectedAccess_def)

lemma verification_access_iff: "expectedAccess (tool_name b) = VerificationAccess \<longleftrightarrow> (\<exists>c. b = CheckTool c)"
  by (cases b) (simp_all add: expectedAccess_def)

text \<open>What the authority allows an invocation to do.\<close>

definition invocation_authorised :: "gateway_env \<Rightarrow> tool_request \<Rightarrow> registered_tool \<Rightarrow> tool_invocation \<Rightarrow> tool_authority \<Rightarrow> bool" where
  "invocation_authorised env q t v a \<longleftrightarrow>
     tq_binding q = ta_binding a \<and> binding_ok (ta_binding a) \<and>
     rt_name t = tool_name (tq_tool q) \<and> tool_name (tq_tool q) \<in> set (ta_tools a) \<and> tb_role (ta_binding a) \<in> set (rt_roles t) \<and>
     (\<forall>p \<in> set (requestPaths (tq_tool q) @ iv_paths v). path_permitted (ta_scope a) p) \<and>
     absolute (iv_command v) \<and> js_to_lower (basename (iv_command v)) \<notin> set FORBIDDEN_GENERIC_SHELLS \<and>
     (case tq_tool q of
        ApplyPatchTool patch d ps \<Rightarrow>
          mutating_role (tb_role (ta_binding a)) \<and> text_digest env patch = d \<and>
          (\<exists>ns. pathsDeclaredByPatch patch = Inr ns \<and> set ns = set ps) \<and>
          (\<forall>p \<in> set (ps @ iv_paths v). \<not> protected_file p)
      | CheckTool c \<Rightarrow> ta_fresh a \<and> c \<in> set (ta_checks a)
      | _ \<Rightarrow> True)"

lemma tool_scope_permitted: "path_permitted (tool_scope a m) p \<Longrightarrow> path_permitted (ta_scope a) p"
  by (auto simp: path_permitted_def tool_scope_def split: if_splits)

lemma admitted_authorised:
  assumes g: "new_gateway x = Inr g" and a: "admit_request env g raw a fence = Inr (q, t, v)"
  shows "invocation_authorised env q t v a" "rt_access t = expectedAccess (tool_name (tq_tool q))"
proof -
  note s = admit_shape [OF a]
  have t: "t \<in> set (gw_tools g)" "rt_name t = tool_name (tq_tool q)" using registered_Some [OF s(7)] by auto
  show access: "rt_access t = expectedAccess (tool_name (tq_tool q))" using new_gateway_ok(1) [OF g] t by auto
  have scope: "\<forall>p \<in> set (requestPaths (tq_tool q) @ iv_paths v). path_permitted (tool_scope a (rt_access t = WriteAccess)) p"
    using s(13) s(18) by (auto simp: scoped_iff)
  have "case tq_tool q of
        ApplyPatchTool patch d ps \<Rightarrow>
          mutating_role (tb_role (ta_binding a)) \<and> text_digest env patch = d \<and>
          (\<exists>ns. pathsDeclaredByPatch patch = Inr ns \<and> set ns = set ps) \<and>
          (\<forall>p \<in> set (ps @ iv_paths v). \<not> protected_file p)
      | CheckTool c \<Rightarrow> ta_fresh a \<and> c \<in> set (ta_checks a)
      | _ \<Rightarrow> True"
  proof (cases "tq_tool q")
    case (ApplyPatchTool patch d ps)
    then have w: "rt_access t = WriteAccess" using access by (simp add: expectedAccess_def)
    have "\<not> protected_file p" if "p \<in> set (ps @ iv_paths v)" for p
      using scope that w ApplyPatchTool
      by (intro permitted_not_protected [of "tool_scope a True"]) (auto simp: tool_scope_def)
    moreover have "text_digest env patch = d \<and> (\<exists>ns. pathsDeclaredByPatch patch = Inr ns \<and> set ns = set ps)"
      using s(14) ApplyPatchTool
      by (auto simp: assertPatch_def and_then_Inr_iff sameStringSet_iff split: if_splits)
    ultimately show ?thesis using s(10) [OF w] ApplyPatchTool by simp
  next
    case (CheckTool c)
    then have "rt_access t = VerificationAccess" using access by (simp add: expectedAccess_def)
    with s(11,12) CheckTool show ?thesis by (simp add: check_allowed_def)
  qed simp_all
  moreover have "absolute (iv_command v) \<and> js_to_lower (basename (iv_command v)) \<notin> set FORBIDDEN_GENERIC_SHELLS"
    using s(17) by (auto simp: safeInvocation_def split: if_splits)
  moreover have "\<forall>p \<in> set (requestPaths (tq_tool q) @ iv_paths v). path_permitted (ta_scope a) p"
    using scope tool_scope_permitted by blast
  ultimately show "invocation_authorised env q t v a"
    unfolding invocation_authorised_def using s(2,3,8,9) t(2) by blast
qed

lemma execute_invokes:
  assumes "fst (execute_tool env g raw a w secrets) = Some run"
  shows "\<exists>q t v. admit_request env g raw a (fence_before w) = Inr (q, t, v) \<and> run = sandbox_run_of g a (rt_access t) v"
  using assms by (auto simp: execute_tool_def run_sandbox_def Let_def split: sum.splits prod.splits if_splits)

lemma execute_returns:
  assumes "snd (execute_tool env g raw a w secrets) = Inr z"
  shows "\<exists>q t v r. admit_request env g raw a (fence_before w) = Inr (q, t, v) \<and> fence_after w = Some True \<and>
    tool_output.truncate z = unsigned_output env g q a w secrets r \<and> parseAsfToolResult env z = Inr z"
proof -
  obtain q t v r where a: "admit_request env g raw a (fence_before w) = Inr (q, t, v)" "isCurrent (fence_after w)"
    "parseAsfToolResult env (tool_output.extend (unsigned_output env g q a w secrets r)
       (tool_result.fields (output_digest env (unsigned_output env g q a w secrets r)))) = Inr z"
    using assms unfolding execute_tool_def Let_def
    by (auto simp: and_then_Inr_iff split: sum.splits prod.splits if_splits)
  have p: "parseAsfToolResult env y = Inr z \<Longrightarrow> z = y" for y
    by (auto simp: parseAsfToolResult_def Let_def split: if_splits)
  note z = p [OF a(3)]
  have "tool_output.truncate z = unsigned_output env g q a w secrets r"
    unfolding z by (simp add: tool_output.defs tool_result.defs)
  then show ?thesis using a z unfolding isCurrent_def by metis
qed

section \<open>Properties\<close>

text \<open>C15: the sandbox is invoked only for a request that is bound to exactly the authority of the invocation, while
  its ownership fence is current, with a tool that is registered, admitted and allowed for the role, on
  paths that the change scope permits; a patch is applied only by an implementing role, with the digest
  and exactly the files it declares, and to no file that verification rests on; a check runs only as
  registered by the operator in a fresh workspace. The command is absolute and no shell, it has no network
  and no credentials, and can write to the workspace only for a patch.\<close>

theorem tool_execution_is_authorised:
  assumes "new_gateway x = Inr g" and "fst (execute_tool env g raw a w secrets) = Some run"
  shows "\<exists>q t v. raw = Some q \<and> t \<in> set (gw_tools g) \<and> rt_build t (tq_tool q) a = Some v \<and>
    fence_before w = Some True \<and> invocation_authorised env q t v a \<and>
    run = sandbox_run_of g a (rt_access t) v \<and> \<not> sx_network run \<and> \<not> sx_inherit_environment run \<and>
    sx_credentials run = ''denied'' \<and> (sx_writable run \<noteq> [] \<longrightarrow> (\<exists>p d ps. tq_tool q = ApplyPatchTool p d ps)) \<and>
    (\<forall>e \<in> set (sx_environment run). \<forall>s \<in> set (gw_sensitive g). s \<noteq> [] \<longrightarrow> \<not> sublist s (snd e))"
proof -
  from execute_invokes [OF assms(2)] obtain q t v where a: "admit_request env g raw a (fence_before w) = Inr (q, t, v)"
    "run = sandbox_run_of g a (rt_access t) v" by blast
  note s = admit_shape [OF a(1)] and ok = admitted_authorised [OF assms(1) a(1)]
  show ?thesis
    using s(1,15,16) ok registered_Some [OF s(7)] a(2) new_gateway_ok(2) [OF assms(1)]
    by (intro exI [of _ q] exI [of _ t] exI [of _ v])
      (simp add: sandbox_run_of_def write_access_iff)
qed


text \<open>C17: a result is returned only when the fence was current before and after the execution, its output fits the
  byte limit of the authority and the number of bytes it reports is that of its output.\<close>

theorem tool_output_is_bounded:
  assumes "snd (execute_tool env g raw a w secrets) = Inr z"
  shows "of_nat (byteLength (to_stdout z) + byteLength (to_stderr z)) \<le> maxOutputBytes (ta_limits a) \<and>
    to_bytes z = byteLength (to_stdout z) + byteLength (to_stderr z) \<and>
    fence_before w = Some True \<and> fence_after w = Some True"
proof -
  from execute_returns [OF assms] obtain q t v r where a: "admit_request env g raw a (fence_before w) = Inr (q, t, v)"
    "fence_after w = Some True" "tool_output.truncate z = unsigned_output env g q a w secrets r" by blast
  let ?max = "maxOutputBytes (ta_limits a)"
  have m: "?max = of_int \<lfloor>?max\<rfloor>" "0 < ?max"
    using admit_shape(6) [OF a(1)] by (auto simp: assertPositiveInteger_def is_safe_integer_def split: if_splits)
  have z: "to_stdout z = to_stdout (tool_output.truncate z)" "to_stderr z = to_stderr (tool_output.truncate z)"
    "to_bytes z = to_bytes (tool_output.truncate z)"
    by (simp_all add: tool_output.defs)
  define out where "out = boundedUtf8 (redact (sb_stdout r) (gw_sensitive g @ secrets)) (nat \<lfloor>?max / 2\<rfloor>)"
  define err where "err = boundedUtf8 (redact (sb_stderr r) (gw_sensitive g @ secrets)) (nat \<lfloor>?max\<rfloor> - byteLength (fst out))"
  have o: "to_stdout z = fst out" "to_stderr z = fst err" "to_bytes z = byteLength (fst out) + byteLength (fst err)"
    unfolding z a(3) unsigned_output_def Let_def out_def err_def by simp_all
  have "byteLength (fst out) \<le> nat \<lfloor>?max / 2\<rfloor>" unfolding out_def by (rule boundedUtf8_bound)
  also have "\<dots> \<le> nat \<lfloor>?max\<rfloor>" using m(2) by (intro nat_mono floor_mono) simp
  finally have "byteLength (fst out) + byteLength (fst err) \<le> nat \<lfloor>?max\<rfloor>"
    using boundedUtf8_bound [of "redact (sb_stderr r) (gw_sensitive g @ secrets)" "nat \<lfloor>?max\<rfloor> - byteLength (fst out)"]
    unfolding err_def by linarith
  then have "(of_nat (byteLength (fst out) + byteLength (fst err)) :: rat) \<le> of_nat (nat \<lfloor>?max\<rfloor>)" by (rule of_nat_mono)
  also have "of_nat (nat \<lfloor>?max\<rfloor>) = ?max" using m by (metis floor_less_iff less_imp_le of_int_0 of_nat_nat zero_le_floor)
  finally show ?thesis using o admit_shape(15) [OF a(1)] a(2) by simp
qed


section \<open>A sample execution\<close>

definition gateway_sample_env :: gateway_env where
  "gateway_sample_env = \<lparr>request_digest = (\<lambda>_. ''sha256:'' @ replicate 64 (CHR ''0'')), text_digest = (\<lambda>_. ''''),
     output_digest = (\<lambda>_. ''sha256:'' @ replicate 64 (CHR ''1'')), to_iso = (\<lambda>_. ''2026''),
     parse_instant = (\<lambda>_. Some 0), is_timestamp = (\<lambda>_. True)\<rparr>"

definition sample_tool :: registered_tool where
  "sample_tool = \<lparr>rt_name = ''repository.read'', rt_access = ReadAccess, rt_roles = [''implementer''],
     rt_build = (\<lambda>b a. Some \<lparr>iv_command = ''/usr/bin/cat'', iv_args = [], iv_stdin = None, iv_paths = requestPaths b\<rparr>)\<rparr>"

definition sample_options :: gateway_options where
  "sample_options = \<lparr>go_mechanism = ''bubblewrap'', go_enforcement = ''production-credential-free'',
     go_tools = [sample_tool], go_environment = Some [(''LANG'', ascii ''C'')], go_sensitive = Some [ascii ''tok'']\<rparr>"

definition sample_gateway :: gateway where
  "sample_gateway = \<lparr>gw_tools = [sample_tool], gw_environment = [(''LANG'', ascii ''C'')], gw_sensitive = [ascii ''tok'']\<rparr>"

definition tool_sample_binding :: tool_binding where
  "tool_sample_binding = \<lparr>tb_run = ''r'', tb_work_order = ''w'', tb_attempt = ''a'', tb_role = ''implementer'',
     tb_invocation = ''i'', tb_policy = ''sha256:'' @ replicate 64 (CHR ''0''), tb_candidate = replicate 40 (CHR ''0''),
     tb_generation = 1\<rparr>"

definition tool_sample_request :: tool_request where
  "tool_sample_request = \<lparr>tq_schema = ''asf.repository-tool-request/v1'', tq_id = ''q'', tq_binding = tool_sample_binding,
     tq_tool = ReadTool ''src/a'' 10, tq_timeout = 1000, tq_output = 64\<rparr>"

definition sample_authority :: tool_authority where
  "sample_authority = \<lparr>ta_binding = tool_sample_binding, ta_root = ''/w'',
     ta_scope = \<lparr>allowedPaths = [''src/**''], forbiddenPaths = []\<rparr>, ta_tools = [''repository.read''], ta_checks = [],
     ta_limits = \<lparr>cpuMillis = 1, memoryMib = 1, processes = 1, fileSizeBytes = 1, wallTimeMs = 1000, maxOutputBytes = 64\<rparr>,
     ta_fresh = False\<rparr>"

definition sample_surroundings :: surroundings where
  "sample_surroundings = \<lparr>fence_before = Some True, fence_after = Some True, aborted_before = False,
     aborted_in_catch = False, aborted_at_end = False,
     sandbox_answer = Some \<lparr>sb_outcome = ExitedNormally, sb_exit = Some 0, sb_stdout = ascii ''a tok KEY=x b'', sb_stderr = []\<rparr>,
     started_wall = 0, completed_wall = 0, started_monotonic = 0, completed_monotonic = 1\<rparr>"

text \<open>The request is admitted, the output is redacted, and the result is accepted.\<close>

lemma sample_admitted:
  "case admit_request gateway_sample_env sample_gateway (Some tool_sample_request) sample_authority (Some True) of
     Inl _ \<Rightarrow> False | Inr (q, t, v) \<Rightarrow> q = tool_sample_request"
  by code_simp

lemma sample_redacted:
  "boundedUtf8 (redact (ascii ''a tok KEY=x b'') [ascii ''tok'']) 32 = (ascii ''a [REDACTED] [REDACTED] b'', False)"
  "boundedUtf8 (redact [] [ascii ''tok'']) 39 = ([], False)"
  "byteLength (ascii ''a [REDACTED] [REDACTED] b'') = 25" "byteLength [] = 0"
  by code_simp+

definition sample_output :: tool_output where
  "sample_output = \<lparr>to_request = ''q'', to_request_digest = ''sha256:'' @ replicate 64 (CHR ''0''),
     to_binding = tool_sample_binding, to_tool = ''repository.read'', to_status = SuccessStatus, to_started = ''2026'',
     to_completed = ''2026'', to_exit = Some 0, to_stdout = ascii ''a [REDACTED] [REDACTED] b'', to_stderr = [],
     to_truncated = False, to_wall_ms = 1, to_bytes = 25\<rparr>"

lemma sample_unsigned:
  "unsigned_output gateway_sample_env sample_gateway tool_sample_request sample_authority sample_surroundings []
     \<lparr>sb_outcome = ExitedNormally, sb_exit = Some 0, sb_stdout = ascii ''a tok KEY=x b'', sb_stderr = []\<rparr> = sample_output"
  by (simp add: unsigned_output_def Let_def sample_output_def sample_gateway_def sample_authority_def
      sample_surroundings_def tool_sample_request_def gateway_sample_env_def statusFor_def sample_redacted del: One_nat_def)

lemma sample_accepted:
  "\<exists>z. parseAsfToolResult gateway_sample_env
     (tool_output.extend sample_output (tool_result.fields (output_digest gateway_sample_env sample_output))) = Inr z \<and>
     to_stdout z = ascii ''a [REDACTED] [REDACTED] b''"
proof -
  have c: "identifier_text ''q''" "is_digest (''sha256:'' @ replicate 64 (CHR ''0''))"
    "is_digest (''sha256:'' @ replicate 64 (CHR ''1''))" "binding_ok tool_sample_binding"
    "''repository.read'' \<in> set ASF_REPOSITORY_TOOL_NAMES" "is_safe_integer 0" "is_safe_integer 25"
    "length (ascii ''a [REDACTED] [REDACTED] b'') = 25" by code_simp+
  show ?thesis
    by (simp add: parseAsfToolResult_def result_shape_ok_def sample_output_def gateway_sample_env_def Let_def c
        sample_redacted(3,4) tool_output.defs tool_result.defs later_instant_def del: One_nat_def append.simps replicate.simps)
qed

lemma sample_returned:
  obtains run z where
    "execute_tool gateway_sample_env sample_gateway (Some tool_sample_request) sample_authority sample_surroundings [] =
       (Some run, Inr z)" "to_stdout z = ascii ''a [REDACTED] [REDACTED] b''"
proof -
  obtain t v where a: "admit_request gateway_sample_env sample_gateway (Some tool_sample_request) sample_authority
      (fence_before sample_surroundings) = Inr (tool_sample_request, t, v)"
    using sample_admitted by (auto simp: sample_surroundings_def split: sum.splits)
  obtain z where z: "parseAsfToolResult gateway_sample_env
      (tool_output.extend sample_output (tool_result.fields (output_digest gateway_sample_env sample_output))) = Inr z"
    "to_stdout z = ascii ''a [REDACTED] [REDACTED] b''" using sample_accepted by blast
  have "run_sandbox x sample_surroundings = (Some x, Inr \<lparr>sb_outcome = ExitedNormally, sb_exit = Some 0,
      sb_stdout = ascii ''a tok KEY=x b'', sb_stderr = []\<rparr>)" for x
    by (simp add: run_sandbox_def sample_surroundings_def)
  moreover have "isCurrent (fence_after sample_surroundings)" by (simp add: isCurrent_def sample_surroundings_def)
  ultimately have "execute_tool gateway_sample_env sample_gateway (Some tool_sample_request) sample_authority
      sample_surroundings [] = (Some (sandbox_run_of sample_gateway sample_authority (rt_access t) v), Inr z)"
    unfolding execute_tool_def a by (simp add: sample_unsigned z(1))
  with z(2) that show ?thesis by blast
qed

lemma sample_gateway_made: "new_gateway sample_options = Inr sample_gateway"
proof -
  have e: "sanitizeEnvironment (go_environment sample_options) [ascii ''tok''] = Inr [(''LANG'', ascii ''C'')]" by code_simp
  show ?thesis
    using e by (simp add: new_gateway_def sample_options_def sample_gateway_def sample_tool_def given_def Let_def
        ASF_REPOSITORY_TOOL_NAMES_def expectedAccess_def)
qed

theorem tool_execution_is_authorised_witness:
  "\<exists>q t v. invocation_authorised gateway_sample_env q t v sample_authority \<and> tool_name (tq_tool q) = ''repository.read''"
proof -
  obtain run z where r: "execute_tool gateway_sample_env sample_gateway (Some tool_sample_request) sample_authority
      sample_surroundings [] = (Some run, Inr z)" using sample_returned by blast
  from tool_execution_is_authorised [OF sample_gateway_made, of gateway_sample_env "Some tool_sample_request"
      sample_authority sample_surroundings "[]" run] r
  obtain q t v where "Some tool_sample_request = Some q" "invocation_authorised gateway_sample_env q t v sample_authority"
    by auto
  moreover have "tool_name (tq_tool tool_sample_request) = ''repository.read''" by (simp add: tool_sample_request_def)
  ultimately show ?thesis by (metis option.inject)
qed


theorem tool_output_is_bounded_witness:
  "\<exists>run z. execute_tool gateway_sample_env sample_gateway (Some tool_sample_request) sample_authority sample_surroundings [] =
     (run, Inr z) \<and> of_nat (byteLength (to_stdout z) + byteLength (to_stderr z)) \<le> (64 :: rat)"
proof -
  obtain run z where r: "execute_tool gateway_sample_env sample_gateway (Some tool_sample_request) sample_authority
      sample_surroundings [] = (Some run, Inr z)" using sample_returned by blast
  with tool_output_is_bounded [of gateway_sample_env sample_gateway "Some tool_sample_request" sample_authority
      sample_surroundings "[]" z] show ?thesis by (auto simp: sample_authority_def)
qed

end
