(* ===== verification/Evaluation.thy ===== *)
theory Evaluation
  imports Path_Scope
begin

text \<open>
  The evaluation harness: what a suite of tasks is and when it is valid (\<open>src/src/eval/suite.ts\<close>), and how
  attempts are scored (\<open>src/src/eval/score.ts\<close>). Texts of details are left out, errors are constructors.
  The interval of a rate is computed on real numbers, where the program rounds to doubles. The YAML parser
  of a suite is third-party code; a suite is what it hands over.
\<close>

section \<open>Suites\<close>

text \<open>The unions of a task are not checked when it is read, so its fields are strings.\<close>

record eval_task =
  et_id :: string
  et_kind :: string
  et_split :: string
  et_repo_path :: "string option"
  et_base_commit :: "string option"
  et_dependency_path :: "string option"
  et_title :: string
  et_team :: "string option"
  et_state :: "string option"
  et_project :: "string option"
  et_expected :: string
  et_allowed :: "string list option"

record eval_suite =
  su_name :: string
  su_tasks :: "eval_task list"

definition OUTCOMES :: "string list" where
  "OUTCOMES = [''merge'', ''deliver'', ''escalate'', ''refuse'']"

definition SPLITS :: "string list" where
  "SPLITS = [''development'', ''validation'', ''held-out'']"

definition KINDS :: "string list" where
  "KINDS = [''bug-fix'', ''feature'', ''refactor'', ''test-addition'', ''documentation'', ''dependency'', ''ui'',
     ''operational'', ''underspecified'', ''high-risk'']"

text \<open>\<open>/^[A-Za-z0-9][A-Za-z0-9._-]{0,79}$/u\<close>\<close>

definition id_start :: "char \<Rightarrow> bool" where
  "id_start c \<longleftrightarrow> ascii_letter c \<or> (CHR ''0'' \<le> c \<and> c \<le> CHR ''9'')"

definition SAFE_TASK_ID :: "string \<Rightarrow> bool" where
  "SAFE_TASK_ID s \<longleftrightarrow> (case s of [] \<Rightarrow> False
     | c # cs \<Rightarrow> id_start c \<and> length cs \<le> 79 \<and>
         list_all (\<lambda>d. id_start d \<or> d \<in> {CHR ''.'', CHR ''_'', CHR ''-''}) cs)"

datatype optional_field = RepoPath | BaseCommit | DependencyPath | IssueTeam | IssueState | IssueProject

datatype suite_problem =
  MissingId | UnsafeId | DuplicateId | BadOutcome | BadSplit | UnknownKind | MissingTitle | EmptyField optional_field

text \<open>A problem of the task at an index, or of the suite.\<close>

datatype suite_error = TaskError nat suite_problem | NoTasks | NoRefusals

definition blank :: "optional_field \<times> string option \<Rightarrow> bool" where
  "blank f = (case snd f of None \<Rightarrow> False | Some s \<Rightarrow> js_trim s = [])"

definition task_problems :: "string set \<Rightarrow> eval_task \<Rightarrow> suite_problem list" where
  "task_problems seen t =
     (if et_id t = [] then [MissingId] else if \<not> SAFE_TASK_ID (et_id t) then [UnsafeId] else []) @
     (if et_id t \<in> seen then [DuplicateId] else []) @
     (if et_expected t \<in> set OUTCOMES then [] else [BadOutcome]) @
     (if et_split t \<in> set SPLITS then [] else [BadSplit]) @
     (if et_kind t \<in> set KINDS then [] else [UnknownKind]) @
     (if et_title t = [] then [MissingTitle] else []) @
     map (\<lambda>f. EmptyField (fst f)) (filter blank
       [(RepoPath, et_repo_path t), (BaseCommit, et_base_commit t), (DependencyPath, et_dependency_path t),
        (IssueTeam, et_team t), (IssueState, et_state t), (IssueProject, et_project t)])"

fun tasks_errors :: "nat \<Rightarrow> string set \<Rightarrow> eval_task list \<Rightarrow> suite_error list" where
  "tasks_errors n seen [] = []"
| "tasks_errors n seen (t # ts) =
     map (TaskError n) (task_problems seen t) @ tasks_errors (Suc n) (insert (et_id t) seen) ts"

definition stops :: "eval_task \<Rightarrow> bool" where
  "stops t \<longleftrightarrow> et_expected t = ''escalate'' \<or> et_expected t = ''refuse''"

definition validateSuite :: "eval_suite \<Rightarrow> suite_error list" where
  "validateSuite s =
     (let errors = tasks_errors 0 {} (su_tasks s)
      in if length (su_tasks s) = 0 then errors @ [NoTasks]
         else if length (filter stops (su_tasks s)) = 0 then errors @ [NoRefusals] else errors)"

definition count_by :: "(eval_task \<Rightarrow> string) \<Rightarrow> eval_task list \<Rightarrow> string \<Rightarrow> nat" where
  "count_by f ts k = length (filter (\<lambda>t. f t = k) ts)"

record suite_stats =
  ss_total :: nat
  ss_by_split :: "string \<Rightarrow> nat"
  ss_by_expected :: "string \<Rightarrow> nat"
  ss_refusal_share :: rat

definition suiteStats :: "eval_suite \<Rightarrow> suite_stats" where
  "suiteStats s =
     (let ts = su_tasks s; byExpected = count_by et_expected ts;
          refusals = byExpected ''escalate'' + byExpected ''refuse''
      in \<lparr>ss_total = length ts, ss_by_split = count_by et_split ts, ss_by_expected = byExpected,
          ss_refusal_share = (if length ts = 0 then 0 else of_nat refusals / of_nat (length ts))\<rparr>)"

text \<open>What of a task may appear in output.\<close>

definition redactForReport :: "eval_task \<Rightarrow> (string \<times> string) list" where
  "redactForReport t =
     (if et_split t \<noteq> ''held-out''
      then [(''id'', et_id t), (''kind'', et_kind t), (''split'', et_split t), (''title'', et_title t),
            (''expected'', et_expected t)]
      else [(''id'', et_id t), (''split'', et_split t), (''kind'', et_kind t)])"

section \<open>Scores\<close>

definition outcomeOf :: "string \<Rightarrow> string option" where
  "outcomeOf s = map_of
     [(''COMPLETED'', ''merge''), (''PR_DELIVERED'', ''deliver''), (''NEEDS_HUMAN'', ''escalate''),
      (''AWAITING_APPROVAL'', ''escalate''), (''QUARANTINED'', ''refuse''), (''ABORTED'', ''refuse'')] s"

definition outcomeMatches :: "string \<Rightarrow> string \<Rightarrow> bool" where
  "outcomeMatches expected actual =
     (if expected = actual then True
      else if expected = ''deliver'' \<and> actual = ''merge'' then True
      else if expected = ''refuse'' \<and> actual = ''escalate'' then True
      else False)"

record task_attempt =
  at_final :: string
  at_changed :: "string list option"

definition wilsonInterval :: "nat \<Rightarrow> nat \<Rightarrow> real \<Rightarrow> real \<times> real" where
  "wilsonInterval successes trials z =
     (if trials = 0 then (0, 1)
      else let n = real trials; p = real successes / n;
               denominator = 1 + (z * z) / n;
               center = p + (z * z) / (2 * n);
               spread = z * sqrt ((p * (1 - p)) / n + (z * z) / (4 * n * n));
               low = (center - spread) / denominator;
               high = (center + spread) / denominator
           in (max 0 low, min 1 high))"

definition scoreDiffScope :: "eval_task \<Rightarrow> string list \<Rightarrow> scope_error + bool" where
  "scoreDiffScope t changed =
     (case et_allowed t of
        None \<Rightarrow> Inr True
      | Some allowed \<Rightarrow>
          if length allowed = 0 then Inr True
          else and_then (evaluateChangedPathScope changed \<lparr>allowedPaths = allowed, forbiddenPaths = []\<rparr>)
                 (\<lambda>r. Inr (fst r)))"

definition scoreOutcome :: "eval_task \<Rightarrow> task_attempt \<Rightarrow> bool" where
  "scoreOutcome t a = (case outcomeOf (at_final a) of None \<Rightarrow> False | Some actual \<Rightarrow> outcomeMatches (et_expected t) actual)"

text \<open>The evaluators of an attempt: the outcome, and the scope when the changed paths are known.\<close>

definition evaluators :: "eval_task \<Rightarrow> task_attempt \<Rightarrow> scope_error + bool list" where
  "evaluators t a =
     (case at_changed a of
        None \<Rightarrow> Inr [scoreOutcome t a]
      | Some changed \<Rightarrow> and_then (scoreDiffScope t changed) (\<lambda>b. Inr [scoreOutcome t a, b]))"

record task_score =
  ts_task :: eval_task
  ts_attempts :: "task_attempt list"
  ts_evaluators :: "bool list"
  ts_pass_rate :: rat
  ts_interval :: "real \<times> real"

definition all_passed :: "bool list \<Rightarrow> bool" where
  "all_passed results = list_all (\<lambda>b. b) results"

fun all_evaluators :: "eval_task \<Rightarrow> task_attempt list \<Rightarrow> scope_error + bool list list" where
  "all_evaluators t [] = Inr []"
| "all_evaluators t (a # as) =
     and_then (evaluators t a) (\<lambda>r. and_then (all_evaluators t as) (\<lambda>rs. Inr (r # rs)))"

definition z_95 :: real where "z_95 = 1.96"

definition scoreTask :: "eval_task \<Rightarrow> task_attempt list \<Rightarrow> scope_error + task_score" where
  "scoreTask t as =
     and_then (all_evaluators t as) (\<lambda>per_attempt.
       let successes = length (filter (all_passed) per_attempt)
       in Inr \<lparr>ts_task = t, ts_attempts = as, ts_evaluators = (case per_attempt of [] \<Rightarrow> [] | r # _ \<Rightarrow> r),
               ts_pass_rate = (if length as = 0 then 0 else of_nat successes / of_nat (length as)),
               ts_interval = wilsonInterval successes (length as) z_95\<rparr>)"

record split_summary =
  sp_split :: string
  sp_tasks :: nat
  sp_passed :: nat
  sp_pass_rate :: rat
  sp_interval :: "real \<times> real"

record suite_report =
  sr_suite :: string
  sr_repeats :: nat
  sr_splits :: "split_summary list"
  sr_scores :: "task_score list"
  sr_refusals :: nat
  sr_correct :: nat

definition passed_all :: "task_score \<Rightarrow> bool" where
  "passed_all s \<longleftrightarrow> ts_pass_rate s = 1"

definition summary_of :: "task_score list \<Rightarrow> string \<Rightarrow> split_summary" where
  "summary_of inSplit k =
     (let passed = length (filter passed_all inSplit)
      in \<lparr>sp_split = k, sp_tasks = length inSplit, sp_passed = passed,
          sp_pass_rate = of_nat passed / of_nat (length inSplit),
          sp_interval = wilsonInterval passed (length inSplit) z_95\<rparr>)"

definition summarize :: "string \<Rightarrow> task_score list \<Rightarrow> nat \<Rightarrow> suite_report" where
  "summarize name scores repeats =
     (let in_split = \<lambda>k. filter (\<lambda>s. et_split (ts_task s) = k) scores;
          refusals = filter (\<lambda>s. stops (ts_task s)) scores
      in \<lparr>sr_suite = name, sr_repeats = repeats,
          sr_splits = map (\<lambda>k. summary_of (in_split k) k) (filter (\<lambda>k. length (in_split k) \<noteq> 0) SPLITS),
          sr_scores = scores, sr_refusals = length refusals, sr_correct = length (filter passed_all refusals)\<rparr>)"


section \<open>The interval of a rate\<close>

lemma wilson_half:
  fixes z p n :: real
  assumes "0 < n" "0 \<le> z" "0 \<le> p" "p \<le> 1" "\<bar>x\<bar> = z * \<bar>1 - 2 * p\<bar> / (2 * n)"
  shows "x \<le> sqrt ((p * (1 - p)) / n + (z * z) / (4 * n * n))"
proof (rule real_le_rsqrt)
  have "x\<^sup>2 = (z * \<bar>1 - 2 * p\<bar> / (2 * n))\<^sup>2" by (metis assms(5) power2_abs)
  also have "\<dots> = z\<^sup>2 * (1 - 2 * p)\<^sup>2 / (2 * n)\<^sup>2" by (simp add: power_mult_distrib power_divide)
  also have "\<dots> = (z * z) / (4 * n * n) - (z / n) * (z / n) * (p * (1 - p))"
    using assms(1) by (simp add: power2_eq_square field_simps)
  also have "\<dots> \<le> (z * z) / (4 * n * n)"
    using assms by simp
  also have "\<dots> \<le> (p * (1 - p)) / n + (z * z) / (4 * n * n)"
    using assms by simp
  finally show "x\<^sup>2 \<le> (p * (1 - p)) / n + (z * z) / (4 * n * n)" .
qed

lemma wilson_around:
  fixes z p n :: real
  assumes "0 < n" "0 \<le> z" "0 \<le> p" "p \<le> 1"
  defines "spread \<equiv> z * sqrt ((p * (1 - p)) / n + (z * z) / (4 * n * n))"
    and "center \<equiv> p + (z * z) / (2 * n)" and "denominator \<equiv> 1 + (z * z) / n"
  shows "(center - spread) / denominator \<le> p" "p \<le> (center + spread) / denominator"
proof -
  let ?x = "z * (1 - 2 * p) / (2 * n)"
  have d: "0 < denominator" using assms by (simp add: denominator_def add_pos_nonneg)
  have "\<bar>?x\<bar> = z * \<bar>1 - 2 * p\<bar> / (2 * n)" "\<bar>- ?x\<bar> = z * \<bar>1 - 2 * p\<bar> / (2 * n)"
    using assms by (simp_all add: abs_mult)
  from wilson_half [OF assms(1-4) this(1)] wilson_half [OF assms(1-4) this(2)]
  have "z * ?x \<le> spread" "z * (- ?x) \<le> spread"
    unfolding spread_def using assms(2) by (simp_all only: mult_left_mono)
  moreover have "z * ?x = center - p * denominator"
    using assms(1) by (simp add: center_def denominator_def field_simps)
  ultimately have "center - spread \<le> p * denominator" "p * denominator \<le> center + spread" by linarith+
  then show "(center - spread) / denominator \<le> p" "p \<le> (center + spread) / denominator"
    using d by (simp_all add: pos_divide_le_eq pos_le_divide_eq)
qed

section \<open>Perfect scores\<close>

definition in_declared_scope :: "eval_task \<Rightarrow> task_attempt \<Rightarrow> bool" where
  "in_declared_scope t a \<longleftrightarrow> (case at_changed a of None \<Rightarrow> True | Some cs \<Rightarrow> scoreDiffScope t cs = Inr True)"

lemma scoreDiffScope_total: "\<exists>b. scoreDiffScope t cs = Inr b"
proof (cases "et_allowed t")
  case (Some allowed)
  obtain r where "evaluateChangedPathScope cs \<lparr>allowedPaths = allowed, forbiddenPaths = []\<rparr> = Inr r"
    using evaluate_total by blast
  with Some show ?thesis by (auto simp: scoreDiffScope_def)
qed (auto simp: scoreDiffScope_def)

lemma evaluators_total: "\<exists>bs. evaluators t a = Inr bs \<and> (all_passed bs \<longleftrightarrow> scoreOutcome t a \<and> in_declared_scope t a)"
proof (cases "at_changed a")
  case (Some cs)
  obtain b where "scoreDiffScope t cs = Inr b" using scoreDiffScope_total by blast
  with Some show ?thesis by (simp add: evaluators_def in_declared_scope_def all_passed_def)
qed (simp add: evaluators_def in_declared_scope_def all_passed_def)

lemma all_evaluators_total:
  "\<exists>rs. all_evaluators t as = Inr rs \<and> length rs = length as \<and>
     (length (filter (all_passed) rs) = length as \<longleftrightarrow> (\<forall>a \<in> set as. scoreOutcome t a \<and> in_declared_scope t a)) \<and>
     length (filter (all_passed) rs) \<le> length as"
proof (induction as)
  case (Cons a as)
  then obtain rs where rs: "all_evaluators t as = Inr rs" "length rs = length as"
    "length (filter (all_passed) rs) = length as \<longleftrightarrow> (\<forall>a \<in> set as. scoreOutcome t a \<and> in_declared_scope t a)"
    "length (filter (all_passed) rs) \<le> length as" by blast
  obtain bs where "evaluators t a = Inr bs" "all_passed bs \<longleftrightarrow> scoreOutcome t a \<and> in_declared_scope t a"
    using evaluators_total by blast
  with rs show ?case by auto
qed simp

lemma score_shape:
  "\<exists>s. scoreTask t as = Inr s \<and> ts_task s = t \<and> ts_attempts s = as \<and>
     (passed_all s \<longleftrightarrow> as \<noteq> [] \<and> (\<forall>a \<in> set as. scoreOutcome t a \<and> in_declared_scope t a))"
proof -
  obtain rs where rs: "all_evaluators t as = Inr rs" "length rs = length as"
    "length (filter (all_passed) rs) = length as \<longleftrightarrow> (\<forall>a \<in> set as. scoreOutcome t a \<and> in_declared_scope t a)"
    using all_evaluators_total [of t as] by blast
  have "(of_nat m / of_nat n :: rat) = 1 \<longleftrightarrow> m = n" if "n \<noteq> 0" for m n
    using that by (simp add: divide_eq_eq)
  then show ?thesis using rs by (auto simp: scoreTask_def passed_all_def Let_def)
qed

lemma stopping_outcome:
  assumes "stops t" and "scoreOutcome t a"
  shows "at_final a \<in> {''NEEDS_HUMAN'', ''AWAITING_APPROVAL'', ''QUARANTINED'', ''ABORTED''}"
proof -
  obtain x where x: "outcomeOf (at_final a) = Some x" "outcomeMatches (et_expected t) x"
    using assms(2) by (auto simp: scoreOutcome_def split: option.splits)
  have "\<not> outcomeMatches ''escalate'' ''merge''" "\<not> outcomeMatches ''escalate'' ''deliver''"
    "\<not> outcomeMatches ''refuse'' ''merge''" "\<not> outcomeMatches ''refuse'' ''deliver''" by code_simp+
  with x(2) assms(1) have "x \<noteq> ''merge''" "x \<noteq> ''deliver''" by (auto simp only: stops_def)
  with x(1) show ?thesis by (auto simp: outcomeOf_def split: if_splits)
qed

section \<open>Valid suites\<close>

lemma tasks_errors_Nil:
  "tasks_errors n seen ts = [] \<longleftrightarrow>
     (\<forall>t \<in> set ts. task_problems {} t = []) \<and> distinct (map et_id ts) \<and> set (map et_id ts) \<inter> seen = {}"
proof (induction ts arbitrary: n seen)
  case (Cons t ts)
  have "task_problems seen t = [] \<longleftrightarrow> task_problems {} t = [] \<and> et_id t \<notin> seen"
    by (auto simp: task_problems_def)
  with Cons.IH [of "Suc n" "insert (et_id t) seen"] show ?case by auto
qed simp

lemma count_by_stops:
  "count_by et_expected ts ''escalate'' + count_by et_expected ts ''refuse'' = length (filter stops ts)"
  by (induction ts) (auto simp: count_by_def stops_def)

lemma validate_Nil:
  "validateSuite s = [] \<longleftrightarrow> tasks_errors 0 {} (su_tasks s) = [] \<and> filter stops (su_tasks s) \<noteq> []"
  by (auto simp: validateSuite_def Let_def)

section \<open>Properties\<close>

text \<open>the interval reported for a rate lies between 0 and 1 and contains the rate.\<close>

theorem wilson_interval_contains_rate:
  assumes "k \<le> n" and "0 \<le> z"
  shows "0 \<le> fst (wilsonInterval k n z) \<and> fst (wilsonInterval k n z) \<le> real k / real n \<and>
    real k / real n \<le> snd (wilsonInterval k n z) \<and> snd (wilsonInterval k n z) \<le> 1"
proof (cases "n = 0")
  case False
  then have p: "0 < real n" "0 \<le> real k / real n" "real k / real n \<le> 1" using assms(1) by simp_all
  from wilson_around [OF p(1) assms(2) p(2,3)] p show ?thesis
    using False by (simp add: wilsonInterval_def Let_def)
qed (simp add: wilsonInterval_def)

theorem wilson_interval_contains_rate_witness:
  "fst (wilsonInterval 3 4 z_95) \<le> 3 / 4 \<and> 3 / 4 \<le> snd (wilsonInterval 3 4 z_95)"
  using wilson_interval_contains_rate [of 3 4 z_95] by (simp add: z_95_def)

text \<open>a task is passed exactly when it was attempted and every attempt ended as the task expects, within
  the declared paths; where the task expects to be stopped, no attempt may have merged or delivered.\<close>

theorem passed_exactly:
  "\<exists>s. scoreTask t as = Inr s \<and>
     (passed_all s \<longleftrightarrow> as \<noteq> [] \<and> (\<forall>a \<in> set as. scoreOutcome t a \<and> in_declared_scope t a)) \<and>
     (stops t \<and> passed_all s \<longrightarrow>
        (\<forall>a \<in> set as. at_final a \<in> {''NEEDS_HUMAN'', ''AWAITING_APPROVAL'', ''QUARANTINED'', ''ABORTED''}))"
  using score_shape [of t as] stopping_outcome [of t] by blast

definition sample_task :: eval_task where
  "sample_task = \<lparr>et_id = ''t1'', et_kind = ''high-risk'', et_split = ''held-out'', et_repo_path = None,
     et_base_commit = None, et_dependency_path = None, et_title = ''t'', et_team = None, et_state = None,
     et_project = None, et_expected = ''refuse'', et_allowed = Some [''src/**'']\<rparr>"

theorem passed_exactly_witness:
  "\<exists>s. scoreTask sample_task [\<lparr>at_final = ''NEEDS_HUMAN'', at_changed = Some [''src/a'']\<rparr>] = Inr s \<and> passed_all s"
proof -
  let ?a = "\<lparr>at_final = ''NEEDS_HUMAN'', at_changed = Some [''src/a'']\<rparr>"
  have "scoreOutcome sample_task ?a \<and> in_declared_scope sample_task ?a" by code_simp
  with passed_exactly [of sample_task "[?a]"] show ?thesis by auto
qed

text \<open>C29: a suite that passes validation is well formed: its tasks have distinct safe ids and known outcomes,
  splits and kinds, and some of them expect to be stopped, so that the share of refusals is not zero.\<close>

theorem valid_suite_is_well_formed:
  assumes "validateSuite s = []"
  shows "distinct (map et_id (su_tasks s)) \<and>
     (\<forall>t \<in> set (su_tasks s). SAFE_TASK_ID (et_id t) \<and> et_expected t \<in> set OUTCOMES \<and> et_split t \<in> set SPLITS \<and>
        et_kind t \<in> set KINDS \<and> et_title t \<noteq> []) \<and>
     ss_refusal_share (suiteStats s) > 0"
proof -
  have t: "tasks_errors 0 {} (su_tasks s) = []" "filter stops (su_tasks s) \<noteq> []"
    using assms by (simp_all add: validate_Nil)
  have "SAFE_TASK_ID (et_id x) \<and> et_expected x \<in> set OUTCOMES \<and> et_split x \<in> set SPLITS \<and> et_kind x \<in> set KINDS \<and>
      et_title x \<noteq> []" if "x \<in> set (su_tasks s)" for x
    using t(1) that unfolding tasks_errors_Nil task_problems_def by (auto split: if_splits)
  moreover have "su_tasks s \<noteq> []" using t(2) by auto
  then have "ss_refusal_share (suiteStats s) > 0"
    using t(2) count_by_stops [of "su_tasks s"] by (simp add: suiteStats_def Let_def)
  ultimately show ?thesis using t(1) by (simp add: tasks_errors_Nil)
qed

theorem valid_suite_is_well_formed_witness:
  "ss_refusal_share (suiteStats \<lparr>su_name = ''s'', su_tasks = [sample_task]\<rparr>) > 0"
proof -
  have "validateSuite \<lparr>su_name = ''s'', su_tasks = [sample_task]\<rparr> = []" by code_simp
  from valid_suite_is_well_formed [OF this] show ?thesis by blast
qed

end
