(* ===== verification/Control_Auth.thy ===== *)
theory Control_Auth
  imports Approval
begin

text \<open>
  Authentication of control requests (\<open>src/src/asf/control-auth.ts\<close>): the signer that issues a
  short-lived, one-request capability for the trusted controller, and the verifier with its bounded
  nonce fence. The keyed hash of the crypto library is a parameter; instants, digests and the schema
  validator are those of \<open>store_env\<close>. A call of the verifier returns its result and the authenticator it
  leaves, since a refused call may already have dropped expired nonces.
\<close>

section \<open>Authentications\<close>

datatype control_refusal =
  Malformed | UntrustedController | InvalidTime | BindingMismatch | InvalidSignature | Replay | ReplayCapacity

text \<open>Constructors and the signer throw a plain error or one of the validator.\<close>

datatype control_error = ControlRejected

definition nonce_text :: "string \<Rightarrow> bool" where
  "nonce_text s \<longleftrightarrow> js_starts_with ''base64url:'' s \<and> 22 \<le> length (drop 10 s) \<and> length (drop 10 s) \<le> 128 \<and>
     list_all base64url_char (drop 10 s)"

definition control_signature_text :: "string \<Rightarrow> bool" where
  "control_signature_text s \<longleftrightarrow>
     js_starts_with ''base64url:'' s \<and> length (drop 10 s) = 43 \<and> list_all base64url_char (drop 10 s)"

definition asfControlAuthenticationSchema :: "formats \<Rightarrow> zschema" where
  "asfControlAuthenticationSchema f = ZObject
     [required ''schema'' (ZLiteral ''asf.control-authentication/v1''),
      required ''controller_id'' (ZString approval_identifier),
      required ''key_id'' (ZString approval_identifier),
      required ''issued_at'' (timestampSchema f),
      required ''expires_at'' (timestampSchema f),
      required ''nonce'' (ZString nonce_text),
      required ''request_digest'' digestSchema,
      required ''signature'' (ZString control_signature_text)]"

text \<open>The parsed value with its members, over which the signature is taken.\<close>

record control_authentication =
  au_controller :: string
  au_key :: string
  au_issued :: string
  au_expires :: string
  au_nonce :: string
  au_digest :: string
  au_signature :: string
  au_members :: "(string \<times> json) list"

definition read_authentication :: "json \<Rightarrow> control_authentication option" where
  "read_authentication j =
     (case j of
        JObject ms \<Rightarrow>
          (case (text_field ms ''controller_id'', text_field ms ''key_id'', text_field ms ''issued_at'',
                 text_field ms ''expires_at'', text_field ms ''nonce'', text_field ms ''request_digest'',
                 text_field ms ''signature'') of
             (Some c, Some k, Some i, Some e, Some n, Some d, Some s) \<Rightarrow>
               Some \<lparr>au_controller = c, au_key = k, au_issued = i, au_expires = e, au_nonce = n,
                 au_digest = d, au_signature = s, au_members = ms\<rparr>
           | _ \<Rightarrow> None)
      | _ \<Rightarrow> None)"

definition parse_authentication :: "store_env \<Rightarrow> json \<Rightarrow> control_authentication option" where
  "parse_authentication env raw =
     Option.bind (safe_parse (recovery env) (asfControlAuthenticationSchema (formats_of (recovery env))) raw)
       read_authentication"

section \<open>Keys\<close>

datatype secret = SecretText string | SecretBytes "nat list"

record control_key =
  ck_controller :: string
  ck_id :: string
  ck_secret :: secret

text \<open>\<open>TextEncoder\<close> on the characters of the model, code points below 256.\<close>

definition utf8_char :: "char \<Rightarrow> nat list" where
  "utf8_char c = (let n = of_char c in if n < 128 then [n] else [192 + n div 64, 128 + n mod 64])"

definition secretBytes :: "secret \<Rightarrow> control_error + nat list" where
  "secretBytes s =
     (let bytes = (case s of SecretText t \<Rightarrow> concat (map utf8_char t) | SecretBytes bs \<Rightarrow> bs)
      in if length bytes < 32 then Inl ControlRejected else Inr bytes)"

definition keyCoordinate :: "string \<Rightarrow> string \<Rightarrow> string" where
  "keyCoordinate controller key = controller @ CHR 0x00 # key"

definition replayCoordinate :: "control_authentication \<Rightarrow> string" where
  "replayCoordinate a = au_controller a @ CHR 0x00 # au_key a @ CHR 0x00 # au_nonce a"

definition parse_identifier :: "store_env \<Rightarrow> string \<Rightarrow> control_error + string" where
  "parse_identifier env s =
     (case safe_parse (recovery env) (ZString approval_identifier) (JString s) of
        Some (JString s') \<Rightarrow> Inr s'
      | _ \<Rightarrow> Inl ControlRejected)"

text \<open>\<open>hmac secret text\<close> is \<open>createHmac("sha256", secret)\<close> over the UTF-8 bytes of the text.\<close>

type_synonym hmac = "nat list \<Rightarrow> string \<Rightarrow> nat list"

definition encodeSignature :: "nat list \<Rightarrow> string" where
  "encodeSignature bytes = ''base64url:'' @ base64url_encode bytes"

definition decodeSignature :: "string \<Rightarrow> nat list" where
  "decodeSignature s = base64url_decode (drop 10 s)"

definition signingPayload :: "store_env \<Rightarrow> (string \<times> json) list \<Rightarrow> string" where
  "signingPayload env body = canonicalJson env (JObject body)"

definition controlRequestDigest :: "store_env \<Rightarrow> json \<Rightarrow> string" where
  "controlRequestDigest env request = digest_of env request"

definition is_safe_integer :: "rat \<Rightarrow> bool" where
  "is_safe_integer q \<longleftrightarrow> q = of_int \<lfloor>q\<rfloor> \<and> safe_int \<lfloor>q\<rfloor>"

section \<open>The signer\<close>

record control_signer =
  cs_controller :: string
  cs_key :: string
  cs_secret :: "nat list"
  cs_lifetime :: rat

definition new_signer :: "store_env \<Rightarrow> control_key \<Rightarrow> rat option \<Rightarrow> control_error + control_signer" where
  "new_signer env key lifetimeMs =
     and_then (parse_identifier env (ck_controller key)) (\<lambda>controllerId.
     and_then (parse_identifier env (ck_id key)) (\<lambda>keyId.
     and_then (secretBytes (ck_secret key)) (\<lambda>bytes.
       let life = (case lifetimeMs of None \<Rightarrow> 5000 | Some l \<Rightarrow> l)
       in if \<not> is_safe_integer life \<or> life < 1 \<or> life > 30000 then Inl ControlRejected
          else Inr \<lparr>cs_controller = controllerId, cs_key = keyId, cs_secret = bytes, cs_lifetime = life\<rparr>)))"

definition to_iso :: "store_env \<Rightarrow> rat \<Rightarrow> control_error + string" where
  "to_iso env t = (case iso env t of None \<Rightarrow> Inl ControlRejected | Some s \<Rightarrow> Inr s)"

definition authentication_members :: "control_signer \<Rightarrow> string \<Rightarrow> string \<Rightarrow> string \<Rightarrow> string \<Rightarrow> (string \<times> json) list" where
  "authentication_members s issued expires nonce digest =
     [(''schema'', JString ''asf.control-authentication/v1''), (''controller_id'', JString (cs_controller s)),
      (''key_id'', JString (cs_key s)), (''issued_at'', JString issued), (''expires_at'', JString expires),
      (''nonce'', JString nonce), (''request_digest'', JString digest)]"

text \<open>\<open>drawn\<close> is what the nonce source returns.\<close>

definition authenticate :: "hmac \<Rightarrow> store_env \<Rightarrow> control_signer \<Rightarrow> string \<Rightarrow> json \<Rightarrow> control_error + json" where
  "authenticate mac env s drawn request =
     and_then (to_iso env (clock env)) (\<lambda>issued.
     and_then (to_iso env (clock env + cs_lifetime s)) (\<lambda>expires.
       case safe_parse (recovery env) (ZString nonce_text) (JString drawn) of
         Some (JString nonce) \<Rightarrow>
           (let body = authentication_members s issued expires nonce (controlRequestDigest env request)
            in case safe_parse (recovery env) (asfControlAuthenticationSchema (formats_of (recovery env)))
                 (JObject (body @ [(''signature'',
                    JString (encodeSignature (mac (cs_secret s) (signingPayload env body))))])) of
                 None \<Rightarrow> Inl ControlRejected
               | Some j \<Rightarrow> Inr j)
       | _ \<Rightarrow> Inl ControlRejected))"

section \<open>The verifier\<close>

text \<open>The two maps of the code as lists of pairs in insertion order.\<close>

record authenticator =
  at_keys :: "(string \<times> nat list) list"
  at_lifetime :: rat
  at_skew :: rat
  at_capacity :: rat
  at_nonces :: "(string \<times> rat) list"

fun add_keys :: "store_env \<Rightarrow> (string \<times> nat list) list \<Rightarrow> control_key list \<Rightarrow>
    control_error + (string \<times> nat list) list" where
  "add_keys env acc [] = Inr acc"
| "add_keys env acc (k # ks) =
     and_then (parse_identifier env (ck_controller k)) (\<lambda>controllerId.
     and_then (parse_identifier env (ck_id k)) (\<lambda>keyId.
       if keyCoordinate controllerId keyId \<in> set (map fst acc) then Inl ControlRejected
       else and_then (secretBytes (ck_secret k)) (\<lambda>bytes.
              add_keys env (acc @ [(keyCoordinate controllerId keyId, bytes)]) ks)))"

definition new_authenticator :: "store_env \<Rightarrow> control_key list \<Rightarrow> rat option \<Rightarrow> rat option \<Rightarrow> rat option \<Rightarrow>
    control_error + authenticator" where
  "new_authenticator env keys maximumLifetimeMs maximumClockSkewMs maximumLiveNonces =
     (if keys = [] then Inl ControlRejected
      else and_then (add_keys env [] keys) (\<lambda>table.
        let life = (case maximumLifetimeMs of None \<Rightarrow> 5000 | Some v \<Rightarrow> v);
            skew = (case maximumClockSkewMs of None \<Rightarrow> 1000 | Some v \<Rightarrow> v);
            live = (case maximumLiveNonces of None \<Rightarrow> 10000 | Some v \<Rightarrow> v)
        in if list_ex (\<lambda>v. \<not> is_safe_integer v \<or> v < 1) [life, skew, live] then Inl ControlRejected
           else if life > 30000 \<or> skew > 30000 then Inl ControlRejected
           else Inr \<lparr>at_keys = table, at_lifetime = life, at_skew = skew, at_capacity = live, at_nonces = []\<rparr>))"

definition time_invalid :: "authenticator \<Rightarrow> rat \<Rightarrow> rat \<Rightarrow> rat \<Rightarrow> bool" where
  "time_invalid au now_ms issuedAt expiresAt \<longleftrightarrow>
     issuedAt > now_ms + at_skew au \<or> expiresAt < now_ms - at_skew au \<or> expiresAt \<le> issuedAt \<or>
     expiresAt - issuedAt > at_lifetime au"

text \<open>The checks up to the signature, in the order of the code; they yield the expiry to remember.\<close>

definition check_authentication ::
  "hmac \<Rightarrow> store_env \<Rightarrow> authenticator \<Rightarrow> json \<Rightarrow> json \<Rightarrow> control_refusal + (control_authentication \<times> rat)" where
  "check_authentication mac env au request raw =
     (case parse_authentication env raw of
        None \<Rightarrow> Inl Malformed
      | Some a \<Rightarrow>
          (case map_of (at_keys au) (keyCoordinate (au_controller a) (au_key a)) of
             None \<Rightarrow> Inl UntrustedController
           | Some secret \<Rightarrow>
               (case (parse_time env (au_issued a), parse_time env (au_expires a)) of
                  (Some issuedAt, Some expiresAt) \<Rightarrow>
                    if time_invalid au (clock env) issuedAt expiresAt then Inl InvalidTime
                    else if au_digest a \<noteq> controlRequestDigest env request then Inl BindingMismatch
                    else let expected = mac secret
                               (signingPayload env (filter (\<lambda>m. fst m \<noteq> ''signature'') (au_members a)));
                             actual = decodeSignature (au_signature a)
                         in if length actual \<noteq> length expected \<or> actual \<noteq> expected then Inl InvalidSignature
                            else Inr (a, expiresAt)
                | _ \<Rightarrow> Inl InvalidTime)))"

definition live_nonces :: "rat \<Rightarrow> authenticator \<Rightarrow> (string \<times> rat) list" where
  "live_nonces now_ms au = filter (\<lambda>n. \<not> snd n < now_ms - at_skew au) (at_nonces au)"

definition verify_request ::
  "hmac \<Rightarrow> store_env \<Rightarrow> authenticator \<Rightarrow> json \<Rightarrow> json \<Rightarrow> (control_refusal + unit) \<times> authenticator" where
  "verify_request mac env au request raw =
     (case check_authentication mac env au request raw of
        Inl refusal \<Rightarrow> (Inl refusal, au)
      | Inr (a, expiresAt) \<Rightarrow>
          (let live = live_nonces (clock env) au; pruned = au\<lparr>at_nonces := live\<rparr>
           in if replayCoordinate a \<in> set (map fst live) then (Inl Replay, pruned)
              else if rat_of_nat (length live) \<ge> at_capacity au then (Inl ReplayCapacity, pruned)
              else (Inr (), au\<lparr>at_nonces := live @ [(replayCoordinate a, expiresAt)]\<rparr>)))"

text \<open>A server's successive calls, each at its own reading of the clock.\<close>

fun verify_all :: "hmac \<Rightarrow> store_env \<Rightarrow> authenticator \<Rightarrow> (rat \<times> json \<times> json) list \<Rightarrow> (control_refusal + unit) list" where
  "verify_all mac env au [] = []"
| "verify_all mac env au ((t, request, raw) # reqs) =
     (case verify_request mac (at_clock env t) au request raw of
        (result, au') \<Rightarrow> result # verify_all mac env au' reqs)"

section \<open>Lemmas of the encoding\<close>

lemma length_bits_of [simp]: "length (bits_of w n) = w"
  by (induction w arbitrary: n) auto

lemma number_of_bits_snoc: "number_of_bits (bs @ [b]) = 2 * number_of_bits bs + (if b then 1 else 0)"
  by simp

declare number_of_bits.simps [simp del]

lemma number_of_bits_Nil [simp]: "number_of_bits [] = 0"
  by (simp add: number_of_bits.simps)

lemma number_of_bits_of: "number_of_bits (bits_of w n) = n mod 2 ^ w"
proof (induction w arbitrary: n)
  case (Suc w)
  then show ?case by (simp add: number_of_bits_snoc mod_mult2_eq)
qed simp

lemma bits_of_number: "bits_of (length bs) (number_of_bits bs) = bs"
  by (induction bs rule: rev_induct) (simp_all add: number_of_bits_snoc)

lemma number_of_bits_bound: "number_of_bits bs < 2 ^ length bs"
  by (induction bs rule: rev_induct) (simp_all add: number_of_bits_snoc)

text \<open>Six bits of a digit, the last one filled up.\<close>

definition first_digit :: "bool list \<Rightarrow> bool list" where
  "first_digit bs = take 6 bs @ replicate (6 - length bs) False"

lemma length_first_digit [simp]: "length (first_digit bs) = 6"
  by (simp add: first_digit_def)

lemma digits_Nil [simp]: "digits_of_bits [] = []"
  by (simp add: digits_of_bits.simps)

lemma digits_step:
  "bs \<noteq> [] \<Longrightarrow> digits_of_bits bs = number_of_bits (first_digit bs) # digits_of_bits (drop 6 bs)"
  by (subst digits_of_bits.simps) (simp add: first_digit_def)

lemma digits_bits: "\<exists>k<6. concat (map (bits_of 6) (digits_of_bits bs)) = bs @ replicate k False"
proof (induction bs rule: digits_of_bits.induct)
  case (1 bs)
  have first: "bits_of 6 (number_of_bits (first_digit bs)) = first_digit bs"
    using bits_of_number [of "first_digit bs"] by simp
  show ?case
  proof (cases "length bs < 6")
    case True
    then show ?thesis using first
      by (cases "bs = []") (auto simp: digits_step first_digit_def intro!: exI [of _ "6 - length bs"])
  next
    case False
    then have "bs \<noteq> []" by auto
    with 1 obtain k where "k < 6" "concat (map (bits_of 6) (digits_of_bits (drop 6 bs))) = drop 6 bs @ replicate k False"
      by blast
    with False \<open>bs \<noteq> []\<close> first show ?thesis
      by (intro exI [of _ k]) (simp add: digits_step first_digit_def)
  qed
qed

lemma digits_bound: "list_all (\<lambda>d. d < 64) (digits_of_bits bs)"
proof (induction bs rule: digits_of_bits.induct)
  case (1 bs)
  then show ?case
    using number_of_bits_bound [of "first_digit bs"] by (cases "bs = []") (simp_all add: digits_step)
qed

lemma length_digits: "length (digits_of_bits bs) = (length bs + 5) div 6"
proof (induction bs rule: digits_of_bits.induct)
  case (1 bs)
  have "Suc ((n - 6 + 5) div 6) = (n + 5) div 6" if "n > 0" for n :: nat
    using that by (cases "n < 6") (auto simp: div_if)
  with 1 show ?case by (cases "bs = []") (simp_all add: digits_step)
qed

lemma bytes_bits:
  "list_all (\<lambda>n. n < 256) ns \<Longrightarrow> k < 8 \<Longrightarrow>
   bytes_of_bits (concat (map (bits_of 8) ns) @ replicate k False) = ns"
  by (induction ns) (simp_all add: bytes_of_bits.simps number_of_bits_of)

lemma alphabet_digits: "map base64_digit base64_alphabet = [0..<64]"
  by (simp add: base64_alphabet_def base64_digit_def upper_alpha_def lower_alpha_def digit_char_def char_in_def
      upt_conv_Cons)

lemma alphabet_chars: "list_all base64url_char base64_alphabet"
  by (simp add: base64_alphabet_def base64url_char_def upper_alpha_def lower_alpha_def digit_char_def char_in_def)

lemma alphabet:
  assumes "d < 64"
  shows "base64_digit (base64_alphabet ! d) = d" and "base64url_char (base64_alphabet ! d)"
proof -
  have n: "length base64_alphabet = 64" by (simp add: base64_alphabet_def)
  with assms have "map base64_digit base64_alphabet ! d = base64_digit (base64_alphabet ! d)" by simp
  then show "base64_digit (base64_alphabet ! d) = d" using assms by (simp add: alphabet_digits)
  show "base64url_char (base64_alphabet ! d)" using alphabet_chars n assms by (simp add: list_all_length)
qed

theorem base64url_round_trip:
  assumes "list_all (\<lambda>n. n < 256) bs"
  shows "base64url_decode (base64url_encode bs) = bs"
proof -
  let ?ds = "digits_of_bits (concat (map (bits_of 8) bs))"
  obtain k where k: "k < 6" "concat (map (bits_of 6) ?ds) = concat (map (bits_of 8) bs) @ replicate k False"
    using digits_bits by blast
  have m: "map (\<lambda>d. bits_of 6 (base64_digit (base64_alphabet ! d))) ?ds = map (bits_of 6) ?ds"
    using digits_bound [of "concat (map (bits_of 8) bs)"] by (simp add: list_all_iff alphabet)
  show ?thesis
    unfolding base64url_decode_def base64url_encode_def map_map comp_def m k(2)
    using k(1) assms by (simp add: bytes_bits)
qed

lemma encoded_signature:
  assumes "length bs = 32" and "list_all (\<lambda>n. n < 256) bs"
  shows "decodeSignature (encodeSignature bs) = bs" and "control_signature_text (encodeSignature bs)"
proof -
  let ?bits = "concat (map (bits_of 8) bs)"
  show "decodeSignature (encodeSignature bs) = bs"
    using base64url_round_trip [OF assms(2)] by (simp add: decodeSignature_def encodeSignature_def)
  have "length ?bits = 256" using assms(1) by (simp add: length_concat comp_def sum_list_triv)
  then have "length (base64url_encode bs) = 43" by (simp add: base64url_encode_def length_digits)
  moreover have "list_all base64url_char (base64url_encode bs)"
    using digits_bound [of ?bits] by (auto simp: base64url_encode_def list_all_iff alphabet)
  ultimately show "control_signature_text (encodeSignature bs)"
    by (simp add: control_signature_text_def encodeSignature_def js_starts_with_iff)
qed

section \<open>Lemmas of the verifier\<close>

lemma env_at_clock [simp]:
  "formats_of (recovery (at_clock env t)) = formats_of (recovery env)"
  "safe_parse (recovery (at_clock env t)) = safe_parse (recovery env)"
  "parse_authentication (at_clock env t) raw = parse_authentication env raw"
  "signingPayload (at_clock env t) ms = signingPayload env ms"
  "controlRequestDigest (at_clock env t) request = controlRequestDigest env request"
  by (simp_all add: at_clock_def parse_authentication_def signingPayload_def controlRequestDigest_def
      digest_of_def)

lemma check_Inr:
  "check_authentication mac env au request raw = Inr (a, e) \<longleftrightarrow>
     parse_authentication env raw = Some a \<and>
     (\<exists>secret i. map_of (at_keys au) (keyCoordinate (au_controller a) (au_key a)) = Some secret \<and>
        parse_time env (au_issued a) = Some i \<and> parse_time env (au_expires a) = Some e \<and>
        \<not> time_invalid au (clock env) i e \<and> au_digest a = controlRequestDigest env request \<and>
        decodeSignature (au_signature a) =
          mac secret (signingPayload env (filter (\<lambda>m. fst m \<noteq> ''signature'') (au_members a))))"
  unfolding check_authentication_def Let_def by (auto split: option.splits if_splits)

lemma verify_Inr:
  "fst (verify_request mac env au request raw) = Inr () \<longleftrightarrow>
     (\<exists>a e. check_authentication mac env au request raw = Inr (a, e) \<and>
        replayCoordinate a \<notin> fst ` set (live_nonces (clock env) au) \<and>
        rat_of_nat (length (live_nonces (clock env) au)) < at_capacity au)"
  by (auto simp: verify_request_def Let_def not_le split: sum.splits)

lemma verify_remembers:
  "fst (verify_request mac env au request raw) = Inr () \<Longrightarrow>
   check_authentication mac env au request raw = Inr (a, e) \<Longrightarrow>
   (replayCoordinate a, e) \<in> set (at_nonces (snd (verify_request mac env au request raw)))"
  by (auto simp: verify_request_def Let_def split: if_splits)

lemma verify_config [simp]:
  "at_keys (snd (verify_request mac env au request raw)) = at_keys au"
  "at_skew (snd (verify_request mac env au request raw)) = at_skew au"
  "at_lifetime (snd (verify_request mac env au request raw)) = at_lifetime au"
  "at_capacity (snd (verify_request mac env au request raw)) = at_capacity au"
  by (auto simp: verify_request_def Let_def split: sum.splits)

lemma verify_keeps:
  "(c, e) \<in> set (at_nonces au) \<Longrightarrow>
   (c, e) \<in> set (at_nonces (snd (verify_request mac env au request raw))) \<or> e < clock env - at_skew au"
  by (auto simp: verify_request_def Let_def live_nonces_def split: sum.splits)

text \<open>A remembered nonce refuses every later authentication that carries it until it has expired.\<close>

lemma nonce_kept:
  assumes "(replayCoordinate b, e) \<in> set (at_nonces au)" and "sorted (map fst reqs)" and "j < length reqs"
    and "verify_all mac env au reqs ! j = Inr ()"
    and "parse_authentication env (snd (snd (reqs ! j))) = Some b"
  shows "e < fst (reqs ! j) - at_skew au"
  using assms
proof (induction reqs arbitrary: au j)
  case (Cons call reqs)
  obtain t request raw where call: "call = (t, request, raw)" by (cases call)
  obtain r au' where v: "verify_request mac (at_clock env t) au request raw = (r, au')" by fastforce
  note kept = verify_keeps [OF Cons.prems(1), of mac "at_clock env t" request raw]
  show ?case
  proof (cases j)
    case 0
    with Cons.prems(4) call v have "fst (verify_request mac (at_clock env t) au request raw) = Inr ()" by simp
    then obtain a e' where "check_authentication mac (at_clock env t) au request raw = Inr (a, e')"
        "replayCoordinate a \<notin> fst ` set (live_nonces t au)"
      by (auto simp: verify_Inr)
    moreover have "parse_authentication env raw = Some b" using 0 Cons.prems(5) call by simp
    ultimately have "(replayCoordinate b, e) \<notin> set (live_nonces t au)"
      by (force simp: check_Inr)
    with 0 Cons.prems(1) call show ?thesis by (simp add: live_nonces_def)
  next
    case (Suc k)
    have later: "t \<le> fst (reqs ! k)" using Cons.prems(2,3) Suc call by simp
    consider "(replayCoordinate b, e) \<in> set (at_nonces au')" | "e < t - at_skew au" using kept v by auto
    then show ?thesis
    proof cases
      case 1
      have "at_skew au' = at_skew au" using verify_config(2) [of mac "at_clock env t" au request raw] v by simp
      with 1 Cons.IH [of au' k] Cons.prems Suc call v show ?thesis by simp
    next
      case 2
      with later Suc show ?thesis by simp
    qed
  qed
qed simp

lemma accepted_kept:
  assumes "sorted (map fst reqs)" and "i < j" and "j < length reqs"
    and "verify_all mac env au reqs ! i = Inr ()" and "verify_all mac env au reqs ! j = Inr ()"
    and "parse_authentication env (snd (snd (reqs ! i))) = Some a"
    and "parse_authentication env (snd (snd (reqs ! j))) = Some b" and "replayCoordinate b = replayCoordinate a"
  shows "\<exists>e. parse_time env (au_expires a) = Some e \<and> e < fst (reqs ! j) - at_skew au"
  using assms
proof (induction reqs arbitrary: au i j)
  case (Cons call reqs)
  obtain t request raw where call: "call = (t, request, raw)" by (cases call)
  obtain r au' where v: "verify_request mac (at_clock env t) au request raw = (r, au')" by fastforce
  have skew: "at_skew au' = at_skew au" using verify_config(2) [of mac "at_clock env t" au request raw] v by simp
  obtain k where j: "j = Suc k" using Cons.prems(2) by (cases j) auto
  show ?case
  proof (cases i)
    case 0
    with Cons.prems(4) call v have ok: "fst (verify_request mac (at_clock env t) au request raw) = Inr ()" by simp
    moreover have "parse_authentication env raw = Some a" using 0 Cons.prems(6) call by simp
    ultimately obtain e where e: "check_authentication mac (at_clock env t) au request raw = Inr (a, e)"
      by (auto simp: verify_Inr check_Inr)
    from verify_remembers [OF ok e] v Cons.prems(8)
    have "(replayCoordinate b, e) \<in> set (at_nonces au')" by simp
    from nonce_kept [OF this, of reqs k mac env] Cons.prems j call v skew
    have "e < fst ((call # reqs) ! j) - at_skew au" by simp
    with e show ?thesis by (auto simp: check_Inr)
  next
    case (Suc m)
    with Cons.IH [of m k au'] Cons.prems j call v skew show ?thesis by simp
  qed
qed simp

lemma accepted_in_time:
  assumes "j < length reqs" and "verify_all mac env au reqs ! j = Inr ()"
    and "parse_authentication env (snd (snd (reqs ! j))) = Some b" and "parse_time env (au_expires b) = Some e"
  shows "\<not> e < fst (reqs ! j) - at_skew au"
  using assms
proof (induction reqs arbitrary: au j)
  case (Cons call reqs)
  obtain t request raw where call: "call = (t, request, raw)" by (cases call)
  obtain r au' where v: "verify_request mac (at_clock env t) au request raw = (r, au')" by fastforce
  have skew: "at_skew au' = at_skew au" using verify_config(2) [of mac "at_clock env t" au request raw] v by simp
  show ?case
  proof (cases j)
    case 0
    with Cons.prems(2) call v have "fst (verify_request mac (at_clock env t) au request raw) = Inr ()" by simp
    with 0 Cons.prems(3,4) call show ?thesis by (auto simp: verify_Inr check_Inr time_invalid_def)
  next
    case (Suc k)
    with Cons.IH [of k au'] Cons.prems call v skew show ?thesis by simp
  qed
qed simp

section \<open>Lemmas of the signer\<close>

lemma parse_identifier_Inr:
  assumes "documented_parse (safe_parse (recovery env))" and "parse_identifier env s = Inr s'"
  shows "s' = s \<and> approval_identifier s"
proof -
  obtain j where j: "safe_parse (recovery env) (ZString approval_identifier) (JString s) = Some j"
    using assms(2) by (auto simp: parse_identifier_def split: option.splits)
  with assms(1) have "j = JString s" "conforms (ZString approval_identifier) (JString s)"
    unfolding documented_parse_def by blast+
  with j assms(2) show ?thesis by (simp add: parse_identifier_def)
qed

lemma add_keys_keeps: "add_keys env acc ks = Inr table \<Longrightarrow> map_of acc c = Some b \<Longrightarrow> map_of table c = Some b"
  by (induction ks arbitrary: acc) (force simp: result_simps map_add_Some_iff split: if_splits)+

lemma add_keys_find:
  assumes "add_keys env acc ks = Inr table" and "k \<in> set ks" and "documented_parse (safe_parse (recovery env))"
    and "secretBytes (ck_secret k) = Inr bytes"
  shows "map_of table (keyCoordinate (ck_controller k) (ck_id k)) = Some bytes"
  using assms(1,2)
proof (induction ks arbitrary: acc)
  case (Cons k' ks)
  from Cons.prems(1) obtain c i bs where
    c: "parse_identifier env (ck_controller k') = Inr c" "parse_identifier env (ck_id k') = Inr i"
      "keyCoordinate c i \<notin> set (map fst acc)" "secretBytes (ck_secret k') = Inr bs"
      "add_keys env (acc @ [(keyCoordinate c i, bs)]) ks = Inr table"
    by (auto simp: result_simps split: if_splits)
  show ?case
  proof (cases "k = k'")
    case True
    have "map_of (acc @ [(keyCoordinate c i, bs)]) (keyCoordinate c i) = Some bs"
      using c(3) by (simp add: map_add_Some_iff map_of_eq_None_iff)
    from add_keys_keeps [OF c(5) this] True assms(4) c(4)
      parse_identifier_Inr [OF assms(3) c(1)] parse_identifier_Inr [OF assms(3) c(2)]
    show ?thesis by simp
  next
    case False
    with Cons.IH [OF c(5)] Cons.prems(2) show ?thesis by simp
  qed
qed simp

lemma new_signer_Inr:
  assumes "documented_parse (safe_parse (recovery env))" and "new_signer env key life = Inr s"
  shows "cs_controller s = ck_controller key" and "cs_key s = ck_id key"
    and "approval_identifier (cs_controller s)" and "approval_identifier (cs_key s)"
    and "secretBytes (ck_secret key) = Inr (cs_secret s)" and "1 \<le> cs_lifetime s"
proof -
  obtain c i b where c: "parse_identifier env (ck_controller key) = Inr c" "parse_identifier env (ck_id key) = Inr i"
      "secretBytes (ck_secret key) = Inr b"
      "cs_controller s = c" "cs_key s = i" "cs_secret s = b" "1 \<le> cs_lifetime s"
    using assms(2) by (auto simp: new_signer_def Let_def result_simps not_less split: if_splits)
  note i = parse_identifier_Inr [OF assms(1) c(1)] parse_identifier_Inr [OF assms(1) c(2)]
  from c i show "cs_controller s = ck_controller key" "cs_key s = ck_id key"
    "approval_identifier (cs_controller s)" "approval_identifier (cs_key s)"
    "secretBytes (ck_secret key) = Inr (cs_secret s)" "1 \<le> cs_lifetime s" by simp_all
qed

text \<open>What the signer of a configuration issues at its clock, as the verifier reads it.\<close>

definition issued_authentication ::
  "control_signer \<Rightarrow> string \<Rightarrow> string \<Rightarrow> string \<Rightarrow> string \<Rightarrow> nat list \<Rightarrow> control_authentication" where
  "issued_authentication s issued expires nonce digest tag =
     \<lparr>au_controller = cs_controller s, au_key = cs_key s, au_issued = issued, au_expires = expires,
      au_nonce = nonce, au_digest = digest, au_signature = encodeSignature tag,
      au_members = authentication_members s issued expires nonce digest @ [(''signature'', JString (encodeSignature tag))]\<rparr>"

lemma issued_conforms:
  assumes "approval_identifier (cs_controller s)" and "approval_identifier (cs_key s)"
    and "is_datetime f issued" and "is_datetime f expires" and "nonce_text nonce" and "is_digest digest"
    and "length tag = 32" and "list_all (\<lambda>b. b < 256) tag"
  shows "conforms (asfControlAuthenticationSchema f)
    (JObject (au_members (issued_authentication s issued expires nonce digest tag)))"
  using assms encoded_signature [of tag]
  by (simp add: asfControlAuthenticationSchema_def issued_authentication_def authentication_members_def required_def
      timestampSchema_def digestSchema_def)

lemma issued_read:
  "read_authentication (JObject (au_members (issued_authentication s issued expires nonce digest tag))) =
     Some (issued_authentication s issued expires nonce digest tag)"
  by (simp add: read_authentication_def issued_authentication_def authentication_members_def text_field_def)

lemma issued_unsigned:
  "filter (\<lambda>m. fst m \<noteq> ''signature'') (au_members (issued_authentication s issued expires nonce digest tag)) =
     authentication_members s issued expires nonce digest"
  by (simp add: issued_authentication_def authentication_members_def)

section \<open>Properties\<close>

text \<open>The fence never outgrows its bound and holds a nonce once.\<close>

definition verify_step :: "hmac \<Rightarrow> store_env \<Rightarrow> authenticator \<Rightarrow> rat \<times> json \<times> json \<Rightarrow> authenticator \<Rightarrow> bool" where
  "verify_step mac env au call au' \<longleftrightarrow>
     snd (verify_request mac (at_clock env (fst call)) au (fst (snd call)) (snd (snd call))) = au'"

definition fence_bounded :: "authenticator \<Rightarrow> bool" where
  "fence_bounded au \<longleftrightarrow> is_safe_integer (at_capacity au) \<and>
     rat_of_nat (length (at_nonces au)) \<le> at_capacity au \<and> distinct (map fst (at_nonces au))"

lemma below_integer: "is_safe_integer c \<Longrightarrow> rat_of_nat n < c \<Longrightarrow> rat_of_nat (Suc n) \<le> c"
proof -
  assume c: "is_safe_integer c" and n: "rat_of_nat n < c"
  then obtain z where z: "c = of_int z" by (auto simp: is_safe_integer_def)
  with n have "int n < z" by (metis of_int_less_iff of_int_of_nat_eq)
  then have "int (Suc n) \<le> z" by simp
  then have "rat_of_int (int (Suc n)) \<le> of_int z" by (simp only: of_int_le_iff)
  with z show ?thesis by simp
qed

lemma live_bounded: "length (live_nonces t au) \<le> length (at_nonces au)"
  "distinct (map fst (at_nonces au)) \<Longrightarrow> distinct (map fst (live_nonces t au))"
  by (simp_all add: live_nonces_def distinct_map_filter)

interpretation nonce_fence: preserved "verify_step mac env" fence_bounded for mac env
proof
  fix au call au'
  assume inv: "fence_bounded au" and step: "verify_step mac env au call au'"
  let ?live = "live_nonces (fst call) au"
  have less: "rat_of_nat (length ?live) \<le> at_capacity au"
    using inv live_bounded(1) [of "fst call" au] unfolding fence_bounded_def
    by (meson of_nat_le_iff order_trans)
  have room: "rat_of_nat (length ?live) < at_capacity au \<Longrightarrow> 1 + rat_of_nat (length ?live) \<le> at_capacity au"
    using inv below_integer [of "at_capacity au" "length ?live"] by (simp add: fence_bounded_def)
  have "distinct (map fst ?live)" using inv live_bounded(2) unfolding fence_bounded_def by blast
  with inv less room step show "fence_bounded au'"
    by (auto simp: verify_step_def fence_bounded_def verify_request_def Let_def not_le split: sum.splits if_splits)
qed

lemma new_authenticator_bounded: "new_authenticator env keys l s n = Inr au \<Longrightarrow> fence_bounded au \<and> at_nonces au = []"
  by (auto simp: new_authenticator_def Let_def result_simps fence_bounded_def not_less split: if_splits)

theorem nonce_fence_is_bounded:
  assumes "new_authenticator env keys l s n = Inr au" and "steps (verify_step mac env) au reqs au'"
  shows "rat_of_nat (length (at_nonces au')) \<le> at_capacity au' \<and> distinct (map fst (at_nonces au'))"
  using nonce_fence.steps_inv [OF assms(2)] new_authenticator_bounded [OF assms(1)] by (simp add: fence_bounded_def)

text \<open>C14: 
  C0: While the clock does not step back, no control authentication is accepted twice: of two accepted
  calls whose authentications carry the same controller, key and nonce, the later one presents another
  authentication, and it is accepted only after the first one has expired beyond the permitted skew.
\<close>
theorem control_request_accepted_once:
  assumes "sorted (map fst reqs)" and "i < j" and "j < length reqs"
    and "verify_all mac env au reqs ! i = Inr ()" and "verify_all mac env au reqs ! j = Inr ()"
    and "parse_authentication env (snd (snd (reqs ! i))) = Some a"
    and "parse_authentication env (snd (snd (reqs ! j))) = Some b"
    and "au_controller b = au_controller a" and "au_key b = au_key a" and "au_nonce b = au_nonce a"
  shows "snd (snd (reqs ! j)) \<noteq> snd (snd (reqs ! i)) \<and>
    (\<exists>e. parse_time env (au_expires a) = Some e \<and> e < fst (reqs ! j) - at_skew au)"
proof -
  have "replayCoordinate b = replayCoordinate a" using assms(8-10) by (simp add: replayCoordinate_def)
  from accepted_kept [OF assms(1-7) this] obtain e where
    e: "parse_time env (au_expires a) = Some e" "e < fst (reqs ! j) - at_skew au" by blast
  with accepted_in_time [OF assms(3,5,7), of e] assms(6,7) show ?thesis by auto
qed

text \<open>C32: 
  C0: What a signer issues for a request, a verifier configured with its key accepts for that request, at
  any time within the life of the authentication and the skew, if its nonce is fresh and the fence has room.
\<close>
theorem signed_request_is_accepted:
  assumes "documented_parse (safe_parse (recovery env))"
    and "\<And>s v. conforms s v \<Longrightarrow> safe_parse (recovery env) s v = Some v"
    and "\<And>k m. length (mac k m) = 32 \<and> list_all (\<lambda>b. b < 256) (mac k m)"
    and "is_digest (controlRequestDigest env request)"
    and "new_signer env key life = Inr s" and "nonce_text nonce"
    and "iso env (clock env) = Some issued" and "iso env (clock env + cs_lifetime s) = Some expires"
    and "parse_time env issued = Some (clock env)" and "parse_time env expires = Some (clock env + cs_lifetime s)"
    and "is_datetime (formats_of (recovery env)) issued" and "is_datetime (formats_of (recovery env)) expires"
    and "new_authenticator env keys l sk n = Inr au" and "key \<in> set keys" and "cs_lifetime s \<le> at_lifetime au"
    and "clock env - at_skew au \<le> t" and "t \<le> clock env + cs_lifetime s + at_skew au"
    and "keyCoordinate (cs_controller s) (cs_key s) @ CHR 0x00 # nonce \<notin> fst ` set nonces"
    and "rat_of_nat (length nonces) < at_capacity au"
  shows "\<exists>raw. authenticate mac env s nonce request = Inr raw \<and>
    fst (verify_request mac (at_clock env t) (au\<lparr>at_nonces := nonces\<rparr>) request raw) = Inr ()"
proof -
  note signer = new_signer_Inr [OF assms(1,5)]
  let ?digest = "controlRequestDigest env request"
  let ?tag = "mac (cs_secret s) (signingPayload env (authentication_members s issued expires nonce ?digest))"
  let ?a = "issued_authentication s issued expires nonce ?digest ?tag"
  let ?au = "au\<lparr>at_nonces := nonces\<rparr>"
  have fields: "au_controller ?a = cs_controller s" "au_key ?a = cs_key s" "au_issued ?a = issued"
      "au_expires ?a = expires" "au_nonce ?a = nonce" "au_digest ?a = ?digest" "au_signature ?a = encodeSignature ?tag"
    by (simp_all add: issued_authentication_def)
  have parsed: "safe_parse (recovery env) (asfControlAuthenticationSchema (formats_of (recovery env)))
      (JObject (au_members ?a)) = Some (JObject (au_members ?a))"
    using issued_conforms [OF signer(3,4) assms(11,12,6,4)] assms(2,3) by blast
  have "safe_parse (recovery env) (ZString nonce_text) (JString nonce) = Some (JString nonce)"
    using assms(2,6) by simp
  then have made: "authenticate mac env s nonce request = Inr (JObject (au_members ?a))"
    using assms(7,8) parsed by (simp add: authenticate_def to_iso_def issued_authentication_def Let_def)
  have "map_of (at_keys ?au) (keyCoordinate (cs_controller s) (cs_key s)) = Some (cs_secret s)"
    using add_keys_find [OF _ assms(14,1) signer(5)] assms(13) signer(1,2)
    by (auto simp: new_authenticator_def Let_def result_simps split: if_splits)
  moreover have "\<not> time_invalid ?au t (clock env) (clock env + cs_lifetime s)"
    using assms(15-17) signer(6) by (simp add: time_invalid_def)
  moreover have "parse_authentication env (JObject (au_members ?a)) = Some ?a"
    using parsed issued_read by (simp add: parse_authentication_def)
  moreover have "decodeSignature (encodeSignature ?tag) = ?tag" using encoded_signature(1) assms(3) by blast
  ultimately have check: "check_authentication mac (at_clock env t) ?au request (JObject (au_members ?a)) =
      Inr (?a, clock env + cs_lifetime s)"
    using assms(9,10) by (simp add: check_Inr fields issued_unsigned)
  have "rat_of_nat (length (live_nonces t ?au)) < at_capacity ?au"
    using assms(19) order_le_less_trans [OF of_nat_mono [OF live_bounded(1) [of t ?au]]] by simp
  moreover have "replayCoordinate ?a \<notin> fst ` set (live_nonces t ?au)"
    using assms(18) by (auto simp: live_nonces_def replayCoordinate_def keyCoordinate_def fields)
  ultimately have "fst (verify_request mac (at_clock env t) ?au request (JObject (au_members ?a))) = Inr ()"
    using check by (auto simp: verify_Inr)
  with made show ?thesis by blast
qed

text \<open>
  The proviso on the clock is needed: the fence forgets a nonce once it has expired, so a clock that is set
  back afterwards makes it accept the same authentication again.
\<close>

text \<open>Sample input: a signer with lifetime 5 and skew 1, authentications issued at 0 and at 100 with one
  nonce.\<close>

definition control_env :: store_env where
  "control_env = sample_store_env\<lparr>
     recovery := digest_env\<lparr>date_parse := map_of [(''i0'', 0), (''e0'', 5), (''i1'', 100), (''e1'', 105)], now := 0\<rparr>,
     iso := map_of [(0, ''i0''), (5, ''e0''), (100, ''i1''), (105, ''e1'')]\<rparr>"

definition sample_mac :: hmac where "sample_mac k m = replicate 32 0"

definition sample_key :: control_key where
  "sample_key = \<lparr>ck_controller = ''c'', ck_id = ''k'', ck_secret = SecretBytes (replicate 32 7)\<rparr>"

definition sample_control_signer :: control_signer where
  "sample_control_signer = \<lparr>cs_controller = ''c'', cs_key = ''k'', cs_secret = replicate 32 7, cs_lifetime = 5\<rparr>"

definition sample_authenticator :: authenticator where
  "sample_authenticator = \<lparr>at_keys = [(keyCoordinate ''c'' ''k'', replicate 32 7)], at_lifetime = 5000,
     at_skew = 1, at_capacity = 10, at_nonces = []\<rparr>"

definition sample_nonce :: "char \<Rightarrow> string" where "sample_nonce c = ''base64url:'' @ replicate 22 c"

definition sample_authentication :: "char \<Rightarrow> string \<Rightarrow> string \<Rightarrow> control_authentication" where
  "sample_authentication c issued expires =
     issued_authentication sample_control_signer issued expires (sample_nonce c) sample_digest (replicate 32 0)"

definition sample_raw :: "char \<Rightarrow> string \<Rightarrow> string \<Rightarrow> json" where
  "sample_raw c issued expires = JObject (au_members (sample_authentication c issued expires))"

lemma control_env_simps:
  "safe_parse (recovery control_env) = sample_parse" "formats_of (recovery control_env) = sample_formats"
  "controlRequestDigest control_env request = sample_digest" "clock control_env = 0"
  "parse_time control_env s = map_of [(''i0'', 0), (''e0'', 5), (''i1'', 100), (''e1'', 105)] s"
  "iso control_env = map_of [(0, ''i0''), (5, ''e0''), (100, ''i1''), (105, ''e1'')]"
  by (simp_all add: control_env_def controlRequestDigest_def digest_of_def clock_def parse_time_def
      digest_env_def sample_env_def)

lemma sample_nonce_ok: "base64url_char c \<Longrightarrow> nonce_text (sample_nonce c)"
  by (simp add: nonce_text_def sample_nonce_def js_starts_with_iff list_all_iff)

lemma sample_chars [simp]: "base64url_char (CHR ''n'')" "base64url_char (CHR ''m'')"
  by (simp_all add: base64url_char_def lower_alpha_def char_in_def)

lemma sample_parsed:
  assumes "base64url_char c"
  shows "parse_authentication control_env (sample_raw c issued expires) = Some (sample_authentication c issued expires)"
proof -
  have "approval_identifier ''c''" "approval_identifier ''k''"
    by (simp_all add: approval_identifier_def identifier_char_def lower_alpha_def char_in_def)
  then have "conforms (asfControlAuthenticationSchema sample_formats) (sample_raw c issued expires)"
    unfolding sample_raw_def sample_authentication_def using assms
    by (intro issued_conforms)
      (simp_all add: sample_control_signer_def sample_formats_def sample_nonce_ok sample_digest_ok list_all_iff)
  then show ?thesis
    by (simp add: parse_authentication_def control_env_simps sample_parse_def)
      (simp add: sample_raw_def sample_authentication_def issued_read)
qed

lemma sample_fields:
  "au_controller (sample_authentication c i e) = ''c''" "au_key (sample_authentication c i e) = ''k''"
  "au_nonce (sample_authentication c i e) = sample_nonce c" "au_expires (sample_authentication c i e) = e"
  "au_issued (sample_authentication c i e) = i" "au_digest (sample_authentication c i e) = sample_digest"
  "decodeSignature (au_signature (sample_authentication c i e)) = replicate 32 0"
  by (simp_all add: sample_authentication_def issued_authentication_def sample_control_signer_def
      encoded_signature list_all_iff)

definition with_nonces :: "(string \<times> rat) list \<Rightarrow> authenticator" where
  "with_nonces ns = sample_authenticator\<lparr>at_nonces := ns\<rparr>"

lemma sample_step:
  assumes "base64url_char c" and "parse_time control_env i = Some ti" and "parse_time control_env e = Some te"
    and "ti < te" and "te \<le> ti + 5000" and "ti \<le> t + 1" and "t - 1 \<le> te"
  shows "verify_request sample_mac (at_clock control_env t) (with_nonces ns) request (sample_raw c i e) =
    (let live = filter (\<lambda>n. \<not> snd n < t - 1) ns; coordinate = ''c'' @ CHR 0x00 # ''k'' @ CHR 0x00 # sample_nonce c
     in if coordinate \<in> set (map fst live) then (Inl Replay, with_nonces live)
        else if rat_of_nat (length live) \<ge> 10 then (Inl ReplayCapacity, with_nonces live)
        else (Inr (), with_nonces (live @ [(coordinate, te)])))"
proof -
  have "check_authentication sample_mac (at_clock control_env t) (with_nonces ns) request (sample_raw c i e) =
      Inr (sample_authentication c i e, te)"
    using assms by (simp add: check_Inr sample_parsed sample_fields sample_mac_def sample_authenticator_def
        with_nonces_def time_invalid_def control_env_simps)
  then show ?thesis
    by (simp add: verify_request_def live_nonces_def with_nonces_def sample_authenticator_def replayCoordinate_def
        sample_fields Let_def)
qed

lemmas sample_steps_0 = sample_step [where i = "''i0''" and e = "''e0''" and ti = 0 and te = 5]
lemmas sample_steps_1 = sample_step [where i = "''i1''" and e = "''e1''" and ti = 100 and te = 105]

lemma sample_start: "sample_authenticator = with_nonces []"
  by (simp add: with_nonces_def sample_authenticator_def)

definition sample_requests :: "(rat \<times> json \<times> json) list" where
  "sample_requests = [(0, JNull, sample_raw (CHR ''n'') ''i0'' ''e0''), (3, JNull, sample_raw (CHR ''n'') ''i0'' ''e0''),
                (100, JNull, sample_raw (CHR ''n'') ''i1'' ''e1'')]"

lemma sample_verified:
  "verify_all sample_mac control_env sample_authenticator sample_requests = [Inr (), Inl Replay, Inr ()]"
  by (simp add: sample_requests_def sample_start sample_steps_0 sample_steps_1 control_env_simps)

theorem control_request_accepted_once_witness:
  "sample_raw (CHR ''n'') ''i1'' ''e1'' \<noteq> sample_raw (CHR ''n'') ''i0'' ''e0'' \<and> (5 :: rat) < 100 - 1"
proof -
  have "snd (snd (sample_requests ! 2)) \<noteq> snd (snd (sample_requests ! 0)) \<and>
      (\<exists>e. parse_time control_env (au_expires (sample_authentication (CHR ''n'') ''i0'' ''e0'')) = Some e \<and>
         e < fst (sample_requests ! 2) - at_skew sample_authenticator)"
    by (rule control_request_accepted_once
        [where mac = sample_mac and b = "sample_authentication (CHR ''n'') ''i1'' ''e1''"])
      (simp_all add: sample_verified, simp_all add: sample_requests_def sample_parsed sample_fields)
  then show ?thesis by (simp add: sample_requests_def sample_fields control_env_simps sample_authenticator_def)
qed

text \<open>The clock is set back from 100 to 5 after the nonce was forgotten.\<close>

theorem clock_step_back_replays:
  "verify_all sample_mac control_env sample_authenticator
     [(0, JNull, sample_raw (CHR ''n'') ''i0'' ''e0''), (100, JNull, sample_raw (CHR ''m'') ''i1'' ''e1''),
      (5, JNull, sample_raw (CHR ''n'') ''i0'' ''e0'')] = [Inr (), Inr (), Inr ()]"
proof -
  have "sample_nonce (CHR ''n'') \<noteq> sample_nonce (CHR ''m'')" by (simp add: sample_nonce_def)
  then show ?thesis by (simp add: sample_start sample_steps_0 sample_steps_1 control_env_simps)
qed

theorem signed_request_is_accepted_witness:
  "\<exists>raw. authenticate sample_mac control_env sample_control_signer (sample_nonce (CHR ''n'')) JNull = Inr raw \<and>
    fst (verify_request sample_mac (at_clock control_env 4) sample_authenticator JNull raw) = Inr ()"
proof -
  have ids: "parse_identifier control_env ''c'' = Inr ''c''" "parse_identifier control_env ''k'' = Inr ''k''"
    by (simp_all add: parse_identifier_def control_env_simps sample_parse_def approval_identifier_def
        identifier_char_def lower_alpha_def char_in_def)
  have s: "new_signer control_env sample_key (Some 5) = Inr sample_control_signer"
    by (simp add: new_signer_def sample_key_def ids secretBytes_def sample_control_signer_def is_safe_integer_def
        safe_int_def)
  have au: "new_authenticator control_env [sample_key] None (Some 1) (Some 10) = Inr sample_authenticator"
    by (simp add: new_authenticator_def sample_key_def ids secretBytes_def sample_authenticator_def
        is_safe_integer_def safe_int_def)
  have "\<exists>raw. authenticate sample_mac control_env sample_control_signer (sample_nonce (CHR ''n'')) JNull = Inr raw \<and>
    fst (verify_request sample_mac (at_clock control_env 4) (sample_authenticator\<lparr>at_nonces := []\<rparr>) JNull raw) = Inr ()"
    by (rule signed_request_is_accepted [OF _ _ _ _ s sample_nonce_ok [OF sample_chars(1)] _ _ _ _ _ _ au,
            where issued = "''i0''" and expires = "''e0''"])
      (simp_all add: control_env_simps sample_documented sample_parse_def sample_mac_def list_all_iff
        sample_digest_ok sample_formats_def, simp_all add: sample_control_signer_def sample_authenticator_def
        control_env_simps)
  then show ?thesis by (simp add: sample_authenticator_def)
qed

end
