(* ===== verification/Spec2Isabelle.thy ===== *)
theory Spec2Isabelle
  imports Backlog Eligibility Selection Stack Path_Scope Run_Event Checkpoint_Policy Recovery_Plan
    Git_Lease Review Merge_Risk Run_Budget Checks Store_Steps Canonical_Json Circuit_Breakers Stage_Effects Tool_Gateway Evaluation Control_Auth
begin

text \<open>
  Verification library of runmill, an unattended worker that selects issues of a backlog, lets coding
  agents implement them in isolated workspaces, and delivers the reviewed candidates as pull requests
  (\<open>src/src/\<close>, TypeScript).

  Parts of the program and their theories.

  \<^item> \<open>Prelude\<close>: results of code that may throw (\<open>and_then\<close>, \<open>unless\<close>, \<open>all_ok\<close>), the pieces of the
    JavaScript library in use (trim, split, join, stable sort), the locales for comparison functions and
    the locale \<open>preserved\<close> for invariants of step relations.
  \<^item> \<open>Backlog\<close> (\<open>domain/types.ts\<close>, \<open>queue/repository-mapping.ts\<close>): issues, first-match mapping of issues
    to repositories and the static conflict check of the rules.
  \<^item> \<open>Eligibility\<close>, \<open>Selection\<close>, \<open>Stack\<close> (\<open>queue/eligibility.ts\<close>, \<open>queue/ordering.ts\<close>,
    \<open>queue/selector.ts\<close>, \<open>queue/stack.ts\<close>): the claim policy, the comparison chain and the selected
    issue, chains of dependent issues.
  \<^item> \<open>Path_Scope\<close> (\<open>workspace/path-scope.ts\<close>): patterns of a change scope, the memoised matcher and the
    decision on a candidate diff.
  \<^item> \<open>Run_Event\<close> (\<open>asf/run-event.ts\<close>): the phase machine of a run, event contracts and transitions.
  \<^item> \<open>Checkpoint_Policy\<close>, \<open>Recovery_Plan\<close> (\<open>asf/checkpoint-policy.ts\<close>): the policy table, durable
    checkpoints and the plan of a recovery after a crash.
  \<^item> \<open>Git_Lease\<close> (\<open>queue/git-lease.ts\<close>): mutual exclusion by compare-and-swap on git refs.
  \<^item> \<open>Review\<close>, \<open>Merge_Risk\<close> (\<open>review/schema.ts\<close>, \<open>orchestrator/risk-policy.ts\<close>): the cross-check of a
    reviewer's verdict and the risk gate of automatic merge; both use the same risk path rules.
  \<^item> \<open>Run_Budget\<close> (\<open>agent/events.ts\<close>, \<open>orchestrator/run-budget.ts\<close>): usage of provider events and the
    limits of a run.
  \<^item> \<open>Checks\<close> (\<open>pr/adapter.ts\<close>, \<open>pr/reconcile.ts\<close>): required contexts of a pull request.

  \<^item> \<open>State_Store\<close>, \<open>Checkpoint_Store\<close> (\<open>state/store.ts\<close>, \<open>state/migrations.ts\<close>): the tables of the durable
    store as lists of rows, and durable checkpoints with the lineage of their candidates.
  \<^item> \<open>Run_Ownership\<close>, \<open>Event_Store\<close>, \<open>Run_Gates\<close>, \<open>Run_Transition\<close> (\<open>state/store.ts\<close>): admission of work orders,
    claims, heartbeats and releases; transitions and events; the gates of a candidate; the transition of a
    run with all that it depends on, up to the sealed evidence of a terminal phase.
  \<^item> \<open>Delivery_Intents\<close>, \<open>Intent_Log\<close>, \<open>Effect_Ledger\<close>, \<open>Provider_Budget\<close> (\<open>state/store.ts\<close>, \<open>asf/budget.ts\<close>,
    \<open>asf/delivery-runner.ts\<close>): the write-ahead log of effects, GitHub effects, and the reservations of
    provider invocations with the conversion of costs.
  \<^item> \<open>Approval\<close>, \<open>Run_Cancellation\<close>, \<open>Reconciliation\<close> (\<open>asf/approval.ts\<close>, \<open>asf/cancellation.ts\<close>,
    \<open>asf/reconciliation.ts\<close>, \<open>state/store.ts\<close>): signed approvals, cancellation and operator reconciliation, each
    with the transaction that records it and moves the run.
  \<^item> \<open>Lifecycle_Spec\<close>, \<open>Store_Steps\<close>, \<open>Stage_Effects\<close>: the specification of the life of a run, all transactions of
    the store as one step relation that refines it, and how often the authority to apply an effect is
    handed out.
  \<^item> \<open>Canonical_Json\<close> (\<open>asf/canonical-json.ts\<close>): the canonical text of a value of the JavaScript heap.
  \<^item> \<open>Circuit_Breakers\<close> (\<open>orchestrator/daemon.ts\<close>, \<open>state/store.ts\<close>): the durable breaker table, the breakers in
    memory and the loop of the daemon.
  \<^item> \<open>Output_Text\<close>, \<open>Task_Packet\<close>, \<open>Tool_Gateway\<close> (\<open>agent/tool-gateway.ts\<close>, \<open>agent/task-packet.ts\<close>,
    \<open>queue/readiness.ts\<close>): redaction and truncation of output, the contract of an agent and the readiness
    of an issue, and the gateway through which an agent uses tools.
  \<^item> \<open>Evaluation\<close> (\<open>eval/suite.ts\<close>, \<open>eval/score.ts\<close>): suites of evaluation tasks and their scores.

  How they interact. The backlog is ordered and classified by \<open>Selection\<close> with the policy of
  \<open>Eligibility\<close>, which resolves repositories by \<open>Backlog\<close>; a selected issue is claimed with
  \<open>Git_Lease\<close>; a run advances through \<open>Run_Event\<close>, its candidate is held to \<open>Path_Scope\<close>, its
  reviews pass \<open>Review\<close>, its provider calls \<open>Run_Budget\<close>, its merge \<open>Checks\<close> and \<open>Merge_Risk\<close>; after a
  crash the run is resumed by a plan of \<open>Recovery_Plan\<close>. A run of a signed work order lives in the durable
  store: workers claim it in \<open>Run_Ownership\<close>, every change of its phase is a transaction of \<open>Run_Transition\<close>,
  \<open>Approval\<close>, \<open>Run_Cancellation\<close> or \<open>Reconciliation\<close>, every external effect is recorded ahead in \<open>Intent_Log\<close> or
  \<open>Effect_Ledger\<close> and paid for in \<open>Provider_Budget\<close>. \<open>Store_Steps\<close> has them all as one step relation; its
  theorems are about any interleaving of any workers. The daemon loop of \<open>Circuit_Breakers\<close> starts runs;
  agents reach the repository through \<open>Tool_Gateway\<close>, which holds them to \<open>Path_Scope\<close> and \<open>Task_Packet\<close>.

  What the groups of lemmas show. Each component theory proves the exact condition of its decisions and the
  shape of its state after every operation, errors included; the store theories prove for each transaction
  which tables it changes and under which fence (the \<open>_shape\<close> lemmas). \<open>Store_Steps\<close> lifts these to
  sequences: refinement of the life cycle, replayable history, finality of terminal phases and of a lost
  fence. \<open>Provider_Budget\<close> refines an abstract ledger of money, \<open>Circuit_Breakers\<close> an abstract list of outcomes,
  \<open>Stage_Effects\<close> counts authorities.

  Conventions. Definitions keep the names of the source. A thrown error is the left side of a sum;
  texts of errors and reasons are constructors that carry the interpolated values. Strings are lists
  of code units below 256, except where the code counts bytes or code points (\<open>Canonical_Json\<close>, \<open>Output_Text\<close>),
  which use 16-bit words. Finite numbers are rationals, so rounding of binary floating point is not
  modelled. Regular expressions are written out as atoms and a matcher, or as data that is matched in the
  order of backtracking. All loops are structural or have a measure; there is no fuel. A transaction of the
  store is a function from the store to an error or a new store; it reads the clock once, and the SQL
  statements it runs are written as list operations with the constraints of their tables. JSON columns whose
  text is parsed again are kept as text with the parser as a parameter, those of the breaker table by value.

  Parameters. Code that is not in the repository is an argument: the schema validator (with the
  hypothesis \<open>documented_parse\<close>), digests, \<open>Date.parse\<close>, the clock, git and its server
  (\<open>git_documented\<close>), \<open>localeCompare\<close> (\<open>collation\<close>), the backlog provider; for the store also \<open>JSON.parse\<close>,
  \<open>toISOString\<close>, the texts of numbers, the verification of signatures, and the two readings of sealed plans
  and terminal evidence (\<open>terminal_access\<close>); for the gateway the sandbox, the fence and the registered
  commands. Every property with such a hypothesis has a witness that instantiates it.

  Not modelled: child processes, HTTP and file-system access, configuration loading, the command line and
  rendering, the agents' protocols, the broker of identities, the assembly and verification of evidence
  bundles, retention of events, and the service layers that only pass values between them. Of the delivery
  runner only the mode of an intent is modelled: its stages drive external tools, and what keeps them safe
  is in the transactions of the store.
\<close>

end
